(* ===== verification/Prelude.thy ===== *)
theory Prelude
  imports Main "HOL-Library.Word" "HOL-Library.List_Lexorder" "HOL-Library.Char_ord"
begin

text \<open>
  What every component shares: the machine types of the Rust code, the state-and-error
  shape of a fallible operation (Rust's \<open>Result\<close> with the \<open>?\<close> operator over a mutable
  store), big-endian byte keys, UTF-8 views of Rust strings, and the automation collections.

  A Rust \<open>String\<close> is a \<open>string\<close> whose characters are its UTF-8 bytes; \<open>as_bytes\<close> and
  \<open>into_bytes\<close> are \<open>utf8_bytes\<close>. A \<open>u64\<close> or \<open>i64\<close> is a \<open>64 word\<close>, read with \<open>unat\<close> or
  \<open>sint\<close>. Arithmetic that the code leaves unchecked wraps, as it does in the release
  profiles of the workspace (\<open>Cargo.toml\<close>: the stage profiles inherit \<open>release\<close>).
\<close>

named_theorems does_intro \<open>effects of storage operations on the tree contents\<close>
named_theorems model_defs \<open>unfolding equations of small model definitions\<close>

type_synonym u8 = "8 word"
type_synonym u32 = "32 word"
type_synonym u64 = "64 word"
type_synonym i64 = "64 word"
type_synonym bytes = "8 word list"
type_synonym uuid = "128 word"

subsection \<open>Fallible operations on a mutable store\<close>

text \<open>The errors an operation of the storage layer can return through \<open>anyhow\<close>.\<close>

datatype store_error =
    SledError string
  | JsonError string
  | TicketNotFound u64
  | UserNotFound string
  | SeqCounterMissing
  | SeqCounterCorrupt
  | InvalidKeyLength

text \<open>
  An operation takes the store and returns its result together with the store it leaves,
  also when it fails: writes done before the failing step stay.
\<close>

type_synonym ('d, 'e, 'a) eff = "'d \<Rightarrow> ('e + 'a) \<times> 'd"
type_synonym ('d, 'a) act = "('d, store_error, 'a) eff"

definition ret :: "'a \<Rightarrow> ('d, 'e, 'a) eff" where
  "ret x = (\<lambda>d. (Inr x, d))"

definition throw :: "'e \<Rightarrow> ('d, 'e, 'a) eff" where
  "throw e = (\<lambda>d. (Inl e, d))"

definition bindA :: "('d, 'e, 'a) eff \<Rightarrow> ('a \<Rightarrow> ('d, 'e, 'b) eff) \<Rightarrow> ('d, 'e, 'b) eff" where
  "bindA m f = (\<lambda>d. case m d of (Inl e, d') \<Rightarrow> (Inl e, d') | (Inr x, d') \<Rightarrow> f x d')"

definition thenA :: "('d, 'e, 'a) eff \<Rightarrow> ('d, 'e, 'b) eff \<Rightarrow> ('d, 'e, 'b) eff" where
  "thenA m k = bindA m (\<lambda>_. k)"

text \<open>A read leaves the store as it is.\<close>

definition readA :: "('d \<Rightarrow> 'e + 'a) \<Rightarrow> ('d, 'e, 'a) eff" where
  "readA g = (\<lambda>d. (g d, d))"

text \<open>\<open>v?\<close> on a pure \<open>Result\<close>.\<close>

definition lift_res :: "'e + 'a \<Rightarrow> ('d, 'e, 'a) eff" where
  "lift_res r = (\<lambda>d. (r, d))"

text \<open>\<open>m.map_err(f)?\<close>\<close>

definition map_err :: "('e \<Rightarrow> 'f) \<Rightarrow> ('d, 'e, 'a) eff \<Rightarrow> ('d, 'f, 'a) eff" where
  "map_err f m = (\<lambda>d. case m d of (Inl e, d') \<Rightarrow> (Inl (f e), d') | (Inr x, d') \<Rightarrow> (Inr x, d'))"

definition map_errR :: "('e \<Rightarrow> 'f) \<Rightarrow> 'e + 'a \<Rightarrow> 'f + 'a" where
  "map_errR f r = (case r of Inl e \<Rightarrow> Inl (f e) | Inr x \<Rightarrow> Inr x)"

lemma map_errR_simps [simp]: "map_errR f (Inl e) = Inl (f e)" "map_errR f (Inr x) = Inr x"
  by (simp_all add: map_errR_def)

text \<open>\<open>for x in xs { f(x)?; }\<close>\<close>

fun for_each :: "('x \<Rightarrow> ('d, 'e, unit) eff) \<Rightarrow> 'x list \<Rightarrow> ('d, 'e, unit) eff" where
  "for_each f [] = ret ()"
| "for_each f (x # xs) = thenA (f x) (for_each f xs)"

text \<open>Collecting an iterator of results into a result of a list: the first error wins.\<close>

fun collect_res :: "('e + 'a) list \<Rightarrow> 'e + 'a list" where
  "collect_res [] = Inr []"
| "collect_res (Inl e # rs) = Inl e"
| "collect_res (Inr x # rs) =
     (case collect_res rs of Inl e \<Rightarrow> Inl e | Inr xs \<Rightarrow> Inr (x # xs))"

lemma collect_res_Inr [simp]: "collect_res (map Inr xs) = Inr xs"
  by (induction xs) auto

definition mapR :: "('a \<Rightarrow> 'b) \<Rightarrow> 'e + 'a \<Rightarrow> 'e + 'b" where
  "mapR f r = (case r of Inl e \<Rightarrow> Inl e | Inr x \<Rightarrow> Inr (f x))"

lemma mapR_simps [simp]: "mapR f (Inl e) = Inl e" "mapR f (Inr x) = Inr (f x)"
  by (simp_all add: mapR_def)

lemmas act_defs = ret_def throw_def bindA_def thenA_def readA_def lift_res_def

lemma bindA_lift [simp]:
  "bindA (lift_res (Inr x)) f = f x" "bindA (lift_res (Inl e)) f = throw e"
  "bindA (ret x) f = f x" "bindA (throw e) f = throw e"
  "thenA (ret x) k = k" "thenA (throw e) k = throw e"
  by (simp_all add: act_defs)

lemma map_err_lift [simp]:
  "map_err f (lift_res (Inr x)) = lift_res (Inr x)" "map_err f (lift_res (Inl e)) = lift_res (Inl (f e))"
  by (simp_all add: map_err_def lift_res_def)

lemma thenA_ret_unit [simp]: "thenA m (ret ()) = m"
  by (simp add: act_defs fun_eq_iff split: prod.split sum.split)

subsection \<open>Big-endian byte keys\<close>

text \<open>
  \<open>be_nat n x\<close> writes \<open>x\<close> on \<open>n\<close> bytes, most significant first; \<open>u64::to_be_bytes\<close> is its
  8-byte instance and \<open>u64::from_be_bytes\<close> after \<open>try_into\<close> its partial inverse.
\<close>

fun be_nat :: "nat \<Rightarrow> nat \<Rightarrow> bytes" where
  "be_nat 0 x = []"
| "be_nat (Suc n) x = of_nat (x div 256 ^ n) # be_nat n (x mod 256 ^ n)"

fun nat_be :: "bytes \<Rightarrow> nat" where
  "nat_be [] = 0"
| "nat_be (b # bs) = unat b * 256 ^ length bs + nat_be bs"

definition to_be_bytes :: "64 word \<Rightarrow> bytes" where
  "to_be_bytes x = be_nat 8 (unat x)"

definition from_be_bytes :: "bytes \<Rightarrow> 64 word option" where
  "from_be_bytes bs = (if length bs = 8 then Some (of_nat (nat_be bs)) else None)"

lemma length_be_nat [simp]: "length (be_nat n x) = n"
  by (induction n arbitrary: x) auto

lemma length_to_be_bytes [simp]: "length (to_be_bytes x) = 8"
  by (simp add: to_be_bytes_def)

lemma unat_of_nat_u8: "unat (of_nat n :: u8) = n mod 256"
  by (simp add: unat_of_nat)

lemma nat_be_be_nat: "x < 256 ^ n \<Longrightarrow> nat_be (be_nat n x) = x"
proof (induction n arbitrary: x)
  case 0
  then show ?case by simp
next
  case (Suc n)
  have "x div 256 ^ n < 256"
    using Suc.prems by (simp add: less_mult_imp_div_less mult.commute)
  then have hd_eq: "unat (of_nat (x div 256 ^ n) :: u8) = x div 256 ^ n"
    by (simp add: unat_of_nat_u8)
  have tl_eq: "nat_be (be_nat n (x mod 256 ^ n)) = x mod 256 ^ n"
    by (rule Suc.IH) simp
  show ?case by (simp only: be_nat.simps nat_be.simps hd_eq tl_eq length_be_nat div_mult_mod_eq)
qed

lemma from_to_be_bytes [simp]: "from_be_bytes (to_be_bytes x) = Some x"
proof -
  have "unat x < 256 ^ 8" using unsigned_less [of x, where ?'a = nat] by simp
  then have "nat_be (be_nat 8 (unat x)) = unat x" by (rule nat_be_be_nat)
  then show ?thesis by (simp add: from_be_bytes_def to_be_bytes_def)
qed

lemma to_be_bytes_inject [simp]: "to_be_bytes x = to_be_bytes y \<longleftrightarrow> x = y"
  by (metis from_to_be_bytes option.inject)

lemma less_by_div_mod:
  fixes q :: nat
  assumes "0 < q"
  shows "x < y \<longleftrightarrow> x div q < y div q \<or> x div q = y div q \<and> x mod q < y mod q"
proof (cases "x div q" "y div q" rule: linorder_cases)
  case less
  then show ?thesis by (metis div_le_mono leD leI)
next
  case equal
  have "x = x div q * q + x mod q" "y = y div q * q + y mod q" by simp_all
  with equal show ?thesis by (metis nat_add_left_cancel_less nat_less_le)
next
  case greater
  then show ?thesis by (metis div_le_mono leD less_imp_le_nat)
qed

lemma be_nat_less:
  "x < 256 ^ n \<Longrightarrow> y < 256 ^ n \<Longrightarrow> be_nat n x < be_nat n y \<longleftrightarrow> x < y"
proof (induction n arbitrary: x y)
  case 0
  then show ?case by simp
next
  case (Suc n)
  let ?q = "256 ^ n :: nat"
  have dx: "x div ?q < 256" and dy: "y div ?q < 256"
    using Suc.prems by (simp_all add: less_mult_imp_div_less mult.commute)
  have lt: "(of_nat (x div ?q) :: u8) < of_nat (y div ?q) \<longleftrightarrow> x div ?q < y div ?q"
    using dx dy by (simp add: word_less_nat_alt unat_of_nat_u8)
  have eq: "(of_nat (x div ?q) :: u8) = of_nat (y div ?q) \<longleftrightarrow> x div ?q = y div ?q"
    using dx dy by (auto simp: word_unat_eq_iff unat_of_nat_u8)
  have IH: "be_nat n (x mod ?q) < be_nat n (y mod ?q) \<longleftrightarrow> x mod ?q < y mod ?q"
    by (rule Suc.IH) simp_all
  have "x < y \<longleftrightarrow> x div ?q < y div ?q \<or> x div ?q = y div ?q \<and> x mod ?q < y mod ?q"
    by (rule less_by_div_mod) simp
  then show ?case by (simp add: lt eq IH del: of_nat_div)
qed

text \<open>The byte order of the keys is the numeric order: range scans are index ranges.\<close>

lemma to_be_bytes_less [simp]: "to_be_bytes x < to_be_bytes y \<longleftrightarrow> x < y"
proof -
  have "unat x < 256 ^ 8" "unat y < 256 ^ 8" using unsigned_less [of x, where ?'a = nat] unsigned_less [of y, where ?'a = nat] by simp_all
  then show ?thesis by (simp only: to_be_bytes_def be_nat_less word_less_nat_alt)
qed

lemma to_be_bytes_le [simp]: "to_be_bytes x \<le> to_be_bytes y \<longleftrightarrow> x \<le> y"
  by (meson leD leI to_be_bytes_less)

subsection \<open>Strings and their UTF-8 bytes\<close>

definition utf8_bytes :: "string \<Rightarrow> bytes" where
  "utf8_bytes s = map (\<lambda>c. of_nat (of_char c)) s"

definition of_utf8_bytes :: "bytes \<Rightarrow> string" where
  "of_utf8_bytes bs = map (\<lambda>b. char_of (unat b)) bs"

lemma of_utf8_bytes_inverse [simp]: "of_utf8_bytes (utf8_bytes s) = s"
proof -
  have "char_of (unat (of_nat (of_char c) :: u8)) = c" for c :: char
    by (simp add: unat_of_nat_u8)
  then show ?thesis by (induction s) (simp_all add: of_utf8_bytes_def utf8_bytes_def)
qed

lemma utf8_bytes_inject [simp]: "utf8_bytes s = utf8_bytes t \<longleftrightarrow> s = t"
  by (metis of_utf8_bytes_inverse)

text \<open>
  \<open>String::from_utf8_lossy\<close>: the bytes are cut into the longest valid prefixes of code
  points; a well-formed code point is kept, an ill-formed prefix becomes U+FFFD.
  \<open>utf8_chunk\<close> returns the length of the first chunk and whether it is well formed.
\<close>

definition utf8_width :: "u8 \<Rightarrow> nat" where
  "utf8_width b = (if b < 0x80 then 1 else if 0xC2 \<le> b \<and> b \<le> 0xDF then 2
     else if 0xE0 \<le> b \<and> b \<le> 0xEF then 3 else if 0xF0 \<le> b \<and> b \<le> 0xF4 then 4 else 0)"

definition utf8_cont :: "u8 \<Rightarrow> bool" where
  "utf8_cont b \<longleftrightarrow> 0x80 \<le> b \<and> b \<le> 0xBF"

definition utf8_second :: "u8 \<Rightarrow> u8 \<Rightarrow> bool" where
  "utf8_second b0 b1 \<longleftrightarrow>
     (if b0 = 0xE0 then 0xA0 \<le> b1 \<and> b1 \<le> 0xBF
      else if b0 = 0xED then 0x80 \<le> b1 \<and> b1 \<le> 0x9F
      else if b0 = 0xF0 then 0x90 \<le> b1 \<and> b1 \<le> 0xBF
      else if b0 = 0xF4 then 0x80 \<le> b1 \<and> b1 \<le> 0x8F
      else utf8_cont b1)"

fun utf8_chunk :: "bytes \<Rightarrow> nat \<times> bool" where
  "utf8_chunk [] = (0, True)"
| "utf8_chunk (b0 # bs) =
     (let w = utf8_width b0 in
      if w = 0 then (1, False)
      else if w = 1 then (1, True)
      else case bs of [] \<Rightarrow> (1, False)
        | b1 # bs1 \<Rightarrow>
          if \<not> utf8_second b0 b1 then (1, False)
          else if w = 2 then (2, True)
          else case bs1 of [] \<Rightarrow> (2, False)
            | b2 # bs2 \<Rightarrow>
              if \<not> utf8_cont b2 then (2, False)
              else if w = 3 then (3, True)
              else case bs2 of [] \<Rightarrow> (3, False)
                | b3 # _ \<Rightarrow> if utf8_cont b3 then (4, True) else (3, False))"

lemma utf8_chunk_pos: "0 < fst (utf8_chunk (b # bs))"
  by (simp add: Let_def split: list.split)

function (sequential) from_utf8_lossy :: "bytes \<Rightarrow> string" where
  "from_utf8_lossy [] = []"
| "from_utf8_lossy (b # bs) =
     (let (n, ok) = utf8_chunk (b # bs)
      in (if ok then of_utf8_bytes (take n (b # bs)) else of_utf8_bytes [0xEF, 0xBF, 0xBD])
         @ from_utf8_lossy (drop n (b # bs)))"
  by pat_completeness auto
termination
proof (relation "measure length")
  show "wf (measure (length :: bytes \<Rightarrow> nat))" by simp
next
  fix b :: u8 and bs p n ok
  assume "p = utf8_chunk (b # bs)" and "(n, ok) = p"
  then have "0 < n" using utf8_chunk_pos [of b bs] by (metis fst_conv)
  then show "(drop n (b # bs), b # bs) \<in> measure length" by simp
qed

declare from_utf8_lossy.simps [simp del]

text \<open>Well-formed UTF-8, the type invariant of a Rust \<open>String\<close>.\<close>

function (sequential) utf8_ok :: "bytes \<Rightarrow> bool" where
  "utf8_ok [] = True"
| "utf8_ok (b # bs) =
     (let (n, ok) = utf8_chunk (b # bs) in if ok then utf8_ok (drop n (b # bs)) else False)"
  by pat_completeness auto
termination
proof (relation "measure length")
  show "wf (measure (length :: bytes \<Rightarrow> nat))" by simp
next
  fix b :: u8 and bs p n ok
  assume "p = utf8_chunk (b # bs)" and "(n, ok) = p" and "ok"
  then have "0 < n" using utf8_chunk_pos [of b bs] by (metis fst_conv)
  then show "(drop n (b # bs), b # bs) \<in> measure length" by simp
qed

declare utf8_ok.simps [simp del]

lemma from_utf8_lossy_ok: "utf8_ok bs \<Longrightarrow> from_utf8_lossy bs = of_utf8_bytes bs"
proof (induction bs rule: utf8_ok.induct)
  case 1
  then show ?case by (simp add: from_utf8_lossy.simps of_utf8_bytes_def)
next
  case (2 b bs)
  obtain n ok where c: "utf8_chunk (b # bs) = (n, ok)" by force
  with "2.prems" have ok: "ok" and rest: "utf8_ok (drop n (b # bs))"
    by (simp_all add: utf8_ok.simps split: if_splits)
  from "2.IH" [OF c [symmetric] refl ok rest]
  have IH: "from_utf8_lossy (drop n (b # bs)) = of_utf8_bytes (drop n (b # bs))" .
  have "from_utf8_lossy (b # bs) = of_utf8_bytes (take n (b # bs)) @ of_utf8_bytes (drop n (b # bs))"
    using c ok IH by (simp add: from_utf8_lossy.simps)
  then show ?case by (metis append_take_drop_id map_append of_utf8_bytes_def)
qed

definition utf8_string :: "string \<Rightarrow> bool" where
  "utf8_string s \<longleftrightarrow> utf8_ok (utf8_bytes s)"

lemma from_utf8_lossy_bytes [simp]: "utf8_string s \<Longrightarrow> from_utf8_lossy (utf8_bytes s) = s"
  by (simp add: utf8_string_def from_utf8_lossy_ok)

subsection \<open>Decimal text and case mapping\<close>

text \<open>\<open>Display\<close> of an unsigned integer.\<close>

fun show_nat :: "nat \<Rightarrow> string" where
  "show_nat n = (if n < 10 then [char_of (48 + n)] else show_nat (n div 10) @ [char_of (48 + n mod 10)])"

declare show_nat.simps [simp del]

definition char_in :: "char \<Rightarrow> char \<Rightarrow> char \<Rightarrow> bool" where
  "char_in lo hi c \<longleftrightarrow> lo \<le> c \<and> c \<le> hi"

definition is_ascii_hexdigit :: "char \<Rightarrow> bool" where
  "is_ascii_hexdigit c \<longleftrightarrow>
     char_in CHR ''0'' CHR ''9'' c \<or> char_in CHR ''a'' CHR ''f'' c \<or> char_in CHR ''A'' CHR ''F'' c"

definition ascii_upper :: "char \<Rightarrow> char" where
  "ascii_upper c = (if char_in CHR ''a'' CHR ''z'' c then char_of (of_char c - 32 :: nat) else c)"

text \<open>\<open>str::split(sep)\<close> for a one-byte separator: always at least one piece.\<close>

fun split_on :: "char \<Rightarrow> string \<Rightarrow> string list" where
  "split_on sep [] = [[]]"
| "split_on sep (c # cs) =
     (if c = sep then [] # split_on sep cs
      else case split_on sep cs of [] \<Rightarrow> [[c]] | p # ps \<Rightarrow> (c # p) # ps)"

text \<open>\<open>[T]::join(sep)\<close>.\<close>

fun join_with :: "string \<Rightarrow> string list \<Rightarrow> string" where
  "join_with sep [] = []"
| "join_with sep [x] = x"
| "join_with sep (x # y # xs) = x @ sep @ join_with sep (y # xs)"

lemma split_on_nonempty [simp]: "split_on sep cs \<noteq> []"
  by (induction cs) (auto split: list.splits)

lemma join_with_Cons: "xs \<noteq> [] \<Longrightarrow> join_with sep (x # xs) = x @ sep @ join_with sep xs"
  by (cases xs) auto

lemma join_split_on: "join_with [sep] (split_on sep cs) = cs"
proof (induction cs)
  case Nil
  then show ?case by simp
next
  case (Cons c cs)
  show ?case
  proof (cases "c = sep")
    case True
    then show ?thesis using Cons.IH by (simp add: join_with_Cons)
  next
    case False
    obtain p ps where ps: "split_on sep cs = p # ps" by (cases "split_on sep cs") auto
    then have "join_with [sep] ((c # p) # ps) = c # join_with [sep] (p # ps)" by (cases ps) auto
    with ps False Cons.IH show ?thesis by simp
  qed
qed

lemma split_on_no_sep: "p \<in> set (split_on sep cs) \<Longrightarrow> sep \<notin> set p"
  by (induction cs arbitrary: p) (auto split: if_splits list.splits)

definition is_some :: "'a option \<Rightarrow> bool" where
  "is_some x = (x \<noteq> None)"

lemma is_some_simps [simp]: "is_some (Some x)" "\<not> is_some None"
  by (simp_all add: is_some_def)

end
