(* ===== verification/Sled_Api.thy ===== *)
theory Sled_Api
  imports Prelude "HOL-Library.RBT"
begin

text \<open>
  The embedded store both services are built on is the third-party crate \<open>sled\<close>; its code is
  not in the repository. The operations the code calls are the fields of the record \<open>sled\<close>,
  an argument of every definition that uses them, and what the code relies on is the
  hypothesis \<open>sled_ok\<close>: the documented behaviour of sled (named trees, each an ordered map
  from byte strings to byte strings; scans in key order; atomic batches) on a disk whose
  input and output succeed. Without \<open>sled_ok\<close> every call may fail, and the definitions of the
  other theories say what the code does then. \<open>mem_sled\<close>, an in-memory store over red-black
  trees, satisfies \<open>sled_ok\<close> and serves the witnesses.

  A \<open>sled::Tree\<close> is a handle to the tree of its name, so it is represented by that name.
\<close>

type_synonym world = "string \<Rightarrow> bytes \<rightharpoonup> bytes"

record 'd sled =
  sl_open :: "string \<Rightarrow> ('d, unit) act"
  sl_names :: "'d \<Rightarrow> bytes list"
  sl_insert :: "string \<Rightarrow> bytes \<Rightarrow> bytes \<Rightarrow> ('d, unit) act"
  sl_remove :: "string \<Rightarrow> bytes \<Rightarrow> ('d, unit) act"
  sl_flush :: "string \<Rightarrow> ('d, unit) act"
  sl_batch :: "string \<Rightarrow> (bytes \<times> bytes option) list \<Rightarrow> ('d, unit) act"
  sl_update :: "string \<Rightarrow> bytes \<Rightarrow> (bytes option \<Rightarrow> bytes option) \<Rightarrow> ('d, bytes option) act"
  sl_get :: "string \<Rightarrow> bytes \<Rightarrow> 'd \<Rightarrow> store_error + bytes option"
  sl_contains :: "string \<Rightarrow> bytes \<Rightarrow> 'd \<Rightarrow> store_error + bool"
  sl_iter :: "string \<Rightarrow> 'd \<Rightarrow> (store_error + bytes \<times> bytes) list"
  sl_prefix :: "string \<Rightarrow> bytes \<Rightarrow> 'd \<Rightarrow> (store_error + bytes \<times> bytes) list"
  sl_from :: "string \<Rightarrow> bytes \<Rightarrow> 'd \<Rightarrow> (store_error + bytes \<times> bytes) list"
  sl_upto :: "string \<Rightarrow> bytes \<Rightarrow> 'd \<Rightarrow> (store_error + bytes \<times> bytes) list"

text \<open>The contents of a store: per tree name, the map its lookups return.\<close>

definition view :: "('d, 'z) sled_scheme \<Rightarrow> 'd \<Rightarrow> world" where
  "view E d c k = (case sl_get E c k d of Inr v \<Rightarrow> v | Inl _ \<Rightarrow> None)"

definition wput :: "world \<Rightarrow> string \<Rightarrow> bytes \<Rightarrow> bytes \<Rightarrow> world" where
  "wput W c k v = W(c := (W c)(k \<mapsto> v))"

definition wdel :: "world \<Rightarrow> string \<Rightarrow> bytes \<Rightarrow> world" where
  "wdel W c k = W(c := (W c)(k := None))"

lemma wput_apply: "wput W c k v c' k' = (if c' = c \<and> k' = k then Some v else W c' k')"
  by (simp add: wput_def)

lemma wdel_apply: "wdel W c k c' k' = (if c' = c \<and> k' = k then None else W c' k')"
  by (simp add: wdel_def)

lemma wput_same [simp]: "wput W c k v c = (W c)(k \<mapsto> v)"
  by (simp add: wput_def)

lemma wdel_same [simp]: "wdel W c k c = (W c)(k := None)"
  by (simp add: wdel_def)

lemma wput_other [simp]: "c' \<noteq> c \<Longrightarrow> wput W c k v c' = W c'"
  by (simp add: wput_def)

lemma wdel_other [simp]: "c' \<noteq> c \<Longrightarrow> wdel W c k c' = W c'"
  by (simp add: wdel_def)

text \<open>A batch: the writes and removals in order, the last one per key deciding.\<close>

definition batch_step :: "bytes \<times> bytes option \<Rightarrow> (bytes \<rightharpoonup> bytes) \<Rightarrow> (bytes \<rightharpoonup> bytes)" where
  "batch_step p m = m(fst p := snd p)"

lemma batch_step_simps [simp]:
  "batch_step (k, Some v) m = m(k \<mapsto> v)" "batch_step (k, None) m = m(k := None)"
  by (simp_all add: batch_step_def)

definition wbatch :: "world \<Rightarrow> string \<Rightarrow> (bytes \<times> bytes option) list \<Rightarrow> world" where
  "wbatch W c ops = W(c := fold batch_step ops (W c))"

fun is_prefix :: "bytes \<Rightarrow> bytes \<Rightarrow> bool" where
  "is_prefix [] k = True"
| "is_prefix (p # ps) [] = False"
| "is_prefix (p # ps) (k # ks) = (p = k \<and> is_prefix ps ks)"

lemma is_prefix_iff: "is_prefix p k \<longleftrightarrow> (\<exists>s. k = p @ s)"
  by (induction p k rule: is_prefix.induct) auto

subsection \<open>Effects of operations on the contents\<close>

text \<open>
  \<open>does V m W r W'\<close>: from any store with contents \<open>W\<close>, the operation \<open>m\<close> returns \<open>r\<close> and leaves
  a store with contents \<open>W'\<close>. It composes along the \<open>?\<close> operator and the loops.
\<close>

definition does :: "('d \<Rightarrow> 'w) \<Rightarrow> ('d, 'e, 'a) eff \<Rightarrow> 'w \<Rightarrow> 'e + 'a \<Rightarrow> 'w \<Rightarrow> bool" where
  "does V m W r W' \<longleftrightarrow> (\<forall>d. V d = W \<longrightarrow> fst (m d) = r \<and> V (snd (m d)) = W')"

lemma doesD: "does V m (V d) r W' \<Longrightarrow> fst (m d) = r \<and> V (snd (m d)) = W'"
  by (simp add: does_def)

lemma does_runE:
  assumes "does V m (V d) r W'"
  obtains d' where "m d = (r, d')" and "V d' = W'"
  using doesD [OF assms] by (metis prod.collapse)

lemma does_ret [does_intro]: "does V (ret x) W (Inr x) W"
  by (simp add: does_def ret_def)

lemma does_throw [does_intro]: "does V (throw e) W (Inl e) W"
  by (simp add: does_def throw_def)

lemma does_lift [does_intro]: "does V (lift_res r) W r W"
  by (simp add: does_def lift_res_def)

lemma does_bind:
  assumes "does V m W (Inr x) W1" and "does V (f x) W1 r W2"
  shows "does V (bindA m f) W r W2"
  using assms by (auto simp: does_def bindA_def split: prod.split sum.split)

lemma does_bind_err:
  assumes "does V m W (Inl e) W1"
  shows "does V (bindA m f) W (Inl e) W1"
  using assms by (auto simp: does_def bindA_def split: prod.split sum.split)

lemma does_then:
  assumes "does V m W (Inr x) W1" and "does V k W1 r W2"
  shows "does V (thenA m k) W r W2"
  using assms unfolding thenA_def by (rule does_bind)

lemma does_read:
  assumes "\<And>d. V d = W \<Longrightarrow> g d = r"
  shows "does V (readA g) W r W"
  using assms by (simp add: does_def readA_def)

lemma does_for_each:
  assumes "\<And>x W. x \<in> set xs \<Longrightarrow> does V (f x) W (Inr ()) (g x W)"
  shows "does V (for_each f xs) W (Inr ()) (fold g xs W)"
  using assms
proof (induction xs arbitrary: W)
  case Nil
  then show ?case by (simp add: does_ret)
next
  case (Cons x xs)
  have "does V (f x) W (Inr ()) (g x W)" by (simp add: Cons.prems)
  moreover have "does V (for_each f xs) (g x W) (Inr ()) (fold g xs (g x W))"
    by (rule Cons.IH) (simp add: Cons.prems)
  ultimately show ?case by (simp add: does_then)
qed

lemma does_map_err: "does V m W r W' \<Longrightarrow> does V (map_err f m) W (map_errR f r) W'"
  by (auto simp: does_def map_err_def map_errR_def split: prod.split sum.split)

lemma does_map_err_ok: "does V m W (Inr x) W' \<Longrightarrow> does V (map_err f m) W (Inr x) W'"
  using does_map_err [of V m W "Inr x"] by simp

lemma does_unique:
  "does V m W r W' \<Longrightarrow> does V m W r2 W2 \<Longrightarrow> V d = W \<Longrightarrow> r = r2 \<and> W' = W2"
  by (auto simp: does_def)

subsection \<open>The behaviour the code relies on\<close>

text \<open>The entries of a tree in scan order.\<close>

definition scan_of :: "(bytes \<rightharpoonup> bytes) \<Rightarrow> (bytes \<times> bytes) list \<Rightarrow> bool" where
  "scan_of m xs \<longleftrightarrow> sorted_wrt (<) (map fst xs) \<and> map_of xs = m"

definition scans_ok :: "('d, 'z) sled_scheme \<Rightarrow> bool" where
  "scans_ok E \<longleftrightarrow> (\<forall>c d. \<exists>xs. scan_of (view E d c) xs
      \<and> sl_iter E c d = map Inr xs
      \<and> (\<forall>p. sl_prefix E c p d = map Inr (filter (\<lambda>x. is_prefix p (fst x)) xs))
      \<and> (\<forall>k. sl_from E c k d = map Inr (filter (\<lambda>x. k \<le> fst x) xs))
      \<and> (\<forall>k. sl_upto E c k d = map Inr (filter (\<lambda>x. fst x \<le> k) xs)))"

definition sled_ok :: "('d, 'z) sled_scheme \<Rightarrow> bool" where
  "sled_ok E \<longleftrightarrow>
     (\<forall>c W. does (view E) (sl_open E c) W (Inr ()) W)
   \<and> (\<forall>c W. does (view E) (sl_flush E c) W (Inr ()) W)
   \<and> (\<forall>c k v W. does (view E) (sl_insert E c k v) W (Inr ()) (wput W c k v))
   \<and> (\<forall>c k W. does (view E) (sl_remove E c k) W (Inr ()) (wdel W c k))
   \<and> (\<forall>c ops W. does (view E) (sl_batch E c ops) W (Inr ()) (wbatch W c ops))
   \<and> (\<forall>c k f W. does (view E) (sl_update E c k f) W (Inr (f (W c k))) (W(c := (W c)(k := f (W c k)))))
   \<and> (\<forall>c k d. sl_get E c k d = Inr (view E d c k))
   \<and> (\<forall>c k d. sl_contains E c k d = Inr (view E d c k \<noteq> None))
   \<and> scans_ok E
   \<and> (\<forall>c d. view E d c \<noteq> Map.empty \<longrightarrow> utf8_bytes c \<in> set (sl_names E d))"

lemma sled_okD:
  assumes "sled_ok E"
  shows "does (view E) (sl_open E c) W (Inr ()) W"
    and "does (view E) (sl_flush E c) W (Inr ()) W"
    and "does (view E) (sl_insert E c k v) W (Inr ()) (wput W c k v)"
    and "does (view E) (sl_remove E c k) W (Inr ()) (wdel W c k)"
    and "does (view E) (sl_batch E c ops) W (Inr ()) (wbatch W c ops)"
    and "does (view E) (sl_update E c k f) W (Inr (f (W c k))) (W(c := (W c)(k := f (W c k))))"
    and "sl_get E c k d = Inr (view E d c k)"
    and "sl_contains E c k d = Inr (view E d c k \<noteq> None)"
    and "scans_ok E"
    and "view E d c \<noteq> Map.empty \<Longrightarrow> utf8_bytes c \<in> set (sl_names E d)"
  using assms by (simp_all add: sled_ok_def)

text \<open>The scan of a map is determined by the map.\<close>

lemma scan_of_distinct: "scan_of m xs \<Longrightarrow> distinct (map fst xs)"
  by (auto simp: scan_of_def strict_sorted_iff)

lemma scan_of_set: "scan_of m xs \<Longrightarrow> (k, v) \<in> set xs \<longleftrightarrow> m k = Some v"
  using scan_of_distinct [of m xs] by (auto simp: scan_of_def)

lemma scan_of_mem: "scan_of m xs \<Longrightarrow> x \<in> set xs \<Longrightarrow> m (fst x) = Some (snd x)"
  using scan_of_set [of m xs "fst x" "snd x"] by simp

lemma scan_of_keys: "scan_of m xs \<Longrightarrow> set (map fst xs) = dom m"
  unfolding scan_of_def by (metis dom_map_of_conv_image_fst list.set_map)

lemma scan_of_rebuild: "scan_of m xs \<Longrightarrow> xs = map (\<lambda>k. (k, the (m k))) (map fst xs)"
proof -
  assume s: "scan_of m xs"
  have "map (\<lambda>x. (fst x, the (m (fst x)))) xs = xs"
  proof (rule map_idI)
    fix x assume "x \<in> set xs"
    then have "m (fst x) = Some (snd x)" using scan_of_set [OF s, of "fst x" "snd x"] by simp
    then show "(fst x, the (m (fst x))) = x" by simp
  qed
  then show ?thesis by (simp add: comp_def)
qed

lemma scan_of_unique:
  assumes x: "scan_of m xs" and y: "scan_of m ys"
  shows "xs = ys"
proof -
  have "sorted_wrt (<) (map fst xs)" "sorted_wrt (<) (map fst ys)"
    using x y by (simp_all add: scan_of_def)
  moreover have "set (map fst ys) = set (map fst xs)"
    using scan_of_keys [OF x] scan_of_keys [OF y] by simp
  ultimately have "map fst ys = map fst xs" by (rule strict_sorted_equal [symmetric, THEN sym])
  then show ?thesis using scan_of_rebuild [OF x] scan_of_rebuild [OF y] by simp
qed

text \<open>The scan of the tree \<open>c\<close> of a store, a function of its contents.\<close>

definition scan :: "('d, 'z) sled_scheme \<Rightarrow> string \<Rightarrow> 'd \<Rightarrow> (bytes \<times> bytes) list" where
  "scan E c d = concat (map (\<lambda>r. case r of Inl e \<Rightarrow> [] | Inr x \<Rightarrow> [x]) (sl_iter E c d))"

lemma scan_facts:
  assumes "sled_ok E"
  shows "scan_of (view E d c) (scan E c d)"
    and "sl_iter E c d = map Inr (scan E c d)"
    and "sl_prefix E c p d = map Inr (filter (\<lambda>x. is_prefix p (fst x)) (scan E c d))"
    and "sl_from E c k d = map Inr (filter (\<lambda>x. k \<le> fst x) (scan E c d))"
    and "sl_upto E c k d = map Inr (filter (\<lambda>x. fst x \<le> k) (scan E c d))"
proof -
  have "scans_ok E" by (rule sled_okD(9) [OF assms])
  then obtain xs where xs: "scan_of (view E d c) xs" "sl_iter E c d = map Inr xs"
    "\<forall>p. sl_prefix E c p d = map Inr (filter (\<lambda>x. is_prefix p (fst x)) xs)"
    "\<forall>k. sl_from E c k d = map Inr (filter (\<lambda>x. k \<le> fst x) xs)"
    "\<forall>k. sl_upto E c k d = map Inr (filter (\<lambda>x. fst x \<le> k) xs)"
    unfolding scans_ok_def by blast
  have "concat (map (\<lambda>r. case r of Inl e \<Rightarrow> [] | Inr x \<Rightarrow> [x]) (map Inr xs)) = xs"
    by (induction xs) auto
  then have eq: "scan E c d = xs" by (simp add: scan_def xs(2))
  from xs show "scan_of (view E d c) (scan E c d)" "sl_iter E c d = map Inr (scan E c d)"
    "sl_prefix E c p d = map Inr (filter (\<lambda>x. is_prefix p (fst x)) (scan E c d))"
    "sl_from E c k d = map Inr (filter (\<lambda>x. k \<le> fst x) (scan E c d))"
    "sl_upto E c k d = map Inr (filter (\<lambda>x. fst x \<le> k) (scan E c d))"
    by (simp_all only: eq)
qed

lemma scan_cong:
  assumes "sled_ok E" and "view E d c = view E d' c"
  shows "scan E c d = scan E c d'"
  using scan_facts(1) [OF assms(1)] assms(2) scan_of_unique by metis

lemma in_scan: "sled_ok E \<Longrightarrow> (k, v) \<in> set (scan E c d) \<longleftrightarrow> view E d c k = Some v"
  by (rule scan_of_set [OF scan_facts(1)])

subsection \<open>An in-memory store\<close>

type_synonym memdb = "(string, (bytes, bytes) rbt) rbt"

definition mem_tree :: "string \<Rightarrow> memdb \<Rightarrow> (bytes, bytes) rbt" where
  "mem_tree c d = (case RBT.lookup d c of None \<Rightarrow> RBT.empty | Some t \<Rightarrow> t)"

definition mem_put :: "bytes \<times> bytes option \<Rightarrow> (bytes, bytes) rbt \<Rightarrow> (bytes, bytes) rbt" where
  "mem_put p t = (case snd p of None \<Rightarrow> RBT.delete (fst p) t | Some v \<Rightarrow> RBT.insert (fst p) v t)"

definition mem_sled :: "memdb sled" where
  "mem_sled =
     \<lparr>sl_open = \<lambda>c d. (Inr (), RBT.insert c (mem_tree c d) d),
      sl_names = \<lambda>d. map utf8_bytes (RBT.keys d),
      sl_insert = \<lambda>c k v d. (Inr (), RBT.insert c (RBT.insert k v (mem_tree c d)) d),
      sl_remove = \<lambda>c k d. (Inr (), RBT.insert c (RBT.delete k (mem_tree c d)) d),
      sl_flush = \<lambda>c d. (Inr (), d),
      sl_batch = \<lambda>c ops d. (Inr (), RBT.insert c (fold mem_put ops (mem_tree c d)) d),
      sl_update = \<lambda>c k f d.
        (let new = f (RBT.lookup (mem_tree c d) k)
         in (Inr new, RBT.insert c (mem_put (k, new) (mem_tree c d)) d)),
      sl_get = \<lambda>c k d. Inr (RBT.lookup (mem_tree c d) k),
      sl_contains = \<lambda>c k d. Inr (RBT.lookup (mem_tree c d) k \<noteq> None),
      sl_iter = \<lambda>c d. map Inr (RBT.entries (mem_tree c d)),
      sl_prefix = \<lambda>c p d. map Inr (filter (\<lambda>x. is_prefix p (fst x)) (RBT.entries (mem_tree c d))),
      sl_from = \<lambda>c k d. map Inr (filter (\<lambda>x. k \<le> fst x) (RBT.entries (mem_tree c d))),
      sl_upto = \<lambda>c k d. map Inr (filter (\<lambda>x. fst x \<le> k) (RBT.entries (mem_tree c d)))\<rparr>"

lemma mem_tree_insert: "mem_tree c (RBT.insert c' t d) = (if c = c' then t else mem_tree c d)"
  by (simp add: mem_tree_def)

lemma lookup_mem_put: "RBT.lookup (mem_put p t) = batch_step p (RBT.lookup t)"
  by (auto simp: mem_put_def batch_step_def fun_upd_def split: option.split)

lemma lookup_fold_mem_put: "RBT.lookup (fold mem_put ops t) = fold batch_step ops (RBT.lookup t)"
  by (induction ops arbitrary: t) (simp_all add: lookup_mem_put)

text \<open>Any record that agrees with \<open>mem_sled\<close> on the store operations satisfies the hypothesis.\<close>

lemma mem_view: "sled.truncate E = mem_sled \<Longrightarrow> view E d c = RBT.lookup (mem_tree c d)"
  by (cases E) (auto simp: sled.truncate_def mem_sled_def view_def fun_eq_iff)

lemma scan_of_entries: "scan_of (RBT.lookup t) (RBT.entries t)"
  by (simp add: scan_of_def map_of_entries strict_sorted_iff sorted_entries distinct_entries)

lemma doesI:
  assumes "\<And>d. fst (m d) = rf (V d) \<and> V (snd (m d)) = g (V d)"
  shows "does V m W (rf W) (g W)"
  using assms by (auto simp: does_def)

lemma mem_sled_ok:
  assumes E: "sled.truncate E = mem_sled"
  shows "sled_ok E"
proof -
  have v: "view E d = (\<lambda>c. RBT.lookup (mem_tree c d))" for d
    using mem_view [OF E] by (intro ext) simp
  note f = E [unfolded mem_sled_def sled.truncate_def, simplified]
  note upd = v mem_tree_insert wput_def wdel_def wbatch_def lookup_fold_mem_put lookup_mem_put
    batch_step_def fun_eq_iff Let_def
  have "scans_ok E"
    unfolding scans_ok_def v using scan_of_entries f by auto
  moreover have "utf8_bytes c \<in> set (sl_names E d)" if "view E d c \<noteq> Map.empty" for c d
  proof -
    have "c \<in> dom (RBT.lookup d)"
      using that unfolding v by (cases "RBT.lookup d c") (auto simp: mem_tree_def)
    then show ?thesis using f by (simp add: lookup_keys [symmetric])
  qed
  moreover have "does (view E) (sl_open E c) W (Inr ()) W" for c W
    using f by (intro doesI [where rf = "\<lambda>_. Inr ()" and g = "\<lambda>W. W"]) (auto simp: upd)
  moreover have "does (view E) (sl_flush E c) W (Inr ()) W" for c W
    using f by (intro doesI [where rf = "\<lambda>_. Inr ()" and g = "\<lambda>W. W"]) auto
  moreover have "does (view E) (sl_insert E c k x) W (Inr ()) (wput W c k x)" for c k x W
    using f by (intro doesI [where rf = "\<lambda>_. Inr ()" and g = "\<lambda>W. wput W c k x"]) (auto simp: upd)
  moreover have "does (view E) (sl_remove E c k) W (Inr ()) (wdel W c k)" for c k W
    using f by (intro doesI [where rf = "\<lambda>_. Inr ()" and g = "\<lambda>W. wdel W c k"]) (auto simp: upd)
  moreover have "does (view E) (sl_batch E c ops) W (Inr ()) (wbatch W c ops)" for c ops W
    using f by (intro doesI [where rf = "\<lambda>_. Inr ()" and g = "\<lambda>W. wbatch W c ops"]) (auto simp: upd)
  moreover have "does (view E) (sl_update E c k h) W (Inr (h (W c k))) (W(c := (W c)(k := h (W c k))))"
    for c k h W
    using f
    by (intro doesI [where rf = "\<lambda>W. Inr (h (W c k))" and g = "\<lambda>W. W(c := (W c)(k := h (W c k)))"])
      (auto simp: upd)
  moreover have "sl_get E c k d = Inr (view E d c k)" "sl_contains E c k d = Inr (view E d c k \<noteq> None)"
    for c k d
    using f by (simp_all add: v)
  ultimately show ?thesis unfolding sled_ok_def by blast
qed

lemma mem_sled_is_ok: "sled_ok mem_sled"
  by (rule mem_sled_ok) (simp add: sled.truncate_def mem_sled_def)

end
