(* ===== verification/Db_Storage.thy ===== *)
theory Db_Storage
  imports Sled_Api
begin

text \<open>
  \<open>db/src/storage.rs\<close>: the storage layer of the database service. Raw key-value operations,
  monotonic ticket ids, tickets and users as opaque bodies with plaintext index fields, their
  secondary indexes, queries, and the log entries the Raft state machine applies.

  Serialisation is \<open>serde_json\<close>, which is not in the repository: a \<open>codec\<close> is the pair of
  \<open>to_vec\<close> and \<open>from_slice\<close> at a type, and \<open>codec_ok\<close> states that decoding undoes encoding.
  The environment \<open>dbstore\<close> is the sled interface with the two codecs this file uses.
\<close>

record 'a codec =
  cd_ser :: "'a \<Rightarrow> store_error + bytes"
  cd_de :: "bytes \<Rightarrow> store_error + 'a"

definition codec_ok :: "'a codec \<Rightarrow> bool" where
  "codec_ok c \<longleftrightarrow> (\<forall>x. \<exists>b. cd_ser c x = Inr b \<and> cd_de c b = Inr x)"

definition enc :: "'a codec \<Rightarrow> 'a \<Rightarrow> bytes" where
  "enc c x = (case cd_ser c x of Inr b \<Rightarrow> b | Inl _ \<Rightarrow> [])"

lemma codec_okD:
  assumes "codec_ok c"
  shows "cd_ser c x = Inr (enc c x)" and "cd_de c (enc c x) = Inr x"
proof -
  obtain b where "cd_ser c x = Inr b" "cd_de c b = Inr x"
    using assms unfolding codec_ok_def by blast
  then show "cd_ser c x = Inr (enc c x)" "cd_de c (enc c x) = Inr x" by (simp_all add: enc_def)
qed

subsection \<open>Trees\<close>

definition TREE_RAFT_METADATA :: string where "TREE_RAFT_METADATA = ''raft_metadata''"
definition TREE_RAFT_STATE :: string where "TREE_RAFT_STATE = ''raft_state''"
definition TREE_RAFT_LOG :: string where "TREE_RAFT_LOG = ''raft_log''"
definition TREE_TICKETS :: string where "TREE_TICKETS = ''tickets''"
definition TREE_USERS :: string where "TREE_USERS = ''users''"
definition TREE_SESSIONS :: string where "TREE_SESSIONS = ''sessions''"
definition TREE_AUDIT :: string where "TREE_AUDIT = ''audit''"
definition TREE_SEQ :: string where "TREE_SEQ = ''seq''"
definition SEQ_TICKET :: bytes where "SEQ_TICKET = utf8_bytes ''ticket''"
definition IDX_TICKET_STATUS :: string where "IDX_TICKET_STATUS = ''idx_ticket_status''"
definition IDX_TICKET_ASSIGNEE :: string where "IDX_TICKET_ASSIGNEE = ''idx_ticket_assignee''"
definition IDX_TICKET_PROJECT :: string where "IDX_TICKET_PROJECT = ''idx_ticket_project''"
definition IDX_TICKET_ACCOUNT :: string where "IDX_TICKET_ACCOUNT = ''idx_ticket_account''"
definition IDX_TICKET_CREATED :: string where "IDX_TICKET_CREATED = ''idx_ticket_created''"
definition IDX_TICKET_UPDATED :: string where "IDX_TICKET_UPDATED = ''idx_ticket_updated''"
definition IDX_TICKET_TRACKING :: string where "IDX_TICKET_TRACKING = ''idx_ticket_tracking''"
definition IDX_USER_NAME :: string where "IDX_USER_NAME = ''idx_user_name''"
definition IDX_USER_EMAIL :: string where "IDX_USER_EMAIL = ''idx_user_email''"
definition IDX_USER_ROLE :: string where "IDX_USER_ROLE = ''idx_user_role''"

lemmas raft_tree_defs = TREE_RAFT_METADATA_def TREE_RAFT_STATE_def TREE_RAFT_LOG_def

lemmas tree_defs =
  raft_tree_defs TREE_TICKETS_def TREE_USERS_def TREE_SESSIONS_def TREE_AUDIT_def TREE_SEQ_def
  IDX_TICKET_STATUS_def IDX_TICKET_ASSIGNEE_def IDX_TICKET_PROJECT_def IDX_TICKET_ACCOUNT_def
  IDX_TICKET_CREATED_def IDX_TICKET_UPDATED_def IDX_TICKET_TRACKING_def IDX_USER_NAME_def
  IDX_USER_EMAIL_def IDX_USER_ROLE_def

subsection \<open>Key-value operations\<close>

definition get_tree :: "('d, 'z) sled_scheme \<Rightarrow> string \<Rightarrow> ('d, unit) act" where
  "get_tree E name = sl_open E name"

definition data_tree_names :: "('d, 'z) sled_scheme \<Rightarrow> 'd \<Rightarrow> string list" where
  "data_tree_names E d =
     (let skip = [utf8_bytes TREE_RAFT_METADATA, utf8_bytes TREE_RAFT_STATE,
                  utf8_bytes TREE_RAFT_LOG, utf8_bytes ''__sled__default'']
      in map from_utf8_lossy (filter (\<lambda>name. name \<notin> set skip) (sl_names E d)))"

definition put :: "('d, 'z) sled_scheme \<Rightarrow> string \<Rightarrow> bytes \<Rightarrow> bytes \<Rightarrow> ('d, unit) act" where
  "put E collection key val =
     thenA (get_tree E collection)
       (thenA (sl_insert E collection key val) (sl_flush E collection))"

definition get :: "('d, 'z) sled_scheme \<Rightarrow> string \<Rightarrow> bytes \<Rightarrow> ('d, bytes option) act" where
  "get E collection key = thenA (get_tree E collection) (readA (sl_get E collection key))"

definition delete :: "('d, 'z) sled_scheme \<Rightarrow> string \<Rightarrow> bytes \<Rightarrow> ('d, unit) act" where
  "delete E collection key =
     thenA (get_tree E collection)
       (thenA (sl_remove E collection key) (sl_flush E collection))"

text \<open>
  \<open>take(usize::MAX)\<close> of an unlimited listing cuts nothing: no vector holds that many pairs.
\<close>

definition list_limit :: "nat option \<Rightarrow> 'x list \<Rightarrow> 'x list" where
  "list_limit limit xs = (case limit of None \<Rightarrow> xs | Some n \<Rightarrow> take n xs)"

definition list_pairs ::
  "('d, 'z) sled_scheme \<Rightarrow> string \<Rightarrow> bytes \<Rightarrow> nat option \<Rightarrow> ('d, (bytes \<times> bytes) list) act" where
  "list_pairs E collection prefix limit =
     thenA (get_tree E collection)
       (readA (\<lambda>d. collect_res (list_limit limit
          (if prefix = [] then sl_iter E collection d else sl_prefix E collection prefix d))))"

definition exists :: "('d, 'z) sled_scheme \<Rightarrow> string \<Rightarrow> bytes \<Rightarrow> ('d, bool) act" where
  "exists E collection key = thenA (get_tree E collection) (readA (sl_contains E collection key))"

definition batch_put ::
  "('d, 'z) sled_scheme \<Rightarrow> string \<Rightarrow> (bytes \<times> bytes) list \<Rightarrow> ('d, nat) act" where
  "batch_put E collection pairs =
     thenA (get_tree E collection)
       (thenA (sl_batch E collection (map (\<lambda>(key, val). (key, Some val)) pairs))
         (thenA (sl_flush E collection) (ret (length pairs))))"

subsection \<open>Domain records\<close>

record ticket_index_fields =
  ti_status :: u8
  ti_account_uuid :: string
  ti_assigned_to_uuid :: "string option"
  ti_project :: string
  ti_tracking_url :: "string option"
  ti_created_at_unix :: i64
  ti_updated_at_unix :: i64

record stored_ticket =
  sk_body :: bytes
  sk_index :: ticket_index_fields
  sk_deleted :: bool
  sk_deleted_at_unix :: i64

record user_index_fields =
  ui_username :: string
  ui_email :: string
  ui_role :: u8

record stored_user =
  su_body :: bytes
  su_index :: user_index_fields
  su_deleted :: bool
  su_deleted_at_unix :: i64

record ticket_query =
  tq_status :: "u8 option"
  tq_assigned_to_uuid :: "string option"
  tq_account_uuid :: "string option"
  tq_project :: "string option"
  tq_include_deleted :: bool
  tq_limit :: nat

record 'd dbstore = "'d sled" +
  st_codec :: "stored_ticket codec"
  su_codec :: "stored_user codec"

definition index_key :: "bytes \<Rightarrow> bytes \<Rightarrow> bytes" where
  "index_key val entity_key = val @ [0] @ entity_key"

definition index_prefix :: "bytes \<Rightarrow> bytes" where
  "index_prefix val = val @ [0]"

subsection \<open>Sequence counters\<close>

definition saturating_inc :: "u64 \<Rightarrow> u64" where
  "saturating_inc n = (if n = - 1 then - 1 else n + 1)"

definition seq_read :: "bytes \<Rightarrow> u64" where
  "seq_read b = (case from_be_bytes b of Some n \<Rightarrow> n | None \<Rightarrow> 0)"

definition seq_step :: "bytes option \<Rightarrow> bytes option" where
  "seq_step old = Some (to_be_bytes (case old of Some b \<Rightarrow> saturating_inc (seq_read b) | None \<Rightarrow> 1))"

definition next_id :: "('d, 'z) sled_scheme \<Rightarrow> bytes \<Rightarrow> ('d, u64) act" where
  "next_id E name =
     thenA (get_tree E TREE_SEQ)
       (bindA (sl_update E TREE_SEQ name seq_step) (\<lambda>updated.
          thenA (sl_flush E TREE_SEQ)
            (case updated of
               None \<Rightarrow> throw SeqCounterMissing
             | Some b \<Rightarrow> (case from_be_bytes b of None \<Rightarrow> throw SeqCounterCorrupt | Some n \<Rightarrow> ret n))))"

subsection \<open>Tickets\<close>

definition ticket_index_entries :: "ticket_index_fields \<Rightarrow> (string \<times> bytes) list" where
  "ticket_index_entries i =
     [(IDX_TICKET_STATUS, [ti_status i]),
      (IDX_TICKET_ACCOUNT, utf8_bytes (ti_account_uuid i)),
      (IDX_TICKET_PROJECT, utf8_bytes (ti_project i)),
      (IDX_TICKET_CREATED, to_be_bytes (ti_created_at_unix i)),
      (IDX_TICKET_UPDATED, to_be_bytes (ti_updated_at_unix i))]
     @ (case ti_assigned_to_uuid i of
          Some assignee \<Rightarrow> [(IDX_TICKET_ASSIGNEE, utf8_bytes assignee)] | None \<Rightarrow> [])
     @ (case ti_tracking_url i of
          Some tracking \<Rightarrow> [(IDX_TICKET_TRACKING, utf8_bytes tracking)] | None \<Rightarrow> [])"

definition write_index ::
  "('d, 'z) sled_scheme \<Rightarrow> bytes \<Rightarrow> bool \<Rightarrow> string \<times> bytes \<Rightarrow> ('d, unit) act" where
  "write_index E entity ins p =
     (let key = index_key (snd p) entity
      in thenA (get_tree E (fst p))
           (thenA (if ins then sl_insert E (fst p) key entity else sl_remove E (fst p) key)
             (sl_flush E (fst p))))"

definition write_ticket_indexes ::
  "('d, 'z) sled_scheme \<Rightarrow> u64 \<Rightarrow> ticket_index_fields \<Rightarrow> bool \<Rightarrow> ('d, unit) act" where
  "write_ticket_indexes E tid index ins =
     for_each (write_index E (to_be_bytes tid) ins) (ticket_index_entries index)"

definition create_ticket ::
  "('d, 'z) dbstore_scheme \<Rightarrow> bytes \<Rightarrow> ticket_index_fields \<Rightarrow> ('d, u64) act" where
  "create_ticket E body index =
     bindA (next_id E SEQ_TICKET) (\<lambda>tid.
       let stored = \<lparr>sk_body = body, sk_index = index, sk_deleted = False, sk_deleted_at_unix = 0\<rparr>
       in bindA (lift_res (cd_ser (st_codec E) stored)) (\<lambda>val.
            thenA (put E TREE_TICKETS (to_be_bytes tid) val)
              (thenA (write_ticket_indexes E tid index True) (ret tid))))"

definition get_ticket ::
  "('d, 'z) dbstore_scheme \<Rightarrow> u64 \<Rightarrow> bool \<Rightarrow> ('d, stored_ticket option) act" where
  "get_ticket E tid include_deleted =
     bindA (get E TREE_TICKETS (to_be_bytes tid)) (\<lambda>r.
       case r of
         Some b \<Rightarrow> bindA (lift_res (cd_de (st_codec E) b)) (\<lambda>stored.
           if sk_deleted stored \<and> \<not> include_deleted then ret None else ret (Some stored))
       | None \<Rightarrow> ret None)"

definition update_ticket ::
  "('d, 'z) dbstore_scheme \<Rightarrow> u64 \<Rightarrow> bytes \<Rightarrow> ticket_index_fields \<Rightarrow> ('d, unit) act" where
  "update_ticket E tid body index =
     bindA (get E TREE_TICKETS (to_be_bytes tid)) (\<lambda>r.
       case r of
         None \<Rightarrow> throw (TicketNotFound tid)
       | Some old_bytes \<Rightarrow> bindA (lift_res (cd_de (st_codec E) old_bytes)) (\<lambda>old.
           thenA (if \<not> sk_deleted old then write_ticket_indexes E tid (sk_index old) False else ret ())
             (let stored = \<lparr>sk_body = body, sk_index = index, sk_deleted = sk_deleted old,
                            sk_deleted_at_unix = sk_deleted_at_unix old\<rparr>
              in bindA (lift_res (cd_ser (st_codec E) stored)) (\<lambda>val.
                   thenA (put E TREE_TICKETS (to_be_bytes tid) val)
                     (if \<not> sk_deleted stored then write_ticket_indexes E tid index True else ret ())))))"

definition soft_delete_ticket :: "('d, 'z) dbstore_scheme \<Rightarrow> u64 \<Rightarrow> i64 \<Rightarrow> ('d, unit) act" where
  "soft_delete_ticket E tid at_unix =
     bindA (get E TREE_TICKETS (to_be_bytes tid)) (\<lambda>r.
       case r of
         None \<Rightarrow> throw (TicketNotFound tid)
       | Some b \<Rightarrow> bindA (lift_res (cd_de (st_codec E) b)) (\<lambda>stored.
           thenA (if \<not> sk_deleted stored then write_ticket_indexes E tid (sk_index stored) False
                  else ret ())
             (let stored' = stored\<lparr>sk_deleted := True, sk_deleted_at_unix := at_unix\<rparr>
              in bindA (lift_res (cd_ser (st_codec E) stored')) (\<lambda>val.
                   put E TREE_TICKETS (to_be_bytes tid) val))))"

definition all_ticket_ids :: "('d, 'z) dbstore_scheme \<Rightarrow> ('d, u64 list) act" where
  "all_ticket_ids E =
     bindA (list_pairs E TREE_TICKETS [] None) (\<lambda>pairs.
       ret (List.map_filter (\<lambda>(k, _). from_be_bytes k) pairs))"

fun scan_ids_loop ::
  "(store_error + bytes \<times> bytes) list \<Rightarrow> u64 list \<Rightarrow> store_error + u64 list" where
  "scan_ids_loop [] ids = Inr ids"
| "scan_ids_loop (Inl e # items) ids = Inl e"
| "scan_ids_loop (Inr (_, v) # items) ids =
     scan_ids_loop items (case from_be_bytes v of Some i \<Rightarrow> ids @ [i] | None \<Rightarrow> ids)"

definition scan_index_ids :: "('d, 'z) sled_scheme \<Rightarrow> string \<Rightarrow> bytes \<Rightarrow> ('d, u64 list) act" where
  "scan_index_ids E tree_name val =
     thenA (get_tree E tree_name)
       (readA (\<lambda>d. scan_ids_loop (sl_prefix E tree_name (index_prefix val) d) []))"

fun scan_strs_loop ::
  "(store_error + bytes \<times> bytes) list \<Rightarrow> string list \<Rightarrow> store_error + string list" where
  "scan_strs_loop [] ids = Inr ids"
| "scan_strs_loop (Inl e # items) ids = Inl e"
| "scan_strs_loop (Inr (_, v) # items) ids = scan_strs_loop items (ids @ [from_utf8_lossy v])"

definition scan_index_ids_str ::
  "('d, 'z) sled_scheme \<Rightarrow> string \<Rightarrow> bytes \<Rightarrow> ('d, string list) act" where
  "scan_index_ids_str E tree_name val =
     thenA (get_tree E tree_name)
       (readA (\<lambda>d. scan_strs_loop (sl_prefix E tree_name (index_prefix val) d) []))"

definition query_candidates :: "('d, 'z) dbstore_scheme \<Rightarrow> ticket_query \<Rightarrow> ('d, u64 list) act" where
  "query_candidates E q =
     (if tq_include_deleted q then all_ticket_ids E
      else case tq_status q of
        Some status \<Rightarrow> scan_index_ids E IDX_TICKET_STATUS [status]
      | None \<Rightarrow> (case tq_assigned_to_uuid q of
          Some assignee \<Rightarrow> scan_index_ids E IDX_TICKET_ASSIGNEE (utf8_bytes assignee)
        | None \<Rightarrow> (case tq_account_uuid q of
            Some account \<Rightarrow> scan_index_ids E IDX_TICKET_ACCOUNT (utf8_bytes account)
          | None \<Rightarrow> (case tq_project q of
              Some project \<Rightarrow> scan_index_ids E IDX_TICKET_PROJECT (utf8_bytes project)
            | None \<Rightarrow> all_ticket_ids E))))"

text \<open>The four in-memory filters, each of which skips the row (\<open>continue\<close>).\<close>

definition query_skips :: "ticket_query \<Rightarrow> stored_ticket \<Rightarrow> bool" where
  "query_skips q stored \<longleftrightarrow>
     (case tq_status q of Some s \<Rightarrow> ti_status (sk_index stored) \<noteq> s | None \<Rightarrow> False)
   \<or> (case tq_assigned_to_uuid q of
        Some assignee \<Rightarrow> ti_assigned_to_uuid (sk_index stored) \<noteq> Some assignee | None \<Rightarrow> False)
   \<or> (case tq_account_uuid q of
        Some a \<Rightarrow> ti_account_uuid (sk_index stored) \<noteq> a | None \<Rightarrow> False)
   \<or> (case tq_project q of Some p \<Rightarrow> ti_project (sk_index stored) \<noteq> p | None \<Rightarrow> False)"

fun query_loop ::
  "('d, 'z) dbstore_scheme \<Rightarrow> ticket_query \<Rightarrow> u64 list \<Rightarrow> (u64 \<times> stored_ticket) list
   \<Rightarrow> ('d, (u64 \<times> stored_ticket) list) act" where
  "query_loop E q [] out = ret out"
| "query_loop E q (tid # ids) out =
     bindA (get_ticket E tid (tq_include_deleted q)) (\<lambda>r.
       case r of
         None \<Rightarrow> query_loop E q ids out
       | Some stored \<Rightarrow>
           if query_skips q stored then query_loop E q ids out
           else if 0 < tq_limit q \<and> tq_limit q \<le> length (out @ [(tid, stored)])
           then ret (out @ [(tid, stored)])
           else query_loop E q ids (out @ [(tid, stored)]))"

definition query_tickets ::
  "('d, 'z) dbstore_scheme \<Rightarrow> ticket_query \<Rightarrow> ('d, (u64 \<times> stored_ticket) list) act" where
  "query_tickets E q = bindA (query_candidates E q) (\<lambda>candidates. query_loop E q candidates [])"

subsection \<open>Users\<close>

definition user_index_entries :: "user_index_fields \<Rightarrow> (string \<times> bytes) list" where
  "user_index_entries i =
     [(IDX_USER_NAME, utf8_bytes (ui_username i)),
      (IDX_USER_EMAIL, utf8_bytes (ui_email i)),
      (IDX_USER_ROLE, [ui_role i])]"

definition write_user_indexes ::
  "('d, 'z) sled_scheme \<Rightarrow> string \<Rightarrow> user_index_fields \<Rightarrow> bool \<Rightarrow> ('d, unit) act" where
  "write_user_indexes E user_uuid index ins =
     for_each (write_index E (utf8_bytes user_uuid) ins) (user_index_entries index)"

definition create_user ::
  "('d, 'z) dbstore_scheme \<Rightarrow> string \<Rightarrow> bytes \<Rightarrow> user_index_fields \<Rightarrow> ('d, unit) act" where
  "create_user E user_uuid body index =
     (let stored = \<lparr>su_body = body, su_index = index, su_deleted = False, su_deleted_at_unix = 0\<rparr>
      in bindA (lift_res (cd_ser (su_codec E) stored)) (\<lambda>val.
           thenA (put E TREE_USERS (utf8_bytes user_uuid) val)
             (write_user_indexes E user_uuid index True)))"

definition get_user ::
  "('d, 'z) dbstore_scheme \<Rightarrow> string \<Rightarrow> bool \<Rightarrow> ('d, stored_user option) act" where
  "get_user E user_uuid include_deleted =
     bindA (get E TREE_USERS (utf8_bytes user_uuid)) (\<lambda>r.
       case r of
         Some b \<Rightarrow> bindA (lift_res (cd_de (su_codec E) b)) (\<lambda>stored.
           if su_deleted stored \<and> \<not> include_deleted then ret None else ret (Some stored))
       | None \<Rightarrow> ret None)"

definition update_user ::
  "('d, 'z) dbstore_scheme \<Rightarrow> string \<Rightarrow> bytes \<Rightarrow> user_index_fields \<Rightarrow> ('d, unit) act" where
  "update_user E user_uuid body index =
     bindA (get E TREE_USERS (utf8_bytes user_uuid)) (\<lambda>r.
       case r of
         None \<Rightarrow> throw (UserNotFound user_uuid)
       | Some old_bytes \<Rightarrow> bindA (lift_res (cd_de (su_codec E) old_bytes)) (\<lambda>old.
           thenA (if \<not> su_deleted old then write_user_indexes E user_uuid (su_index old) False
                  else ret ())
             (let stored = \<lparr>su_body = body, su_index = index, su_deleted = su_deleted old,
                            su_deleted_at_unix = su_deleted_at_unix old\<rparr>
              in bindA (lift_res (cd_ser (su_codec E) stored)) (\<lambda>val.
                   thenA (put E TREE_USERS (utf8_bytes user_uuid) val)
                     (if \<not> su_deleted stored then write_user_indexes E user_uuid index True
                      else ret ())))))"

definition soft_delete_user :: "('d, 'z) dbstore_scheme \<Rightarrow> string \<Rightarrow> i64 \<Rightarrow> ('d, unit) act" where
  "soft_delete_user E user_uuid at_unix =
     bindA (get E TREE_USERS (utf8_bytes user_uuid)) (\<lambda>r.
       case r of
         None \<Rightarrow> throw (UserNotFound user_uuid)
       | Some b \<Rightarrow> bindA (lift_res (cd_de (su_codec E) b)) (\<lambda>stored.
           thenA (if \<not> su_deleted stored then write_user_indexes E user_uuid (su_index stored) False
                  else ret ())
             (let stored' = stored\<lparr>su_deleted := True, su_deleted_at_unix := at_unix\<rparr>
              in bindA (lift_res (cd_ser (su_codec E) stored')) (\<lambda>val.
                   put E TREE_USERS (utf8_bytes user_uuid) val))))"

subsection \<open>Log entries\<close>

datatype log_entry =
    Put string bytes bytes
  | Get string bytes
  | Delete string bytes
  | BatchPut string "(bytes \<times> bytes) list"
  | CreateTicket bytes ticket_index_fields
  | UpdateTicket u64 bytes ticket_index_fields
  | SoftDeleteTicket u64 i64
  | CreateUser string bytes user_index_fields
  | UpdateUser string bytes user_index_fields
  | SoftDeleteUser string i64

fun log_apply :: "('d, 'z) dbstore_scheme \<Rightarrow> log_entry \<Rightarrow> ('d, bytes option) act" where
  "log_apply E (Put collection key val) = thenA (put E collection key val) (ret None)"
| "log_apply E (Get collection key) = ret None"
| "log_apply E (Delete collection key) = thenA (delete E collection key) (ret None)"
| "log_apply E (BatchPut collection pairs) = thenA (batch_put E collection pairs) (ret None)"
| "log_apply E (CreateTicket body index) =
     bindA (create_ticket E body index) (\<lambda>tid. ret (Some (to_be_bytes tid)))"
| "log_apply E (UpdateTicket ticket_id body index) =
     thenA (update_ticket E ticket_id body index) (ret None)"
| "log_apply E (SoftDeleteTicket ticket_id at_unix) =
     thenA (soft_delete_ticket E ticket_id at_unix) (ret None)"
| "log_apply E (CreateUser user_uuid body index) =
     thenA (create_user E user_uuid body index) (ret None)"
| "log_apply E (UpdateUser user_uuid body index) =
     thenA (update_user E user_uuid body index) (ret None)"
| "log_apply E (SoftDeleteUser user_uuid at_unix) =
     thenA (soft_delete_user E user_uuid at_unix) (ret None)"

end
