(* ===== verification/Ticket_Model.thy ===== *)
theory Ticket_Model
  imports Prelude "HOL-Library.Finite_Map"
begin

text \<open>
  \<open>shared/src/error.rs\<close> and \<open>shared/src/ticket.rs\<close>: the ticket and its vocabularies, the
  lifecycle matrix, MAC addresses, devices, the validation rule and the portal text.
  A \<open>chrono::DateTime<Utc>\<close> is its Unix time (seconds and nanoseconds); the clock and the
  calendar arithmetic of \<open>chrono\<close> are arguments of the operations that use them.
\<close>

datatype infovulcan_error =
    ValidationError string
  | AuthenticationError string
  | AuthorizationError
  | NotFound string
  | Conflict string
  | DatabaseError string
  | NetworkError string
  | InternalError string
  | RateLimitExceeded
  | ServiceUnavailable string

record datetime =
  dt_secs :: int
  dt_nanos :: nat

subsection \<open>MAC addresses\<close>

datatype mac_address = MacAddress (as_str: string)

text \<open>\<open>mac.replace('-', ":")\<close>\<close>

definition replace_dash :: "string \<Rightarrow> string" where
  "replace_dash mac = map (\<lambda>c. if c = CHR ''-'' then CHR '':'' else c) mac"

definition mac_part_ok :: "string \<Rightarrow> bool" where
  "mac_part_ok part \<longleftrightarrow> length part = 2 \<and> list_all is_ascii_hexdigit part"

definition mac_new :: "string \<Rightarrow> infovulcan_error + mac_address" where
  "mac_new mac =
     (let normalized = replace_dash mac;
          parts = split_on CHR '':'' normalized
      in if length parts \<noteq> 6
         then Inl (ValidationError (''Invalid MAC address format: '' @ mac))
         else if \<not> list_all mac_part_ok parts
         then Inl (ValidationError (''Invalid MAC address format: '' @ mac))
         else Inr (MacAddress (map ascii_upper normalized)))"

subsection \<open>Network devices\<close>

text \<open>Every variant of \<open>NetworkDevice\<close> carries the same four fields.\<close>

record device_info =
  dev_make :: string
  dev_model :: string
  dev_mac_address :: "mac_address option"
  dev_serial_number :: "string option"

datatype network_device =
    DslModem device_info
  | CoaxModem device_info
  | Ont device_info
  | FixedWirelessAntenna device_info
  | VpnGw device_info
  | Switch device_info
  | Router device_info
  | Firewall device_info

fun device_type :: "network_device \<Rightarrow> string" where
  "device_type (DslModem i) = ''DSL Modem''"
| "device_type (CoaxModem i) = ''Coax Modem''"
| "device_type (Ont i) = ''ONT''"
| "device_type (FixedWirelessAntenna i) = ''Fixed Wireless Antenna''"
| "device_type (VpnGw i) = ''VPN Gateway''"
| "device_type (Switch i) = ''Switch''"
| "device_type (Router i) = ''Router''"
| "device_type (Firewall i) = ''Firewall''"

fun dev_info :: "network_device \<Rightarrow> device_info" where
  "dev_info (DslModem i) = i"
| "dev_info (CoaxModem i) = i"
| "dev_info (Ont i) = i"
| "dev_info (FixedWirelessAntenna i) = i"
| "dev_info (VpnGw i) = i"
| "dev_info (Switch i) = i"
| "dev_info (Router i) = i"
| "dev_info (Firewall i) = i"

definition make_model :: "network_device \<Rightarrow> string" where
  "make_model d = dev_make (dev_info d) @ '' '' @ dev_model (dev_info d)"

definition mac_address :: "network_device \<Rightarrow> mac_address option" where
  "mac_address d = dev_mac_address (dev_info d)"

subsection \<open>Enumerations and their discriminants\<close>

datatype symptom =
    SymUnknown | BroadbandDown | BroadbandIntermittent | SymPacketLoss | Power | VpnIssue
  | ConfigurationError | HardwareFailure | SoftwareBug | SecurityIncident | SlowBandwidth
  | DuplexingMismatch | LatencyIssues | JitterProblems | DnsIssues | SymOther

fun symptom_u8 :: "symptom \<Rightarrow> u8" where
  "symptom_u8 SymUnknown = 0"
| "symptom_u8 BroadbandDown = 1"
| "symptom_u8 BroadbandIntermittent = 2"
| "symptom_u8 SymPacketLoss = 3"
| "symptom_u8 Power = 4"
| "symptom_u8 VpnIssue = 5"
| "symptom_u8 ConfigurationError = 6"
| "symptom_u8 HardwareFailure = 7"
| "symptom_u8 SoftwareBug = 8"
| "symptom_u8 SecurityIncident = 9"
| "symptom_u8 SlowBandwidth = 10"
| "symptom_u8 DuplexingMismatch = 11"
| "symptom_u8 LatencyIssues = 12"
| "symptom_u8 JitterProblems = 13"
| "symptom_u8 DnsIssues = 14"
| "symptom_u8 SymOther = 255"

definition symptom_from_u8 :: "u8 \<Rightarrow> symptom" where
  "symptom_from_u8 n =
     (if n = 1 then BroadbandDown else if n = 2 then BroadbandIntermittent
      else if n = 3 then SymPacketLoss else if n = 4 then Power else if n = 5 then VpnIssue
      else if n = 6 then ConfigurationError else if n = 7 then HardwareFailure
      else if n = 8 then SoftwareBug else if n = 9 then SecurityIncident
      else if n = 10 then SlowBandwidth else if n = 11 then DuplexingMismatch
      else if n = 12 then LatencyIssues else if n = 13 then JitterProblems
      else if n = 14 then DnsIssues else if n = 255 then SymOther else SymUnknown)"

datatype ticket_priority =
  PriUnknown | HardDown | PrimaryDown | BackupDown | Intermittent | PriPacketLoss

fun priority_u8 :: "ticket_priority \<Rightarrow> u8" where
  "priority_u8 PriUnknown = 0"
| "priority_u8 HardDown = 1"
| "priority_u8 PrimaryDown = 2"
| "priority_u8 BackupDown = 3"
| "priority_u8 Intermittent = 4"
| "priority_u8 PriPacketLoss = 5"

definition priority_from_u8 :: "u8 \<Rightarrow> ticket_priority" where
  "priority_from_u8 n =
     (if n = 1 then HardDown else if n = 2 then PrimaryDown else if n = 3 then BackupDown
      else if n = 4 then Intermittent else if n = 5 then PriPacketLoss else PriUnknown)"

datatype ticket_status =
    Open | AwaitingCustomer | AwaitingISP | AwaitingPartner | SupportHold | HandedOff
  | AppointmentScheduled | EbondReceived | VoicemailReceived | AutoClose | Closed

fun status_u8 :: "ticket_status \<Rightarrow> u8" where
  "status_u8 Open = 0"
| "status_u8 AwaitingCustomer = 1"
| "status_u8 AwaitingISP = 2"
| "status_u8 AwaitingPartner = 3"
| "status_u8 SupportHold = 4"
| "status_u8 HandedOff = 5"
| "status_u8 AppointmentScheduled = 6"
| "status_u8 EbondReceived = 7"
| "status_u8 VoicemailReceived = 8"
| "status_u8 AutoClose = 254"
| "status_u8 Closed = 255"

definition status_from_u8 :: "u8 \<Rightarrow> ticket_status" where
  "status_from_u8 n =
     (if n = 1 then AwaitingCustomer else if n = 2 then AwaitingISP
      else if n = 3 then AwaitingPartner else if n = 4 then SupportHold
      else if n = 5 then HandedOff else if n = 6 then AppointmentScheduled
      else if n = 7 then EbondReceived else if n = 8 then VoicemailReceived
      else if n = 254 then AutoClose else if n = 255 then Closed else Open)"

definition requires_resolution :: "ticket_status \<Rightarrow> bool" where
  "requires_resolution s \<longleftrightarrow> s = Closed \<or> s = AutoClose"

definition requires_next_action :: "ticket_status \<Rightarrow> bool" where
  "requires_next_action s \<longleftrightarrow>
     s = Open \<or> s = AwaitingCustomer \<or> s = AwaitingISP \<or> s = AwaitingPartner"

definition is_terminal :: "ticket_status \<Rightarrow> bool" where
  "is_terminal s \<longleftrightarrow> s = Closed \<or> s = AutoClose"

fun allowed_transitions :: "ticket_status \<Rightarrow> ticket_status list" where
  "allowed_transitions Open =
     [AwaitingCustomer, AwaitingISP, AwaitingPartner, SupportHold, HandedOff,
      AppointmentScheduled, EbondReceived, VoicemailReceived, Closed, AutoClose]"
| "allowed_transitions AwaitingCustomer =
     [Open, SupportHold, AppointmentScheduled, EbondReceived, VoicemailReceived, Closed,
      AutoClose]"
| "allowed_transitions AwaitingISP = [Open, SupportHold, EbondReceived, Closed, AutoClose]"
| "allowed_transitions AwaitingPartner = [Open, SupportHold, HandedOff, Closed, AutoClose]"
| "allowed_transitions SupportHold =
     [Open, AwaitingCustomer, AwaitingISP, AwaitingPartner, AppointmentScheduled, Closed,
      AutoClose]"
| "allowed_transitions HandedOff = [Open, AwaitingPartner, Closed, AutoClose]"
| "allowed_transitions AppointmentScheduled =
     [Open, AwaitingCustomer, SupportHold, Closed, AutoClose]"
| "allowed_transitions EbondReceived = [Open, AwaitingISP, Closed, AutoClose]"
| "allowed_transitions VoicemailReceived = [Open, AwaitingCustomer, Closed, AutoClose]"
| "allowed_transitions _ = []"

definition can_transition_to :: "ticket_status \<Rightarrow> ticket_status \<Rightarrow> bool" where
  "can_transition_to s t \<longleftrightarrow> s = t \<or> t \<in> set (allowed_transitions s)"

datatype resolution =
    ResNone | Resolved | Workaround | CannotReproduce | UnsupportedIssue | Duplicate
  | ServiceOutage | UserError

fun resolution_u8 :: "resolution \<Rightarrow> u8" where
  "resolution_u8 ResNone = 0"
| "resolution_u8 Resolved = 1"
| "resolution_u8 Workaround = 2"
| "resolution_u8 CannotReproduce = 3"
| "resolution_u8 UnsupportedIssue = 4"
| "resolution_u8 Duplicate = 5"
| "resolution_u8 ServiceOutage = 6"
| "resolution_u8 UserError = 7"

definition resolution_from_u8 :: "u8 \<Rightarrow> resolution" where
  "resolution_from_u8 n =
     (if n = 1 then Resolved else if n = 2 then Workaround else if n = 3 then CannotReproduce
      else if n = 4 then UnsupportedIssue else if n = 5 then Duplicate
      else if n = 6 then ServiceOutage else if n = 7 then UserError else ResNone)"

subsection \<open>Next action and the auto-close schedule\<close>

datatype auto_close_schedule = EndOfDay | Hours24 | Hours48 | Hours72

datatype next_action =
    NoAction
  | FollowUp datetime
  | Appointment datetime
  | AutoCloseAt auto_close_schedule

text \<open>
  \<open>calculate_close_time\<close> at the clock reading \<open>now\<close>: \<open>at_hms t h m s\<close> is the given time of
  day on the date of \<open>t\<close> (\<open>date_naive\<close>, \<open>and_hms_opt\<close>), \<open>None\<close> the panic of its \<open>expect\<close>;
  \<open>plus_hours t h\<close> is chrono's addition, which panics out of range as well.
\<close>

fun calculate_close_time ::
  "(datetime \<Rightarrow> nat \<Rightarrow> nat \<Rightarrow> nat \<Rightarrow> datetime option) \<Rightarrow>
   (datetime \<Rightarrow> nat \<Rightarrow> datetime option) \<Rightarrow> datetime \<Rightarrow> auto_close_schedule \<Rightarrow> datetime option" where
  "calculate_close_time at_hms plus_hours now EndOfDay = at_hms now 23 59 59"
| "calculate_close_time at_hms plus_hours now Hours24 = plus_hours now 24"
| "calculate_close_time at_hms plus_hours now Hours48 = plus_hours now 48"
| "calculate_close_time at_hms plus_hours now Hours72 = plus_hours now 72"

subsection \<open>The ticket\<close>

record history_entry =
  he_timestamp :: datetime
  he_user_id :: uuid
  he_field_changed :: string
  he_old_value :: "string option"
  he_new_value :: "string option"

record ticket =
  tk_ticket_id :: u64
  tk_customer_ticket_number :: "string option"
  tk_isp_ticket_number :: "string option"
  tk_other_ticket_number :: "string option"
  tk_title :: string
  tk_project :: string
  tk_account_uuid :: uuid
  tk_symptom :: symptom
  tk_priority :: ticket_priority
  tk_status :: ticket_status
  tk_next_action :: next_action
  tk_resolution :: "resolution option"
  tk_locked_by :: "uuid option"
  tk_assigned_to :: "uuid option"
  tk_created_by :: uuid
  tk_created_at :: datetime
  tk_updated_by :: uuid
  tk_updated_at :: datetime
  tk_history :: "history_entry list"
  tk_ebond :: "string option"
  tk_tracking_url :: "string option"
  tk_network_devices :: "network_device list"
  tk_schema_version :: u32
  tk_custom_fields :: "(string, string) fmap"

definition ticket_new ::
  "datetime \<Rightarrow> u64 \<Rightarrow> string \<Rightarrow> string \<Rightarrow> uuid \<Rightarrow> symptom \<Rightarrow> uuid \<Rightarrow> ticket" where
  "ticket_new now ticket_id title project account_uuid symptom created_by =
     \<lparr>tk_ticket_id = ticket_id, tk_customer_ticket_number = None, tk_isp_ticket_number = None,
      tk_other_ticket_number = None, tk_title = title, tk_project = project,
      tk_account_uuid = account_uuid, tk_symptom = symptom, tk_priority = PriUnknown,
      tk_status = Open, tk_next_action = NoAction, tk_resolution = None, tk_locked_by = None,
      tk_assigned_to = None, tk_created_by = created_by, tk_created_at = now,
      tk_updated_by = created_by, tk_updated_at = now, tk_history = [], tk_ebond = None,
      tk_tracking_url = None, tk_network_devices = [], tk_schema_version = 1,
      tk_custom_fields = fmempty\<rparr>"

definition nl :: string where
  "nl = [CHR 0x0A]"

fun is_modem :: "network_device \<Rightarrow> bool" where
  "is_modem (DslModem i) = True"
| "is_modem (CoaxModem i) = True"
| "is_modem (Ont i) = True"
| "is_modem _ = False"

definition device_line :: "network_device \<Rightarrow> string" where
  "device_line d = make_model d @ nl @ (case mac_address d of None \<Rightarrow> ''N/A'' | Some m \<Rightarrow> as_str m)"

definition or_na :: "string option \<Rightarrow> string" where
  "or_na x = (case x of None \<Rightarrow> ''N/A'' | Some s \<Rightarrow> s)"

definition format_tracking_update ::
  "ticket \<Rightarrow> string \<Rightarrow> string \<Rightarrow> string \<Rightarrow> string \<Rightarrow> string" where
  "format_tracking_update t customer_name site_id address tech_notes =
     (let devices = map device_line (filter is_modem (tk_network_devices t));
          device_info = (if devices = [] then ''N/A'' @ nl @ ''N/A'' else join_with (nl @ nl) devices)
      in ''INFOVULCAN: '' @ show_nat (unat (tk_ticket_id t)) @ nl
         @ ''CUSTOMER: '' @ or_na (tk_customer_ticket_number t) @ nl
         @ ''3RD_PARTY: '' @ or_na (tk_other_ticket_number t) @ nl @ nl
         @ device_info @ nl @ nl
         @ customer_name @ nl @ site_id @ nl @ address @ nl @ nl @ ''***'' @ nl @ nl @ tech_notes)"

fun status_name :: "ticket_status \<Rightarrow> string" where
  "status_name Open = ''Open''"
| "status_name AwaitingCustomer = ''AwaitingCustomer''"
| "status_name AwaitingISP = ''AwaitingISP''"
| "status_name AwaitingPartner = ''AwaitingPartner''"
| "status_name SupportHold = ''SupportHold''"
| "status_name HandedOff = ''HandedOff''"
| "status_name AppointmentScheduled = ''AppointmentScheduled''"
| "status_name EbondReceived = ''EbondReceived''"
| "status_name VoicemailReceived = ''VoicemailReceived''"
| "status_name AutoClose = ''AutoClose''"
| "status_name Closed = ''Closed''"

definition validate :: "ticket \<Rightarrow> infovulcan_error + unit" where
  "validate t =
     (if requires_resolution (tk_status t) \<and> tk_resolution t = None
      then Inl (ValidationError (''Status '' @ status_name (tk_status t) @ '' requires a resolution''))
      else if requires_next_action (tk_status t) \<and> tk_next_action t = NoAction
      then Inl (ValidationError (''Status '' @ status_name (tk_status t) @ '' requires a next action''))
      else Inr ())"

subsection \<open>Discriminants\<close>

lemmas from_u8_defs =
  symptom_from_u8_def priority_from_u8_def status_from_u8_def resolution_from_u8_def

lemma symptom_roundtrip [simp]: "symptom_from_u8 (symptom_u8 s) = s"
  by (cases s) (simp_all add: from_u8_defs)

lemma priority_roundtrip [simp]: "priority_from_u8 (priority_u8 p) = p"
  by (cases p) (simp_all add: from_u8_defs)

lemma status_roundtrip [simp]: "status_from_u8 (status_u8 s) = s"
  by (cases s) (simp_all add: from_u8_defs)

lemma resolution_roundtrip [simp]: "resolution_from_u8 (resolution_u8 r) = r"
  by (cases r) (simp_all add: from_u8_defs)

lemma symptom_unknown_default: "n \<notin> range symptom_u8 \<Longrightarrow> symptom_from_u8 n = SymUnknown"
proof -
  have "symptom_from_u8 n = SymUnknown \<or> symptom_u8 (symptom_from_u8 n) = n" by (simp add: from_u8_defs)
  then show "n \<notin> range symptom_u8 \<Longrightarrow> symptom_from_u8 n = SymUnknown" by (metis rangeI)
qed

lemma priority_unknown_default: "n \<notin> range priority_u8 \<Longrightarrow> priority_from_u8 n = PriUnknown"
proof -
  have "priority_from_u8 n = PriUnknown \<or> priority_u8 (priority_from_u8 n) = n" by (simp add: from_u8_defs)
  then show "n \<notin> range priority_u8 \<Longrightarrow> priority_from_u8 n = PriUnknown" by (metis rangeI)
qed

lemma status_unknown_default: "n \<notin> range status_u8 \<Longrightarrow> status_from_u8 n = Open"
proof -
  have "status_from_u8 n = Open \<or> status_u8 (status_from_u8 n) = n" by (simp add: from_u8_defs)
  then show "n \<notin> range status_u8 \<Longrightarrow> status_from_u8 n = Open" by (metis rangeI)
qed

lemma resolution_unknown_default: "n \<notin> range resolution_u8 \<Longrightarrow> resolution_from_u8 n = ResNone"
proof -
  have "resolution_from_u8 n = ResNone \<or> resolution_u8 (resolution_from_u8 n) = n" by (simp add: from_u8_defs)
  then show "n \<notin> range resolution_u8 \<Longrightarrow> resolution_from_u8 n = ResNone" by (metis rangeI)
qed

text \<open>
  The wire decoding of every ticket vocabulary is total and lossless: each enumeration
  value survives its \<open>u8\<close> discriminant, and every byte that is no discriminant decodes to
  the documented default.
\<close>

theorem vocabulary_decoding:
  "symptom_from_u8 (symptom_u8 sy) = sy \<and> priority_from_u8 (priority_u8 pr) = pr
   \<and> status_from_u8 (status_u8 st) = st \<and> resolution_from_u8 (resolution_u8 re) = re
   \<and> (n \<notin> range symptom_u8 \<longrightarrow> symptom_from_u8 n = SymUnknown)
   \<and> (n \<notin> range priority_u8 \<longrightarrow> priority_from_u8 n = PriUnknown)
   \<and> (n \<notin> range status_u8 \<longrightarrow> status_from_u8 n = Open)
   \<and> (n \<notin> range resolution_u8 \<longrightarrow> resolution_from_u8 n = ResNone)"
  using symptom_unknown_default priority_unknown_default status_unknown_default
    resolution_unknown_default by simp

theorem vocabulary_decoding_witness:
  "(100 :: u8) \<notin> range status_u8 \<and> status_from_u8 100 = Open"
proof -
  have "(100 :: u8) \<noteq> status_u8 s" for s by (cases s) simp_all
  then have h: "(100 :: u8) \<notin> range status_u8" by auto
  show ?thesis using vocabulary_decoding [of undefined undefined undefined undefined 100] h by blast
qed

subsection \<open>The lifecycle\<close>

lemma can_transition_refl [simp]: "can_transition_to s s"
  by (simp add: can_transition_to_def)

lemma terminal_only_self: "is_terminal s \<Longrightarrow> can_transition_to s t \<longleftrightarrow> t = s"
  by (auto simp: is_terminal_def can_transition_to_def)

lemma nonterminal_to_Open: "\<not> is_terminal s \<Longrightarrow> can_transition_to s Open"
  by (cases s) (auto simp: is_terminal_def can_transition_to_def)

lemma Open_to_any: "can_transition_to Open t"
  by (cases t) (auto simp: can_transition_to_def)

lemma terminal_reach: "can_transition_to\<^sup>*\<^sup>* s t \<Longrightarrow> is_terminal s \<Longrightarrow> t = s"
  by (induction rule: rtranclp_induct) (auto simp: terminal_only_self)

text \<open>The lifecycle as a whole. From a working status every status can be reached by
  permitted changes, and from a terminal status none but itself, so the terminal statuses
  are exactly the sinks of the matrix.
\<close>

theorem lifecycle_reachability:
  "can_transition_to\<^sup>*\<^sup>* s t \<longleftrightarrow> s = t \<or> \<not> is_terminal s"
proof
  assume "can_transition_to\<^sup>*\<^sup>* s t"
  then show "s = t \<or> \<not> is_terminal s" using terminal_reach by blast
next
  assume "s = t \<or> \<not> is_terminal s"
  then show "can_transition_to\<^sup>*\<^sup>* s t"
    using nonterminal_to_Open Open_to_any
    by (meson r_into_rtranclp rtranclp.rtrancl_into_rtrancl rtranclp.rtrancl_refl)
qed

theorem lifecycle_reachability_witness:
  "can_transition_to\<^sup>*\<^sup>* EbondReceived VoicemailReceived \<and> \<not> can_transition_to\<^sup>*\<^sup>* Closed Open"
  using lifecycle_reachability [of EbondReceived VoicemailReceived] lifecycle_reachability [of Closed Open]
  by (simp add: is_terminal_def)

subsection \<open>MAC addresses\<close>

definition hex_upper :: "char \<Rightarrow> bool" where
  "hex_upper c \<longleftrightarrow> char_in CHR ''0'' CHR ''9'' c \<or> char_in CHR ''A'' CHR ''F'' c"

text \<open>The canonical form: six colon-separated pairs of upper-case hexadecimal digits.\<close>

definition mac_canonical :: "string \<Rightarrow> bool" where
  "mac_canonical s \<longleftrightarrow>
     (let parts = split_on CHR '':'' s
      in length parts = 6 \<and> (\<forall>p \<in> set parts. length p = 2 \<and> list_all hex_upper p))"

lemma char_of_code_less: "c \<le> d \<longleftrightarrow> (of_char c :: nat) \<le> of_char d" for c d :: char
  by (simp add: less_eq_char_def)

lemma ascii_upper_hex:
  assumes "is_ascii_hexdigit c"
  shows "hex_upper (ascii_upper c)"
proof -
  have "ascii_upper c = c \<or> char_in CHR ''a'' CHR ''f'' c"
    using assms by (auto simp: is_ascii_hexdigit_def ascii_upper_def char_in_def char_of_code_less)
  then show ?thesis
  proof
    assume eq: "ascii_upper c = c"
    have "\<not> char_in CHR ''a'' CHR ''f'' c"
    proof
      assume a: "char_in CHR ''a'' CHR ''f'' c"
      then have r: "97 \<le> (of_char c :: nat)" "(of_char c :: nat) \<le> 102"
        by (simp_all add: char_in_def char_of_code_less)
      with eq have "char_of (of_char c - 32 :: nat) = c"
        by (auto simp: ascii_upper_def char_in_def char_of_code_less split: if_splits)
      then have "(of_char (char_of (of_char c - 32 :: nat)) :: nat) = of_char c" by simp
      with r show False by simp
    qed
    with assms eq show ?thesis by (simp add: is_ascii_hexdigit_def hex_upper_def)
  next
    assume "char_in CHR ''a'' CHR ''f'' c"
    then have r: "97 \<le> (of_char c :: nat)" "(of_char c :: nat) \<le> 102"
      by (simp_all add: char_in_def char_of_code_less)
    then have u: "ascii_upper c = char_of (of_char c - 32 :: nat)"
      by (auto simp: ascii_upper_def char_in_def char_of_code_less)
    have "(of_char (ascii_upper c) :: nat) = of_char c - 32"
      using r by (simp add: u)
    moreover have "65 \<le> (of_char c - 32 :: nat)" "(of_char c - 32 :: nat) \<le> 70"
      using r by linarith+
    ultimately show ?thesis by (simp add: hex_upper_def char_in_def char_of_code_less)
  qed
qed

lemma hex_upper_facts:
  assumes "hex_upper c"
  shows "is_ascii_hexdigit c" "ascii_upper c = c" "c \<noteq> CHR '':''" "c \<noteq> CHR ''-''"
  using assms
  by (auto simp: hex_upper_def is_ascii_hexdigit_def ascii_upper_def char_in_def char_of_code_less)

lemma ascii_upper_colon [simp]: "ascii_upper c = CHR '':'' \<longleftrightarrow> c = CHR '':''"
proof
  assume a: "ascii_upper c = CHR '':''"
  show "c = CHR '':''"
  proof (cases "char_in CHR ''a'' CHR ''z'' c")
    case True
    then have "(of_char (ascii_upper c) :: nat) = of_char c - 32" and "97 \<le> (of_char c :: nat)"
      by (auto simp: ascii_upper_def char_in_def char_of_code_less)
    then have "65 \<le> (of_char (ascii_upper c) :: nat)" by linarith
    with a show ?thesis by simp
  next
    case False
    with a show ?thesis by (simp add: ascii_upper_def)
  qed
next
  assume "c = CHR '':''"
  then show "ascii_upper c = CHR '':''" by (simp add: ascii_upper_def char_in_def char_of_code_less)
qed

lemma split_on_upper:
  "split_on CHR '':'' (map ascii_upper s) = map (map ascii_upper) (split_on CHR '':'' s)"
  by (induction s) (auto split: list.splits)

lemma set_split_on: "set s \<subseteq> insert sep (\<Union>p \<in> set (split_on sep s). set p)"
proof (induction s)
  case Nil
  then show ?case by simp
next
  case (Cons c s)
  then show ?case by (cases "split_on sep s") (auto simp: subset_iff)
qed

lemma canonical_chars:
  assumes "mac_canonical s" and "c \<in> set s"
  shows "c = CHR '':'' \<or> hex_upper c"
  using assms set_split_on [of s "CHR '':''"]
  by (fastforce simp: mac_canonical_def Let_def list_all_iff)

lemma mac_canonical_fixed:
  assumes "mac_canonical s"
  shows "mac_new s = Inr (MacAddress s)"
proof -
  have c: "c = CHR '':'' \<or> hex_upper c" if "c \<in> set s" for c
    using canonical_chars [OF assms that] .
  have "replace_dash s = s"
    unfolding replace_dash_def using c hex_upper_facts(4) by (intro map_idI) auto
  moreover have "map ascii_upper s = s"
  proof (rule map_idI)
    fix x assume "x \<in> set s"
    then show "ascii_upper x = x" using c hex_upper_facts(2) ascii_upper_colon by blast
  qed
  moreover have "list_all mac_part_ok (split_on CHR '':'' s)"
    using assms hex_upper_facts(1)
    by (auto simp: mac_canonical_def mac_part_ok_def list_all_iff Let_def)
  ultimately show ?thesis using assms by (simp add: mac_new_def mac_canonical_def Let_def)
qed

lemma mac_new_is_canonical:
  assumes "mac_new s = Inr m"
  shows "mac_canonical (as_str m)"
proof -
  let ?n = "replace_dash s"
  have len: "length (split_on CHR '':'' ?n) = 6"
    and ok: "list_all mac_part_ok (split_on CHR '':'' ?n)"
    and m: "as_str m = map ascii_upper ?n"
    using assms by (auto simp: mac_new_def Let_def split: if_splits)
  show ?thesis
    using len ok ascii_upper_hex
    by (auto simp: m mac_canonical_def split_on_upper mac_part_ok_def list_all_iff Let_def)
qed

text \<open>
  \<open>MacAddress::new\<close> only produces the canonical form (six colon-separated pairs of
  upper-case hexadecimal digits), whichever separators and letter case the input used, and
  normalising a second time changes nothing.
\<close>

theorem mac_new_normalises:
  assumes "mac_new s = Inr m"
  shows "mac_canonical (as_str m) \<and> mac_new (as_str m) = Inr m"
  using mac_new_is_canonical [OF assms] mac_canonical_fixed by (cases m) simp

theorem mac_new_normalises_witness:
  "mac_canonical ''AA:BB:CC:DD:EE:0F'' \<and> mac_new ''aa-bb:cc-DD-ee-0f'' = Inr (MacAddress ''AA:BB:CC:DD:EE:0F'')"
proof -
  have h: "mac_new ''aa-bb:cc-DD-ee-0f'' = Inr (MacAddress ''AA:BB:CC:DD:EE:0F'')" by code_simp
  show ?thesis using mac_new_normalises [OF h] h by simp
qed

subsection \<open>Validation\<close>

text \<open>
  \<open>Ticket::validate\<close> accepts exactly the tickets the documentation asks for: a terminal
  status has a resolution, and an open or awaiting status has a next action. In particular
  the ticket that \<open>Ticket::new\<close> builds is rejected, since it is open with no next action.
\<close>

theorem validate_spec:
  "(validate t = Inr () \<longleftrightarrow>
      (is_terminal (tk_status t) \<longrightarrow> tk_resolution t \<noteq> None) \<and>
      (requires_next_action (tk_status t) \<longrightarrow> tk_next_action t \<noteq> NoAction))
   \<and> validate (ticket_new now i title project acct symptom creator)
       = Inl (ValidationError ''Status Open requires a next action'')"
  by (auto simp: validate_def requires_resolution_def is_terminal_def requires_next_action_def
      ticket_new_def)

theorem validate_spec_witness:
  "validate ((ticket_new \<lparr>dt_secs = 0, dt_nanos = 0\<rparr> 7 ''t'' ''p'' 1 Power 2)
      \<lparr>tk_status := Closed, tk_resolution := Some Resolved\<rparr>) = Inr ()"
  by (simp add: validate_spec [THEN conjunct1] ticket_new_def is_terminal_def requires_next_action_def)

end
