(* ===== verification/Kv_Store.thy ===== *)
theory Kv_Store
  imports Sled_Api
begin

text \<open>
  The interface between the storage layer of a service and the Raft code above it, as a
  contract: the Raft metadata, the snapshot builder and the snapshot installer only use
  \<open>put\<close>, \<open>get\<close>, \<open>delete\<close> and a full \<open>list\<close>. The two services have storage layers of their own
  (the custodian's does not flush); each interprets the locale with its operations. The
  parameter \<open>ok\<close> is the condition under which a provider keeps the laws, the health of the disk.
\<close>

definition restore :: "(string \<times> bytes \<times> bytes) list \<Rightarrow> world \<Rightarrow> world" where
  "restore items = fold (\<lambda>(c, k, v) W. wput W c k v) items"

locale kv_store =
  fixes ok :: bool
    and V :: "'d \<Rightarrow> world"
    and kput :: "string \<Rightarrow> bytes \<Rightarrow> bytes \<Rightarrow> ('d, unit) act"
    and kget :: "string \<Rightarrow> bytes \<Rightarrow> ('d, bytes option) act"
    and kdelete :: "string \<Rightarrow> bytes \<Rightarrow> ('d, unit) act"
    and klist :: "string \<Rightarrow> ('d, (bytes \<times> bytes) list) act"
  assumes does_kput: "ok \<Longrightarrow> does V (kput c k v) W (Inr ()) (wput W c k v)"
    and does_kget: "ok \<Longrightarrow> does V (kget c k) W (Inr (W c k)) W"
    and does_kdelete: "ok \<Longrightarrow> does V (kdelete c k) W (Inr ()) (wdel W c k)"
    and does_klist: "ok \<Longrightarrow> scan_of (W c) xs \<Longrightarrow> does V (klist c) W (Inr xs) W"
begin

lemma put_then_get:
  assumes ok
  shows "does V (thenA (kput c k v) (kget c' k')) W
           (Inr (if c' = c \<and> k' = k then Some v else W c' k')) (wput W c k v)"
  using does_then [OF does_kput [OF assms] does_kget [OF assms]]
  unfolding wput_apply [of W c k v c' k', symmetric] .

lemma delete_then_get:
  assumes ok
  shows "does V (thenA (kdelete c k) (kget c' k')) W
           (Inr (if c' = c \<and> k' = k then None else W c' k')) (wdel W c k)"
  using does_then [OF does_kdelete [OF assms] does_kget [OF assms]]
  unfolding wdel_apply [of W c k c' k', symmetric] .

text \<open>Restoring a list of pairs, the way a snapshot is installed.\<close>

lemma does_restore:
  assumes ok
  shows "does V (for_each (\<lambda>(c, k, v). kput c k v) items) W (Inr ()) (restore items W)"
  unfolding restore_def
proof (rule does_for_each)
  fix x :: "string \<times> bytes \<times> bytes" and W
  show "does V (case x of (c, k, v) \<Rightarrow> kput c k v) W (Inr ()) ((\<lambda>(c, k, v) W. wput W c k v) x W)"
    by (cases x) (simp add: does_kput [OF assms])
qed

end

text \<open>The contents after restoring pairs that agree on a map: that map at their keys.\<close>

lemma restore_agree:
  assumes "\<And>c k v. (c, k, v) \<in> set items \<Longrightarrow> D c k = Some v"
  shows "restore items W t j = (if \<exists>v. (t, j, v) \<in> set items then D t j else W t j)"
  using assms
proof (induction items arbitrary: W)
  case Nil
  then show ?case by (simp add: restore_def)
next
  case (Cons x items)
  obtain c k v where x: "x = (c, k, v)" by (cases x)
  have "restore (x # items) W t j = restore items (wput W c k v) t j"
    by (simp add: restore_def x)
  also have "\<dots> = (if \<exists>v. (t, j, v) \<in> set items then D t j else wput W c k v t j)"
    by (rule Cons.IH) (simp add: Cons.prems)
  finally show ?case using Cons.prems [of c k v] by (auto simp: x wput_apply)
qed

end
