(* ===== verification/Lock_Storage.thy ===== *)
theory Lock_Storage
  imports Db_Storage Ticket_Model Kv_Store
begin

text \<open>
  \<open>custodian/src/storage.rs\<close>: the storage layer of the custodian and its lock table. Unlike
  the database's layer it does not flush after a write. The tree names of the Raft state are
  the same strings as in the database service.

  \<open>from_timestamp\<close> of \<open>chrono\<close> and the text of a \<open>uuid\<close> are third-party; with the codec of
  \<open>LockInfo\<close> they are the fields of the environment \<open>lockstore\<close>.
\<close>

definition TREE_LOCKS :: string where "TREE_LOCKS = ''locks''"

record lock_info =
  lk_ticket_id :: u64
  lk_user_id :: uuid
  lk_acquired_at :: datetime
  lk_expires_at_unix :: i64

definition is_expired :: "lock_info \<Rightarrow> i64 \<Rightarrow> bool" where
  "is_expired l now_unix \<longleftrightarrow>
     lk_expires_at_unix l \<noteq> 0 \<and> sint (lk_expires_at_unix l) \<le> sint now_unix"

record 'd lockstore = "'d sled" +
  li_codec :: "lock_info codec"
  ts_from_unix :: "i64 \<Rightarrow> datetime option"
  uuid_text :: "uuid \<Rightarrow> string"

subsection \<open>Key-value operations\<close>

definition c_get_tree :: "('d, 'z) sled_scheme \<Rightarrow> string \<Rightarrow> ('d, unit) act" where
  "c_get_tree E name = sl_open E name"

definition c_data_tree_names :: "('d, 'z) sled_scheme \<Rightarrow> 'd \<Rightarrow> string list" where
  "c_data_tree_names E d =
     (let skip = [utf8_bytes TREE_RAFT_METADATA, utf8_bytes TREE_RAFT_STATE,
                  utf8_bytes TREE_RAFT_LOG, utf8_bytes ''__sled__default'']
      in map from_utf8_lossy (filter (\<lambda>name. name \<notin> set skip) (sl_names E d)))"

definition c_put :: "('d, 'z) sled_scheme \<Rightarrow> string \<Rightarrow> bytes \<Rightarrow> bytes \<Rightarrow> ('d, unit) act" where
  "c_put E tree key val = thenA (c_get_tree E tree) (sl_insert E tree key val)"

definition c_get :: "('d, 'z) sled_scheme \<Rightarrow> string \<Rightarrow> bytes \<Rightarrow> ('d, bytes option) act" where
  "c_get E tree key = thenA (c_get_tree E tree) (readA (sl_get E tree key))"

definition c_delete :: "('d, 'z) sled_scheme \<Rightarrow> string \<Rightarrow> bytes \<Rightarrow> ('d, unit) act" where
  "c_delete E tree key = thenA (c_get_tree E tree) (sl_remove E tree key)"

fun c_list_loop ::
  "nat option \<Rightarrow> (store_error + bytes \<times> bytes) list \<Rightarrow> (bytes \<times> bytes) list
   \<Rightarrow> store_error + (bytes \<times> bytes) list" where
  "c_list_loop limit [] results = Inr results"
| "c_list_loop limit (Inl e # items) results = Inl e"
| "c_list_loop limit (Inr p # items) results =
     (if (case limit of Some l \<Rightarrow> l \<le> length (results @ [p]) | None \<Rightarrow> False)
      then Inr (results @ [p])
      else c_list_loop limit items (results @ [p]))"

definition c_list ::
  "('d, 'z) sled_scheme \<Rightarrow> string \<Rightarrow> bytes \<Rightarrow> nat option \<Rightarrow> ('d, (bytes \<times> bytes) list) act" where
  "c_list E tree prefix limit =
     thenA (c_get_tree E tree)
       (readA (\<lambda>d. c_list_loop limit
          (if prefix = [] then sl_iter E tree d else sl_prefix E tree prefix d) []))"

definition c_exists :: "('d, 'z) sled_scheme \<Rightarrow> string \<Rightarrow> bytes \<Rightarrow> ('d, bool) act" where
  "c_exists E tree key = thenA (c_get_tree E tree) (readA (sl_contains E tree key))"

subsection \<open>Locks\<close>

definition epoch :: datetime where
  "epoch = \<lparr>dt_secs = 0, dt_nanos = 0\<rparr>"

definition lock_expiry :: "i64 \<Rightarrow> i64 \<Rightarrow> i64" where
  "lock_expiry at_unix ttl_secs = (if 0 < sint ttl_secs then at_unix + ttl_secs else 0)"

definition make_lock :: "('d, 'z) lockstore_scheme \<Rightarrow> u64 \<Rightarrow> uuid \<Rightarrow> i64 \<Rightarrow> i64 \<Rightarrow> lock_info" where
  "make_lock E ticket_id user_id at_unix ttl_secs =
     \<lparr>lk_ticket_id = ticket_id, lk_user_id = user_id,
      lk_acquired_at = (case ts_from_unix E at_unix of Some t \<Rightarrow> t | None \<Rightarrow> epoch),
      lk_expires_at_unix = lock_expiry at_unix ttl_secs\<rparr>"

definition acquire_lock_at ::
  "('d, 'z) lockstore_scheme \<Rightarrow> u64 \<Rightarrow> uuid \<Rightarrow> i64 \<Rightarrow> i64 \<Rightarrow> ('d, unit) act" where
  "acquire_lock_at E ticket_id user_id at_unix ttl_secs =
     bindA (lift_res (cd_ser (li_codec E) (make_lock E ticket_id user_id at_unix ttl_secs)))
       (\<lambda>val. c_put E TREE_LOCKS (to_be_bytes ticket_id) val)"

definition acquire_lock :: "('d, 'z) lockstore_scheme \<Rightarrow> i64 \<Rightarrow> u64 \<Rightarrow> uuid \<Rightarrow> ('d, unit) act" where
  "acquire_lock E now_unix ticket_id user_id = acquire_lock_at E ticket_id user_id now_unix 0"

definition release_lock :: "('d, 'z) lockstore_scheme \<Rightarrow> u64 \<Rightarrow> ('d, unit) act" where
  "release_lock E ticket_id = c_delete E TREE_LOCKS (to_be_bytes ticket_id)"

definition is_locked :: "('d, 'z) lockstore_scheme \<Rightarrow> u64 \<Rightarrow> ('d, bool) act" where
  "is_locked E ticket_id = c_exists E TREE_LOCKS (to_be_bytes ticket_id)"

definition get_lock_info :: "('d, 'z) lockstore_scheme \<Rightarrow> u64 \<Rightarrow> ('d, lock_info option) act" where
  "get_lock_info E ticket_id =
     bindA (c_get E TREE_LOCKS (to_be_bytes ticket_id)) (\<lambda>r.
       case r of
         Some val \<Rightarrow> bindA (lift_res (cd_de (li_codec E) val)) (\<lambda>i. ret (Some i))
       | None \<Rightarrow> ret None)"

fun all_locks_loop ::
  "lock_info codec \<Rightarrow> (store_error + bytes \<times> bytes) list \<Rightarrow> (u64 \<rightharpoonup> lock_info)
   \<Rightarrow> store_error + (u64 \<rightharpoonup> lock_info)" where
  "all_locks_loop c [] locks = Inr locks"
| "all_locks_loop c (Inl e # items) locks = Inl e"
| "all_locks_loop c (Inr (k, v) # items) locks =
     (case from_be_bytes k of
        None \<Rightarrow> Inl InvalidKeyLength
      | Some ticket_id \<Rightarrow> (case cd_de c v of
          Inl e \<Rightarrow> Inl e
        | Inr i \<Rightarrow> all_locks_loop c items (locks(ticket_id \<mapsto> i))))"

definition get_all_locks :: "('d, 'z) lockstore_scheme \<Rightarrow> ('d, u64 \<rightharpoonup> lock_info) act" where
  "get_all_locks E =
     thenA (c_get_tree E TREE_LOCKS)
       (readA (\<lambda>d. all_locks_loop (li_codec E) (sl_iter E TREE_LOCKS d) Map.empty))"

datatype lock_command =
    AcquireLock u64 uuid i64 i64
  | ReleaseLock u64 uuid

fun lock_command_apply :: "('d, 'z) lockstore_scheme \<Rightarrow> lock_command \<Rightarrow> ('d, unit) act" where
  "lock_command_apply E (AcquireLock ticket_id user_id at_unix ttl_secs) =
     acquire_lock_at E ticket_id user_id at_unix ttl_secs"
| "lock_command_apply E (ReleaseLock ticket_id user_id) = release_lock E ticket_id"

subsection \<open>Effects\<close>

lemma does_c_get_tree: "sled_ok E \<Longrightarrow> does (view E) (c_get_tree E c) W (Inr ()) W"
  unfolding c_get_tree_def by (rule sled_okD)

lemma does_c_put: "sled_ok E \<Longrightarrow> does (view E) (c_put E c k v) W (Inr ()) (wput W c k v)"
  unfolding c_put_def by (rule does_then does_c_get_tree sled_okD | assumption)+

lemma does_c_delete: "sled_ok E \<Longrightarrow> does (view E) (c_delete E c k) W (Inr ()) (wdel W c k)"
  unfolding c_delete_def by (rule does_then does_c_get_tree sled_okD | assumption)+

lemma does_c_get: "sled_ok E \<Longrightarrow> does (view E) (c_get E c k) W (Inr (W c k)) W"
  unfolding c_get_def
  by (rule does_then, erule does_c_get_tree, rule does_read) (auto simp: sled_okD(7))

lemma does_c_exists: "sled_ok E \<Longrightarrow> does (view E) (c_exists E c k) W (Inr (W c k \<noteq> None)) W"
  unfolding c_exists_def
  by (rule does_then, erule does_c_get_tree, rule does_read) (auto simp: sled_okD(8))

text \<open>The limit is tested after a pair is added, so a limit of 0 still yields one pair.\<close>

lemma c_list_loop_ok:
  "c_list_loop limit (map Inr xs) acc =
     Inr (acc @ (case limit of None \<Rightarrow> xs | Some l \<Rightarrow> take (max 1 (l - length acc)) xs))"
proof (induction xs arbitrary: acc)
  case Nil
  then show ?case by (simp split: option.split)
next
  case (Cons x xs)
  show ?case
  proof (cases limit)
    case None
    then show ?thesis using Cons.IH by simp
  next
    case (Some l)
    show ?thesis
    proof (cases "l \<le> length (acc @ [x])")
      case True
      then have "max 1 (l - length acc) = 1" by simp
      then show ?thesis using True Some by simp
    next
      case False
      then have "max 1 (l - length acc) = Suc (max 1 (l - length (acc @ [x])))" by (simp add: max_def) arith
      then show ?thesis using False Some Cons.IH [of "acc @ [x]"] by simp
    qed
  qed
qed

lemma does_c_list:
  assumes ok: "sled_ok E" and xs: "scan_of (W c) xs"
  shows "does (view E) (c_list E c p limit) W
     (Inr (case limit of None \<Rightarrow> filter (\<lambda>x. is_prefix p (fst x)) xs
        | Some l \<Rightarrow> take (max 1 l) (filter (\<lambda>x. is_prefix p (fst x)) xs))) W"
  unfolding c_list_def
proof (rule does_then [OF does_c_get_tree [OF ok]], rule does_read)
  fix d assume "view E d = W"
  then have s: "scan E c d = xs" using scan_facts(1) [OF ok] xs scan_of_unique by metis
  have "(if p = [] then sl_iter E c d else sl_prefix E c p d)
      = map Inr (filter (\<lambda>x. is_prefix p (fst x)) xs)"
    by (simp add: scan_facts(2,3) [OF ok] s)
  then show "c_list_loop limit (if p = [] then sl_iter E c d else sl_prefix E c p d) []
      = Inr (case limit of None \<Rightarrow> filter (\<lambda>x. is_prefix p (fst x)) xs
          | Some l \<Rightarrow> take (max 1 l) (filter (\<lambda>x. is_prefix p (fst x)) xs))"
    by (simp only: c_list_loop_ok) (simp split: option.split)
qed

interpretation lock_kv: kv_store "sled_ok E" "view E" "c_put E" "c_get E" "c_delete E"
    "\<lambda>c. c_list E c [] None" for E :: "('d, 'z) sled_scheme"
proof
  fix W :: world and c xs
  assume "sled_ok E" and xs: "scan_of (W c) xs"
  from does_c_list [OF this(1), where W = W and c = c, OF xs, where p = "[]" and limit = None]
  show "does (view E) (c_list E c [] None) W (Inr xs) W" by simp
qed (auto intro: does_c_put does_c_get does_c_delete)

end
