(* ===== verification/Raft_Types.thy ===== *)
theory Raft_Types
  imports Kv_Store Db_Storage
begin

text \<open>
  The consensus engine is the third-party crate \<open>openraft\<close>; the services implement its
  storage trait. This theory has the values the trait passes in and out, with the public
  fields the code reads, and the error constructors the two \<open>raft.rs\<close> files define alike. The
  type of a cluster membership, which the code only stores and hands back, is the parameter
  \<open>'m\<close>.
\<close>

record log_id =
  li_term :: u64
  li_node :: u64
  li_index :: u64

definition log_id_default :: log_id where
  "log_id_default = \<lparr>li_term = 0, li_node = 0, li_index = 0\<rparr>"

record vote =
  vt_term :: u64
  vt_node_id :: u64
  vt_committed :: bool

datatype ('p, 'm) entry_payload = Blank | Normal 'p | Membership 'm

record ('p, 'm) entry =
  en_log_id :: log_id
  en_payload :: "('p, 'm) entry_payload"

datatype 'm stored_membership = DefaultMembership | StoredMembership "log_id option" 'm

record 'm snapshot_meta =
  mt_last_log_id :: "log_id option"
  mt_last_membership :: "'m stored_membership"
  mt_snapshot_id :: string

record log_state =
  ls_last_log_id :: "log_id option"
  ls_last_purged :: "log_id option"

datatype range_bound = Included u64 | Excluded u64 | Unbounded

subsection \<open>Storage errors\<close>

datatype error_subject =
    SubLog log_id
  | SubVote
  | SubStateMachine
  | SubSnapshot "log_id option" string

datatype error_verb = VerbRead | VerbWrite

text \<open>\<open>StorageIOError\<close> with the cause it was made from.\<close>

datatype raft_error = RaftIo error_subject error_verb store_error

definition io_err :: "error_subject \<Rightarrow> error_verb \<Rightarrow> store_error \<Rightarrow> raft_error" where
  "io_err subject verb e = RaftIo subject verb e"

definition log_read :: "store_error \<Rightarrow> raft_error" where
  "log_read e = io_err (SubLog log_id_default) VerbRead e"

definition log_write :: "store_error \<Rightarrow> raft_error" where
  "log_write e = io_err (SubLog log_id_default) VerbWrite e"

definition sm_read :: "store_error \<Rightarrow> raft_error" where
  "sm_read e = io_err SubStateMachine VerbRead e"

definition sm_write :: "store_error \<Rightarrow> raft_error" where
  "sm_write e = io_err SubStateMachine VerbWrite e"

definition vote_write :: "store_error \<Rightarrow> raft_error" where
  "vote_write e = io_err SubVote VerbWrite e"

definition log_w :: "log_id \<Rightarrow> store_error \<Rightarrow> raft_error" where
  "log_w i e = io_err (SubLog i) VerbWrite e"

definition log_r :: "log_id \<Rightarrow> store_error \<Rightarrow> raft_error" where
  "log_r i e = io_err (SubLog i) VerbRead e"

subsection \<open>The state of a store\<close>

text \<open>
  What a store keeps in memory next to the disk: the last applied log id and membership of
  the state machine, the vote and the last purged id of \<open>RaftMetadata\<close>. The handles of all
  parts point to one sled database, so the state of a store is that database with this record.
\<close>

record 'm raft_mem =
  rm_last_applied :: "log_id option"
  rm_membership :: "'m stored_membership"
  rm_vote :: "vote option"
  rm_purged :: "log_id option"

type_synonym ('d, 'm) node = "'d \<times> 'm raft_mem"

definition on_disk :: "('d, 'e, 'a) eff \<Rightarrow> ('d \<times> 's, 'e, 'a) eff" where
  "on_disk m = (\<lambda>(d, s). case m d of (r, d') \<Rightarrow> (r, (d', s)))"

definition on_mem :: "('s \<Rightarrow> 's) \<Rightarrow> ('d \<times> 's, 'e, unit) eff" where
  "on_mem f = (\<lambda>(d, s). (Inr (), (d, f s)))"

definition read_mem :: "('s \<Rightarrow> 'a) \<Rightarrow> ('d \<times> 's, 'e, 'a) eff" where
  "read_mem f = (\<lambda>(d, s). (Inr (f s), (d, s)))"

definition nview :: "('d, 'z) sled_scheme \<Rightarrow> 'd \<times> 's \<Rightarrow> world \<times> 's" where
  "nview E n = (view E (fst n), snd n)"

lemma does_on_disk: "does (view E) m W r W' \<Longrightarrow> does (nview E) (on_disk m) (W, s) r (W', s)"
  by (auto simp: does_def on_disk_def nview_def split: prod.split)

lemma does_on_mem: "does (nview E) (on_mem f) (W, s) (Inr ()) (W, f s)"
  by (auto simp: does_def on_mem_def nview_def)

lemma does_read_mem: "does (nview E) (read_mem f) (W, s) (Inr (f s)) (W, s)"
  by (auto simp: does_def read_mem_def nview_def)

text \<open>The serialised types of the Raft layer.\<close>

record ('p, 'm) raft_codec =
  rc_entry :: "('p, 'm) entry codec"
  rc_vote :: "vote codec"
  rc_log_id :: "log_id codec"
  rc_snapshot :: "(string \<times> bytes \<times> bytes) list codec"

definition raft_codec_ok :: "('p, 'm) raft_codec \<Rightarrow> bool" where
  "raft_codec_ok C \<longleftrightarrow> codec_ok (rc_entry C) \<and> codec_ok (rc_vote C) \<and> codec_ok (rc_log_id C)
     \<and> codec_ok (rc_snapshot C)"

lemma raft_codec_okD:
  assumes "raft_codec_ok C"
  shows "codec_ok (rc_entry C)" "codec_ok (rc_vote C)" "codec_ok (rc_log_id C)" "codec_ok (rc_snapshot C)"
  using assms by (simp_all add: raft_codec_ok_def)

text \<open>
  The methods of the service's \<open>Storage\<close> type that its \<open>raft.rs\<close> calls.
\<close>

record 'd storage_ops =
  so_get_tree :: "string \<Rightarrow> ('d, unit) act"
  so_put :: "string \<Rightarrow> bytes \<Rightarrow> bytes \<Rightarrow> ('d, unit) act"
  so_get :: "string \<Rightarrow> bytes \<Rightarrow> ('d, bytes option) act"
  so_delete :: "string \<Rightarrow> bytes \<Rightarrow> ('d, unit) act"
  so_list :: "string \<Rightarrow> bytes \<Rightarrow> nat option \<Rightarrow> ('d, (bytes \<times> bytes) list) act"
  so_data_tree_names :: "'d \<Rightarrow> string list"

end
