(* ===== verification/Raft_Store.thy ===== *)
theory Raft_Store
  imports Raft_Types
begin

text \<open>
  The storage trait of the Raft engine as \<open>db/src/raft.rs\<close> and \<open>custodian/src/raft.rs\<close> write
  it. The two files are copies of each other up to the command and response types, the state
  machine's \<open>apply\<close> and the \<open>Storage\<close> they call, so the operations are defined once, over the
  methods \<open>S\<close> of the service's storage; \<open>Db_Raft\<close> and \<open>Lock_Raft\<close> instantiate them.
\<close>

subsection \<open>Metadata\<close>

definition key_vote :: bytes where "key_vote = utf8_bytes ''vote''"
definition key_last_purged :: bytes where "key_last_purged = utf8_bytes ''last_purged''"

definition load_meta :: "'d storage_ops \<Rightarrow> 'a codec \<Rightarrow> bytes \<Rightarrow> ('d, 'a option) act" where
  "load_meta S c key =
     bindA (so_get S TREE_RAFT_METADATA key) (\<lambda>r.
       case r of
         Some b \<Rightarrow> bindA (lift_res (cd_de c b)) (\<lambda>x. ret (Some x))
       | None \<Rightarrow> ret None)"

definition raft_metadata_new ::
  "'d storage_ops \<Rightarrow> ('p, 'm) raft_codec \<Rightarrow> ('d, vote option \<times> log_id option) act" where
  "raft_metadata_new S C =
     bindA (load_meta S (rc_vote C) key_vote) (\<lambda>vote.
       bindA (load_meta S (rc_log_id C) key_last_purged) (\<lambda>last_purged.
         ret (vote, last_purged)))"

definition persist_vote ::
  "'d storage_ops \<Rightarrow> ('p, 'm) raft_codec \<Rightarrow> vote option \<Rightarrow> ('d, unit) act" where
  "persist_vote S C vote =
     (case vote of
        Some v \<Rightarrow> bindA (lift_res (cd_ser (rc_vote C) v)) (\<lambda>b. so_put S TREE_RAFT_METADATA key_vote b)
      | None \<Rightarrow> so_delete S TREE_RAFT_METADATA key_vote)"

definition persist_last_purged ::
  "'d storage_ops \<Rightarrow> ('p, 'm) raft_codec \<Rightarrow> log_id option \<Rightarrow> ('d, unit) act" where
  "persist_last_purged S C last_purged =
     (case last_purged of
        Some p \<Rightarrow> bindA (lift_res (cd_ser (rc_log_id C) p))
                    (\<lambda>b. so_put S TREE_RAFT_METADATA key_last_purged b)
      | None \<Rightarrow> so_delete S TREE_RAFT_METADATA key_last_purged)"

text \<open>
  \<open>DbStore::new\<close> on an opened database: a state machine that has applied nothing, and the
  metadata found on disk.
\<close>

definition store_new :: "'d storage_ops \<Rightarrow> ('p, 'm) raft_codec \<Rightarrow> ('d, 'm raft_mem) act" where
  "store_new S C =
     bindA (raft_metadata_new S C) (\<lambda>(vote, last_purged).
       ret \<lparr>rm_last_applied = None, rm_membership = DefaultMembership, rm_vote = vote,
            rm_purged = last_purged\<rparr>)"

definition save_vote ::
  "'d storage_ops \<Rightarrow> ('p, 'm) raft_codec \<Rightarrow> vote \<Rightarrow> (('d, 'm) node, raft_error, unit) eff" where
  "save_vote S C vote =
     thenA (on_mem (rm_vote_update (\<lambda>_. Some vote)))
       (on_disk (map_err vote_write (persist_vote S C (Some vote))))"

definition read_vote :: "(('d, 'm) node, raft_error, vote option) eff" where
  "read_vote = read_mem rm_vote"

subsection \<open>The log\<close>

definition range_start :: "range_bound \<Rightarrow> u64" where
  "range_start b = (case b of Included i \<Rightarrow> i | Excluded i \<Rightarrow> i + 1 | Unbounded \<Rightarrow> 0)"

definition range_end :: "range_bound \<Rightarrow> u64 option" where
  "range_end b = (case b of Included i \<Rightarrow> Some i | Excluded i \<Rightarrow> Some (i - 1) | Unbounded \<Rightarrow> None)"

fun read_loop ::
  "('p, 'm) entry codec \<Rightarrow> u64 option \<Rightarrow> (store_error + bytes \<times> bytes) list \<Rightarrow> ('p, 'm) entry list
   \<Rightarrow> raft_error + ('p, 'm) entry list" where
  "read_loop c end_idx [] entries = Inr entries"
| "read_loop c end_idx (Inl e # items) entries = Inl (log_read e)"
| "read_loop c end_idx (Inr (k, v) # items) entries =
     (case from_be_bytes k of
        None \<Rightarrow> Inl (log_read InvalidKeyLength)
      | Some index \<Rightarrow>
          if (case end_idx of Some i \<Rightarrow> i < index | None \<Rightarrow> False) then Inr entries
          else case cd_de c v of
              Inl e \<Rightarrow> Inl (log_r \<lparr>li_term = 0, li_node = 0, li_index = index\<rparr> e)
            | Inr entry \<Rightarrow> read_loop c end_idx items (entries @ [entry]))"

definition try_get_log_entries ::
  "('d, 'z) sled_scheme \<Rightarrow> 'd storage_ops \<Rightarrow> ('p, 'm) raft_codec \<Rightarrow> range_bound \<Rightarrow> range_bound
   \<Rightarrow> ('d, raft_error, ('p, 'm) entry list) eff" where
  "try_get_log_entries E S C start_bound end_bound =
     thenA (map_err log_read (so_get_tree S TREE_RAFT_LOG))
       (readA (\<lambda>d. read_loop (rc_entry C) (range_end end_bound)
          (sl_from E TREE_RAFT_LOG (to_be_bytes (range_start start_bound)) d) []))"

fun append_batch ::
  "('p, 'm) entry codec \<Rightarrow> ('p, 'm) entry list \<Rightarrow> log_id option \<Rightarrow> (bytes \<times> bytes option) list
   \<Rightarrow> raft_error + log_id option \<times> (bytes \<times> bytes option) list" where
  "append_batch c [] last_log_id batch = Inr (last_log_id, batch)"
| "append_batch c (e # es) last_log_id batch =
     (case cd_ser c e of
        Inl x \<Rightarrow> Inl (log_w (en_log_id e) x)
      | Inr val \<Rightarrow> append_batch c es (Some (en_log_id e))
          (batch @ [(to_be_bytes (li_index (en_log_id e)), Some val)]))"

definition unwrap_log_id :: "log_id option \<Rightarrow> log_id" where
  "unwrap_log_id i = (case i of Some l \<Rightarrow> l | None \<Rightarrow> log_id_default)"

definition append_to_log ::
  "('d, 'z) sled_scheme \<Rightarrow> 'd storage_ops \<Rightarrow> ('p, 'm) raft_codec \<Rightarrow> ('p, 'm) entry list \<Rightarrow> ('d, raft_error, unit) eff" where
  "append_to_log E S C entries =
     thenA (map_err log_write (so_get_tree S TREE_RAFT_LOG))
       (bindA (lift_res (append_batch (rc_entry C) entries None [])) (\<lambda>(last_log_id, batch).
          thenA (map_err (log_w (unwrap_log_id last_log_id)) (sl_batch E TREE_RAFT_LOG batch))
            (map_err (log_w (unwrap_log_id last_log_id)) (sl_flush E TREE_RAFT_LOG))))"

fun removal_batch ::
  "log_id \<Rightarrow> (store_error + bytes \<times> bytes) list \<Rightarrow> (bytes \<times> bytes option) list
   \<Rightarrow> raft_error + (bytes \<times> bytes option) list" where
  "removal_batch l [] batch = Inr batch"
| "removal_batch l (Inl e # items) batch = Inl (log_w l e)"
| "removal_batch l (Inr (key, _) # items) batch = removal_batch l items (batch @ [(key, None)])"

definition delete_conflict_logs_since ::
  "('d, 'z) sled_scheme \<Rightarrow> 'd storage_ops \<Rightarrow> log_id \<Rightarrow> ('d, raft_error, unit) eff" where
  "delete_conflict_logs_since E S l =
     thenA (map_err (log_w l) (so_get_tree S TREE_RAFT_LOG))
       (bindA (readA (\<lambda>d. removal_batch l (sl_from E TREE_RAFT_LOG (to_be_bytes (li_index l)) d) []))
         (\<lambda>batch.
           thenA (map_err (log_w l) (sl_batch E TREE_RAFT_LOG batch))
             (map_err (log_w l) (sl_flush E TREE_RAFT_LOG))))"

definition purge_logs_upto ::
  "('d, 'z) sled_scheme \<Rightarrow> 'd storage_ops \<Rightarrow> ('p, 'm) raft_codec \<Rightarrow> log_id \<Rightarrow> (('d, 'm) node, raft_error, unit) eff" where
  "purge_logs_upto E S C l =
     thenA (on_disk
        (thenA (map_err (log_w l) (so_get_tree S TREE_RAFT_LOG))
          (bindA (readA (\<lambda>d. removal_batch l (sl_upto E TREE_RAFT_LOG (to_be_bytes (li_index l)) d) []))
            (\<lambda>batch.
              thenA (map_err (log_w l) (sl_batch E TREE_RAFT_LOG batch))
                (map_err (log_w l) (sl_flush E TREE_RAFT_LOG))))))
       (thenA (on_mem (rm_purged_update (\<lambda>_. Some l)))
         (on_disk (map_err (log_w l) (persist_last_purged S C (Some l)))))"

definition last_item ::
  "('p, 'm) entry codec \<Rightarrow> (store_error + bytes \<times> bytes) list \<Rightarrow> raft_error + log_id option" where
  "last_item c items =
     (if items = [] then Inr None
      else case last items of
          Inl e \<Rightarrow> Inl (log_read e)
        | Inr (_, v) \<Rightarrow> (case cd_de c v of
            Inl e \<Rightarrow> Inl (log_read e) | Inr entry \<Rightarrow> Inr (Some (en_log_id entry))))"

definition get_log_state ::
  "('d, 'z) sled_scheme \<Rightarrow> 'd storage_ops \<Rightarrow> ('p, 'm) raft_codec \<Rightarrow> (('d, 'm) node, raft_error, log_state) eff" where
  "get_log_state E S C =
     thenA (on_disk (map_err log_read (so_get_tree S TREE_RAFT_LOG)))
       (bindA (on_disk (readA (\<lambda>d. last_item (rc_entry C) (sl_iter E TREE_RAFT_LOG d))))
         (\<lambda>last_log_id. bindA (read_mem rm_purged) (\<lambda>last_purged.
            ret \<lparr>ls_last_log_id = last_log_id, ls_last_purged = last_purged\<rparr>)))"

subsection \<open>Applying entries\<close>

definition last_applied_state ::
  "(('d, 'm) node, raft_error, log_id option \<times> 'm stored_membership) eff" where
  "last_applied_state = read_mem (\<lambda>sm. (rm_last_applied sm, rm_membership sm))"

text \<open>
  The loop of \<open>apply_to_state_machine\<close>: \<open>app\<close> is the state machine's \<open>apply\<close>, \<open>blank\<close> the response to
  an entry without a command.
\<close>

fun apply_loop ::
  "('p \<Rightarrow> ('d, 'r) act) \<Rightarrow> 'r \<Rightarrow> ('p, 'm) entry list \<Rightarrow> 'r list
   \<Rightarrow> (('d, 'm) node, raft_error, 'r list) eff" where
  "apply_loop app blank [] responses = ret responses"
| "apply_loop app blank (entry # entries) responses =
     thenA (on_mem (rm_last_applied_update (\<lambda>_. Some (en_log_id entry))))
       (bindA
         (case en_payload entry of
            Blank \<Rightarrow> ret blank
          | Normal cmd \<Rightarrow> on_disk (map_err sm_write (app cmd))
          | Membership membership \<Rightarrow>
              thenA (on_mem (rm_membership_update
                       (\<lambda>_. StoredMembership (Some (en_log_id entry)) membership)))
                (ret blank))
         (\<lambda>response. apply_loop app blank entries (responses @ [response])))"

subsection \<open>Snapshots\<close>

definition install_snapshot ::
  "'d storage_ops \<Rightarrow> ('p, 'm) raft_codec \<Rightarrow> 'm snapshot_meta \<Rightarrow> bytes
   \<Rightarrow> (('d, 'm) node, raft_error, unit) eff" where
  "install_snapshot S C meta data =
     bindA (map_err (io_err (SubSnapshot (mt_last_log_id meta) (mt_snapshot_id meta)) VerbRead)
              (lift_res (cd_de (rc_snapshot C) data)))
       (\<lambda>snapshot_data.
          thenA (on_disk (for_each (\<lambda>(collection, key, val). map_err sm_write (so_put S collection key val))
                   snapshot_data))
            (on_mem (\<lambda>sm. sm\<lparr>rm_last_applied := mt_last_log_id meta,
                              rm_membership := mt_last_membership meta\<rparr>)))"

definition get_current_snapshot ::
  "(('d, 'm) node, raft_error, ('m snapshot_meta \<times> bytes) option) eff" where
  "get_current_snapshot = ret None"

text \<open>
  The builder holds the applied state read when it was made (\<open>get_snapshot_builder\<close>, under the
  state-machine lock).
\<close>

record 'm snapshot_builder =
  sb_last_applied :: "log_id option"
  sb_membership :: "'m stored_membership"

definition get_snapshot_builder :: "(('d, 'm) node, raft_error, 'm snapshot_builder) eff" where
  "get_snapshot_builder = read_mem (\<lambda>sm.
     \<lparr>sb_last_applied = rm_last_applied sm, sb_membership = rm_membership sm\<rparr>)"

fun snapshot_loop ::
  "'d storage_ops \<Rightarrow> string list \<Rightarrow> (string \<times> bytes \<times> bytes) list
   \<Rightarrow> ('d, raft_error, (string \<times> bytes \<times> bytes) list) eff" where
  "snapshot_loop S [] all_data = ret all_data"
| "snapshot_loop S (collection # names) all_data =
     bindA (map_err sm_read (so_list S collection [] None)) (\<lambda>pairs.
       snapshot_loop S names (all_data @ map (\<lambda>(k, v). (collection, k, v)) pairs))"

definition snapshot_id :: "log_id option \<Rightarrow> string" where
  "snapshot_id l0 =
     (case l0 of
        Some l \<Rightarrow> ''snapshot-'' @ show_nat (unat (li_term l)) @ ''-'' @ show_nat (unat (li_index l))
      | None \<Rightarrow> ''snapshot-empty'')"

definition build_snapshot ::
  "'d storage_ops \<Rightarrow> ('p, 'm) raft_codec \<Rightarrow> 'm snapshot_builder
   \<Rightarrow> ('d, raft_error, 'm snapshot_meta \<times> bytes) eff" where
  "build_snapshot S C builder =
     bindA (readA (\<lambda>d. Inr (so_data_tree_names S d))) (\<lambda>names.
       bindA (snapshot_loop S names []) (\<lambda>all_data.
         bindA (map_err sm_write (lift_res (cd_ser (rc_snapshot C) all_data))) (\<lambda>data.
           ret (\<lparr>mt_last_log_id = sb_last_applied builder,
                 mt_last_membership = sb_membership builder,
                 mt_snapshot_id = snapshot_id (sb_last_applied builder)\<rparr>, data))))"

end
