(* ===== verification/Lock_Raft.thy ===== *)
theory Lock_Raft
  imports Lock_Storage Raft_Store
begin

text \<open>
  \<open>custodian/src/raft.rs\<close>: the lock state machine and the custodian's Raft store, the second
  instance of \<open>Raft_Store\<close>. The metrics the file counts and pushes are left out; they do not
  influence a result.
\<close>

record lock_response =
  lr_success :: bool
  lr_error :: "string option"
  lr_value :: "bytes option"

definition locked_by_msg :: "('d, 'z) lockstore_scheme \<Rightarrow> u64 \<Rightarrow> uuid \<Rightarrow> string" where
  "locked_by_msg E ticket_id holder =
     ''ticket '' @ show_nat (unat ticket_id) @ '' is locked by '' @ uuid_text E holder"

definition held_msg :: "u64 \<Rightarrow> string" where
  "held_msg ticket_id = ''ticket '' @ show_nat (unat ticket_id) @ '' is held by another user''"

definition lock_done :: lock_response where
  "lock_done = \<lparr>lr_success = True, lr_error = None, lr_value = None\<rparr>"

definition lock_denied :: "string \<Rightarrow> lock_response" where
  "lock_denied msg = \<lparr>lr_success = False, lr_error = Some msg, lr_value = None\<rparr>"

fun lk_apply :: "('d, 'z) lockstore_scheme \<Rightarrow> lock_command \<Rightarrow> ('d, lock_response) act" where
  "lk_apply E (AcquireLock ticket_id user_id at_unix ttl_secs) =
     bindA (get_lock_info E ticket_id) (\<lambda>r.
       let acquire = thenA (acquire_lock_at E ticket_id user_id at_unix ttl_secs) (ret lock_done)
       in case r of
            Some existing \<Rightarrow>
              if lk_user_id existing \<noteq> user_id \<and> \<not> is_expired existing at_unix
              then ret (lock_denied (locked_by_msg E ticket_id (lk_user_id existing)))
              else acquire
          | None \<Rightarrow> acquire)"
| "lk_apply E (ReleaseLock ticket_id user_id) =
     bindA (get_lock_info E ticket_id) (\<lambda>r.
       let release = thenA (release_lock E ticket_id) (ret lock_done)
       in case r of
            Some existing \<Rightarrow>
              if lk_user_id existing \<noteq> user_id then ret (lock_denied (held_msg ticket_id)) else release
          | None \<Rightarrow> release)"

subsection \<open>The Raft store\<close>

definition lock_ops :: "('d, 'z) sled_scheme \<Rightarrow> 'd storage_ops" where
  "lock_ops E = \<lparr>so_get_tree = c_get_tree E, so_put = c_put E, so_get = c_get E,
     so_delete = c_delete E, so_list = c_list E, so_data_tree_names = c_data_tree_names E\<rparr>"

lemma lock_ops_simps [simp]:
  "so_get_tree (lock_ops E) = c_get_tree E" "so_put (lock_ops E) = c_put E"
  "so_get (lock_ops E) = c_get E" "so_delete (lock_ops E) = c_delete E"
  "so_list (lock_ops E) = c_list E" "so_data_tree_names (lock_ops E) = c_data_tree_names E"
  by (simp_all add: lock_ops_def)

type_synonym 'm lock_codec = "(lock_command, 'm) raft_codec"

definition lk_raft_metadata_new ::
  "('d, 'z) sled_scheme \<Rightarrow> 'm lock_codec \<Rightarrow> ('d, vote option \<times> log_id option) act" where
  "lk_raft_metadata_new E C = raft_metadata_new (lock_ops E) C"

definition lk_persist_vote ::
  "('d, 'z) sled_scheme \<Rightarrow> 'm lock_codec \<Rightarrow> vote option \<Rightarrow> ('d, unit) act" where
  "lk_persist_vote E C v = persist_vote (lock_ops E) C v"

definition lk_persist_last_purged ::
  "('d, 'z) sled_scheme \<Rightarrow> 'm lock_codec \<Rightarrow> log_id option \<Rightarrow> ('d, unit) act" where
  "lk_persist_last_purged E C l = persist_last_purged (lock_ops E) C l"

definition lk_store_new :: "('d, 'z) sled_scheme \<Rightarrow> 'm lock_codec \<Rightarrow> ('d, 'm raft_mem) act" where
  "lk_store_new E C = store_new (lock_ops E) C"

definition lk_save_vote ::
  "('d, 'z) sled_scheme \<Rightarrow> 'm lock_codec \<Rightarrow> vote \<Rightarrow> (('d, 'm) node, raft_error, unit) eff" where
  "lk_save_vote E C v = save_vote (lock_ops E) C v"

definition lk_read_vote :: "(('d, 'm) node, raft_error, vote option) eff" where
  "lk_read_vote = read_vote"

definition lk_try_get_log_entries ::
  "('d, 'z) sled_scheme \<Rightarrow> 'm lock_codec \<Rightarrow> range_bound \<Rightarrow> range_bound
   \<Rightarrow> ('d, raft_error, (lock_command, 'm) entry list) eff" where
  "lk_try_get_log_entries E C lo hi = try_get_log_entries E (lock_ops E) C lo hi"

definition lk_append_to_log ::
  "('d, 'z) sled_scheme \<Rightarrow> 'm lock_codec \<Rightarrow> (lock_command, 'm) entry list \<Rightarrow> ('d, raft_error, unit) eff" where
  "lk_append_to_log E C entries = append_to_log E (lock_ops E) C entries"

definition lk_delete_conflict_logs_since ::
  "('d, 'z) sled_scheme \<Rightarrow> log_id \<Rightarrow> ('d, raft_error, unit) eff" where
  "lk_delete_conflict_logs_since E l = delete_conflict_logs_since E (lock_ops E) l"

definition lk_purge_logs_upto ::
  "('d, 'z) sled_scheme \<Rightarrow> 'm lock_codec \<Rightarrow> log_id \<Rightarrow> (('d, 'm) node, raft_error, unit) eff" where
  "lk_purge_logs_upto E C l = purge_logs_upto E (lock_ops E) C l"

definition lk_get_log_state ::
  "('d, 'z) sled_scheme \<Rightarrow> 'm lock_codec \<Rightarrow> (('d, 'm) node, raft_error, log_state) eff" where
  "lk_get_log_state E C = get_log_state E (lock_ops E) C"

definition lk_last_applied_state ::
  "(('d, 'm) node, raft_error, log_id option \<times> 'm stored_membership) eff" where
  "lk_last_applied_state = last_applied_state"

definition lk_apply_to_state_machine ::
  "('d, 'z) lockstore_scheme \<Rightarrow> (lock_command, 'm) entry list
   \<Rightarrow> (('d, 'm) node, raft_error, lock_response list) eff" where
  "lk_apply_to_state_machine E entries = apply_loop (lk_apply E) lock_done entries []"

definition lk_install_snapshot ::
  "('d, 'z) sled_scheme \<Rightarrow> 'm lock_codec \<Rightarrow> 'm snapshot_meta \<Rightarrow> bytes
   \<Rightarrow> (('d, 'm) node, raft_error, unit) eff" where
  "lk_install_snapshot E C meta data = install_snapshot (lock_ops E) C meta data"

definition lk_get_current_snapshot ::
  "(('d, 'm) node, raft_error, ('m snapshot_meta \<times> bytes) option) eff" where
  "lk_get_current_snapshot = get_current_snapshot"

definition lk_get_snapshot_builder :: "(('d, 'm) node, raft_error, 'm snapshot_builder) eff" where
  "lk_get_snapshot_builder = get_snapshot_builder"

definition lk_build_snapshot ::
  "('d, 'z) sled_scheme \<Rightarrow> 'm lock_codec \<Rightarrow> 'm snapshot_builder
   \<Rightarrow> ('d, raft_error, 'm snapshot_meta \<times> bytes) eff" where
  "lk_build_snapshot E C builder = build_snapshot (lock_ops E) C builder"

end
