(* ===== verification/Db_Index.thy ===== *)
theory Db_Index
  imports Db_Storage Kv_Store
begin

text \<open>
  The secondary indexes of \<open>db/src/storage.rs\<close>. Tickets and users are both kept as an indexed
  table: a tree of encoded rows, and trees whose keys are \<open><value> 0 <row key>\<close> for the rows
  that are active. \<open>table_inv\<close> states that the indexes hold exactly the entries of the active
  rows; the locale \<open>indexed_table\<close> proves once that the write pattern of create, update and
  soft delete keeps it, and is interpreted for the two tables.
\<close>

subsection \<open>Effects of the key-value operations\<close>

lemma does_get_tree: "sled_ok E \<Longrightarrow> does (view E) (get_tree E c) W (Inr ()) W"
  unfolding get_tree_def by (rule sled_okD)

lemma does_put: "sled_ok E \<Longrightarrow> does (view E) (put E c k v) W (Inr ()) (wput W c k v)"
  unfolding put_def by (rule does_then does_get_tree sled_okD | assumption)+

lemma does_delete: "sled_ok E \<Longrightarrow> does (view E) (delete E c k) W (Inr ()) (wdel W c k)"
  unfolding delete_def by (rule does_then does_get_tree sled_okD | assumption)+

lemma does_get: "sled_ok E \<Longrightarrow> does (view E) (get E c k) W (Inr (W c k)) W"
  unfolding get_def
  by (rule does_then, erule does_get_tree, rule does_read) (auto simp: sled_okD(7))

lemma does_exists: "sled_ok E \<Longrightarrow> does (view E) (exists E c k) W (Inr (W c k \<noteq> None)) W"
  unfolding exists_def
  by (rule does_then, erule does_get_tree, rule does_read) (auto simp: sled_okD(8))

lemma does_list_pairs:
  assumes ok: "sled_ok E" and xs: "scan_of (W c) xs"
  shows "does (view E) (list_pairs E c p limit) W
           (Inr (list_limit limit (filter (\<lambda>x. is_prefix p (fst x)) xs))) W"
  unfolding list_pairs_def
proof (rule does_then [OF does_get_tree [OF ok]], rule does_read)
  fix d assume "view E d = W"
  then have s: "scan E c d = xs" using scan_facts(1) [OF ok] xs scan_of_unique by metis
  have lim: "list_limit limit (map Inr ys) = map Inr (list_limit limit ys)" for ys :: "(bytes \<times> bytes) list"
    by (auto simp: list_limit_def take_map split: option.split)
  show "collect_res (list_limit limit (if p = [] then sl_iter E c d else sl_prefix E c p d))
      = Inr (list_limit limit (filter (\<lambda>x. is_prefix p (fst x)) xs))"
    by (simp add: scan_facts(2,3) [OF ok] s lim)
qed

interpretation db_kv: kv_store "sled_ok E" "view E" "put E" "get E" "delete E"
    "\<lambda>c. list_pairs E c [] None" for E :: "('d, 'z) sled_scheme"
proof
  fix W :: world and c xs
  assume "sled_ok E" and xs: "scan_of (W c) xs"
  from does_list_pairs [OF this(1), where W = W and c = c, OF xs, where p = "[]" and limit = None]
  show "does (view E) (list_pairs E c [] None) W (Inr xs) W" by (simp add: list_limit_def)
qed (auto intro: does_put does_get does_delete)

lemma does_batch_put:
  assumes "sled_ok E"
  shows "does (view E) (batch_put E c pairs) W (Inr (length pairs))
           (fold (\<lambda>(k, v) W. wput W c k v) pairs W)"
proof -
  have "fold batch_step (map (\<lambda>(k, v). (k, Some v)) pairs) (W c) =
     fold (\<lambda>(k, v) W. wput W c k v) pairs W c" for W
  proof (induction pairs arbitrary: W)
    case (Cons p pairs)
    show ?case using Cons.IH [of "wput W c (fst p) (snd p)"] 
      by (cases p) (simp only: list.map List.fold_simps prod.case batch_step_simps wput_same fst_conv snd_conv)
  qed simp
  moreover have "c' \<noteq> c \<Longrightarrow> fold (\<lambda>(k, v) W. wput W c k v) pairs W c' = W c'" for c' W
    by (induction pairs arbitrary: W) auto
  ultimately have "wbatch W c (map (\<lambda>(k, v). (k, Some v)) pairs)
      = fold (\<lambda>(k, v) W. wput W c k v) pairs W"
    by (auto simp: wbatch_def fun_eq_iff)
  then show ?thesis
    unfolding batch_put_def
    using does_then [OF does_get_tree [OF assms] does_then [OF sled_okD(5) [OF assms]
        does_then [OF sled_okD(2) [OF assms] does_ret]]]
    by metis
qed

subsection \<open>Writing and removing the entries of a row\<close>

definition put_entries :: "(string \<times> bytes) list \<Rightarrow> bytes \<Rightarrow> world \<Rightarrow> world" where
  "put_entries ents e = fold (\<lambda>p W. wput W (fst p) (index_key (snd p) e) e) ents"

definition del_entries :: "(string \<times> bytes) list \<Rightarrow> bytes \<Rightarrow> world \<Rightarrow> world" where
  "del_entries ents e = fold (\<lambda>p W. wdel W (fst p) (index_key (snd p) e)) ents"

lemma entries_Nil [simp]: "put_entries [] e W = W" "del_entries [] e W = W"
  by (simp_all add: put_entries_def del_entries_def)

lemma put_entries_apply:
  "put_entries ents e W t k =
     (if \<exists>v. (t, v) \<in> set ents \<and> k = index_key v e then Some e else W t k)"
proof (induction ents arbitrary: W)
  case Nil
  then show ?case by simp
next
  case (Cons p ents)
  have "put_entries (p # ents) e W t k =
      put_entries ents e (wput W (fst p) (index_key (snd p) e) e) t k"
    by (simp add: put_entries_def)
  then show ?case by (cases p) (auto simp: Cons.IH wput_apply)
qed

lemma del_entries_apply:
  "del_entries ents e W t k =
     (if \<exists>v. (t, v) \<in> set ents \<and> k = index_key v e then None else W t k)"
proof (induction ents arbitrary: W)
  case Nil
  then show ?case by simp
next
  case (Cons p ents)
  have "del_entries (p # ents) e W t k =
      del_entries ents e (wdel W (fst p) (index_key (snd p) e)) t k"
    by (simp add: del_entries_def)
  then show ?case by (cases p) (auto simp: Cons.IH wdel_apply)
qed

lemma does_write_indexes:
  assumes ok: "sled_ok E"
  shows "does (view E) (for_each (write_index E e ins) ents) W (Inr ())
           (if ins then put_entries ents e W else del_entries ents e W)"
proof -
  let ?g = "\<lambda>p W. if ins then wput W (fst p) (index_key (snd p) e) e
     else wdel W (fst p) (index_key (snd p) e)"
  have "does (view E) (write_index E e ins p) W (Inr ()) (?g p W)" for p W
    using sled_okD(1-4) [OF ok]
    unfolding write_index_def get_tree_def Let_def
    by (cases ins) (simp_all, (blast intro: does_then)+)
  then have "does (view E) (for_each (write_index E e ins) ents) W (Inr ()) (fold ?g ents W)"
    by (rule does_for_each)
  then show ?thesis by (cases ins) (simp_all add: put_entries_def del_entries_def)
qed

text \<open>The write pattern of every row operation: old entries out, the row, new entries in.\<close>

definition reindex ::
  "string \<Rightarrow> bytes \<Rightarrow> (string \<times> bytes) list \<Rightarrow> bytes \<Rightarrow> (string \<times> bytes) list \<Rightarrow> world \<Rightarrow> world" where
  "reindex T e olds val news W = put_entries news e (wput (del_entries olds e W) T e val)"

subsection \<open>Indexed tables\<close>

definition decode_row :: "'r codec \<Rightarrow> bytes option \<Rightarrow> 'r option" where
  "decode_row c b = (case b of None \<Rightarrow> None
     | Some x \<Rightarrow> (case cd_de c x of Inl _ \<Rightarrow> None | Inr r \<Rightarrow> Some r))"

definition table_rows :: "'r codec \<Rightarrow> ('i \<Rightarrow> bytes) \<Rightarrow> string \<Rightarrow> world \<Rightarrow> 'i \<Rightarrow> 'r option" where
  "table_rows c ent T W i = decode_row c (W T (ent i))"

lemma table_rows_cong: "W' T = W T \<Longrightarrow> table_rows c ent T W' = table_rows c ent T W"
  by (simp add: table_rows_def fun_eq_iff)

definition row_entries :: "('r \<Rightarrow> (string \<times> bytes) list) \<Rightarrow> 'r option \<Rightarrow> (string \<times> bytes) list" where
  "row_entries ents r = (case r of None \<Rightarrow> [] | Some r \<Rightarrow> ents r)"

text \<open>
  The invariant of a table: every key and row decodes, the rows satisfy \<open>adm\<close>, and an index
  tree holds exactly the entries \<open>ents\<close> of the rows.
\<close>

definition table_inv ::
  "'r codec \<Rightarrow> ('i \<Rightarrow> bytes) \<Rightarrow> string \<Rightarrow> string set \<Rightarrow> ('r \<Rightarrow> (string \<times> bytes) list) \<Rightarrow> ('r \<Rightarrow> bool)
   \<Rightarrow> world \<Rightarrow> bool" where
  "table_inv c ent T trees ents adm W \<longleftrightarrow>
     (\<forall>k b. W T k = Some b \<longrightarrow> (\<exists>i r. k = ent i \<and> cd_de c b = Inr r \<and> adm r))
   \<and> (\<forall>t \<in> trees. \<forall>k b. W t k = Some b \<longleftrightarrow>
        (\<exists>i v. (t, v) \<in> set (row_entries ents (table_rows c ent T W i))
             \<and> k = index_key v (ent i) \<and> b = ent i))"

locale indexed_table =
  fixes c :: "'r codec"
    and ent :: "'i \<Rightarrow> bytes"
    and T :: string
    and trees :: "string set"
    and ents :: "'r \<Rightarrow> (string \<times> bytes) list"
    and adm :: "'r \<Rightarrow> bool"
  assumes ent_inj: "ent i = ent j \<Longrightarrow> i = j"
    and T_not_index: "T \<notin> trees"
    and ents_in_trees: "(t, v) \<in> set (ents r) \<Longrightarrow> t \<in> trees"
    and key_inj: "adm r \<Longrightarrow> adm r' \<Longrightarrow> (t, v) \<in> set (ents r) \<Longrightarrow> (t, v') \<in> set (ents r')
      \<Longrightarrow> index_key v (ent i) = index_key v' (ent j) \<Longrightarrow> v = v' \<and> i = j"
begin

lemma row_adm:
  assumes "table_inv c ent T trees ents adm W" and "table_rows c ent T W i = Some r"
  shows "adm r"
  using assms unfolding table_inv_def table_rows_def decode_row_def
  by (fastforce split: option.splits sum.splits)

lemma row_present:
  assumes "table_inv c ent T trees ents adm W" and "W T (ent i) = Some b"
  obtains r where "cd_de c b = Inr r" and "table_rows c ent T W i = Some r"
  using assms unfolding table_inv_def table_rows_def decode_row_def by fastforce

lemma row_absent: "W T (ent i) = None \<Longrightarrow> table_rows c ent T W i = None"
  by (simp add: table_rows_def decode_row_def)

lemma T_not_ent: "(T, v) \<notin> set (ents r)" "(T, v) \<notin> set (row_entries ents x)"
  using ents_in_trees T_not_index by (auto simp: row_entries_def split: option.splits)

lemma reindex_T:
  assumes "olds = row_entries ents x" and "news = row_entries ents y"
  shows "reindex T (ent i) olds val news W T = (W T)(ent i \<mapsto> val)"
  by (intro ext) (simp add: reindex_def put_entries_apply wput_apply del_entries_apply T_not_ent assms)

lemma reindex_rows:
  assumes "olds = row_entries ents x" and "news = row_entries ents y" and "cd_de c val = Inr r"
  shows "table_rows c ent T (reindex T (ent i) olds val news W) = (table_rows c ent T W)(i \<mapsto> r)"
proof
  fix j
  show "table_rows c ent T (reindex T (ent i) olds val news W) j = ((table_rows c ent T W)(i \<mapsto> r)) j"
    using ent_inj assms(3)
    by (auto simp: table_rows_def decode_row_def reindex_T [OF assms(1,2)])
qed

lemma reindex_index:
  assumes "t \<in> trees"
  shows "reindex T (ent i) olds val news W t k =
     (if \<exists>v. (t, v) \<in> set news \<and> k = index_key v (ent i) then Some (ent i)
      else if \<exists>v. (t, v) \<in> set olds \<and> k = index_key v (ent i) then None else W t k)"
  using assms T_not_index
  by (auto simp: reindex_def put_entries_apply del_entries_apply wput_apply)

text \<open>Replacing the row of \<open>i\<close> and re-pointing its entries keeps the invariant.\<close>

lemma reindex_inv:
  assumes inv: "table_inv c ent T trees ents adm W"
    and olds: "olds = row_entries ents (table_rows c ent T W i)"
    and val: "cd_de c val = Inr r" and r: "adm r" and news: "news = ents r"
  shows "table_inv c ent T trees ents adm (reindex T (ent i) olds val news W)"
proof -
  let ?W = "reindex T (ent i) olds val news W"
  have news': "news = row_entries ents (Some r)" by (simp add: news row_entries_def)
  note T = reindex_T [OF olds news'] and rows = reindex_rows [OF olds news' val]
  have old_entry: "W t k = Some b \<longleftrightarrow> (\<exists>j v. (t, v) \<in> set (row_entries ents (table_rows c ent T W j))
      \<and> k = index_key v (ent j) \<and> b = ent j)" if "t \<in> trees" for t k b
    using inv that unfolding table_inv_def by blast
  have inj: "v = v' \<and> j = i"
    if "(t, v) \<in> set (row_entries ents (table_rows c ent T W j))"
      "(t, v') \<in> set news \<or> (t, v') \<in> set olds" "index_key v (ent j) = index_key v' (ent i)" for t v v' j
  proof -
    from that(1) obtain q where q: "table_rows c ent T W j = Some q" "(t, v) \<in> set (ents q)"
      by (cases "table_rows c ent T W j") (auto simp: row_entries_def)
    from that(2) obtain q' where q': "adm q'" "(t, v') \<in> set (ents q')"
      using r row_adm [OF inv]
      by (cases "table_rows c ent T W i") (auto simp: news olds row_entries_def)
    show ?thesis using key_inj [OF row_adm [OF inv q(1)] q'(1) q(2) q'(2) that(3)] .
  qed
  have "?W t k = Some b \<longleftrightarrow> (\<exists>j v. (t, v) \<in> set (row_entries ents (table_rows c ent T ?W j))
      \<and> k = index_key v (ent j) \<and> b = ent j)" if t: "t \<in> trees" for t k b
  proof -
    have eq: "row_entries ents (table_rows c ent T ?W j) =
        (if j = i then news else row_entries ents (table_rows c ent T W j))" for j
      unfolding rows by (simp add: news row_entries_def)
    let ?new = "\<exists>v. (t, v) \<in> set news \<and> k = index_key v (ent i)"
    let ?old = "\<exists>v. (t, v) \<in> set olds \<and> k = index_key v (ent i)"
    have own: "j = i" if "(t, v) \<in> set (row_entries ents (table_rows c ent T W j))"
      "k = index_key v (ent j)" "?new \<or> ?old" for j v
      using that(3) inj [OF that(1)] unfolding that(2) by blast
    let ?mem = "\<lambda>j v. (t, v) \<in> set (row_entries ents (table_rows c ent T ?W j))
      \<and> k = index_key v (ent j) \<and> b = ent j"
    show ?thesis
    proof (cases ?new)
      case True
      then obtain v where v: "(t, v) \<in> set news" "k = index_key v (ent i)" by blast
      have "(\<exists>j v. ?mem j v) \<longleftrightarrow> b = ent i"
      proof
        assume "\<exists>j v. ?mem j v"
        then obtain j v where m: "?mem j v" by blast
        then have "j = i" using own [of v j] True unfolding eq by (cases "j = i") simp_all
        with m show "b = ent i" by blast
      next
        assume "b = ent i"
        with v have "?mem i v" unfolding eq by simp
        then show "\<exists>j v. ?mem j v" by blast
      qed
      then show ?thesis unfolding reindex_index [OF t] using True by auto
    next
      case new: False
      show ?thesis
      proof (cases ?old)
        case True
        have "\<not> ?mem j v" for j v
        proof
          assume m: "?mem j v"
          show False
          proof (cases "j = i")
            case True
            with m new show False unfolding eq by auto
          next
            case False
            with m own [of v j, OF _ _ disjI2 [OF True]] show False unfolding eq by auto
          qed
        qed
        then show ?thesis unfolding reindex_index [OF t] using new True by auto
      next
        case False
        have "?mem j v \<longleftrightarrow> (t, v) \<in> set (row_entries ents (table_rows c ent T W j))
            \<and> k = index_key v (ent j) \<and> b = ent j" for j v
          using new False olds unfolding eq by (cases "j = i") auto
        then have "(\<exists>j v. ?mem j v) \<longleftrightarrow> W t k = Some b"
          unfolding old_entry [OF t] by simp
        moreover have "?W t k = W t k" unfolding reindex_index [OF t] using new False by auto
        ultimately show ?thesis by simp
      qed
    qed
  qed
  moreover have "\<exists>j q. k = ent j \<and> cd_de c b = Inr q \<and> adm q" if "?W T k = Some b" for k b
    using that inv val r unfolding T table_inv_def by (auto split: if_splits)
  ultimately show ?thesis unfolding table_inv_def by blast
qed

text \<open>Changes elsewhere keep it.\<close>

lemma table_inv_frame:
  assumes "table_inv c ent T trees ents adm W" and "W' T = W T" and "\<And>t. t \<in> trees \<Longrightarrow> W' t = W t"
  shows "table_inv c ent T trees ents adm W'"
  using assms unfolding table_inv_def table_rows_def by simp

lemma reindex_elsewhere:
  assumes "t \<notin> trees" and "t \<noteq> T" and "olds = row_entries ents x" and "news = row_entries ents y"
  shows "reindex T (ent i) olds val news W t = W t"
proof -
  have "(t, v) \<notin> set (row_entries ents z)" for v z
    using assms(1) ents_in_trees by (auto simp: row_entries_def split: option.splits)
  then show ?thesis
    using assms by (intro ext) (simp add: reindex_def put_entries_apply del_entries_apply wput_apply)
qed

end

end
