(* ===== verification/Db_Spec.thy ===== *)
theory Db_Spec
  imports Db_Index
begin

text \<open>
  What the storage layer of the database service promises: a finite map of tickets with a
  counter of the ids handed out, and a finite map of users. \<open>spec_apply\<close> is the meaning of a
  log entry on that state; the lemmas show that \<open>LogEntry::apply\<close>, which encodes rows, keeps
  seven ticket indexes and three user indexes and bumps a byte counter, implements it.
\<close>

record db_spec =
  sp_tickets :: "u64 \<Rightarrow> stored_ticket option"
  sp_last_id :: u64
  sp_users :: "string \<Rightarrow> stored_user option"

definition spec_init :: db_spec where
  "spec_init = \<lparr>sp_tickets = Map.empty, sp_last_id = 0, sp_users = Map.empty\<rparr>"

fun spec_apply :: "log_entry \<Rightarrow> db_spec \<Rightarrow> (store_error + bytes option) \<times> db_spec" where
  "spec_apply (CreateTicket body index) s =
     (let i = saturating_inc (sp_last_id s)
      in (Inr (Some (to_be_bytes i)),
          s\<lparr>sp_last_id := i, sp_tickets := (sp_tickets s)(i \<mapsto>
              \<lparr>sk_body = body, sk_index = index, sk_deleted = False, sk_deleted_at_unix = 0\<rparr>)\<rparr>))"
| "spec_apply (UpdateTicket i body index) s =
     (case sp_tickets s i of
        None \<Rightarrow> (Inl (TicketNotFound i), s)
      | Some r \<Rightarrow> (Inr None, s\<lparr>sp_tickets :=
          (sp_tickets s)(i \<mapsto> r\<lparr>sk_body := body, sk_index := index\<rparr>)\<rparr>))"
| "spec_apply (SoftDeleteTicket i t) s =
     (case sp_tickets s i of
        None \<Rightarrow> (Inl (TicketNotFound i), s)
      | Some r \<Rightarrow> (Inr None, s\<lparr>sp_tickets :=
          (sp_tickets s)(i \<mapsto> r\<lparr>sk_deleted := True, sk_deleted_at_unix := t\<rparr>)\<rparr>))"
| "spec_apply (CreateUser u body index) s =
     (Inr None, s\<lparr>sp_users := (sp_users s)(u \<mapsto>
        \<lparr>su_body = body, su_index = index, su_deleted = False, su_deleted_at_unix = 0\<rparr>)\<rparr>)"
| "spec_apply (UpdateUser u body index) s =
     (case sp_users s u of
        None \<Rightarrow> (Inl (UserNotFound u), s)
      | Some r \<Rightarrow> (Inr None, s\<lparr>sp_users :=
          (sp_users s)(u \<mapsto> r\<lparr>su_body := body, su_index := index\<rparr>)\<rparr>))"
| "spec_apply (SoftDeleteUser u t) s =
     (case sp_users s u of
        None \<Rightarrow> (Inl (UserNotFound u), s)
      | Some r \<Rightarrow> (Inr None, s\<lparr>sp_users :=
          (sp_users s)(u \<mapsto> r\<lparr>su_deleted := True, su_deleted_at_unix := t\<rparr>)\<rparr>))"
| "spec_apply _ s = (Inr None, s)"

subsection \<open>The two tables\<close>

definition ticket_trees :: "string set" where
  "ticket_trees = {IDX_TICKET_STATUS, IDX_TICKET_ASSIGNEE, IDX_TICKET_PROJECT, IDX_TICKET_ACCOUNT,
     IDX_TICKET_CREATED, IDX_TICKET_UPDATED, IDX_TICKET_TRACKING}"

definition user_trees :: "string set" where
  "user_trees = {IDX_USER_NAME, IDX_USER_EMAIL, IDX_USER_ROLE}"

lemmas trees_defs = ticket_trees_def user_trees_def tree_defs

text \<open>The active index entries of a row: none once it is soft-deleted.\<close>

definition ticket_ents :: "stored_ticket \<Rightarrow> (string \<times> bytes) list" where
  "ticket_ents r = (if sk_deleted r then [] else ticket_index_entries (sk_index r))"

definition user_ents :: "stored_user \<Rightarrow> (string \<times> bytes) list" where
  "user_ents r = (if su_deleted r then [] else user_index_entries (su_index r))"

text \<open>
  The keys of the user indexes are \<open><value> 0 <uuid>\<close> with a uuid of any length, so they are
  unambiguous for names and addresses without a NUL byte.
\<close>

definition nul_free :: "user_index_fields \<Rightarrow> bool" where
  "nul_free i \<longleftrightarrow> 0 \<notin> set (utf8_bytes (ui_username i)) \<and> 0 \<notin> set (utf8_bytes (ui_email i))"

lemma ticket_ents_trees: "(t, v) \<in> set (ticket_ents r) \<Longrightarrow> t \<in> ticket_trees"
  by (auto simp: ticket_ents_def ticket_index_entries_def ticket_trees_def
      split: if_splits option.splits)

lemma user_ents_trees: "(t, v) \<in> set (user_ents r) \<Longrightarrow> t \<in> user_trees"
  by (auto simp: user_ents_def user_index_entries_def user_trees_def split: if_splits)

lemma nul_split:
  fixes v v' e e' :: bytes
  shows "0 \<notin> set v \<Longrightarrow> 0 \<notin> set v' \<Longrightarrow> v @ 0 # e = v' @ 0 # e' \<Longrightarrow> v = v' \<and> e = e'"
proof (induction v arbitrary: v')
  case Nil
  then show ?case by (cases v') auto
next
  case (Cons x v)
  then show ?case by (cases v') auto
qed

lemma user_key_inj:
  assumes "nul_free (su_index r)" "nul_free (su_index r')"
    and "(t, v) \<in> set (user_ents r)" "(t, v') \<in> set (user_ents r')"
    and "index_key v (utf8_bytes i) = index_key v' (utf8_bytes j)"
  shows "v = v' \<and> i = j"
proof -
  have "(0 \<notin> set v \<and> 0 \<notin> set v') \<or> (length v = 1 \<and> length v' = 1)"
    using assms(1-4)
    by (auto simp: user_ents_def user_index_entries_def nul_free_def tree_defs split: if_splits)
  then show ?thesis
  proof
    assume "0 \<notin> set v \<and> 0 \<notin> set v'"
    then show ?thesis 
      using nul_split [of v v' "utf8_bytes i" "utf8_bytes j"] assms(5) by (simp add: index_key_def)
  next
    assume "length v = 1 \<and> length v' = 1"
    then have l: "length v = length v'" by simp
    have "v @ [0] @ utf8_bytes i = v' @ [0] @ utf8_bytes j" using assms(5) by (simp add: index_key_def)
    then show ?thesis using l by simp
  qed
qed

interpretation tickets: indexed_table c to_be_bytes TREE_TICKETS ticket_trees ticket_ents "\<lambda>_. True"
  for c :: "stored_ticket codec"
proof
  fix i j :: u64
  show "to_be_bytes i = to_be_bytes j \<Longrightarrow> i = j" by simp
next
  show "TREE_TICKETS \<notin> ticket_trees" by (simp add: trees_defs)
next
  fix v v' :: bytes and i j :: u64
  assume "index_key v (to_be_bytes i) = index_key v' (to_be_bytes j)"
  then have "v @ [0] @ to_be_bytes i = v' @ [0] @ to_be_bytes j" by (simp add: index_key_def)
  moreover have "length ([0] @ to_be_bytes i) = length ([0] @ to_be_bytes j)" by simp
  ultimately have "v = v' \<and> [0] @ to_be_bytes i = [0] @ to_be_bytes j"
    by (metis append_eq_append_conv)
  then show "v = v' \<and> i = j" by simp
qed (rule ticket_ents_trees)

interpretation users: indexed_table c utf8_bytes TREE_USERS user_trees user_ents
    "\<lambda>r. nul_free (su_index r)"
  for c :: "stored_user codec"
proof
  show "TREE_USERS \<notin> user_trees" by (simp add: trees_defs)
qed (simp_all add: user_ents_trees user_key_inj)

subsection \<open>Abstraction and invariant\<close>

definition seq_value :: "world \<Rightarrow> u64" where
  "seq_value W = (case W TREE_SEQ SEQ_TICKET of None \<Rightarrow> 0 | Some b \<Rightarrow> seq_read b)"

definition db_abs :: "('d, 'z) dbstore_scheme \<Rightarrow> world \<Rightarrow> db_spec" where
  "db_abs E W =
     \<lparr>sp_tickets = table_rows (st_codec E) to_be_bytes TREE_TICKETS W,
      sp_last_id = seq_value W,
      sp_users = table_rows (su_codec E) utf8_bytes TREE_USERS W\<rparr>"

definition tickets_inv :: "('d, 'z) dbstore_scheme \<Rightarrow> world \<Rightarrow> bool" where
  "tickets_inv E W \<longleftrightarrow>
     table_inv (st_codec E) to_be_bytes TREE_TICKETS ticket_trees ticket_ents (\<lambda>_. True) W"

definition users_inv :: "('d, 'z) dbstore_scheme \<Rightarrow> world \<Rightarrow> bool" where
  "users_inv E W \<longleftrightarrow>
     table_inv (su_codec E) utf8_bytes TREE_USERS user_trees user_ents (\<lambda>r. nul_free (su_index r)) W"

definition ids_fresh :: "db_spec \<Rightarrow> bool" where
  "ids_fresh s \<longleftrightarrow> (\<forall>i. sp_tickets s i \<noteq> None \<longrightarrow> i \<le> sp_last_id s)"

text \<open>
  The trees of the ticket side, and what is left of the contents without them. The tickets keep
  their invariant whatever property \<open>P\<close> the rest has, and their operations keep \<open>P\<close>; with the
  users' invariant for \<open>P\<close> this is the invariant of the whole database.
\<close>

definition ticket_side :: "string set" where
  "ticket_side = insert TREE_TICKETS (insert TREE_SEQ ticket_trees)"

definition others :: "world \<Rightarrow> world" where
  "others W = (\<lambda>t. if t \<in> ticket_side then Map.empty else W t)"

definition db_part :: "('d, 'z) dbstore_scheme \<Rightarrow> (world \<Rightarrow> bool) \<Rightarrow> world \<Rightarrow> bool" where
  "db_part E P W \<longleftrightarrow> tickets_inv E W \<and> P (others W) \<and> ids_fresh (db_abs E W)"

abbreviation db_inv :: "('d, 'z) dbstore_scheme \<Rightarrow> world \<Rightarrow> bool" where
  "db_inv E \<equiv> db_part E (users_inv E)"

lemma others_user_trees: "t \<in> insert TREE_USERS user_trees \<Longrightarrow> others W t = W t"
  by (auto simp: others_def ticket_side_def trees_defs)

lemma users_inv_others [simp]: "users_inv E (others W) = users_inv E W"
  unfolding users_inv_def by (blast intro: users.table_inv_frame others_user_trees others_user_trees [symmetric])

lemma others_eqI: "(\<And>t. t \<notin> ticket_side \<Longrightarrow> W' t = W t) \<Longrightarrow> others W' = others W"
  by (auto simp: others_def)

lemma db_inv_def: "db_inv E W \<longleftrightarrow> tickets_inv E W \<and> users_inv E W \<and> ids_fresh (db_abs E W)"
  by (simp add: db_part_def)

text \<open>Collections a raw write may touch without going through the domain operations.\<close>

definition foreign :: "string \<Rightarrow> bool" where
  "foreign c \<longleftrightarrow> c \<notin> {TREE_TICKETS, TREE_USERS, TREE_SEQ} \<union> ticket_trees \<union> user_trees"

fun entry_ok :: "db_spec \<Rightarrow> log_entry \<Rightarrow> bool" where
  "entry_ok s (Put c k v) = foreign c"
| "entry_ok s (Delete c k) = foreign c"
| "entry_ok s (BatchPut c pairs) = foreign c"
| "entry_ok s (CreateTicket body index) = (sp_last_id s \<noteq> - 1)"
| "entry_ok s (CreateUser u body index) = (sp_users s u = None \<and> nul_free index)"
| "entry_ok s (UpdateUser u body index) = nul_free index"
| "entry_ok s _ = True"

text \<open>The contents that matter, and what leaves them alone.\<close>

lemma db_frame:
  assumes "\<And>t. \<not> foreign t \<Longrightarrow> W' t = W t"
  shows "db_abs E W' = db_abs E W" and "db_inv E W' \<longleftrightarrow> db_inv E W"
proof -
  have eq: "W' t = W t" if "t \<in> {TREE_TICKETS, TREE_USERS, TREE_SEQ} \<union> ticket_trees \<union> user_trees" for t
    using assms [of t] that by (simp add: foreign_def)
  show abs: "db_abs E W' = db_abs E W"
    by (simp add: db_abs_def seq_value_def eq table_rows_cong [where W' = W' and W = W])
  show "db_inv E W' \<longleftrightarrow> db_inv E W"
    unfolding db_inv_def abs by (simp add: tickets_inv_def users_inv_def table_inv_def table_rows_def eq)
qed

lemma db_empty: "db_abs E (\<lambda>_. Map.empty) = spec_init" "db_inv E (\<lambda>_. Map.empty)"
  by (simp_all add: db_abs_def spec_init_def seq_value_def table_rows_def decode_row_def db_inv_def
      tickets_inv_def users_inv_def table_inv_def row_entries_def ids_fresh_def fun_eq_iff)

lemma others_empty [simp]: "others (\<lambda>_. Map.empty) = (\<lambda>_. Map.empty)"
  by (simp add: others_def fun_eq_iff)

lemma db_part_empty: "P (\<lambda>_. Map.empty) \<Longrightarrow> db_part E P (\<lambda>_. Map.empty)"
  using db_empty(2) [of E] by (simp add: db_part_def)

subsection \<open>Writing a row of a table\<close>

lemma ticket_write:
  fixes r :: stored_ticket
  assumes inv: "db_part E P W" and ok: "codec_ok (st_codec E)"
    and olds: "olds = row_entries ticket_ents (sp_tickets (db_abs E W) i)"
    and le: "i \<le> seq_value W"
  defines "W' \<equiv> reindex TREE_TICKETS (to_be_bytes i) olds (enc (st_codec E) r) (ticket_ents r) W"
  shows "db_part E P W' \<and> db_abs E W' = (db_abs E W)\<lparr>sp_tickets := (sp_tickets (db_abs E W))(i \<mapsto> r)\<rparr>"
proof -
  have news: "ticket_ents r = row_entries ticket_ents (Some r)" by (simp add: row_entries_def)
  have else_eq: "W' t = W t" if "t \<notin> ticket_trees" "t \<noteq> TREE_TICKETS" for t
    unfolding W'_def using tickets.reindex_elsewhere [OF that olds news] .
  have rows: "table_rows (st_codec E) to_be_bytes TREE_TICKETS W' =
      (table_rows (st_codec E) to_be_bytes TREE_TICKETS W)(i \<mapsto> r)"
    unfolding W'_def by (rule tickets.reindex_rows [OF olds news codec_okD(2) [OF ok]])
  have seq: "seq_value W' = seq_value W"
    by (simp add: seq_value_def else_eq trees_defs)
  have users: "W' t = W t" if "t \<in> insert TREE_USERS user_trees" for t
    using that by (intro else_eq) (auto simp: trees_defs)
  have abs: "db_abs E W' = (db_abs E W)\<lparr>sp_tickets := (sp_tickets (db_abs E W))(i \<mapsto> r)\<rparr>"
    by (simp add: db_abs_def rows seq table_rows_cong [OF users])
  have "tickets_inv E W'"
    using inv olds tickets.reindex_inv [OF _ _ codec_okD(2) [OF ok]]
    unfolding W'_def tickets_inv_def db_part_def by (simp add: db_abs_def)
  moreover have "others W' = others W"
    by (rule others_eqI) (simp add: else_eq ticket_side_def)
  moreover have "ids_fresh (db_abs E W')"
    using inv le unfolding abs ids_fresh_def db_part_def by (simp add: db_abs_def)
  ultimately show ?thesis using abs inv by (simp add: db_part_def)
qed

lemma user_write:
  fixes r :: stored_user
  assumes inv: "db_inv E W" and ok: "codec_ok (su_codec E)"
    and olds: "olds = row_entries user_ents (sp_users (db_abs E W) u)"
    and nul: "nul_free (su_index r)"
  defines "W' \<equiv> reindex TREE_USERS (utf8_bytes u) olds (enc (su_codec E) r) (user_ents r) W"
  shows "db_inv E W' \<and> db_abs E W' = (db_abs E W)\<lparr>sp_users := (sp_users (db_abs E W))(u \<mapsto> r)\<rparr>"
proof -
  have news: "user_ents r = row_entries user_ents (Some r)" by (simp add: row_entries_def)
  have else_eq: "W' t = W t" if "t \<notin> user_trees" "t \<noteq> TREE_USERS" for t
    unfolding W'_def using users.reindex_elsewhere [OF that olds news] .
  have rows: "table_rows (su_codec E) utf8_bytes TREE_USERS W' =
      (table_rows (su_codec E) utf8_bytes TREE_USERS W)(u \<mapsto> r)"
    unfolding W'_def by (rule users.reindex_rows [OF olds news codec_okD(2) [OF ok]])
  have seq: "seq_value W' = seq_value W"
    by (simp add: seq_value_def else_eq trees_defs)
  have tickets: "W' t = W t" if "t \<in> insert TREE_TICKETS ticket_trees" for t
    using that by (intro else_eq) (auto simp: trees_defs)
  have abs: "db_abs E W' = (db_abs E W)\<lparr>sp_users := (sp_users (db_abs E W))(u \<mapsto> r)\<rparr>"
    by (simp add: db_abs_def rows seq table_rows_cong [OF tickets])
  have "users_inv E W'"
    using inv olds nul users.reindex_inv [OF _ _ codec_okD(2) [OF ok]]
    unfolding W'_def users_inv_def db_inv_def by (simp add: db_abs_def)
  moreover have "tickets_inv E W'"
    using inv tickets unfolding tickets_inv_def db_inv_def by (blast intro: tickets.table_inv_frame)
  moreover have "ids_fresh (db_abs E W')"
    using inv unfolding abs ids_fresh_def db_inv_def by simp
  ultimately show ?thesis using abs by (simp add: db_inv_def)
qed

subsection \<open>The operations on the contents\<close>

lemma unat_saturating_inc:
  assumes "n \<noteq> - 1"
  shows "unat (saturating_inc n) = unat n + 1"
proof -
  have "1 + n \<noteq> 0" using assms by (metis add.commute eq_neg_iff_add_eq_0)
  from unatSuc [OF this] show ?thesis using assms by (simp add: saturating_inc_def add.commute)
qed

lemma saturating_inc_ge: "n \<le> saturating_inc n"
  using unat_saturating_inc [of n] by (cases "n = - 1") (auto simp: saturating_inc_def word_le_nat_alt)

lemma seq_bump:
  fixes W :: world
  defines "n \<equiv> saturating_inc (seq_value W)"
  defines "W' \<equiv> W(TREE_SEQ := (W TREE_SEQ)(SEQ_TICKET \<mapsto> to_be_bytes n))"
  assumes inv: "db_part E P W"
  shows "db_part E P W'" and "db_abs E W' = (db_abs E W)\<lparr>sp_last_id := n\<rparr>"
proof -
  have other: "W' t = W t" if "t \<noteq> TREE_SEQ" for t using that by (simp add: W'_def)
  have seq: "seq_value W' = n" by (simp add: seq_value_def W'_def seq_read_def)
  show abs: "db_abs E W' = (db_abs E W)\<lparr>sp_last_id := n\<rparr>"
    by (simp add: db_abs_def seq table_rows_cong [where W' = W' and W = W] other trees_defs)
  have "W' t = W t" if "t \<in> insert TREE_TICKETS ticket_trees" for t
    using that by (intro other) (auto simp: trees_defs)
  then have "tickets_inv E W'"
    using inv unfolding tickets_inv_def db_part_def by (blast intro: tickets.table_inv_frame)
  moreover have "others W' = others W"
    by (rule others_eqI, rule other) (auto simp: ticket_side_def)
  moreover have "ids_fresh (db_abs E W')"
    using inv saturating_inc_ge unfolding abs ids_fresh_def db_part_def
    by (auto simp: n_def db_abs_def intro: order_trans)
  ultimately show "db_part E P W'" using inv by (simp add: db_part_def)
qed

lemma does_next_id:
  assumes ok: "sled_ok E"
  defines "n \<equiv> \<lambda>W. saturating_inc (seq_value W)"
  shows "does (view E) (next_id E SEQ_TICKET) W (Inr (n W))
           (W(TREE_SEQ := (W TREE_SEQ)(SEQ_TICKET \<mapsto> to_be_bytes (n W))))"
proof -
  have "saturating_inc 0 = 1" by (simp add: saturating_inc_def)
  then have step: "seq_step (W TREE_SEQ SEQ_TICKET) = Some (to_be_bytes (n W))"
    by (simp add: seq_step_def n_def seq_value_def split: option.split)
  show ?thesis
    unfolding next_id_def
    by (rule does_then [OF does_get_tree [OF ok] does_bind [OF sled_okD(6) [OF ok]
          does_then [OF sled_okD(2) [OF ok]]]]) (simp add: step does_ret)
qed

lemma does_row_write:
  assumes ok: "sled_ok E"
  shows "does (view E)
     (thenA (if a then for_each (write_index E e False) olds else ret ())
        (thenA (put E T e val)
          (if b then for_each (write_index E e True) news else ret ())))
     W (Inr ()) (reindex T e (if a then olds else []) val (if b then news else []) W)"
proof -
  have del: "does (view E) (if a then for_each (write_index E e False) olds else ret ()) W (Inr ())
      (del_entries (if a then olds else []) e W)" for W
    using does_write_indexes [OF ok, where ins = False] by (simp add: does_ret)
  have ins: "does (view E) (if b then for_each (write_index E e True) news else ret ()) W (Inr ())
      (put_entries (if b then news else []) e W)" for W
    using does_write_indexes [OF ok, where ins = True] by (simp add: does_ret)
  show ?thesis
    unfolding reindex_def
    by (rule does_then [OF del does_then [OF does_put [OF ok] ins]])
qed

lemma does_create_ticket:
  fixes body index
  defines "row \<equiv> \<lparr>sk_body = body, sk_index = index, sk_deleted = False, sk_deleted_at_unix = 0\<rparr>"
  assumes ok: "sled_ok E" "codec_ok (st_codec E)" and n: "n = saturating_inc (seq_value W)"
  shows "does (view E) (create_ticket E body index) W (Inr n)
     (reindex TREE_TICKETS (to_be_bytes n) [] (enc (st_codec E) row) (ticket_ents row)
       (W(TREE_SEQ := (W TREE_SEQ)(SEQ_TICKET \<mapsto> to_be_bytes n))))"
proof -
  have ents: "ticket_ents row = ticket_index_entries index" by (simp add: ticket_ents_def row_def)
  show ?thesis
    unfolding create_ticket_def write_ticket_indexes_def reindex_def ents Let_def
      row_def [symmetric] entries_Nil n
    by (rule does_bind [OF does_next_id [OF ok(1)]], simp only: codec_okD(1) [OF ok(2)] bindA_lift)
      (rule does_then [OF does_put [OF ok(1)] does_then
          [OF does_write_indexes [OF ok(1), where ins = True, simplified] does_ret]])
qed

lemma does_update_ticket:
  assumes ok: "sled_ok E" "codec_ok (st_codec E)"
    and old: "W TREE_TICKETS (to_be_bytes i) = Some b" "cd_de (st_codec E) b = Inr old"
    and row: "row = old\<lparr>sk_body := body, sk_index := index\<rparr>"
  shows "does (view E) (update_ticket E i body index) W (Inr ())
     (reindex TREE_TICKETS (to_be_bytes i) (ticket_ents old) (enc (st_codec E) row) (ticket_ents row) W)"
proof -
  have row': "\<lparr>sk_body = body, sk_index = index, sk_deleted = sk_deleted old,
      sk_deleted_at_unix = sk_deleted_at_unix old\<rparr> = row" by (simp add: row)
  have ents: "ticket_ents old = (if \<not> sk_deleted old then ticket_index_entries (sk_index old) else [])"
    "ticket_ents row = (if \<not> sk_deleted row then ticket_index_entries index else [])"
    by (simp_all add: ticket_ents_def row)
  show ?thesis
    unfolding update_ticket_def write_ticket_indexes_def Let_def ents
    by (rule does_bind [OF does_get [OF ok(1)]])
      (simp only: old option.case sum.case row' codec_okD(1) [OF ok(2)] bindA_lift,
        rule does_row_write [OF ok(1)])
qed

lemma does_soft_delete_ticket:
  assumes ok: "sled_ok E" "codec_ok (st_codec E)"
    and old: "W TREE_TICKETS (to_be_bytes i) = Some b" "cd_de (st_codec E) b = Inr old"
    and row: "row = old\<lparr>sk_deleted := True, sk_deleted_at_unix := t\<rparr>"
  shows "does (view E) (soft_delete_ticket E i t) W (Inr ())
     (reindex TREE_TICKETS (to_be_bytes i) (ticket_ents old) (enc (st_codec E) row) (ticket_ents row) W)"
proof -
  have ents: "ticket_ents old = (if \<not> sk_deleted old then ticket_index_entries (sk_index old) else [])"
    "ticket_ents row = []"
    by (simp_all add: ticket_ents_def row)
  show ?thesis
    unfolding soft_delete_ticket_def write_ticket_indexes_def Let_def ents
    by (rule does_bind [OF does_get [OF ok(1)]])
      (simp only: old option.case row [symmetric] codec_okD(1) [OF ok(2)] bindA_lift,
        rule does_row_write [OF ok(1), where b = False, simplified if_False thenA_ret_unit])
qed

lemma does_create_user:
  fixes body index
  defines "row \<equiv> \<lparr>su_body = body, su_index = index, su_deleted = False, su_deleted_at_unix = 0\<rparr>"
  assumes ok: "sled_ok E" "codec_ok (su_codec E)"
  shows "does (view E) (create_user E u body index) W (Inr ())
     (reindex TREE_USERS (utf8_bytes u) [] (enc (su_codec E) row) (user_ents row) W)"
proof -
  have ents: "user_ents row = user_index_entries index" by (simp add: user_ents_def row_def)
  show ?thesis
    unfolding create_user_def write_user_indexes_def reindex_def ents Let_def row_def [symmetric]
      entries_Nil codec_okD(1) [OF ok(2)] bindA_lift
    by (rule does_then [OF does_put [OF ok(1)]
          does_write_indexes [OF ok(1), where ins = True, simplified]])
qed

lemma does_update_user:
  assumes ok: "sled_ok E" "codec_ok (su_codec E)"
    and old: "W TREE_USERS (utf8_bytes u) = Some b" "cd_de (su_codec E) b = Inr old"
    and row: "row = old\<lparr>su_body := body, su_index := index\<rparr>"
  shows "does (view E) (update_user E u body index) W (Inr ())
     (reindex TREE_USERS (utf8_bytes u) (user_ents old) (enc (su_codec E) row) (user_ents row) W)"
proof -
  have row': "\<lparr>su_body = body, su_index = index, su_deleted = su_deleted old,
      su_deleted_at_unix = su_deleted_at_unix old\<rparr> = row" by (simp add: row)
  have ents: "user_ents old = (if \<not> su_deleted old then user_index_entries (su_index old) else [])"
    "user_ents row = (if \<not> su_deleted row then user_index_entries index else [])"
    by (simp_all add: user_ents_def row)
  show ?thesis
    unfolding update_user_def write_user_indexes_def Let_def ents
    by (rule does_bind [OF does_get [OF ok(1)]])
      (simp only: old option.case row' codec_okD(1) [OF ok(2)] bindA_lift,
        rule does_row_write [OF ok(1)])
qed

lemma does_soft_delete_user:
  assumes ok: "sled_ok E" "codec_ok (su_codec E)"
    and old: "W TREE_USERS (utf8_bytes u) = Some b" "cd_de (su_codec E) b = Inr old"
    and row: "row = old\<lparr>su_deleted := True, su_deleted_at_unix := t\<rparr>"
  shows "does (view E) (soft_delete_user E u t) W (Inr ())
     (reindex TREE_USERS (utf8_bytes u) (user_ents old) (enc (su_codec E) row) (user_ents row) W)"
proof -
  have ents: "user_ents old = (if \<not> su_deleted old then user_index_entries (su_index old) else [])"
    "user_ents row = []"
    by (simp_all add: user_ents_def row)
  show ?thesis
    unfolding soft_delete_user_def write_user_indexes_def Let_def ents
    by (rule does_bind [OF does_get [OF ok(1)]])
      (simp only: old option.case row [symmetric] codec_okD(1) [OF ok(2)] bindA_lift,
        rule does_row_write [OF ok(1), where b = False, simplified if_False thenA_ret_unit])
qed

text \<open>The error branch: a missing row fails before anything is written.\<close>

lemma does_missing:
  assumes "sled_ok E"
  shows "W TREE_TICKETS (to_be_bytes i) = None \<Longrightarrow>
      does (view E) (update_ticket E i body index) W (Inl (TicketNotFound i)) W"
    and "W TREE_TICKETS (to_be_bytes i) = None \<Longrightarrow>
      does (view E) (soft_delete_ticket E i t) W (Inl (TicketNotFound i)) W"
    and "W TREE_USERS (utf8_bytes u) = None \<Longrightarrow>
      does (view E) (update_user E u body uindex) W (Inl (UserNotFound u)) W"
    and "W TREE_USERS (utf8_bytes u) = None \<Longrightarrow>
      does (view E) (soft_delete_user E u t) W (Inl (UserNotFound u)) W"
  unfolding update_ticket_def soft_delete_ticket_def update_user_def soft_delete_user_def
  by (rule does_bind [OF does_get [OF assms]], simp add: does_throw)+

subsection \<open>Refinement\<close>

definition db_env_ok :: "('d, 'z) dbstore_scheme \<Rightarrow> bool" where
  "db_env_ok E \<longleftrightarrow> sled_ok E \<and> codec_ok (st_codec E) \<and> codec_ok (su_codec E)"

text \<open>One step: what the operation returns and leaves is what the specification says.\<close>

definition refines_entry :: "('d, 'z) dbstore_scheme \<Rightarrow> (world \<Rightarrow> bool) \<Rightarrow> log_entry \<Rightarrow> world \<Rightarrow> bool" where
  "refines_entry E P e W \<longleftrightarrow>
     (\<exists>W'. does (view E) (log_apply E e) W (fst (spec_apply e (db_abs E W))) W'
        \<and> db_part E P W' \<and> db_abs E W' = snd (spec_apply e (db_abs E W)))"

lemma refines_entryI:
  assumes "does (view E) (log_apply E e) W r W'" and "db_part E P W'"
    and "spec_apply e (db_abs E W) = (r, db_abs E W')"
  shows "refines_entry E P e W"
  using assms unfolding refines_entry_def by auto

lemma does_then_None: "does V m W (Inr x) W' \<Longrightarrow> does V (thenA m (ret None)) W (Inr None) W'"
  by (rule does_then [OF _ does_ret])

lemma does_then_err: "does V m W (Inl e) W' \<Longrightarrow> does V (thenA m k) W (Inl e) W'"
  unfolding thenA_def by (rule does_bind_err)

lemma abs_ticket: "sp_tickets (db_abs E W) = table_rows (st_codec E) to_be_bytes TREE_TICKETS W"
  and abs_last: "sp_last_id (db_abs E W) = seq_value W"
  and abs_users: "sp_users (db_abs E W) = table_rows (su_codec E) utf8_bytes TREE_USERS W"
  by (simp_all add: db_abs_def)

lemma refines_raw:
  assumes inv: "db_inv E W"
    and fr: "\<And>t. \<not> foreign t \<Longrightarrow> W' t = W t"
    and m: "does (view E) (log_apply E e) W (Inr None) W'"
    and e: "spec_apply e (db_abs E W) = (Inr None, db_abs E W)"
  shows "refines_entry E (users_inv E) e W"
proof (rule refines_entryI [OF m])
  show "db_inv E W'" using inv db_frame(2) [of W' W E, OF fr] by simp
  show "spec_apply e (db_abs E W) = (Inr None, db_abs E W')"
    using e db_frame(1) [of W' W E, OF fr] by simp
qed

lemma fold_wput_elsewhere:
  "t \<noteq> c \<Longrightarrow> fold (\<lambda>(k, v) W. wput W c k v) pairs W t = W t"
  by (induction pairs arbitrary: W) auto

lemma refines_create_ticket:
  assumes ok: "db_env_ok E" and inv: "db_part E P W"
  shows "sp_last_id (db_abs E W) \<noteq> - 1 \<Longrightarrow> refines_entry E P (CreateTicket body index) W"
proof -
  assume room: "sp_last_id (db_abs E W) \<noteq> - 1"
  define n where "n = saturating_inc (seq_value W)"
  define W1 where "W1 = W(TREE_SEQ := (W TREE_SEQ)(SEQ_TICKET \<mapsto> to_be_bytes n))"
  let ?row = "\<lparr>sk_body = body, sk_index = index, sk_deleted = False, sk_deleted_at_unix = 0\<rparr>"
  have c: "codec_ok (st_codec E)" and s: "sled_ok E" using ok by (simp_all add: db_env_ok_def)
  note bump = seq_bump [OF inv, folded n_def, folded W1_def]
  have "unat n = unat (seq_value W) + 1"
    using unat_saturating_inc room by (simp add: n_def abs_last)
  then have "\<not> n \<le> seq_value W" by (simp add: word_le_nat_alt)
  then have "sp_tickets (db_abs E W) n = None"
    using inv by (auto simp: db_part_def ids_fresh_def abs_last)
  then have olds: "[] = row_entries ticket_ents (sp_tickets (db_abs E W1) n)"
    by (simp add: bump(2) row_entries_def)
  have seq: "seq_value W1 = n" using bump(2) by (simp add: db_abs_def)
  note wr = ticket_write [OF bump(1) c olds, where r = ?row, unfolded seq, OF order_refl]
  show ?thesis
  proof (rule refines_entryI)
    show "does (view E) (log_apply E (CreateTicket body index)) W (Inr (Some (to_be_bytes n)))
        (reindex TREE_TICKETS (to_be_bytes n) [] (enc (st_codec E) ?row) (ticket_ents ?row) W1)"
      unfolding log_apply.simps W1_def
      by (rule does_bind [OF does_create_ticket [OF s c n_def] does_ret])
  qed (use wr bump(2) in \<open>auto simp: n_def Let_def db_abs_def\<close>)
qed

lemma refines_ticket_row:
  assumes ok: "db_env_ok E" and inv: "db_part E P W"
  shows "refines_entry E P (UpdateTicket i body index) W"
    and "refines_entry E P (SoftDeleteTicket i t) W"
proof -
  have c: "codec_ok (st_codec E)" and s: "sled_ok E" using ok by (simp_all add: db_env_ok_def)
  have tinv: "table_inv (st_codec E) to_be_bytes TREE_TICKETS ticket_trees ticket_ents (\<lambda>_. True) W"
    using inv by (simp add: db_part_def tickets_inv_def)
  have "refines_entry E P (UpdateTicket i body index) W \<and> refines_entry E P (SoftDeleteTicket i t) W"
  proof (cases "W TREE_TICKETS (to_be_bytes i)")
    case None
    then have "sp_tickets (db_abs E W) i = None"
      by (simp add: abs_ticket tickets.row_absent)
    then show ?thesis
      using does_missing(1,2) [where W = W, OF s None] inv
      by (auto intro!: refines_entryI does_then_err)
  next
    case (Some b)
    then obtain r where r: "cd_de (st_codec E) b = Inr r" and row: "sp_tickets (db_abs E W) i = Some r"
      using tickets.row_present [OF tinv Some] by (auto simp: abs_ticket)
    have olds: "ticket_ents r = row_entries ticket_ents (sp_tickets (db_abs E W) i)"
      by (simp add: row row_entries_def)
    have le: "i \<le> seq_value W" using inv row by (auto simp: db_part_def ids_fresh_def abs_last)
    note wr = ticket_write [OF inv c olds le]
    have "refines_entry E P (UpdateTicket i body index) W"
      by (rule refines_entryI, unfold log_apply.simps,
          rule does_then_None [OF does_update_ticket [where W = W, OF s c Some r, OF refl]])
        (use wr row in \<open>simp_all\<close>)
    moreover have "refines_entry E P (SoftDeleteTicket i t) W"
      by (rule refines_entryI, unfold log_apply.simps,
          rule does_then_None [OF does_soft_delete_ticket [where W = W, OF s c Some r, OF refl]])
        (use wr row in \<open>simp_all\<close>)
    ultimately show ?thesis ..
  qed
  then show "refines_entry E P (UpdateTicket i body index) W" "refines_entry E P (SoftDeleteTicket i t) W"
    by simp_all
qed

lemma refines_create_user:
  assumes ok: "db_env_ok E" and inv: "db_inv E W"
    and fresh: "sp_users (db_abs E W) u = None" and nul: "nul_free index"
  shows "refines_entry E (users_inv E) (CreateUser u body index) W"
proof -
  have c: "codec_ok (su_codec E)" and s: "sled_ok E" using ok by (simp_all add: db_env_ok_def)
  have olds: "[] = row_entries user_ents (sp_users (db_abs E W) u)"
    by (simp add: fresh row_entries_def)
  show ?thesis
    by (rule refines_entryI, unfold log_apply.simps, rule does_then_None [OF does_create_user [OF s c]])
      (use user_write [OF inv c olds] nul in \<open>simp_all\<close>)
qed

lemma refines_user_row:
  assumes ok: "db_env_ok E" and inv: "db_inv E W"
  shows "nul_free index \<Longrightarrow> refines_entry E (users_inv E) (UpdateUser u body index) W"
    and "refines_entry E (users_inv E) (SoftDeleteUser u t) W"
proof -
  have c: "codec_ok (su_codec E)" and s: "sled_ok E" using ok by (simp_all add: db_env_ok_def)
  have uinv: "table_inv (su_codec E) utf8_bytes TREE_USERS user_trees user_ents
      (\<lambda>r. nul_free (su_index r)) W"
    using inv by (simp add: db_inv_def users_inv_def)
  have "(nul_free index \<longrightarrow> refines_entry E (users_inv E) (UpdateUser u body index) W)
      \<and> refines_entry E (users_inv E) (SoftDeleteUser u t) W"
  proof (cases "W TREE_USERS (utf8_bytes u)")
    case None
    then have "sp_users (db_abs E W) u = None" by (simp add: abs_users users.row_absent)
    then show ?thesis
      using does_missing(3,4) [where W = W, OF s None] inv
      by (auto intro!: refines_entryI does_then_err)
  next
    case (Some b)
    then obtain r where r: "cd_de (su_codec E) b = Inr r" and row: "sp_users (db_abs E W) u = Some r"
      using users.row_present [OF uinv Some] by (auto simp: abs_users)
    have olds: "user_ents r = row_entries user_ents (sp_users (db_abs E W) u)"
      by (simp add: row row_entries_def)
    have nul: "nul_free (su_index r)" using users.row_adm [OF uinv] row by (simp add: abs_users)
    note wr = user_write [OF inv c olds]
    have "refines_entry E (users_inv E) (UpdateUser u body index) W" if "nul_free index"
      by (rule refines_entryI, unfold log_apply.simps,
          rule does_then_None [OF does_update_user [where W = W, OF s c Some r, OF refl]])
        (use wr row that in \<open>simp_all\<close>)
    moreover have "refines_entry E (users_inv E) (SoftDeleteUser u t) W"
      by (rule refines_entryI, unfold log_apply.simps,
          rule does_then_None [OF does_soft_delete_user [where W = W, OF s c Some r, OF refl]])
        (use wr row nul in \<open>simp_all\<close>)
    ultimately show ?thesis by blast
  qed
  then show "nul_free index \<Longrightarrow> refines_entry E (users_inv E) (UpdateUser u body index) W"
    "refines_entry E (users_inv E) (SoftDeleteUser u t) W" by simp_all
qed

fun ticket_entry :: "log_entry \<Rightarrow> bool" where
  "ticket_entry (CreateTicket _ _) = True"
| "ticket_entry (UpdateTicket _ _ _) = True"
| "ticket_entry (SoftDeleteTicket _ _) = True"
| "ticket_entry _ = False"

lemma refines_ticket_entry:
  assumes "db_env_ok E" and "db_part E P W" and "entry_ok (db_abs E W) e" and "ticket_entry e"
  shows "refines_entry E P e W"
  using assms refines_create_ticket [OF assms(1,2)] refines_ticket_row [OF assms(1,2)] by (cases e) auto

lemma refines_entry_ok:
  assumes ok: "db_env_ok E" and inv: "db_inv E W" and e: "entry_ok (db_abs E W) e"
  shows "refines_entry E (users_inv E) e W"
proof (cases e)
  case (Put c k v)
  have "does (view E) (log_apply E e) W (Inr None) (wput W c k v)"
    using ok unfolding Put log_apply.simps db_env_ok_def by (blast intro: does_then_None does_put)
  moreover have "wput W c k v t = W t" if "\<not> foreign t" for t
    using e that by (intro wput_other) (auto simp: Put)
  ultimately show ?thesis by (intro refines_raw [OF inv]) (auto simp: Put)
next
  case (Get c k)
  have "does (view E) (log_apply E e) W (Inr None) W" by (simp add: Get does_ret)
  then show ?thesis using refines_raw [OF inv, of W] by (simp add: Get)
next
  case (Delete c k)
  have "does (view E) (log_apply E e) W (Inr None) (wdel W c k)"
    using ok unfolding Delete log_apply.simps db_env_ok_def by (blast intro: does_then_None does_delete)
  moreover have "wdel W c k t = W t" if "\<not> foreign t" for t
    using e that by (intro wdel_other) (auto simp: Delete)
  ultimately show ?thesis by (intro refines_raw [OF inv]) (auto simp: Delete)
next
  case (BatchPut c pairs)
  have "does (view E) (log_apply E e) W (Inr None) (fold (\<lambda>(k, v) W. wput W c k v) pairs W)"
    using ok unfolding BatchPut log_apply.simps db_env_ok_def
    by (blast intro: does_then_None does_batch_put)
  moreover have "fold (\<lambda>(k, v) W. wput W c k v) pairs W t = W t" if "\<not> foreign t" for t
    using e that by (intro fold_wput_elsewhere) (auto simp: BatchPut)
  ultimately show ?thesis by (intro refines_raw [OF inv]) (auto simp: BatchPut)
qed (use e refines_create_ticket [OF ok inv] refines_ticket_row [OF ok inv]
      refines_create_user [OF ok inv] refines_user_row [OF ok inv] in \<open>auto\<close>)

lemma refines_part:
  assumes "db_env_ok E" and "db_part E P W" and "entry_ok (db_abs E W) e" and "ticket_entry e \<or> P = users_inv E"
  shows "refines_entry E P e W"
  using assms refines_ticket_entry refines_entry_ok by blast

end
