(* ===== verification/Db_Query.thy ===== *)
theory Db_Query
  imports Db_Spec
begin

text \<open>
  Reads of the database service's storage layer against its specification: point reads, the
  index scans, and \<open>query_tickets\<close>, which picks an index, re-reads every candidate row and
  filters it in memory.
\<close>

subsection \<open>Point reads\<close>

definition visible :: "bool \<Rightarrow> stored_ticket option \<Rightarrow> stored_ticket option" where
  "visible incl r = (case r of None \<Rightarrow> None
     | Some t \<Rightarrow> if sk_deleted t \<and> \<not> incl then None else Some t)"

lemma tickets_table:
  "db_part E P W \<Longrightarrow> table_inv (st_codec E) to_be_bytes TREE_TICKETS ticket_trees ticket_ents (\<lambda>_. True) W"
  by (simp add: db_part_def tickets_inv_def)

lemma users_table:
  "db_inv E W \<Longrightarrow> table_inv (su_codec E) utf8_bytes TREE_USERS user_trees user_ents
     (\<lambda>r. nul_free (su_index r)) W"
  by (simp add: db_inv_def users_inv_def)

lemma does_get_ticket:
  assumes ok: "sled_ok E" and inv: "db_part E P W"
  shows "does (view E) (get_ticket E i incl) W (Inr (visible incl (sp_tickets (db_abs E W) i))) W"
proof (cases "W TREE_TICKETS (to_be_bytes i)")
  case None
  then show ?thesis
    unfolding get_ticket_def
    by (intro does_bind [OF does_get [OF ok]])
      (simp add: None tickets.row_absent abs_ticket visible_def does_ret)
next
  case (Some b)
  from tickets.row_present [OF tickets_table [OF inv] Some]
  obtain r where "cd_de (st_codec E) b = Inr r" "sp_tickets (db_abs E W) i = Some r"
    by (auto simp: abs_ticket)
  then show ?thesis
    unfolding get_ticket_def
    by (intro does_bind [OF does_get [OF ok]]) (auto simp: Some visible_def does_ret)
qed

lemma does_get_user:
  assumes ok: "sled_ok E" and inv: "db_inv E W"
  shows "does (view E) (get_user E u incl) W
     (Inr (case sp_users (db_abs E W) u of None \<Rightarrow> None
       | Some r \<Rightarrow> if su_deleted r \<and> \<not> incl then None else Some r)) W"
proof (cases "W TREE_USERS (utf8_bytes u)")
  case None
  then show ?thesis
    unfolding get_user_def
    by (intro does_bind [OF does_get [OF ok]]) (simp add: None users.row_absent abs_users does_ret)
next
  case (Some b)
  from users.row_present [OF users_table [OF inv] Some]
  obtain r where "cd_de (su_codec E) b = Inr r" "sp_users (db_abs E W) u = Some r"
    by (auto simp: abs_users)
  then show ?thesis
    unfolding get_user_def
    by (intro does_bind [OF does_get [OF ok]]) (auto simp: Some does_ret)
qed

subsection \<open>Candidates\<close>

lemma scan_ids_loop_Inr:
  "scan_ids_loop (map Inr xs) ids = Inr (ids @ List.map_filter (\<lambda>x. from_be_bytes (snd x)) xs)"
  by (induction xs arbitrary: ids) (auto simp: map_filter_simps split: option.split)

lemma does_scan_index_ids:
  assumes ok: "sled_ok E" and xs: "scan_of (W t) xs"
  shows "does (view E) (scan_index_ids E t v) W
     (Inr (List.map_filter (\<lambda>x. from_be_bytes (snd x))
        (filter (\<lambda>x. is_prefix (index_prefix v) (fst x)) xs))) W"
  unfolding scan_index_ids_def
proof (rule does_then [OF does_get_tree [OF ok]], rule does_read)
  fix d assume "view E d = W"
  then have "scan E t d = xs" using scan_facts(1) [OF ok] xs scan_of_unique by metis
  then show "scan_ids_loop (sl_prefix E t (index_prefix v) d) [] =
      Inr (List.map_filter (\<lambda>x. from_be_bytes (snd x))
        (filter (\<lambda>x. is_prefix (index_prefix v) (fst x)) xs))"
    by (simp add: scan_facts(3) [OF ok] scan_ids_loop_Inr)
qed

lemma does_all_ticket_ids:
  assumes ok: "sled_ok E" and xs: "scan_of (W TREE_TICKETS) xs"
  shows "does (view E) (all_ticket_ids E) W
     (Inr (List.map_filter (\<lambda>x. from_be_bytes (fst x)) xs)) W"
  unfolding all_ticket_ids_def
  by (rule does_bind [OF does_list_pairs [where W = W, OF ok xs]])
    (simp add: list_limit_def case_prod_unfold does_ret)

lemma distinct_map_filter:
  assumes "distinct xs"
    and "\<And>x y i. x \<in> set xs \<Longrightarrow> y \<in> set xs \<Longrightarrow> f x = Some i \<Longrightarrow> f y = Some i \<Longrightarrow> x = y"
  shows "distinct (List.map_filter f xs)"
  using assms
proof (induction xs)
  case Nil
  then show ?case by (simp add: map_filter_simps)
next
  case (Cons x xs)
  have "i \<notin> set (List.map_filter f xs)" if "f x = Some i" for i
  proof
    assume "i \<in> set (List.map_filter f xs)"
    then obtain y where "y \<in> set xs" "f y = Some i" by (auto simp: map_filter_def)
    with that Cons.prems show False by (metis distinct.simps(2) list.set_intros)
  qed
  with Cons show ?case by (auto simp: map_filter_simps split: option.split)
qed

lemma set_map_filter: "i \<in> set (List.map_filter f xs) \<longleftrightarrow> (\<exists>x \<in> set xs. f x = Some i)"
  by (induction xs) (auto simp: map_filter_simps split: option.split)

lemma scan_pairs_distinct: "scan_of m xs \<Longrightarrow> distinct xs"
  using scan_of_distinct distinct_map by blast

text \<open>Each index tree occurs once among the entries of a row.\<close>

lemma ticket_entries_distinct: "distinct (map fst (ticket_index_entries x))"
  by (cases "ti_assigned_to_uuid x"; cases "ti_tracking_url x")
    (simp_all add: ticket_index_entries_def tree_defs)

lemma ticket_ents_one: "(t, v) \<in> set (ticket_ents r) \<Longrightarrow> (t, v') \<in> set (ticket_ents r) \<Longrightarrow> v = v'"
  using ticket_entries_distinct [of "sk_index r"]
  by (auto simp: ticket_ents_def eq_key_imp_eq_value split: if_splits)

lemma index_entry:
  assumes inv: "db_part E P W" and t: "t \<in> ticket_trees"
  shows "W t k = Some b \<longleftrightarrow> (\<exists>i r v. sp_tickets (db_abs E W) i = Some r \<and> (t, v) \<in> set (ticket_ents r)
     \<and> k = index_key v (to_be_bytes i) \<and> b = to_be_bytes i)"
proof -
  have "W t k = Some b \<longleftrightarrow> (\<exists>i v. (t, v) \<in> set (row_entries ticket_ents (sp_tickets (db_abs E W) i))
      \<and> k = index_key v (to_be_bytes i) \<and> b = to_be_bytes i)"
    using tickets_table [OF inv] t unfolding table_inv_def abs_ticket by blast
  also have "\<dots> \<longleftrightarrow> (\<exists>i r v. sp_tickets (db_abs E W) i = Some r \<and> (t, v) \<in> set (ticket_ents r)
      \<and> k = index_key v (to_be_bytes i) \<and> b = to_be_bytes i)"
  proof -
    have "(t, v) \<in> set (row_entries ticket_ents x) \<longleftrightarrow> (\<exists>r. x = Some r \<and> (t, v) \<in> set (ticket_ents r))"
      for v x by (cases x) (auto simp: row_entries_def)
    then show ?thesis by auto
  qed
  finally show ?thesis .
qed

text \<open>An index scan yields every active row with that value, and no row twice.\<close>

lemma index_candidates:
  assumes ok: "sled_ok E" and inv: "db_part E P W" and t: "t \<in> ticket_trees"
    and ex: "scan_of (W t) xs"
  shows "\<exists>ids. does (view E) (scan_index_ids E t v) W (Inr ids) W \<and> distinct ids
     \<and> (\<forall>i r. sp_tickets (db_abs E W) i = Some r \<longrightarrow> (t, v) \<in> set (ticket_ents r) \<longrightarrow> i \<in> set ids)"
proof (intro exI conjI allI impI)
  let ?ys = "filter (\<lambda>x. is_prefix (index_prefix v) (fst x)) xs"
  let ?f = "\<lambda>x :: bytes \<times> bytes. from_be_bytes (snd x)"
  show "does (view E) (scan_index_ids E t v) W (Inr (List.map_filter ?f ?ys)) W"
    by (rule does_scan_index_ids [where W = W, OF ok ex])
  have entry: "\<exists>i r w. sp_tickets (db_abs E W) i = Some r \<and> (t, w) \<in> set (ticket_ents r)
      \<and> x = (index_key w (to_be_bytes i), to_be_bytes i)" if "x \<in> set xs" for x
  proof -
    have "W t (fst x) = Some (snd x)" using that scan_of_set [OF ex, of "fst x" "snd x"] by simp
    then show ?thesis unfolding index_entry [OF inv t] by (metis prod.collapse)
  qed
  show "distinct (List.map_filter ?f ?ys)"
  proof (rule distinct_map_filter)
    show "distinct ?ys" using scan_pairs_distinct [OF ex] by simp
  next
    fix x y i
    assume "x \<in> set ?ys" "y \<in> set ?ys" "?f x = Some i" "?f y = Some i"
    then show "x = y" using entry [of x] entry [of y] ticket_ents_one by fastforce
  qed
  fix i r
  assume r: "sp_tickets (db_abs E W) i = Some r" "(t, v) \<in> set (ticket_ents r)"
  then have "W t (index_key v (to_be_bytes i)) = Some (to_be_bytes i)"
    using index_entry [OF inv t] by blast
  then have "(index_key v (to_be_bytes i), to_be_bytes i) \<in> set xs"
    using scan_of_set [OF ex] by simp
  moreover have "is_prefix (index_prefix v) (index_key v (to_be_bytes i))"
    by (simp add: is_prefix_iff index_prefix_def index_key_def)
  ultimately show "i \<in> set (List.map_filter ?f ?ys)"
    unfolding set_map_filter
    by (intro bexI [where x = "(index_key v (to_be_bytes i), to_be_bytes i)"]) simp_all
qed

lemma all_candidates:
  assumes ok: "sled_ok E" and inv: "db_part E P W" and ex: "scan_of (W TREE_TICKETS) xs"
  shows "\<exists>ids. does (view E) (all_ticket_ids E) W (Inr ids) W \<and> distinct ids
     \<and> (\<forall>i r. sp_tickets (db_abs E W) i = Some r \<longrightarrow> i \<in> set ids)"
proof (intro exI conjI allI impI)
  let ?f = "\<lambda>x :: bytes \<times> bytes. from_be_bytes (fst x)"
  show "does (view E) (all_ticket_ids E) W (Inr (List.map_filter ?f xs)) W"
    by (rule does_all_ticket_ids [where W = W, OF ok ex])
  have key: "\<exists>i. fst x = to_be_bytes i" if "x \<in> set xs" for x
    using that tickets_table [OF inv] scan_of_set [OF ex, of "fst x" "snd x"]
    unfolding table_inv_def by auto
  show "distinct (List.map_filter ?f xs)"
  proof (rule distinct_map_filter [OF scan_pairs_distinct [OF ex]])
    fix x y i
    assume x: "x \<in> set xs" "?f x = Some i" and y: "y \<in> set xs" "?f y = Some i"
    then have "fst x = to_be_bytes i" "fst y = to_be_bytes i"
      using key [OF x(1)] key [OF y(1)] by auto
    then have "fst x = fst y" by simp
    then show "x = y" using scan_of_distinct [OF ex] x(1) y(1) by (simp add: distinct_map inj_on_def)
  qed
  fix i r
  assume "sp_tickets (db_abs E W) i = Some r"
  then obtain b where "W TREE_TICKETS (to_be_bytes i) = Some b"
    by (cases "W TREE_TICKETS (to_be_bytes i)") (simp_all add: abs_ticket tickets.row_absent)
  then have "(to_be_bytes i, b) \<in> set xs" using scan_of_set [OF ex] by simp
  then show "i \<in> set (List.map_filter ?f xs)"
    unfolding set_map_filter by (intro bexI [where x = "(to_be_bytes i, b)"]) simp_all
qed

subsection \<open>Queries\<close>

definition matches :: "ticket_query \<Rightarrow> stored_ticket \<Rightarrow> bool" where
  "matches q r \<longleftrightarrow>
     (tq_include_deleted q \<or> \<not> sk_deleted r)
   \<and> (\<forall>s. tq_status q = Some s \<longrightarrow> ti_status (sk_index r) = s)
   \<and> (\<forall>a. tq_assigned_to_uuid q = Some a \<longrightarrow> ti_assigned_to_uuid (sk_index r) = Some a)
   \<and> (\<forall>a. tq_account_uuid q = Some a \<longrightarrow> ti_account_uuid (sk_index r) = a)
   \<and> (\<forall>p. tq_project q = Some p \<longrightarrow> ti_project (sk_index r) = p)"

lemma matches_iff: "matches q r \<longleftrightarrow> (tq_include_deleted q \<or> \<not> sk_deleted r) \<and> \<not> query_skips q r"
  by (auto simp: matches_def query_skips_def split: option.splits)

definition selected :: "db_spec \<Rightarrow> ticket_query \<Rightarrow> u64 \<Rightarrow> (u64 \<times> stored_ticket) option" where
  "selected s q i = (case sp_tickets s i of None \<Rightarrow> None
     | Some r \<Rightarrow> if matches q r then Some (i, r) else None)"

lemma does_query_loop:
  assumes ok: "sled_ok E" and inv: "db_part E P W"
  shows "tq_limit q = 0 \<or> length out < tq_limit q \<Longrightarrow>
     does (view E) (query_loop E q ids out) W
       (Inr (let all = out @ List.map_filter (selected (db_abs E W) q) ids
             in if tq_limit q = 0 then all else take (tq_limit q) all)) W"
proof (induction ids arbitrary: out)
  case Nil
  then show ?case by (auto simp: map_filter_simps does_ret)
next
  case (Cons i ids)
  let ?s = "db_abs E W"
  let ?res = "visible (tq_include_deleted q) (sp_tickets ?s i)"
  have sel: "selected ?s q i = (case ?res of None \<Rightarrow> None
      | Some r \<Rightarrow> if query_skips q r then None else Some (i, r))"
    by (auto simp: selected_def visible_def matches_iff split: option.split)
  show ?case
  proof (unfold query_loop.simps, rule does_bind [OF does_get_ticket [OF ok inv]])
    show "does (view E)
      (case ?res of None \<Rightarrow> query_loop E q ids out
        | Some stored \<Rightarrow>
            if query_skips q stored then query_loop E q ids out
            else if 0 < tq_limit q \<and> tq_limit q \<le> length (out @ [(i, stored)])
            then ret (out @ [(i, stored)])
            else query_loop E q ids (out @ [(i, stored)])) W
       (Inr (let all = out @ List.map_filter (selected ?s q) (i # ids)
             in if tq_limit q = 0 then all else take (tq_limit q) all)) W"
    proof (cases "selected ?s q i")
      case None
      then show ?thesis
        using Cons.IH [OF Cons.prems] sel
        by (auto simp: map_filter_simps split: option.splits if_splits)
    next
      case (Some p)
      then obtain r where r: "?res = Some r" "\<not> query_skips q r" "p = (i, r)"
        using sel by (auto split: option.splits if_splits)
      show ?thesis
      proof (cases "0 < tq_limit q \<and> tq_limit q \<le> length (out @ [(i, r)])")
        case True
        then have "tq_limit q - length out = 1" "0 < tq_limit q" using Cons.prems by simp_all
        then show ?thesis
          using True Some r by (simp add: map_filter_simps does_ret)
      next
        case False
        then have "tq_limit q = 0 \<or> length (out @ [(i, r)]) < tq_limit q" by auto
        from Cons.IH [OF this] show ?thesis
          using False Some r by (auto simp: map_filter_simps Let_def)
      qed
    qed
  qed
qed

lemma candidates_complete:
  assumes ok: "sled_ok E" and inv: "db_part E P W" and ex: "\<And>t. \<exists>xs. scan_of (W t) xs"
  shows "\<exists>ids. does (view E) (query_candidates E q) W (Inr ids) W \<and> distinct ids
     \<and> (\<forall>i r. sp_tickets (db_abs E W) i = Some r \<longrightarrow> matches q r \<longrightarrow> i \<in> set ids)"
proof -
  have all: ?thesis if "query_candidates E q = all_ticket_ids E"
    using that ex [of TREE_TICKETS] all_candidates [OF ok inv] by metis
  have idx: ?thesis if c: "query_candidates E q = scan_index_ids E t v" and t: "t \<in> ticket_trees"
    and e: "\<And>r. matches q r \<Longrightarrow> (t, v) \<in> set (ticket_ents r)" for t v
    using c e ex [of t] index_candidates [OF ok inv t] by metis
  show ?thesis
  proof (cases "tq_include_deleted q")
    case True
    then show ?thesis by (intro all) (simp add: query_candidates_def)
  next
    case act: False
    note m = matches_def act ticket_ents_def ticket_index_entries_def
    consider s where "tq_status q = Some s"
      | a where "tq_status q = None" "tq_assigned_to_uuid q = Some a"
      | a where "tq_status q = None" "tq_assigned_to_uuid q = None" "tq_account_uuid q = Some a"
      | p where "tq_status q = None" "tq_assigned_to_uuid q = None" "tq_account_uuid q = None"
          "tq_project q = Some p"
      | "tq_status q = None" "tq_assigned_to_uuid q = None" "tq_account_uuid q = None"
          "tq_project q = None"
      by (metis option.exhaust)
    then show ?thesis
    proof cases
      case 1
      then show ?thesis
        by (intro idx [of IDX_TICKET_STATUS "[s]"])
          (auto simp: query_candidates_def m ticket_trees_def)
    next
      case 2
      then show ?thesis
        by (intro idx [of IDX_TICKET_ASSIGNEE "utf8_bytes a"])
          (auto simp: query_candidates_def m ticket_trees_def)
    next
      case 3
      then show ?thesis
        by (intro idx [of IDX_TICKET_ACCOUNT "utf8_bytes a"])
          (auto simp: query_candidates_def m ticket_trees_def)
    next
      case 4
      then show ?thesis
        by (intro idx [of IDX_TICKET_PROJECT "utf8_bytes p"])
          (auto simp: query_candidates_def m ticket_trees_def)
    next
      case 5
      then show ?thesis by (intro all) (simp add: query_candidates_def act)
    qed
  qed
qed

lemma does_query:
  assumes ok: "sled_ok E" and inv: "db_part E P W" and ex: "\<And>t. \<exists>xs. scan_of (W t) xs"
  shows "\<exists>ids. distinct ids
     \<and> (\<forall>i r. sp_tickets (db_abs E W) i = Some r \<longrightarrow> matches q r \<longrightarrow> i \<in> set ids)
     \<and> does (view E) (query_tickets E q) W
         (Inr (let all = List.map_filter (selected (db_abs E W) q) ids
               in if tq_limit q = 0 then all else take (tq_limit q) all)) W"
proof -
  obtain ids where ids: "does (view E) (query_candidates E q) W (Inr ids) W" "distinct ids"
    "\<forall>i r. sp_tickets (db_abs E W) i = Some r \<longrightarrow> matches q r \<longrightarrow> i \<in> set ids"
    using candidates_complete [OF ok inv ex] by blast
  have "does (view E) (query_tickets E q) W
      (Inr (let all = [] @ List.map_filter (selected (db_abs E W) q) ids
            in if tq_limit q = 0 then all else take (tq_limit q) all)) W"
    unfolding query_tickets_def
    by (rule does_bind [OF ids(1) does_query_loop [OF ok inv]]) auto
  with ids(2,3) show ?thesis by auto
qed

lemma selected_Some: "selected s q i = Some x \<longleftrightarrow> (\<exists>r. x = (i, r) \<and> sp_tickets s i = Some r \<and> matches q r)"
  by (auto simp: selected_def split: option.splits if_splits)

lemma selected_all:
  assumes "distinct ids"
    and "\<forall>i r. sp_tickets s i = Some r \<longrightarrow> matches q r \<longrightarrow> i \<in> set ids"
  defines "all \<equiv> List.map_filter (selected s q) ids"
  shows "distinct (map fst all)"
    and "(i, r) \<in> set all \<longleftrightarrow> sp_tickets s i = Some r \<and> matches q r"
proof -
  have "map fst all = filter (\<lambda>i. selected s q i \<noteq> None) ids"
    unfolding all_def
    by (induction ids) (auto simp: map_filter_simps selected_def split: option.splits if_splits)
  then show "distinct (map fst all)" using assms(1) by simp
  show "(i, r) \<in> set all \<longleftrightarrow> sp_tickets s i = Some r \<and> matches q r"
    unfolding all_def set_map_filter using assms(2) by (auto simp: selected_Some)
qed

end
