(* ===== verification/Byte_Codec.thy ===== *)
theory Byte_Codec
  imports Db_Storage
begin

text \<open>
  A concrete serialisation that satisfies \<open>codec_ok\<close> for every type the services store, so
  that the theorems with a codec as a parameter can be applied to a running store: each type
  is written by a self-delimiting writer with a reader that returns what is left.
\<close>

record 'a pickle =
  pk_write :: "'a \<Rightarrow> bytes"
  pk_read :: "bytes \<Rightarrow> ('a \<times> bytes) option"

definition pickle_ok :: "'a pickle \<Rightarrow> bool" where
  "pickle_ok p \<longleftrightarrow> (\<forall>x rest. pk_read p (pk_write p x @ rest) = Some (x, rest))"

definition mk_codec :: "'a pickle \<Rightarrow> 'a codec" where
  "mk_codec p =
     \<lparr>cd_ser = \<lambda>x. Inr (pk_write p x),
      cd_de = \<lambda>b. (case pk_read p b of Some (x, []) \<Rightarrow> Inr x | _ \<Rightarrow> Inl (JsonError ''trailing''))\<rparr>"

lemma mk_codec_ok: "pickle_ok p \<Longrightarrow> codec_ok (mk_codec p)"
proof -
  assume "pickle_ok p"
  then have "pk_read p (pk_write p x @ []) = Some (x, [])" for x unfolding pickle_ok_def by blast
  then show ?thesis by (simp add: codec_ok_def mk_codec_def)
qed

lemma pickle_okI:
  "(\<And>x rest. pk_read p (pk_write p x @ rest) = Some (x, rest)) \<Longrightarrow> pickle_ok p"
  by (simp add: pickle_ok_def)

lemma pickle_okD [simp]: "pickle_ok p \<Longrightarrow> pk_read p (pk_write p x @ rest) = Some (x, rest)"
  by (simp add: pickle_ok_def)

named_theorems pickles \<open>well-behaved writers and readers\<close>

subsection \<open>Building blocks\<close>

fun write_list :: "('a \<Rightarrow> bytes) \<Rightarrow> 'a list \<Rightarrow> bytes" where
  "write_list w [] = [0]"
| "write_list w (x # xs) = 1 # w x @ write_list w xs"

fun read_list :: "nat \<Rightarrow> (bytes \<Rightarrow> ('a \<times> bytes) option) \<Rightarrow> bytes \<Rightarrow> ('a list \<times> bytes) option" where
  "read_list 0 r bs = None"
| "read_list (Suc n) r [] = None"
| "read_list (Suc n) r (b # bs) =
     (if b = 0 then Some ([], bs)
      else case r bs of None \<Rightarrow> None
        | Some (x, bs1) \<Rightarrow> (case read_list n r bs1 of None \<Rightarrow> None
            | Some (xs, bs2) \<Rightarrow> Some (x # xs, bs2)))"

definition list_pk :: "'a pickle \<Rightarrow> 'a list pickle" where
  "list_pk p = \<lparr>pk_write = write_list (pk_write p), pk_read = \<lambda>bs. read_list (Suc (length bs)) (pk_read p) bs\<rparr>"

lemma list_pk_ok [pickles]:
  assumes "pickle_ok p"
  shows "pickle_ok (list_pk p)"
proof (rule pickle_okI)
  fix xs rest
  have "length xs < n \<Longrightarrow> read_list n (pk_read p) (write_list (pk_write p) xs @ rest) = Some (xs, rest)" for n
  proof (induction xs arbitrary: n)
    case Nil
    then show ?case by (cases n) simp_all
  next
    case (Cons x xs)
    then show ?case by (cases n) (simp_all add: assms)
  qed
  moreover have "length xs \<le> length (write_list (pk_write p) xs)" by (induction xs) simp_all
  ultimately show "pk_read (list_pk p) (pk_write (list_pk p) xs @ rest) = Some (xs, rest)"
    by (simp add: list_pk_def)
qed

definition u8_pk :: "u8 pickle" where
  "u8_pk = \<lparr>pk_write = \<lambda>x. [x], pk_read = \<lambda>bs. (case bs of [] \<Rightarrow> None | b # r \<Rightarrow> Some (b, r))\<rparr>"

lemma u8_pk_ok [pickles]: "pickle_ok u8_pk"
  by (rule pickle_okI) (simp add: u8_pk_def)

definition pair_pk :: "'a pickle \<Rightarrow> 'b pickle \<Rightarrow> ('a \<times> 'b) pickle" where
  "pair_pk p q =
     \<lparr>pk_write = \<lambda>(x, y). pk_write p x @ pk_write q y,
      pk_read = \<lambda>bs. (case pk_read p bs of None \<Rightarrow> None
        | Some (x, bs1) \<Rightarrow> (case pk_read q bs1 of None \<Rightarrow> None | Some (y, bs2) \<Rightarrow> Some ((x, y), bs2)))\<rparr>"

lemma pair_pk_ok [pickles]: "pickle_ok p \<Longrightarrow> pickle_ok q \<Longrightarrow> pickle_ok (pair_pk p q)"
  by (rule pickle_okI) (auto simp: pair_pk_def)

text \<open>A type with an injection into a pickled one.\<close>

definition map_pk :: "('a \<Rightarrow> 'b) \<Rightarrow> ('b \<Rightarrow> 'a) \<Rightarrow> 'b pickle \<Rightarrow> 'a pickle" where
  "map_pk f g p = \<lparr>pk_write = \<lambda>x. pk_write p (f x), pk_read = \<lambda>bs. map_option (apfst g) (pk_read p bs)\<rparr>"

lemma map_pk_ok: "pickle_ok p \<Longrightarrow> (\<And>x. g (f x) = x) \<Longrightarrow> pickle_ok (map_pk f g p)"
  by (rule pickle_okI) (simp add: map_pk_def)

definition option_pk :: "'a pickle \<Rightarrow> 'a option pickle" where
  "option_pk p = map_pk (\<lambda>x. case x of None \<Rightarrow> [] | Some y \<Rightarrow> [y])
     (\<lambda>l. case l of [] \<Rightarrow> None | y # _ \<Rightarrow> Some y) (list_pk p)"

lemma option_pk_ok [pickles]: "pickle_ok p \<Longrightarrow> pickle_ok (option_pk p)"
  unfolding option_pk_def by (rule map_pk_ok) (auto simp: pickles split: option.split)

definition bytes_pk :: "bytes pickle" where
  "bytes_pk = list_pk u8_pk"

lemma bytes_pk_ok [pickles]: "pickle_ok bytes_pk"
  by (simp add: bytes_pk_def pickles)

definition string_pk :: "string pickle" where
  "string_pk = map_pk utf8_bytes of_utf8_bytes bytes_pk"

lemma string_pk_ok [pickles]: "pickle_ok string_pk"
  unfolding string_pk_def by (rule map_pk_ok) (simp_all add: pickles)

definition u64_pk :: "u64 pickle" where
  "u64_pk = map_pk to_be_bytes (\<lambda>b. case from_be_bytes b of Some n \<Rightarrow> n | None \<Rightarrow> 0) bytes_pk"

lemma u64_pk_ok [pickles]: "pickle_ok u64_pk"
  unfolding u64_pk_def by (rule map_pk_ok) (simp_all add: pickles)

definition bool_pk :: "bool pickle" where
  "bool_pk = map_pk (\<lambda>b. if b then 1 else 0) (\<lambda>x. x = 1) u8_pk"

lemma bool_pk_ok [pickles]: "pickle_ok bool_pk"
  unfolding bool_pk_def by (rule map_pk_ok) (simp_all add: pickles)

text \<open>A 128-bit identifier: its two halves.\<close>

definition uuid_pk :: "uuid pickle" where
  "uuid_pk = map_pk (\<lambda>u. word_split u) (\<lambda>(a, b). word_cat a b) (pair_pk u64_pk u64_pk)"

lemma uuid_pk_ok [pickles]: "pickle_ok uuid_pk"
  unfolding uuid_pk_def
proof (rule map_pk_ok)
  fix u :: uuid
  show "(\<lambda>(a, b). word_cat a b) (word_split u :: u64 \<times> u64) = u"
    by (auto simp: word_size split: prod.split intro: word_cat_split_alt)
qed (simp add: pickles)

text \<open>Unbounded numbers: the binary digits, and for an integer its sign.\<close>

fun nat_bits :: "nat \<Rightarrow> bool list" where
  "nat_bits n = (if n = 0 then [] else odd n # nat_bits (n div 2))"

declare nat_bits.simps [simp del]

definition bits_nat :: "bool list \<Rightarrow> nat" where
  "bits_nat bs = foldr (\<lambda>b n. of_bool b + 2 * n) bs 0"

lemma bits_nat_nat_bits: "bits_nat (nat_bits n) = n"
proof (induction n rule: nat_bits.induct)
  case (1 n)
  show ?case
  proof (cases "n = 0")
    case True
    then show ?thesis by (simp add: nat_bits.simps bits_nat_def)
  next
    case False
    have "nat_bits n = odd n # nat_bits (n div 2)" using False by (subst nat_bits.simps) simp
    then have "bits_nat (nat_bits n) = of_bool (odd n) + 2 * bits_nat (nat_bits (n div 2))"
      by (simp add: bits_nat_def)
    also have "\<dots> = n" using "1.IH" [OF False] by (auto elim: oddE)
    finally show ?thesis .
  qed
qed

definition nat_pk :: "nat pickle" where
  "nat_pk = map_pk nat_bits bits_nat (list_pk bool_pk)"

definition int_pk :: "int pickle" where
  "int_pk = map_pk (\<lambda>i. (i < 0, nat \<bar>i\<bar>)) (\<lambda>(neg, n). if neg then - int n else int n)
     (pair_pk bool_pk nat_pk)"

lemma nat_pk_ok [pickles]: "pickle_ok nat_pk"
  unfolding nat_pk_def by (rule map_pk_ok) (simp_all add: pickles bits_nat_nat_bits)

lemma int_pk_ok [pickles]: "pickle_ok int_pk"
  unfolding int_pk_def by (rule map_pk_ok) (simp_all add: pickles)

subsection \<open>The rows of the database\<close>

definition tindex_pk :: "ticket_index_fields pickle" where
  "tindex_pk = map_pk
     (\<lambda>i. (ti_status i, ti_account_uuid i, ti_assigned_to_uuid i, ti_project i, ti_tracking_url i,
           ti_created_at_unix i, ti_updated_at_unix i))
     (\<lambda>(a, b, c, d, e, f, g). \<lparr>ti_status = a, ti_account_uuid = b, ti_assigned_to_uuid = c,
           ti_project = d, ti_tracking_url = e, ti_created_at_unix = f, ti_updated_at_unix = g\<rparr>)
     (pair_pk u8_pk (pair_pk string_pk (pair_pk (option_pk string_pk) (pair_pk string_pk
       (pair_pk (option_pk string_pk) (pair_pk u64_pk u64_pk))))))"

lemma tindex_pk_ok [pickles]: "pickle_ok tindex_pk"
  unfolding tindex_pk_def by (rule map_pk_ok) (simp_all add: pickles)

definition uindex_pk :: "user_index_fields pickle" where
  "uindex_pk = map_pk (\<lambda>i. (ui_username i, ui_email i, ui_role i))
     (\<lambda>(a, b, c). \<lparr>ui_username = a, ui_email = b, ui_role = c\<rparr>)
     (pair_pk string_pk (pair_pk string_pk u8_pk))"

lemma uindex_pk_ok [pickles]: "pickle_ok uindex_pk"
  unfolding uindex_pk_def by (rule map_pk_ok) (simp_all add: pickles)

definition ticket_row_pk :: "stored_ticket pickle" where
  "ticket_row_pk = map_pk (\<lambda>r. (sk_body r, sk_index r, sk_deleted r, sk_deleted_at_unix r))
     (\<lambda>(a, b, c, d). \<lparr>sk_body = a, sk_index = b, sk_deleted = c, sk_deleted_at_unix = d\<rparr>)
     (pair_pk bytes_pk (pair_pk tindex_pk (pair_pk bool_pk u64_pk)))"

lemma ticket_row_pk_ok [pickles]: "pickle_ok ticket_row_pk"
  unfolding ticket_row_pk_def by (rule map_pk_ok) (simp_all add: pickles)

definition user_row_pk :: "stored_user pickle" where
  "user_row_pk = map_pk (\<lambda>r. (su_body r, su_index r, su_deleted r, su_deleted_at_unix r))
     (\<lambda>(a, b, c, d). \<lparr>su_body = a, su_index = b, su_deleted = c, su_deleted_at_unix = d\<rparr>)
     (pair_pk bytes_pk (pair_pk uindex_pk (pair_pk bool_pk u64_pk)))"

lemma user_row_pk_ok [pickles]: "pickle_ok user_row_pk"
  unfolding user_row_pk_def by (rule map_pk_ok) (simp_all add: pickles)

text \<open>The in-memory database environment.\<close>

definition mem_db :: "memdb dbstore" where
  "mem_db = sled.extend mem_sled
     (dbstore.fields (mk_codec ticket_row_pk) (mk_codec user_row_pk))"

lemma mem_db_simps [simp]:
  "sled.truncate mem_db = mem_sled"
  "st_codec mem_db = mk_codec ticket_row_pk" "su_codec mem_db = mk_codec user_row_pk"
  by (simp_all add: mem_db_def sled.defs dbstore.defs mem_sled_def)

lemma mem_view_empty [simp]: "sled.truncate E = mem_sled \<Longrightarrow> view E RBT.empty = (\<lambda>_. Map.empty)"
  by (simp add: fun_eq_iff mem_view mem_tree_def)

end
