(* ===== verification/Db_Props.thy ===== *)
theory Db_Props
  imports Db_Query Byte_Codec
begin

text \<open>
  The properties of the database service's storage layer: refinement of the specification by
  every log entry, ids, visibility of soft-deleted rows, and queries; each with an instance on
  an in-memory store.
\<close>

lemma mem_env_ok: "sled.truncate E = mem_sled \<Longrightarrow> st_codec E = mk_codec ticket_row_pk
   \<Longrightarrow> su_codec E = mk_codec user_row_pk \<Longrightarrow> db_env_ok E"
  by (simp add: db_env_ok_def mem_sled_ok mk_codec_ok pickles)

lemma mem_db_ok: "db_env_ok mem_db"
  by (rule mem_env_ok) simp_all

lemma mem_db_empty:
  "db_inv mem_db (view mem_db RBT.empty)" "db_abs mem_db (view mem_db RBT.empty) = spec_init"
  by (simp_all add: db_empty)

lemma view_scans: "sled_ok E \<Longrightarrow> \<exists>xs. scan_of (view E d t) xs"
  by (rule exI) (rule scan_facts(1))

lemma refines_run:
  assumes "db_env_ok E" "db_part E P (view E d)" "entry_ok (db_abs E (view E d)) e"
    and "ticket_entry e \<or> P = users_inv E"
  obtains d' where "log_apply E e d = (fst (spec_apply e (db_abs E (view E d))), d')"
    and "db_part E P (view E d')" and "db_abs E (view E d') = snd (spec_apply e (db_abs E (view E d)))"
  using refines_part [OF assms] unfolding refines_entry_def by (metis does_runE)

text \<open>C1: \<open>LogEntry::apply\<close> implements the specification. From contents that satisfy the
  invariant (every row decodes, each of the ten index trees holds exactly the entries of the
  rows that are not soft-deleted, no ticket id exceeds the counter), an entry returns the
  result the specification gives, leaves the tickets, counter and users it gives, and keeps
  the invariant. The entry is admissible when a raw write stays out of the domain trees, a
  created ticket finds room in the counter, and a created user is new with a NUL-free name.
\<close>

theorem log_apply_refines:
  assumes "db_env_ok E" and "db_inv E (view E d)" and "entry_ok (db_abs E (view E d)) e"
  shows "case log_apply E e d of (r, d') \<Rightarrow>
     (r, db_abs E (view E d')) = spec_apply e (db_abs E (view E d)) \<and> db_inv E (view E d')"
proof -
  from refines_run [OF assms disjI2 [OF refl]] obtain d' where
    "log_apply E e d = (fst (spec_apply e (db_abs E (view E d))), d')"
    "db_inv E (view E d')" "db_abs E (view E d') = snd (spec_apply e (db_abs E (view E d)))" .
  then show ?thesis by simp
qed

definition sample_index :: ticket_index_fields where
  "sample_index = \<lparr>ti_status = 3, ti_account_uuid = ''acct'', ti_assigned_to_uuid = Some ''tech'',
     ti_project = ''fiber'', ti_tracking_url = None, ti_created_at_unix = 5, ti_updated_at_unix = 6\<rparr>"

theorem log_apply_refines_witness:
  "case log_apply mem_db (CreateTicket [1, 2] sample_index) RBT.empty of (r, d') \<Rightarrow>
     r = Inr (Some (to_be_bytes 1)) \<and> sp_last_id (db_abs mem_db (view mem_db d')) = 1
     \<and> db_inv mem_db (view mem_db d')"
proof -
  have "entry_ok (db_abs mem_db (view mem_db RBT.empty)) (CreateTicket [1, 2] sample_index)"
    by (simp add: db_empty spec_init_def)
  from log_apply_refines [OF mem_db_ok mem_db_empty(1) this] show ?thesis
    by (auto simp: db_empty spec_init_def saturating_inc_def split: prod.splits)
qed

text \<open>A created ticket gets an id above every id in use, reads back as written, and no other
  ticket and no user changes; its counter never passes over an id already given, so two
  tickets created one after the other have different ids.
\<close>

theorem create_ticket_fresh:
  assumes "db_env_ok E" and "db_inv E (view E d)" and "sp_last_id (db_abs E (view E d)) \<noteq> - 1"
  shows "\<exists>i d'. create_ticket E body index d = (Inr i, d')
     \<and> (\<forall>j. sp_tickets (db_abs E (view E d)) j \<noteq> None \<longrightarrow> j < i)
     \<and> fst (get_ticket E i False d') = Inr (Some \<lparr>sk_body = body, sk_index = index,
           sk_deleted = False, sk_deleted_at_unix = 0\<rparr>)
     \<and> (\<forall>j. j \<noteq> i \<longrightarrow> fst (get_ticket E j True d') = fst (get_ticket E j True d))
     \<and> (\<forall>u. fst (get_user E u True d') = fst (get_user E u True d))"
proof -
  let ?W = "view E d" and ?row = "\<lparr>sk_body = body, sk_index = index, sk_deleted = False, sk_deleted_at_unix = 0\<rparr>"
  define i where "i = saturating_inc (seq_value ?W)"
  have ok: "sled_ok E" and c: "codec_ok (st_codec E)" using assms(1) by (simp_all add: db_env_ok_def)
  have "entry_ok (db_abs E ?W) (CreateTicket body index)" using assms(3) by simp
  from refines_run [OF assms(1,2) this disjI2 [OF refl]]
  obtain d1 where d1: "log_apply E (CreateTicket body index) d = (Inr (Some (to_be_bytes i)), d1)"
    and inv: "db_inv E (view E d1)"
    and abs: "db_abs E (view E d1) = (db_abs E ?W)\<lparr>sp_last_id := i,
        sp_tickets := (sp_tickets (db_abs E ?W))(i \<mapsto> ?row)\<rparr>"
    by (auto simp: Let_def i_def abs_last)
  obtain r d' where run: "create_ticket E body index d = (r, d')" by force
  then have r: "r = Inr i" and d': "d' = d1"
    using d1 by (auto simp: act_defs split: sum.splits prod.splits)
  have lt: "j < i" if "sp_tickets (db_abs E ?W) j \<noteq> None" for j
  proof -
    have "j \<le> seq_value ?W" using assms(2) that by (simp add: db_inv_def ids_fresh_def abs_last)
    moreover have "unat i = unat (seq_value ?W) + 1"
      using unat_saturating_inc assms(3) by (simp add: i_def abs_last)
    ultimately show ?thesis by (simp add: word_le_nat_alt word_less_nat_alt)
  qed
  note get = does_get_ticket [OF ok inv, THEN doesD, THEN conjunct1]
    does_get_ticket [OF ok assms(2), THEN doesD, THEN conjunct1]
    does_get_user [OF ok inv, THEN doesD, THEN conjunct1]
    does_get_user [OF ok assms(2), THEN doesD, THEN conjunct1]
  show ?thesis
    using run lt unfolding r d' by (intro exI [of _ i] exI [of _ d1]) (simp add: get abs visible_def)
qed

theorem create_ticket_fresh_witness:
  "\<exists>i d'. create_ticket mem_db [7] sample_index RBT.empty = (Inr i, d')
     \<and> fst (get_ticket mem_db i False d') = Inr (Some \<lparr>sk_body = [7], sk_index = sample_index,
           sk_deleted = False, sk_deleted_at_unix = 0\<rparr>)"
proof -
  have "sp_last_id (db_abs mem_db (view mem_db RBT.empty)) \<noteq> - 1"
    by (simp add: db_empty spec_init_def)
  from create_ticket_fresh [OF mem_db_ok mem_db_empty(1) this, of "[7]" sample_index]
  show ?thesis by blast
qed

text \<open>
  The ticket counter: \<open>next_id\<close> returns the successor of the last id, saturating at
  \<open>2\<^sup>6\<^sup>4 - 1\<close>, never the reserved id 0, and stores what it returned; a counter whose bytes are
  not a \<open>u64\<close> restarts at 1.
\<close>

theorem next_id_bounds:
  assumes "sled_ok E"
  shows "\<exists>i d'. next_id E SEQ_TICKET d = (Inr i, d')
     \<and> unat i = min (unat (seq_value (view E d)) + 1) (2 ^ 64 - 1) \<and> i \<noteq> 0
     \<and> seq_value (view E d') = i
     \<and> (from_be_bytes (the (view E d TREE_SEQ SEQ_TICKET)) = None \<longrightarrow> i = 1)"
proof -
  let ?i = "saturating_inc (seq_value (view E d))"
  obtain d' where run: "next_id E SEQ_TICKET d = (Inr ?i, d')"
    and W: "view E d' = (view E d)(TREE_SEQ := (view E d TREE_SEQ)(SEQ_TICKET \<mapsto> to_be_bytes ?i))"
    by (rule does_runE [OF does_next_id [OF assms]])
  have max: "unat (- 1 :: u64) = 2 ^ 64 - 1" by (simp add: unsigned_minus_1_eq_mask mask_eq_exp_minus_1)
  have "unat ?i = min (unat (seq_value (view E d)) + 1) (2 ^ 64 - 1)"
  proof (cases "seq_value (view E d) = - 1")
    case True
    then show ?thesis by (simp add: saturating_inc_def max)
  next
    case False
    then have "unat (seq_value (view E d)) \<noteq> 2 ^ 64 - 1" using max word_unat_eq_iff by metis
    moreover have "unat (seq_value (view E d)) < 2 ^ 64"
      using unsigned_less [of "seq_value (view E d)", where ?'a = nat] by simp
    ultimately show ?thesis using unat_saturating_inc [OF False] by simp
  qed
  moreover from this have "?i \<noteq> 0" by (auto simp: unat_eq_0)
  moreover have "seq_value (view E d') = ?i" by (simp add: W seq_value_def seq_read_def)
  moreover have "from_be_bytes (the (view E d TREE_SEQ SEQ_TICKET)) = None \<longrightarrow> ?i = 1"
    by (auto simp: seq_value_def seq_read_def saturating_inc_def split: option.split)
  ultimately show ?thesis
    using run by (intro exI [of _ ?i] exI [of _ d'] conjI) assumption+
qed

theorem next_id_bounds_witness:
  "\<exists>i d'. next_id mem_db SEQ_TICKET RBT.empty = (Inr i, d') \<and> unat i = 1"
proof -
  have "sled_ok mem_db" using mem_db_ok by (simp add: db_env_ok_def)
  from next_id_bounds [OF this, of RBT.empty] show ?thesis by (auto simp: seq_value_def)
qed

text \<open>C28: a query returns, without repetition, only stored tickets that satisfy every filter it
  sets (and are not soft-deleted unless asked for), at most \<open>limit\<close> of them; and unless the
  limit was reached it returns all of them. It changes nothing.
\<close>

theorem query_tickets_spec:
  assumes "db_env_ok E" and "db_inv E (view E d)"
  shows "\<exists>res d'. query_tickets E q d = (Inr res, d') \<and> view E d' = view E d
     \<and> distinct (map fst res)
     \<and> (\<forall>i r. (i, r) \<in> set res \<longrightarrow> sp_tickets (db_abs E (view E d)) i = Some r \<and> matches q r)
     \<and> (0 < tq_limit q \<longrightarrow> length res \<le> tq_limit q)
     \<and> (tq_limit q = 0 \<or> length res < tq_limit q \<longrightarrow>
          (\<forall>i r. sp_tickets (db_abs E (view E d)) i = Some r \<and> matches q r \<longrightarrow> (i, r) \<in> set res))"
proof -
  let ?s = "db_abs E (view E d)"
  have ok: "sled_ok E" using assms(1) by (simp add: db_env_ok_def)
  obtain ids where dist: "distinct ids"
    and compl: "\<forall>i r. sp_tickets ?s i = Some r \<longrightarrow> matches q r \<longrightarrow> i \<in> set ids"
    and run: "does (view E) (query_tickets E q) (view E d)
       (Inr (let all = List.map_filter (selected ?s q) ids
             in if tq_limit q = 0 then all else take (tq_limit q) all)) (view E d)"
    using does_query [OF ok assms(2) view_scans [OF ok]] by blast
  define all where "all = List.map_filter (selected ?s q) ids"
  define res where "res = (if tq_limit q = 0 then all else take (tq_limit q) all)"
  note sel = selected_all [OF dist compl, folded all_def]
  obtain d' where "query_tickets E q d = (Inr res, d')" "view E d' = view E d"
    by (rule does_runE [OF run [folded all_def, unfolded Let_def, folded res_def]])
  moreover have "distinct (map fst res)" using sel(1) by (simp add: res_def take_map [symmetric])
  moreover have "set res \<subseteq> set all" by (simp add: res_def set_take_subset)
  moreover have "res = all" if "tq_limit q = 0 \<or> length res < tq_limit q"
    using that by (auto simp: res_def min_def split: if_splits)
  moreover have "0 < tq_limit q \<longrightarrow> length res \<le> tq_limit q" by (simp add: res_def)
  moreover have "\<forall>i r. (i, r) \<in> set all \<longleftrightarrow> sp_tickets ?s i = Some r \<and> matches q r"
    using sel(2) by simp
  ultimately show ?thesis
    by (intro exI [of _ res] exI [of _ d'] conjI) (auto simp del: length_0_conv)
qed

theorem query_tickets_spec_witness:
  "\<exists>res d'. query_tickets mem_db \<lparr>tq_status = Some 3, tq_assigned_to_uuid = None, tq_account_uuid = None,
        tq_project = None, tq_include_deleted = False, tq_limit = 0\<rparr> RBT.empty = (Inr res, d') \<and> res = []"
proof -
  from query_tickets_spec [OF mem_db_ok mem_db_empty(1)]
  obtain res d' where "query_tickets mem_db \<lparr>tq_status = Some 3, tq_assigned_to_uuid = None, tq_account_uuid = None,
        tq_project = None, tq_include_deleted = False, tq_limit = 0\<rparr> RBT.empty = (Inr res, d')"
    and "\<forall>i r. (i, r) \<in> set res \<longrightarrow> sp_tickets (db_abs mem_db (view mem_db RBT.empty)) i = Some r"
    by blast
  moreover from this(2) have "res = []"
    unfolding mem_db_empty(2) by (cases res) (auto simp: spec_init_def)
  ultimately show ?thesis by blast
qed

text \<open>A soft-deleted ticket keeps its row for the audit and disappears from everything else:
  the plain read finds nothing, a read that includes deleted rows finds the old body and index
  with the deletion time, and no index tree holds an entry for the id.
\<close>

theorem soft_delete_hides:
  assumes "db_env_ok E" and "db_inv E (view E d)" and "sp_tickets (db_abs E (view E d)) i = Some r"
  shows "\<exists>d'. soft_delete_ticket E i t d = (Inr (), d')
     \<and> fst (get_ticket E i False d') = Inr None
     \<and> fst (get_ticket E i True d') = Inr (Some (r\<lparr>sk_deleted := True, sk_deleted_at_unix := t\<rparr>))
     \<and> (\<forall>tree \<in> ticket_trees. \<forall>k. view E d' tree k \<noteq> Some (to_be_bytes i))
     \<and> (\<forall>j. j \<noteq> i \<longrightarrow> fst (get_ticket E j True d') = fst (get_ticket E j True d))"
proof -
  let ?W = "view E d"
  have ok: "sled_ok E" using assms(1) by (simp add: db_env_ok_def)
  have "entry_ok (db_abs E ?W) (SoftDeleteTicket i t)" by simp
  from refines_run [OF assms(1,2) this disjI2 [OF refl]]
  obtain d1 where d1: "log_apply E (SoftDeleteTicket i t) d = (Inr None, d1)"
    and inv: "db_inv E (view E d1)"
    and abs: "db_abs E (view E d1) = (db_abs E ?W)\<lparr>sp_tickets :=
        (sp_tickets (db_abs E ?W))(i \<mapsto> r\<lparr>sk_deleted := True, sk_deleted_at_unix := t\<rparr>)\<rparr>"
    by (auto simp: assms(3))
  obtain x d' where run: "soft_delete_ticket E i t d = (x, d')" by force
  then have x: "x = Inr ()" and d': "d' = d1"
    using d1 by (auto simp: act_defs split: sum.splits prod.splits)
  have "view E d1 tree k \<noteq> Some (to_be_bytes i)" if "tree \<in> ticket_trees" for tree k
    unfolding index_entry [OF inv that] by (auto simp: abs ticket_ents_def)
  moreover note get = does_get_ticket [OF ok inv, THEN doesD, THEN conjunct1]
    does_get_ticket [OF ok assms(2), THEN doesD, THEN conjunct1]
  ultimately show ?thesis
    using run unfolding x d' by (intro exI [of _ d1]) (simp add: get abs visible_def)
qed

theorem soft_delete_hides_witness:
  "\<exists>d d'. soft_delete_ticket mem_db 1 9 d = (Inr (), d')
     \<and> fst (get_ticket mem_db 1 True d) = Inr (Some \<lparr>sk_body = [4], sk_index = sample_index,
           sk_deleted = False, sk_deleted_at_unix = 0\<rparr>)
     \<and> fst (get_ticket mem_db 1 False d') = Inr None"
proof -
  have e: "entry_ok (db_abs mem_db (view mem_db RBT.empty)) (CreateTicket [4] sample_index)"
    by (simp add: db_empty spec_init_def)
  obtain d where inv: "db_inv mem_db (view mem_db d)"
    and abs: "db_abs mem_db (view mem_db d) =
      snd (spec_apply (CreateTicket [4] sample_index) (db_abs mem_db (view mem_db RBT.empty)))"
    by (rule refines_run [OF mem_db_ok mem_db_empty(1) e disjI2 [OF refl]])
  have row: "sp_tickets (db_abs mem_db (view mem_db d)) 1 = Some \<lparr>sk_body = [4], sk_index = sample_index,
           sk_deleted = False, sk_deleted_at_unix = 0\<rparr>"
    unfolding abs by (simp add: db_empty spec_init_def saturating_inc_def Let_def)
  have "sled_ok mem_db" using mem_db_ok by (simp add: db_env_ok_def)
  then have "fst (get_ticket mem_db 1 True d) = Inr (Some \<lparr>sk_body = [4], sk_index = sample_index,
           sk_deleted = False, sk_deleted_at_unix = 0\<rparr>)"
    using does_get_ticket [OF _ inv, THEN doesD, of 1 True] by (simp add: row visible_def)
  moreover from soft_delete_hides [OF mem_db_ok inv row, of 9]
  obtain d' where "soft_delete_ticket mem_db 1 9 d = (Inr (), d')" "fst (get_ticket mem_db 1 False d') = Inr None"
    by blast
  ultimately show ?thesis by blast
qed

text \<open>
  Creating a user under a uuid that is taken overwrites the row but leaves the index
  entries of the replaced one, so a look-up by the old name still finds the uuid although the
  stored user has another name. (The invariant of the storage layer needs the uuid to be new;
  \<open>create_user\<close> does not look.)
\<close>

theorem create_user_stale_index:
  assumes "db_env_ok E" and "ui_username i1 \<noteq> ui_username i2"
  shows "\<exists>d1 d2. create_user E u b1 i1 d = (Inr (), d1) \<and> create_user E u b2 i2 d1 = (Inr (), d2)
     \<and> fst (get_user E u False d2) = Inr (Some \<lparr>su_body = b2, su_index = i2, su_deleted = False,
           su_deleted_at_unix = 0\<rparr>)
     \<and> view E d2 IDX_USER_NAME (index_key (utf8_bytes (ui_username i1)) (utf8_bytes u)) = Some (utf8_bytes u)"
proof -
  have ok: "sled_ok E" "codec_ok (su_codec E)" using assms(1) by (simp_all add: db_env_ok_def)
  let ?row = "\<lambda>b i. \<lparr>su_body = b, su_index = i, su_deleted = False, su_deleted_at_unix = 0\<rparr>"
  obtain d1 where d1: "create_user E u b1 i1 d = (Inr (), d1)"
    "view E d1 = reindex TREE_USERS (utf8_bytes u) [] (enc (su_codec E) (?row b1 i1)) (user_ents (?row b1 i1)) (view E d)"
    by (rule does_runE [OF does_create_user [OF ok]])
  obtain d2 where d2: "create_user E u b2 i2 d1 = (Inr (), d2)"
    "view E d2 = reindex TREE_USERS (utf8_bytes u) [] (enc (su_codec E) (?row b2 i2)) (user_ents (?row b2 i2)) (view E d1)"
    by (rule does_runE [OF does_create_user [OF ok]])
  note ents = user_ents_def user_index_entries_def reindex_def put_entries_apply wput_apply tree_defs
  have "view E d1 IDX_USER_NAME (index_key (utf8_bytes (ui_username i1)) (utf8_bytes u)) = Some (utf8_bytes u)"
    unfolding d1(2) by (simp add: ents)
  then have "view E d2 IDX_USER_NAME (index_key (utf8_bytes (ui_username i1)) (utf8_bytes u)) = Some (utf8_bytes u)"
    unfolding d2(2) by (simp add: ents)
  moreover have "view E d2 TREE_USERS (utf8_bytes u) = Some (enc (su_codec E) (?row b2 i2))"
    unfolding d2(2) by (simp add: ents)
  then have "fst (get_user E u False d2) = Inr (Some (?row b2 i2))"
    using does_get [OF ok(1), THEN doesD, of TREE_USERS "utf8_bytes u" d2]
    by (auto simp: get_user_def act_defs codec_okD(2) [OF ok(2)] split: prod.split)
  ultimately show ?thesis using d1(1) d2(1) by blast
qed

theorem create_user_stale_index_witness:
  "\<exists>d2. view mem_db d2 IDX_USER_NAME (index_key (utf8_bytes ''ann'') (utf8_bytes ''u1'')) = Some (utf8_bytes ''u1'')
     \<and> fst (get_user mem_db ''u1'' False d2) = Inr (Some \<lparr>su_body = [], su_index =
          \<lparr>ui_username = ''bob'', ui_email = ''b@x'', ui_role = 3\<rparr>, su_deleted = False, su_deleted_at_unix = 0\<rparr>)"
  using create_user_stale_index [OF mem_db_ok, of "\<lparr>ui_username = ''ann'', ui_email = ''a@x'', ui_role = 3\<rparr>"
      "\<lparr>ui_username = ''bob'', ui_email = ''b@x'', ui_role = 3\<rparr>" "''u1''" "[]" RBT.empty "[]"]
  by auto

end
