(* ===== verification/Db_Raft.thy ===== *)
theory Db_Raft
  imports Raft_Store Db_Props
begin

text \<open>
  \<open>db/src/raft.rs\<close>: the state machine of the database service, and the Raft store over it.
\<close>

record db_response =
  dr_success :: bool
  dr_value :: "bytes option"

definition sm_apply :: "('d, 'z) dbstore_scheme \<Rightarrow> log_entry \<Rightarrow> ('d, db_response) act" where
  "sm_apply E e =
     bindA (log_apply E e) (\<lambda>applied.
       case e of
         Get collection key \<Rightarrow> bindA (get E collection key) (\<lambda>val.
           ret \<lparr>dr_success = is_some val, dr_value = val\<rparr>)
       | _ \<Rightarrow> ret \<lparr>dr_success = True, dr_value = applied\<rparr>)"

definition db_ops :: "('d, 'z) sled_scheme \<Rightarrow> 'd storage_ops" where
  "db_ops E = \<lparr>so_get_tree = get_tree E, so_put = put E, so_get = get E, so_delete = delete E,
     so_list = list_pairs E, so_data_tree_names = data_tree_names E\<rparr>"

lemma db_ops_simps [simp]:
  "so_get_tree (db_ops E) = get_tree E" "so_put (db_ops E) = put E" "so_get (db_ops E) = get E"
  "so_delete (db_ops E) = delete E" "so_list (db_ops E) = list_pairs E"
  "so_data_tree_names (db_ops E) = data_tree_names E"
  by (simp_all add: db_ops_def)

definition apply_to_state_machine ::
  "('d, 'z) dbstore_scheme \<Rightarrow> (log_entry, 'm) entry list
   \<Rightarrow> (('d, 'm) node, raft_error, db_response list) eff" where
  "apply_to_state_machine E entries =
     apply_loop (sm_apply E) \<lparr>dr_success = True, dr_value = None\<rparr> entries []"

end
