(* ===== verification/Raft_Log.thy ===== *)
theory Raft_Log
  imports Raft_Store Db_Index
begin

text \<open>
  The Raft store against its contract. The log is a finite map from indices to entries; the
  locale \<open>raft_storage\<close> states what the store needs of the service's \<open>Storage\<close> and proves, once
  for both services, what each operation of the trait does to the log and the metadata.
\<close>

definition log_of :: "('p, 'm) raft_codec \<Rightarrow> world \<Rightarrow> u64 \<Rightarrow> ('p, 'm) entry option" where
  "log_of C W = table_rows (rc_entry C) to_be_bytes TREE_RAFT_LOG W"

definition log_inv :: "('p, 'm) raft_codec \<Rightarrow> world \<Rightarrow> bool" where
  "log_inv C W \<longleftrightarrow> (\<forall>k b. W TREE_RAFT_LOG k = Some b \<longrightarrow>
     (\<exists>e. k = to_be_bytes (li_index (en_log_id e)) \<and> cd_de (rc_entry C) b = Inr e))"

abbreviation entry_index :: "('p, 'm) entry \<Rightarrow> u64" where
  "entry_index e \<equiv> li_index (en_log_id e)"

definition log_append :: "('p, 'm) entry list \<Rightarrow> (u64 \<rightharpoonup> ('p, 'm) entry) \<Rightarrow> (u64 \<rightharpoonup> ('p, 'm) entry)" where
  "log_append es L = fold (\<lambda>e L. L(entry_index e \<mapsto> e)) es L"

definition in_range :: "range_bound \<Rightarrow> range_bound \<Rightarrow> u64 \<Rightarrow> bool" where
  "in_range s e i \<longleftrightarrow> range_start s \<le> i \<and> (case range_end e of None \<Rightarrow> True | Some l \<Rightarrow> i \<le> l)"

text \<open>The metadata on disk, as a store that is opened reads it.\<close>

definition meta_of :: "'a codec \<Rightarrow> bytes \<Rightarrow> world \<Rightarrow> 'a option" where
  "meta_of c key W = decode_row c (W TREE_RAFT_METADATA key)"

definition meta_inv :: "('p, 'm) raft_codec \<Rightarrow> world \<Rightarrow> bool" where
  "meta_inv C W \<longleftrightarrow> (\<forall>b. W TREE_RAFT_METADATA key_vote = Some b \<longrightarrow> (\<exists>v. cd_de (rc_vote C) b = Inr v))
     \<and> (\<forall>b. W TREE_RAFT_METADATA key_last_purged = Some b \<longrightarrow> (\<exists>l. cd_de (rc_log_id C) b = Inr l))"

lemma meta_keys [simp]: "key_vote \<noteq> key_last_purged" "key_last_purged \<noteq> key_vote"
  by (simp_all add: key_vote_def key_last_purged_def)

lemma raft_trees [simp]:
  "TREE_RAFT_LOG \<noteq> TREE_RAFT_METADATA" "TREE_RAFT_METADATA \<noteq> TREE_RAFT_LOG"
  by (simp_all add: tree_defs)

subsection \<open>The loops\<close>

lemma append_batch_ok:
  assumes "codec_ok c"
  shows "append_batch c es l0 batch = Inr
     (if es = [] then l0 else Some (en_log_id (last es)),
      batch @ map (\<lambda>e. (to_be_bytes (entry_index e), Some (enc c e))) es)"
  by (induction es arbitrary: l0 batch) (simp_all add: codec_okD(1) [OF assms])

lemma removal_batch_ok:
  "removal_batch l (map Inr xs) batch = Inr (batch @ map (\<lambda>x. (fst x, None)) xs)"
  by (induction xs arbitrary: batch) (auto simp: case_prod_unfold)

lemma batch_removes: "fold batch_step (map (\<lambda>x. (fst x, None)) xs) m = m |` (- fst ` set xs)"
  by (induction xs arbitrary: m) (auto simp: fun_eq_iff restrict_map_def batch_step_def)

lemma read_loop_ok:
  assumes "\<forall>x \<in> set xs. fst x = to_be_bytes (i x) \<and> cd_de c (snd x) = Inr (e x)"
  shows "read_loop c fin (map Inr xs) acc =
     Inr (acc @ map e (takeWhile (\<lambda>x. case fin of None \<Rightarrow> True | Some l \<Rightarrow> i x \<le> l) xs))"
  using assms
proof (induction xs arbitrary: acc)
  case Nil
  then show ?case by simp
next
  case (Cons x xs)
  obtain k v where x: "x = (k, v)" by (cases x)
  have "k = to_be_bytes (i x)" "cd_de c v = Inr (e x)" using Cons.prems by (simp_all add: x)
  then have "from_be_bytes k = Some (i x)" "cd_de c v = Inr (e x)" by simp_all
  with Cons show ?case by (cases fin) (auto simp: x not_le)
qed

lemma takeWhile_sorted:
  assumes "sorted_wrt (<) (map f xs)"
  shows "takeWhile (\<lambda>x. f x \<le> (l :: 'b :: linorder)) xs = filter (\<lambda>x. f x \<le> l) xs"
  using assms
proof (induction xs)
  case Nil
  then show ?case by simp
next
  case (Cons x xs)
  have "filter (\<lambda>x. f x \<le> l) xs = []" if "\<not> f x \<le> l"
    using Cons.prems that by (auto simp: filter_empty_conv)
  with Cons show ?case by auto
qed

subsection \<open>The scan of the log\<close>

definition entry_at :: "('p, 'm) raft_codec \<Rightarrow> bytes \<times> bytes \<Rightarrow> ('p, 'm) entry" where
  "entry_at C x = (case cd_de (rc_entry C) (snd x) of Inr e \<Rightarrow> e)"

text \<open>Under the invariant the scan lists the log in index order.\<close>

lemma log_scan:
  assumes inv: "log_inv C W" and xs: "scan_of (W TREE_RAFT_LOG) xs"
  shows "\<forall>x \<in> set xs. fst x = to_be_bytes (entry_index (entry_at C x)) \<and> cd_de (rc_entry C) (snd x) = Inr (entry_at C x)"
    and "sorted_wrt (<) (map (\<lambda>x. entry_index (entry_at C x)) xs)"
    and "log_of C W i = Some a \<longleftrightarrow> (\<exists>x \<in> set xs. entry_at C x = a \<and> entry_index a = i)"
proof -
  have all: "fst x = to_be_bytes (entry_index (entry_at C x)) \<and> cd_de (rc_entry C) (snd x) = Inr (entry_at C x)"
    if "x \<in> set xs" for x
  proof -
    have "W TREE_RAFT_LOG (fst x) = Some (snd x)"
      using that scan_of_set [OF xs, of "fst x" "snd x"] by simp
    then obtain a where "fst x = to_be_bytes (entry_index a)" "cd_de (rc_entry C) (snd x) = Inr a"
      using inv unfolding log_inv_def by blast
    then show ?thesis by (simp add: entry_at_def)
  qed
  then show "\<forall>x \<in> set xs. fst x = to_be_bytes (entry_index (entry_at C x)) \<and> cd_de (rc_entry C) (snd x) = Inr (entry_at C x)"
    by blast
  have "map fst xs = map (\<lambda>x. to_be_bytes (entry_index (entry_at C x))) xs" using all by simp
  then have "sorted_wrt (<) (map (\<lambda>x. to_be_bytes (entry_index (entry_at C x))) xs)"
    using xs unfolding scan_of_def by metis
  then show "sorted_wrt (<) (map (\<lambda>x. entry_index (entry_at C x)) xs)" by (simp add: sorted_wrt_map)
  show "log_of C W i = Some a \<longleftrightarrow> (\<exists>x \<in> set xs. entry_at C x = a \<and> entry_index a = i)"
  proof
    assume l: "log_of C W i = Some a"
    then obtain b where b: "W TREE_RAFT_LOG (to_be_bytes i) = Some b" "cd_de (rc_entry C) b = Inr a"
      by (auto simp: log_of_def table_rows_def decode_row_def split: option.splits sum.splits)
    then have x: "(to_be_bytes i, b) \<in> set xs" using scan_of_set [OF xs] by simp
    moreover have "entry_at C (to_be_bytes i, b) = a" by (simp add: entry_at_def b)
    ultimately show "\<exists>x \<in> set xs. entry_at C x = a \<and> entry_index a = i" using all [OF x] by auto
  next
    assume "\<exists>x \<in> set xs. entry_at C x = a \<and> entry_index a = i"
    then obtain x where x: "x \<in> set xs" "entry_at C x = a" "entry_index a = i" by blast
    have "W TREE_RAFT_LOG (fst x) = Some (snd x)"
      using x(1) scan_of_set [OF xs, of "fst x" "snd x"] by simp
    then show "log_of C W i = Some a"
      using all [OF x(1)] x(2,3) by (simp add: log_of_def table_rows_def decode_row_def)
  qed
qed

lemma log_of_index: "log_inv C W \<Longrightarrow> log_of C W i = Some a \<Longrightarrow> entry_index a = i"
  by (fastforce simp: log_inv_def log_of_def table_rows_def decode_row_def split: option.splits sum.splits)

text \<open>The entries of a range, in index order.\<close>

definition log_range :: "(u64 \<rightharpoonup> ('p, 'm) entry) \<Rightarrow> (u64 \<Rightarrow> bool) \<Rightarrow> ('p, 'm) entry list" where
  "log_range L P = map (\<lambda>i. the (L i)) (sorted_list_of_set {i \<in> dom L. P i})"

lemma log_range_scan:
  assumes inv: "log_inv C W" and xs: "scan_of (W TREE_RAFT_LOG) xs"
  shows "map (entry_at C) (filter (\<lambda>x. P (entry_index (entry_at C x))) xs) = log_range (log_of C W) P"
proof -
  note s = log_scan [OF inv xs]
  let ?ys = "filter (\<lambda>x. P (entry_index (entry_at C x))) xs" and ?D = "{i \<in> dom (log_of C W). P i}"
  have "sorted_wrt (<) (map (\<lambda>x. entry_index (entry_at C x)) ?ys)"
    using s(2) unfolding sorted_wrt_map by (rule sorted_wrt_filter)
  moreover have set: "set (map (\<lambda>x. entry_index (entry_at C x)) ?ys) = ?D"
    using s(3) by (auto simp: dom_def)
  moreover have "finite ?D" unfolding set [symmetric] by simp
  ultimately have idx: "map (\<lambda>x. entry_index (entry_at C x)) ?ys = sorted_list_of_set ?D"
    by (intro strict_sorted_equal) (simp_all add: strict_sorted_list_of_set)
  have "the (log_of C W (entry_index (entry_at C x))) = entry_at C x" if "x \<in> set ?ys" for x
    using that s(3) [of "entry_index (entry_at C x)" "entry_at C x"] by auto
  then have "map (entry_at C) ?ys = map (\<lambda>i. the (log_of C W i)) (map (\<lambda>x. entry_index (entry_at C x)) ?ys)" by simp
  then show ?thesis unfolding idx log_range_def .
qed

definition last_id :: "(u64 \<rightharpoonup> ('p, 'm) entry) \<Rightarrow> log_id option" where
  "last_id L = (if dom L = {} then None else map_option en_log_id (L (Max (dom L))))"

subsection \<open>The store over a service's storage\<close>

locale raft_storage = kv_store ok "view E" "so_put S" "so_get S" "so_delete S" "\<lambda>c. so_list S c [] None"
  for ok :: bool and E :: "('d, 'z) sled_scheme" and S :: "'d storage_ops" +
  assumes disk: "ok \<Longrightarrow> sled_ok E"
    and does_open: "ok \<Longrightarrow> does (view E) (so_get_tree S c) W (Inr ()) W"
    and tree_names: "so_data_tree_names S = data_tree_names E"
begin

lemma does_append:
  assumes ok and C: "raft_codec_ok C"
  shows "does (view E) (append_to_log E S C es) W (Inr ())
    (wbatch W TREE_RAFT_LOG (map (\<lambda>e. (to_be_bytes (entry_index e), Some (enc (rc_entry C) e))) es))"
proof -
  have c: "codec_ok (rc_entry C)" using C by (simp add: raft_codec_ok_def)
  note sl = sled_okD [OF disk [OF assms(1)]]
  show ?thesis
    unfolding append_to_log_def append_batch_ok [OF c] bindA_lift prod.case append_Nil
    by (rule does_then [OF does_map_err_ok [OF does_open [OF assms(1)]]
          does_then [OF does_map_err_ok [OF sl(5)] does_map_err_ok [OF sl(2)]]])
qed

lemma log_append_world:
  assumes C: "raft_codec_ok C" and inv: "log_inv C W"
  defines "W' \<equiv> \<lambda>es. wbatch W TREE_RAFT_LOG
    (map (\<lambda>e. (to_be_bytes (entry_index e), Some (enc (rc_entry C) e))) es)"
  shows "log_of C (W' es) = log_append es (log_of C W)" and "log_inv C (W' es)"
proof -
  have c: "codec_ok (rc_entry C)" using C by (simp add: raft_codec_ok_def)
  have step: "W' (es @ [e]) = wput (W' es) TREE_RAFT_LOG (to_be_bytes (entry_index e)) (enc (rc_entry C) e)"
    for es e
    by (simp add: W'_def wbatch_def wput_def)
  have "log_of C (W' es) = log_append es (log_of C W) \<and> log_inv C (W' es)"
  proof (induction es rule: rev_induct)
    case Nil
    then show ?case using inv by (simp add: W'_def wbatch_def log_append_def)
  next
    case (snoc e es)
    have "log_append (es @ [e]) (log_of C W) = (log_of C (W' es))(entry_index e \<mapsto> e)"
      using snoc by (simp add: log_append_def)
    then have "log_of C (W' (es @ [e])) i = (log_append (es @ [e]) (log_of C W)) i" for i
      using codec_okD(2) [OF c]
      by (simp add: step log_of_def table_rows_def decode_row_def)
    moreover have "log_inv C (W' (es @ [e]))"
      using snoc codec_okD(2) [OF c] by (auto simp: step log_inv_def wput_apply)
    ultimately show ?case by auto
  qed
  then show "log_of C (W' es) = log_append es (log_of C W)" "log_inv C (W' es)" by simp_all
qed

lemma does_read_log:
  assumes ok and inv: "log_inv C W" and ex: "scan_of (W TREE_RAFT_LOG) xs"
  shows "does (view E) (try_get_log_entries E S C s e) W (Inr (log_range (log_of C W) (in_range s e))) W"
  unfolding try_get_log_entries_def
proof (rule does_then [OF does_map_err_ok [OF does_open [OF assms(1)]]], rule does_read)
  fix d assume d: "view E d = W"
  let ?e = "entry_at C"
  let ?i = "\<lambda>x. entry_index (?e x)"
  let ?ys = "filter (\<lambda>x. to_be_bytes (range_start s) \<le> fst x) xs"
  note lg = log_scan [OF inv ex]
  have "scan E TREE_RAFT_LOG d = xs"
    using scan_facts(1) [OF disk [OF assms(1)]] ex d scan_of_unique by metis
  then have items: "sl_from E TREE_RAFT_LOG (to_be_bytes (range_start s)) d = map Inr ?ys"
    using scan_facts(4) [OF disk [OF assms(1)]] by metis
  have "sorted_wrt (<) (map ?i ?ys)" using lg(2) by (simp add: sorted_wrt_map sorted_wrt_filter)
  then have tw: "takeWhile (\<lambda>x. case range_end e of None \<Rightarrow> True | Some l \<Rightarrow> ?i x \<le> l) ?ys
      = filter (\<lambda>x. case range_end e of None \<Rightarrow> True | Some l \<Rightarrow> ?i x \<le> l) ?ys"
    by (cases "range_end e") (simp_all add: takeWhile_sorted)
  have fl: "filter (\<lambda>x. case range_end e of None \<Rightarrow> True | Some l \<Rightarrow> ?i x \<le> l) ?ys
      = filter (\<lambda>x. in_range s e (?i x)) xs"
    unfolding filter_filter by (rule filter_cong [OF refl]) (use lg(1) in \<open>auto simp: in_range_def\<close>)
  have "\<forall>x \<in> set ?ys. fst x = to_be_bytes (?i x) \<and> cd_de (rc_entry C) (snd x) = Inr (?e x)"
    using lg(1) by auto
  from read_loop_ok [OF this, of "range_end e" "[]"]
  show "read_loop (rc_entry C) (range_end e) (sl_from E TREE_RAFT_LOG (to_be_bytes (range_start s)) d) []
      = Inr (log_range (log_of C W) (in_range s e))"
    unfolding items tw fl log_range_scan [OF inv ex] by simp
qed

text \<open>Removing the entries of a scan.\<close>

lemma does_removal:
  assumes ok and ex: "scan_of (W TREE_RAFT_LOG) xs"
    and items: "\<And>d. view E d = W \<Longrightarrow> src d = map Inr (filter P xs)"
  shows "does (view E)
     (thenA (map_err (log_w l) (so_get_tree S TREE_RAFT_LOG))
       (bindA (readA (\<lambda>d. removal_batch l (src d) []))
         (\<lambda>batch. thenA (map_err (log_w l) (sl_batch E TREE_RAFT_LOG batch))
            (map_err (log_w l) (sl_flush E TREE_RAFT_LOG)))))
     W (Inr ()) (W(TREE_RAFT_LOG := W TREE_RAFT_LOG |` (- fst ` {x \<in> set xs. P x})))"
proof -
  note sl = sled_okD [OF disk [OF assms(1)]]
  have read: "does (view E) (readA (\<lambda>d. removal_batch l (src d) [])) W
      (Inr (map (\<lambda>x. (fst x, None)) (filter P xs))) W"
    by (rule does_read) (simp add: items removal_batch_ok)
  let ?W' = "W(TREE_RAFT_LOG := W TREE_RAFT_LOG |` (- fst ` {x \<in> set xs. P x}))"
  have eq: "wbatch W TREE_RAFT_LOG (map (\<lambda>x. (fst x, None)) (filter P xs)) = ?W'"
    by (simp add: wbatch_def batch_removes)
  have "does (view E) (sl_batch E TREE_RAFT_LOG (map (\<lambda>x. (fst x, None)) (filter P xs))) W (Inr ())
      (wbatch W TREE_RAFT_LOG (map (\<lambda>x. (fst x, None)) (filter P xs)))"
    by (rule sl(5))
  then have batch: "does (view E) (sl_batch E TREE_RAFT_LOG (map (\<lambda>x. (fst x, None)) (filter P xs))) W (Inr ()) ?W'"
    by (simp only: eq)
  show ?thesis
    by (rule does_then [OF does_map_err_ok [OF does_open [OF assms(1)]]], rule does_bind [OF read],
        rule does_then [OF does_map_err_ok [OF batch] does_map_err_ok [OF sl(2)]])
qed

lemma removal_world:
  assumes inv: "log_inv C W" and ex: "scan_of (W TREE_RAFT_LOG) xs"
    and P: "\<And>x i. x \<in> set xs \<Longrightarrow> fst x = to_be_bytes i \<Longrightarrow> P x \<longleftrightarrow> Q i"
  defines "W' \<equiv> W(TREE_RAFT_LOG := W TREE_RAFT_LOG |` (- fst ` {x \<in> set xs. P x}))"
  shows "log_of C W' = log_of C W |` {i. \<not> Q i}" and "log_inv C W'"
proof -
  have mem: "to_be_bytes i \<in> fst ` {x \<in> set xs. P x} \<longleftrightarrow> W TREE_RAFT_LOG (to_be_bytes i) \<noteq> None \<and> Q i" for i
  proof
    assume "to_be_bytes i \<in> fst ` {x \<in> set xs. P x}"
    then obtain x where "x \<in> set xs" "fst x = to_be_bytes i" "P x" by auto
    then show "W TREE_RAFT_LOG (to_be_bytes i) \<noteq> None \<and> Q i"
      using P [of x i] scan_of_mem [OF ex, of x] by simp
  next
    assume a: "W TREE_RAFT_LOG (to_be_bytes i) \<noteq> None \<and> Q i"
    then obtain b where "(to_be_bytes i, b) \<in> set xs" using scan_of_set [OF ex] by auto
    then show "to_be_bytes i \<in> fst ` {x \<in> set xs. P x}" using P a by force
  qed
  show "log_of C W' = log_of C W |` {i. \<not> Q i}"
  proof
    fix i
    show "log_of C W' i = (log_of C W |` {i. \<not> Q i}) i"
      using mem [of i]
      by (cases "W TREE_RAFT_LOG (to_be_bytes i)")
        (auto simp: W'_def log_of_def table_rows_def decode_row_def restrict_map_def)
  qed
  show "log_inv C W'"
    using inv unfolding log_inv_def W'_def by (auto simp: restrict_map_def split: if_splits)
qed

lemma scan_is: "ok \<Longrightarrow> view E d = W \<Longrightarrow> scan_of (W t) xs \<Longrightarrow> scan E t d = xs"
  using scan_facts(1) [OF disk] scan_of_unique by metis

lemma log_key:
  assumes "log_inv C W" "scan_of (W TREE_RAFT_LOG) xs" "x \<in> set xs"
  shows "\<exists>i. fst x = to_be_bytes i"
  using log_scan(1) [OF assms(1,2)] assms(3) by blast

text \<open>\<open>delete_conflict_logs_since\<close> cuts the log at the index, inclusive.\<close>

lemma does_delete_conflict:
  assumes ok and inv: "log_inv C W" and ex: "scan_of (W TREE_RAFT_LOG) xs"
  shows "\<exists>W'. does (view E) (delete_conflict_logs_since E S l) W (Inr ()) W'
     \<and> log_of C W' = log_of C W |` {i. i < li_index l} \<and> log_inv C W'
     \<and> (\<forall>t. t \<noteq> TREE_RAFT_LOG \<longrightarrow> W' t = W t)"
proof -
  let ?P = "\<lambda>x :: bytes \<times> bytes. to_be_bytes (li_index l) \<le> fst x"
  have "sl_from E TREE_RAFT_LOG (to_be_bytes (li_index l)) d = map Inr (filter ?P xs)" if "view E d = W" for d
    using scan_facts(4) [OF disk [OF assms(1)]] scan_is [OF assms(1) that ex] by metis
  from does_removal [where P = ?P and W = W, OF assms(1) ex this]
  have d: "does (view E) (delete_conflict_logs_since E S l) W (Inr ())
      (W(TREE_RAFT_LOG := W TREE_RAFT_LOG |` (- fst ` {x \<in> set xs. ?P x})))"
    unfolding delete_conflict_logs_since_def .
  have "?P x \<longleftrightarrow> li_index l \<le> i" if "fst x = to_be_bytes i" for x i using that by simp
  note w = removal_world [OF inv ex this]
  show ?thesis
    using d w by (intro exI conjI) (auto simp: not_le)
qed

lemma does_persist:
  assumes ok and "codec_ok c"
  shows "does (view E) (bindA (lift_res (cd_ser c x)) (\<lambda>b. so_put S t k b)) W (Inr ()) (wput W t k (enc c x))"
  using does_kput [OF assms(1)] by (simp add: codec_okD(1) [OF assms(2)])

lemma does_load:
  assumes ok and "\<And>b. W TREE_RAFT_METADATA key = Some b \<Longrightarrow> \<exists>x. cd_de c b = Inr x"
  shows "does (view E) (load_meta S c key) W (Inr (meta_of c key W)) W"
  unfolding load_meta_def
  by (rule does_bind [OF does_kget [OF assms(1)]])
    (use assms(2) in \<open>auto simp: meta_of_def decode_row_def does_ret split: option.split sum.split\<close>)

text \<open>Opening a store reads back the metadata; the applied state starts empty.\<close>

lemma does_store_new:
  assumes ok and inv: "meta_inv C W"
  shows "does (view E) (store_new S C) W
     (Inr \<lparr>rm_last_applied = None, rm_membership = DefaultMembership,
           rm_vote = meta_of (rc_vote C) key_vote W,
           rm_purged = meta_of (rc_log_id C) key_last_purged W\<rparr>) W"
  unfolding store_new_def raft_metadata_new_def
  by (rule does_bind, rule does_bind [OF does_load [OF assms(1)] does_bind [OF does_load [OF assms(1)] does_ret]])
    (use inv in \<open>auto simp: meta_inv_def does_ret\<close>)

lemma does_save_vote:
  assumes ok and C: "raft_codec_ok C"
  shows "does (nview E) (save_vote S C v) (W, s) (Inr ())
     (wput W TREE_RAFT_METADATA key_vote (enc (rc_vote C) v), s\<lparr>rm_vote := Some v\<rparr>)"
  unfolding save_vote_def persist_vote_def option.case
  by (rule does_then [OF does_on_mem does_on_disk [OF does_map_err_ok [OF does_persist]]])
    (use assms in \<open>auto simp: raft_codec_ok_def\<close>)

text \<open>\<open>purge_logs_upto\<close> drops the entries up to the index and records it in memory and on disk.\<close>

lemma does_purge:
  assumes ok and C: "raft_codec_ok C" and inv: "log_inv C W" and ex: "scan_of (W TREE_RAFT_LOG) xs"
  shows "\<exists>W'. does (nview E) (purge_logs_upto E S C l) (W, s) (Inr ()) (W', s\<lparr>rm_purged := Some l\<rparr>)
     \<and> log_of C W' = log_of C W |` {i. li_index l < i} \<and> log_inv C W'
     \<and> meta_of (rc_log_id C) key_last_purged W' = Some l
     \<and> meta_of (rc_vote C) key_vote W' = meta_of (rc_vote C) key_vote W
     \<and> (\<forall>t. t \<noteq> TREE_RAFT_LOG \<longrightarrow> t \<noteq> TREE_RAFT_METADATA \<longrightarrow> W' t = W t)"
proof -
  have c: "codec_ok (rc_log_id C)" using C by (simp add: raft_codec_ok_def)
  let ?P = "\<lambda>x :: bytes \<times> bytes. fst x \<le> to_be_bytes (li_index l)"
  let ?W1 = "W(TREE_RAFT_LOG := W TREE_RAFT_LOG |` (- fst ` {x \<in> set xs. ?P x}))"
  let ?W2 = "wput ?W1 TREE_RAFT_METADATA key_last_purged (enc (rc_log_id C) l)"
  have "sl_upto E TREE_RAFT_LOG (to_be_bytes (li_index l)) d = map Inr (filter ?P xs)" if "view E d = W" for d
    using scan_facts(5) [OF disk [OF assms(1)]] scan_is [OF assms(1) that ex] by metis
  note rem = does_removal [where P = ?P and W = W and l = l, OF assms(1) ex this]
  have "does (nview E) (purge_logs_upto E S C l) (W, s) (Inr ()) (?W2, s\<lparr>rm_purged := Some l\<rparr>)"
    unfolding purge_logs_upto_def persist_last_purged_def option.case
    by (rule does_then [OF does_on_disk [OF rem] does_then [OF does_on_mem
          does_on_disk [OF does_map_err_ok [OF does_persist [OF assms(1) c]]]]])
  moreover have "?P x \<longleftrightarrow> i \<le> li_index l" if "fst x = to_be_bytes i" for x i using that by simp
  note w = removal_world [OF inv ex this]
  have same: "?W2 TREE_RAFT_LOG = ?W1 TREE_RAFT_LOG" by (rule wput_other) simp
  have "log_of C ?W2 = log_of C ?W1" unfolding log_of_def by (rule table_rows_cong) (rule same)
  moreover have "log_inv C ?W2 = log_inv C ?W1" unfolding log_inv_def same ..
  moreover have "meta_of (rc_log_id C) key_last_purged ?W2 = Some l"
    by (simp add: meta_of_def decode_row_def codec_okD(2) [OF c])
  moreover have "meta_of (rc_vote C) key_vote ?W2 = meta_of (rc_vote C) key_vote W"
    by (simp add: meta_of_def)
  ultimately show ?thesis
    using w by (intro exI [of _ ?W2]) (auto simp: not_le)
qed

text \<open>\<open>get_log_state\<close> reports the entry with the greatest index, and the purge point.\<close>

lemma does_log_state:
  assumes ok and inv: "log_inv C W" and ex: "scan_of (W TREE_RAFT_LOG) xs"
  shows "does (nview E) (get_log_state E S C) (W, s)
     (Inr \<lparr>ls_last_log_id = last_id (log_of C W), ls_last_purged = rm_purged s\<rparr>) (W, s)"
proof -
  note lg = log_scan [OF inv ex]
  have dom: "dom (log_of C W) = set (map (\<lambda>x. entry_index (entry_at C x)) xs)"
    using lg(3) by (auto simp: dom_def)
  have "last_item (rc_entry C) (map Inr xs) = Inr (last_id (log_of C W))"
  proof (cases xs rule: rev_cases)
    case Nil
    then show ?thesis using dom by (simp add: last_item_def last_id_def)
  next
    case (snoc ys x)
    let ?i = "entry_index (entry_at C x)"
    have "\<forall>j \<in> dom (log_of C W). j \<le> ?i"
      using lg(2) unfolding dom by (auto simp: snoc sorted_wrt_append intro: less_imp_le)
    then have "Max (dom (log_of C W)) = ?i"
      by (intro Max_eqI) (auto simp: dom snoc)
    moreover have "log_of C W ?i = Some (entry_at C x)" using lg(3) snoc by auto
    ultimately show ?thesis
      using lg(1) by (cases x) (auto simp: last_item_def last_id_def snoc)
  qed
  moreover have "sl_iter E TREE_RAFT_LOG d = map Inr xs" if "view E d = W" for d
    using scan_facts(2) [OF disk [OF assms(1)]] scan_is [OF assms(1) that ex] by metis
  ultimately have "does (view E) (readA (\<lambda>d. last_item (rc_entry C) (sl_iter E TREE_RAFT_LOG d))) W
      (Inr (last_id (log_of C W))) W"
    by (intro does_read) simp
  from does_then [OF does_on_disk [OF does_map_err_ok [OF does_open [OF assms(1)]]]
      does_bind [OF does_on_disk [OF this] does_bind [OF does_read_mem does_ret]]]
  show ?thesis unfolding get_log_state_def .
qed

end

end
