(* ===== verification/Raft_Snapshot.thy ===== *)
theory Raft_Snapshot
  imports Raft_Log
begin

text \<open>
  Snapshots and the apply loop of the Raft store: what a snapshot holds, what installing it
  does to the data and to the Raft trees, and which log id is recorded as applied.
\<close>

subsection \<open>Tree names\<close>

definition raft_internal :: "string \<Rightarrow> bool" where
  "raft_internal c \<longleftrightarrow>
     c \<in> {TREE_RAFT_METADATA, TREE_RAFT_STATE, TREE_RAFT_LOG, ''__sled__default''}"

definition ascii :: "string \<Rightarrow> bool" where
  "ascii s \<longleftrightarrow> (\<forall>c \<in> set s. (of_char c :: nat) < 128)"

text \<open>A lossily decoded name that is ASCII was decoded without loss.\<close>

lemma bytes_of_utf8_bytes [simp]: "utf8_bytes (of_utf8_bytes bs) = bs"
proof -
  have "of_nat (of_char (char_of (unat b) :: char)) = b" for b :: u8
    using unsigned_less [of b, where ?'a = nat] by (simp add: word_unat_eq_iff unat_of_nat_u8)
  then show ?thesis by (induction bs) (simp_all add: utf8_bytes_def of_utf8_bytes_def)
qed

lemma lossy_ascii: "ascii (from_utf8_lossy bs) \<Longrightarrow> utf8_bytes (from_utf8_lossy bs) = bs"
proof (induction bs rule: from_utf8_lossy.induct)
  case 1
  then show ?case by (simp add: from_utf8_lossy.simps utf8_bytes_def)
next
  case (2 b bs)
  obtain n ok where c: "utf8_chunk (b # bs) = (n, ok)" by force
  have step: "from_utf8_lossy (b # bs) =
      (if ok then of_utf8_bytes (take n (b # bs)) else of_utf8_bytes [0xEF, 0xBF, 0xBD])
      @ from_utf8_lossy (drop n (b # bs))"
    by (subst from_utf8_lossy.simps(2)) (simp only: c Let_def prod.case)
  have ok
  proof (rule ccontr)
    assume "\<not> ok"
    then have "char_of (0xEF :: nat) \<in> set (from_utf8_lossy (b # bs))"
      unfolding step by (simp add: of_utf8_bytes_def)
    with "2.prems" have "(of_char (char_of (0xEF :: nat) :: char) :: nat) < 128"
      unfolding ascii_def by blast
    then show False by simp
  qed
  then have eq: "from_utf8_lossy (b # bs) = of_utf8_bytes (take n (b # bs)) @ from_utf8_lossy (drop n (b # bs))"
    unfolding step by simp
  have "ascii (from_utf8_lossy (drop n (b # bs)))" using "2.prems" unfolding eq ascii_def by auto
  from "2.IH" [OF c [symmetric] refl this]
  show ?case
    unfolding eq by (metis append_take_drop_id bytes_of_utf8_bytes map_append utf8_bytes_def)
qed

lemma raft_internal_ascii: "raft_internal c \<Longrightarrow> ascii c"
  by (auto simp: raft_internal_def ascii_def tree_defs)

lemma data_names_not_internal:
  assumes "c \<in> set (data_tree_names E d)"
  shows "\<not> raft_internal c"
proof
  assume r: "raft_internal c"
  from assms obtain name where n: "name \<in> set (sl_names E d)" "c = from_utf8_lossy name"
    "name \<notin> utf8_bytes ` {TREE_RAFT_METADATA, TREE_RAFT_STATE, TREE_RAFT_LOG, ''__sled__default''}"
    by (auto simp: data_tree_names_def)
  have "utf8_bytes c = name" using lossy_ascii [of name] raft_internal_ascii [OF r] n(2) by simp
  then show False using n(3) r by (auto simp: raft_internal_def)
qed

lemma data_names_cover:
  assumes "sled_ok E" and "view E d c \<noteq> Map.empty" and "\<not> raft_internal c" and "utf8_string c"
  shows "c \<in> set (data_tree_names E d)"
proof -
  have "utf8_bytes c \<in> set (sl_names E d)" using sled_okD(10) [OF assms(1,2)] .
  moreover have "utf8_bytes c \<notin> utf8_bytes ` {TREE_RAFT_METADATA, TREE_RAFT_STATE, TREE_RAFT_LOG, ''__sled__default''}"
    using assms(3) by (auto simp: raft_internal_def)
  moreover have "from_utf8_lossy (utf8_bytes c) = c" using assms(4) by simp
  ultimately show ?thesis by (force simp: data_tree_names_def)
qed

subsection \<open>Building and installing\<close>

definition tree_items :: "(string \<Rightarrow> (bytes \<times> bytes) list) \<Rightarrow> string list \<Rightarrow> (string \<times> bytes \<times> bytes) list" where
  "tree_items xs names = concat (map (\<lambda>c. map (\<lambda>(k, v). (c, k, v)) (xs c)) names)"

text \<open>What a snapshot of a store with contents \<open>W\<close> may hold.\<close>

definition snapshot_of :: "world \<Rightarrow> (string \<times> bytes \<times> bytes) list \<Rightarrow> bool" where
  "snapshot_of W items \<longleftrightarrow>
     (\<forall>c k v. (c, k, v) \<in> set items \<longrightarrow> W c k = Some v \<and> \<not> raft_internal c)
   \<and> (\<forall>c k v. W c k = Some v \<longrightarrow> \<not> raft_internal c \<longrightarrow> utf8_string c \<longrightarrow> (c, k, v) \<in> set items)"

context raft_storage begin

lemma does_snapshot_loop:
  assumes ok and "\<And>c. scan_of (W c) (xs c)"
  shows "does (view E) (snapshot_loop S names acc) W (Inr (acc @ tree_items xs names)) W"
proof (induction names arbitrary: acc)
  case Nil
  then show ?case by (simp add: tree_items_def does_ret)
next
  case (Cons c names)
  have "does (view E) (so_list S c [] None) W (Inr (xs c)) W"
    by (rule does_klist [OF assms(1,2)])
  then have "does (view E) (snapshot_loop S (c # names) acc) W
      (Inr ((acc @ map (\<lambda>(k, v). (c, k, v)) (xs c)) @ tree_items xs names)) W"
    unfolding snapshot_loop.simps by (rule does_bind [OF does_map_err_ok]) (rule Cons.IH)
  then show ?case by (simp add: tree_items_def)
qed

text \<open>A snapshot holds exactly the data trees, and building it changes nothing.\<close>

lemma build_snapshot_holds:
  assumes ok and C: "raft_codec_ok C"
  shows "\<exists>items d'. build_snapshot S C b d =
       (Inr (\<lparr>mt_last_log_id = sb_last_applied b, mt_last_membership = sb_membership b,
              mt_snapshot_id = snapshot_id (sb_last_applied b)\<rparr>, enc (rc_snapshot C) items), d')
     \<and> view E d' = view E d \<and> snapshot_of (view E d) items"
proof -
  let ?names = "data_tree_names E d" and ?items = "tree_items (\<lambda>c. scan E c d) (data_tree_names E d)"
  note sok = disk [OF assms(1)]
  have c: "cd_ser (rc_snapshot C) i = Inr (enc (rc_snapshot C) i)" for i
    by (rule codec_okD(1) [OF raft_codec_okD(4) [OF C]])
  have "does (view E) (snapshot_loop S ?names []) (view E d) (Inr ?items) (view E d)"
    using does_snapshot_loop [OF assms(1), where acc = "[]"] scan_facts(1) [OF sok] by fastforce
  then obtain d' where "snapshot_loop S ?names [] d = (Inr ?items, d')" "view E d' = view E d"
    by (rule does_runE)
  moreover have "snapshot_of (view E d) ?items"
    unfolding snapshot_of_def
  proof (intro conjI allI impI)
    fix c k v
    assume "(c, k, v) \<in> set ?items"
    then have "c \<in> set ?names" "(k, v) \<in> set (scan E c d)" by (auto simp: tree_items_def)
    then show "view E d c k = Some v" "\<not> raft_internal c"
      using in_scan [OF sok] data_names_not_internal [of c E d] by simp_all
  next
    fix c k v
    assume a: "view E d c k = Some v" "\<not> raft_internal c" "utf8_string c"
    then have "c \<in> set ?names" by (intro data_names_cover [OF sok]) auto
    moreover have "(k, v) \<in> set (scan E c d)" using a(1) in_scan [OF sok] by blast
    ultimately show "(c, k, v) \<in> set ?items" by (force simp: tree_items_def)
  qed
  ultimately show ?thesis
    by (intro exI [of _ ?items] exI [of _ d'])
      (simp add: build_snapshot_def tree_names act_defs map_err_def c)
qed

lemma does_install:
  assumes ok and C: "raft_codec_ok C"
  shows "does (nview E) (install_snapshot S C meta (enc (rc_snapshot C) items)) (W, s) (Inr ())
     (restore items W, s\<lparr>rm_last_applied := mt_last_log_id meta, rm_membership := mt_last_membership meta\<rparr>)"
proof -
  have dec: "cd_de (rc_snapshot C) (enc (rc_snapshot C) items) = Inr items"
    by (rule codec_okD(2) [OF raft_codec_okD(4) [OF C]])
  have "does (view E) (for_each (\<lambda>(c, k, v). map_err sm_write (so_put S c k v)) items) W (Inr ())
      (restore items W)"
    unfolding restore_def
  proof (rule does_for_each)
    fix x :: "string \<times> bytes \<times> bytes" and W
    show "does (view E) (case x of (c, k, v) \<Rightarrow> map_err sm_write (so_put S c k v)) W (Inr ())
        ((\<lambda>(c, k, v) W. wput W c k v) x W)"
      by (cases x) (simp add: does_map_err_ok [OF does_kput [OF assms(1)]])
  qed
  then show ?thesis
    unfolding install_snapshot_def dec map_err_lift bindA_lift
    by (rule does_then [OF does_on_disk does_on_mem])
qed

text \<open>
  The contents after an install, against the contents the snapshot was made from: the Raft
  trees of the receiver are untouched, the data trees get every pair of the sender, and what
  the sender did not have stays.
\<close>

lemma install_contents:
  assumes "snapshot_of WA items"
  shows "raft_internal c \<Longrightarrow> restore items WB c k = WB c k"
    and "\<not> raft_internal c \<Longrightarrow> utf8_string c \<Longrightarrow>
      restore items WB c k = (case WA c k of Some v \<Rightarrow> Some v | None \<Rightarrow> WB c k)"
proof -
  have agree: "WA c k = Some v" if "(c, k, v) \<in> set items" for c k v
    using assms that unfolding snapshot_of_def by blast
  note r = restore_agree [of items WA WB, OF agree]
  show "restore items WB c k = WB c k" if "raft_internal c"
  proof -
    have "\<not> (\<exists>v. (c, k, v) \<in> set items)" using assms that unfolding snapshot_of_def by blast
    then show ?thesis by (simp add: r)
  qed
  show "restore items WB c k = (case WA c k of Some v \<Rightarrow> Some v | None \<Rightarrow> WB c k)"
    if "\<not> raft_internal c" "utf8_string c"
  proof (cases "WA c k")
    case None
    then have "\<not> (\<exists>v. (c, k, v) \<in> set items)" using agree by fastforce
    then show ?thesis by (simp add: r None)
  next
    case (Some v)
    then have "(c, k, v) \<in> set items" using assms that unfolding snapshot_of_def by blast
    then have "\<exists>v. (c, k, v) \<in> set items" ..
    then show ?thesis by (simp add: r Some)
  qed
qed

end

subsection \<open>The apply loop\<close>

lemma apply_loop_ok:
  assumes "apply_loop app blank es rs (d, s) = (Inr rs', (d', s'))"
  shows "length rs' = length rs + length es
     \<and> rm_last_applied s' = (if es = [] then rm_last_applied s else Some (en_log_id (last es)))
     \<and> rm_vote s' = rm_vote s \<and> rm_purged s' = rm_purged s"
  using assms
proof (induction es arbitrary: rs d s)
  case Nil
  then show ?case by (simp add: ret_def)
next
  case (Cons e es)
  from Cons.prems obtain r d1 s1 where
    rest: "apply_loop app blank es (rs @ [r]) (d1, s1) = (Inr rs', (d', s'))"
    and s1: "rm_last_applied s1 = Some (en_log_id e)" "rm_vote s1 = rm_vote s" "rm_purged s1 = rm_purged s"
    by (cases "en_payload e")
      (auto simp: act_defs on_mem_def on_disk_def map_err_def split: prod.splits sum.splits)
  from Cons.IH [OF rest] s1 show ?case by simp
qed

lemma apply_loop_err:
  assumes "apply_loop app blank es rs (d, s) = (Inl x, (d', s'))"
  shows "\<exists>pre e post cmd. es = pre @ e # post \<and> en_payload e = Normal cmd
     \<and> rm_last_applied s' = Some (en_log_id e)
     \<and> (\<exists>d1 err. app cmd d1 = (Inl err, d') \<and> x = sm_write err)"
  using assms
proof (induction es arbitrary: rs d s)
  case Nil
  then show ?case by (simp add: ret_def)
next
  case (Cons e es)
  show ?case
  proof (cases "\<exists>cmd err d1. en_payload e = Normal cmd \<and> app cmd d = (Inl err, d1)")
    case True
    then obtain cmd err d1 where "en_payload e = Normal cmd" "app cmd d = (Inl err, d1)" by blast
    with Cons.prems show ?thesis
      by (intro exI [of _ "[]"] exI [of _ e] exI [of _ es] exI [of _ cmd])
        (auto simp: act_defs on_mem_def on_disk_def map_err_def)
  next
    case False
    with Cons.prems obtain r d1 s1 where
      rest: "apply_loop app blank es (rs @ [r]) (d1, s1) = (Inl x, (d', s'))"
      by (cases "en_payload e")
        (auto simp: act_defs on_mem_def on_disk_def map_err_def split: prod.splits sum.splits)
    from Cons.IH [OF rest] show ?thesis by (metis append_Cons)
  qed
qed

end
