(* ===== verification/Raft_Codec.thy ===== *)
theory Raft_Codec
  imports Raft_Types Byte_Codec
begin

text \<open>Concrete codecs for the serialised types of the Raft layer.\<close>

definition log_id_pk :: "log_id pickle" where
  "log_id_pk = map_pk (\<lambda>l. (li_term l, li_node l, li_index l))
     (\<lambda>(a, b, c). \<lparr>li_term = a, li_node = b, li_index = c\<rparr>)
     (pair_pk u64_pk (pair_pk u64_pk u64_pk))"

lemma log_id_pk_ok [pickles]: "pickle_ok log_id_pk"
  unfolding log_id_pk_def by (rule map_pk_ok) (simp_all add: pickles)

definition vote_pk :: "vote pickle" where
  "vote_pk = map_pk (\<lambda>v. (vt_term v, vt_node_id v, vt_committed v))
     (\<lambda>(a, b, c). \<lparr>vt_term = a, vt_node_id = b, vt_committed = c\<rparr>)
     (pair_pk u64_pk (pair_pk u64_pk bool_pk))"

lemma vote_pk_ok [pickles]: "pickle_ok vote_pk"
  unfolding vote_pk_def by (rule map_pk_ok) (simp_all add: pickles)

definition payload_pk :: "'p pickle \<Rightarrow> 'm pickle \<Rightarrow> ('p, 'm) entry_payload pickle" where
  "payload_pk p m = map_pk
     (\<lambda>x. case x of Blank \<Rightarrow> (None, None) | Normal c \<Rightarrow> (Some c, None) | Membership b \<Rightarrow> (None, Some b))
     (\<lambda>x. case x of (Some c, _) \<Rightarrow> Normal c | (None, Some b) \<Rightarrow> Membership b | _ \<Rightarrow> Blank)
     (pair_pk (option_pk p) (option_pk m))"

lemma payload_pk_ok [pickles]: "pickle_ok p \<Longrightarrow> pickle_ok m \<Longrightarrow> pickle_ok (payload_pk p m)"
  unfolding payload_pk_def
  by (rule map_pk_ok) (simp_all add: pickles split: entry_payload.split)

definition entry_pk :: "'p pickle \<Rightarrow> 'm pickle \<Rightarrow> ('p, 'm) entry pickle" where
  "entry_pk p m = map_pk (\<lambda>e. (en_log_id e, en_payload e))
     (\<lambda>(a, b). \<lparr>en_log_id = a, en_payload = b\<rparr>) (pair_pk log_id_pk (payload_pk p m))"

lemma entry_pk_ok [pickles]: "pickle_ok p \<Longrightarrow> pickle_ok m \<Longrightarrow> pickle_ok (entry_pk p m)"
  unfolding entry_pk_def by (rule map_pk_ok) (simp_all add: pickles)

text \<open>The database's log entries, as a tag and the lists of their fields.\<close>

definition log_entry_fields ::
  "log_entry \<Rightarrow> u8 \<times> string list \<times> bytes list \<times> (bytes \<times> bytes) list \<times> ticket_index_fields list
     \<times> user_index_fields list \<times> u64 list" where
  "log_entry_fields e =
     (case e of
        Put c k v \<Rightarrow> (0, [c], [k, v], [], [], [], [])
      | Get c k \<Rightarrow> (1, [c], [k], [], [], [], [])
      | Delete c k \<Rightarrow> (2, [c], [k], [], [], [], [])
      | BatchPut c ps \<Rightarrow> (3, [c], [], ps, [], [], [])
      | CreateTicket b i \<Rightarrow> (4, [], [b], [], [i], [], [])
      | UpdateTicket n b i \<Rightarrow> (5, [], [b], [], [i], [], [n])
      | SoftDeleteTicket n t \<Rightarrow> (6, [], [], [], [], [], [n, t])
      | CreateUser u b i \<Rightarrow> (7, [u], [b], [], [], [i], [])
      | UpdateUser u b i \<Rightarrow> (8, [u], [b], [], [], [i], [])
      | SoftDeleteUser u t \<Rightarrow> (9, [u], [], [], [], [], [t]))"

definition log_entry_of ::
  "u8 \<times> string list \<times> bytes list \<times> (bytes \<times> bytes) list \<times> ticket_index_fields list
     \<times> user_index_fields list \<times> u64 list \<Rightarrow> log_entry" where
  "log_entry_of x =
     (case x of (t, ss, bs, ps, ti, ui, ns) \<Rightarrow>
        if t = 0 then Put (ss ! 0) (bs ! 0) (bs ! 1)
        else if t = 1 then Get (ss ! 0) (bs ! 0)
        else if t = 2 then Delete (ss ! 0) (bs ! 0)
        else if t = 3 then BatchPut (ss ! 0) ps
        else if t = 4 then CreateTicket (bs ! 0) (ti ! 0)
        else if t = 5 then UpdateTicket (ns ! 0) (bs ! 0) (ti ! 0)
        else if t = 6 then SoftDeleteTicket (ns ! 0) (ns ! 1)
        else if t = 7 then CreateUser (ss ! 0) (bs ! 0) (ui ! 0)
        else if t = 8 then UpdateUser (ss ! 0) (bs ! 0) (ui ! 0)
        else SoftDeleteUser (ss ! 0) (ns ! 0))"

definition log_entry_pk :: "log_entry pickle" where
  "log_entry_pk = map_pk log_entry_fields log_entry_of
     (pair_pk u8_pk (pair_pk (list_pk string_pk) (pair_pk (list_pk bytes_pk)
       (pair_pk (list_pk (pair_pk bytes_pk bytes_pk)) (pair_pk (list_pk tindex_pk)
         (pair_pk (list_pk uindex_pk) (list_pk u64_pk)))))))"

lemma log_entry_pk_ok [pickles]: "pickle_ok log_entry_pk"
  unfolding log_entry_pk_def
  by (rule map_pk_ok) (simp_all add: pickles log_entry_fields_def log_entry_of_def split: log_entry.split)

definition mem_raft_codec :: "'p pickle \<Rightarrow> 'm pickle \<Rightarrow> ('p, 'm) raft_codec" where
  "mem_raft_codec p m =
     \<lparr>rc_entry = mk_codec (entry_pk p m), rc_vote = mk_codec vote_pk, rc_log_id = mk_codec log_id_pk,
      rc_snapshot = mk_codec (list_pk (pair_pk string_pk (pair_pk bytes_pk bytes_pk)))\<rparr>"

lemma mem_raft_codec_ok:
  "pickle_ok p \<Longrightarrow> pickle_ok m \<Longrightarrow> raft_codec_ok (mem_raft_codec p m)"
  by (simp add: raft_codec_ok_def mem_raft_codec_def mk_codec_ok pickles)

text \<open>The database's codec, with a byte string for a membership.\<close>

definition db_raft_codec :: "(log_entry, bytes) raft_codec" where
  "db_raft_codec = mem_raft_codec log_entry_pk bytes_pk"

lemma db_raft_codec_ok: "raft_codec_ok db_raft_codec"
  by (simp add: db_raft_codec_def mem_raft_codec_ok pickles)

end
