(* ===== verification/Db_Raft_Props.thy ===== *)
theory Db_Raft_Props
  imports Db_Raft Raft_Snapshot Raft_Codec
begin

text \<open>
  The properties of the database service's Raft store: its interpretation of the log contract,
  committed commands implement the specification, the log is a finite map, votes and purge points
  survive a restart, and what a snapshot transfers.
\<close>

interpretation db_store: raft_storage "sled_ok E" E "db_ops E" for E :: "('d, 'z) sled_scheme"
proof unfold_locales
  fix W :: world and c xs
  assume "sled_ok E" "scan_of (W c) xs"
  then show "does (view E) (so_list (db_ops E) c [] None) W (Inr xs) W"
    using db_kv.does_klist by simp
qed (simp_all add: does_get_tree does_put does_get does_delete)

lemma nview_pair: "nview E (d, s) = (view E d, s)"
  by (simp add: nview_def)

lemma nrun:
  assumes "does (nview E) m (view E d, s) r (W', s')"
  obtains d' where "m (d, s) = (r, (d', s'))" and "view E d' = W'"
proof -
  from assms have "does (nview E) m (nview E (d, s)) r (W', s')" by (simp add: nview_pair)
  from doesD [OF this] show ?thesis
    using that by (cases "m (d, s)") (auto simp: nview_def)
qed

definition fresh_mem :: "'m raft_mem" where
  "fresh_mem = \<lparr>rm_last_applied = None, rm_membership = DefaultMembership, rm_vote = None, rm_purged = None\<rparr>"

lemma mem_db_sled: "sled_ok mem_db"
  using mem_db_ok by (simp add: db_env_ok_def)

lemma empty_log: "log_inv C (\<lambda>_. Map.empty)" "log_of C (\<lambda>_. Map.empty) = Map.empty"
  by (simp_all add: log_inv_def log_of_def table_rows_def decode_row_def fun_eq_iff)

subsection \<open>Committed commands\<close>

definition sample_entry :: "u64 \<Rightarrow> 'p \<Rightarrow> ('p, bytes) entry" where
  "sample_entry i c = \<lparr>en_log_id = \<lparr>li_term = 1, li_node = 1, li_index = i\<rparr>, en_payload = Normal c\<rparr>"

fun admissible :: "db_spec \<Rightarrow> log_entry list \<Rightarrow> bool" where
  "admissible s [] = True"
| "admissible s (e # es) \<longleftrightarrow>
     entry_ok s e \<and> (case e of Get c k \<Rightarrow> False | _ \<Rightarrow> True)
     \<and> (case fst (spec_apply e s) of Inl _ \<Rightarrow> False | Inr _ \<Rightarrow> admissible (snd (spec_apply e s)) es)"

fun spec_run :: "log_entry list \<Rightarrow> db_spec \<Rightarrow> bytes option list \<times> db_spec" where
  "spec_run [] s = ([], s)"
| "spec_run (e # es) s =
     (case spec_run es (snd (spec_apply e s)) of (vs, s') \<Rightarrow>
        ((case fst (spec_apply e s) of Inr v \<Rightarrow> v | Inl _ \<Rightarrow> None) # vs, s'))"

definition normal_entries :: "log_id list \<Rightarrow> log_entry list \<Rightarrow> (log_entry, 'm) entry list" where
  "normal_entries ids cmds = map (\<lambda>(i, c). \<lparr>en_log_id = i, en_payload = Normal c\<rparr>) (zip ids cmds)"

lemma apply_run:
  assumes "db_env_ok E"
  shows "length ids = length cmds \<Longrightarrow> db_inv E (view E d) \<Longrightarrow> admissible (db_abs E (view E d)) cmds \<Longrightarrow>
    \<exists>rs d' s'. apply_loop (sm_apply E) blank (normal_entries ids cmds) rs0 (d, s) = (Inr (rs0 @ rs), (d', s'))
     \<and> list_all dr_success rs \<and> map dr_value rs = fst (spec_run cmds (db_abs E (view E d)))
     \<and> db_abs E (view E d') = snd (spec_run cmds (db_abs E (view E d))) \<and> db_inv E (view E d')
     \<and> s' = s\<lparr>rm_last_applied := (if ids = [] then rm_last_applied s else Some (last ids))\<rparr>"
proof (induction ids cmds arbitrary: d s rs0 rule: list_induct2')
  case (4 i ids c cmds)
  let ?s = "db_abs E (view E d)"
  have eok: "entry_ok ?s c" and ng: "case c of Get a k \<Rightarrow> False | _ \<Rightarrow> True"
    using "4.prems"(3) by simp_all
  obtain v where v: "fst (spec_apply c ?s) = Inr v" and adm: "admissible (snd (spec_apply c ?s)) cmds"
    using "4.prems"(3) by (auto split: sum.splits)
  obtain d1 where d1: "log_apply E c d = (Inr v, d1)" "db_inv E (view E d1)"
    "db_abs E (view E d1) = snd (spec_apply c ?s)"
    using refines_run [OF assms "4.prems"(2) eok disjI2 [OF refl]] v by metis
  let ?r = "\<lparr>dr_success = True, dr_value = v\<rparr>"
  have step: "sm_apply E c d = (Inr ?r, d1)"
    using d1(1) ng by (cases c) (auto simp: sm_apply_def act_defs)
  let ?s1 = "s\<lparr>rm_last_applied := Some i\<rparr>"
  have "length ids = length cmds" using "4.prems"(1) by simp
  from "4.IH" [OF this d1(2), of "rs0 @ [?r]" ?s1] adm
  obtain rs d' s' where rest: "apply_loop (sm_apply E) blank (normal_entries ids cmds) (rs0 @ [?r]) (d1, ?s1)
      = (Inr ((rs0 @ [?r]) @ rs), (d', s'))"
    and rs: "list_all dr_success rs" "map dr_value rs = fst (spec_run cmds (db_abs E (view E d1)))"
      "db_abs E (view E d') = snd (spec_run cmds (db_abs E (view E d1)))" "db_inv E (view E d')"
      "s' = ?s1\<lparr>rm_last_applied := (if ids = [] then rm_last_applied ?s1 else Some (last ids))\<rparr>"
    unfolding d1(3) by blast
  have "apply_loop (sm_apply E) blank (normal_entries (i # ids) (c # cmds)) rs0 (d, s)
      = (Inr (rs0 @ (?r # rs)), (d', s'))"
    using rest by (simp add: normal_entries_def thenA_def bindA_def on_mem_def on_disk_def map_err_def step)
  then show ?case
    using rs v by (intro exI [of _ "?r # rs"]) (auto simp: d1(3) split: prod.split)
qed (auto simp: normal_entries_def ret_def)

text \<open>C31: committed commands implement the specification. Applying a batch of admissible commands
  through the Raft state machine answers every one with success and the value the
  specification computes (the id of each created ticket), leaves the contents that the
  specification reaches by the same commands, and records the last entry as the last one applied
  and nothing else in memory. So nodes that apply the same entries to equal contents answer the
  same and end with equal contents, whatever stores they run on.
\<close>

theorem committed_commands_refine:
  assumes "db_env_ok E" and "db_inv E (view E d)" and "length ids = length cmds"
    and "admissible (db_abs E (view E d)) cmds"
  shows "\<exists>rs d' s'. apply_to_state_machine E (normal_entries ids cmds) (d, s) = (Inr rs, (d', s'))
     \<and> list_all dr_success rs \<and> map dr_value rs = fst (spec_run cmds (db_abs E (view E d)))
     \<and> db_abs E (view E d') = snd (spec_run cmds (db_abs E (view E d))) \<and> db_inv E (view E d')
     \<and> s' = s\<lparr>rm_last_applied := (if ids = [] then rm_last_applied s else Some (last ids))\<rparr>"
  using apply_run [OF assms(1,3,2,4), where ?rs0.0 = "[]"] unfolding apply_to_state_machine_def append_Nil .

theorem committed_commands_refine_witness:
  "\<exists>rs d' s'. apply_to_state_machine mem_db
       (normal_entries [\<lparr>li_term = 1, li_node = 1, li_index = 1\<rparr>, \<lparr>li_term = 1, li_node = 1, li_index = 2\<rparr>]
         [CreateTicket [5] sample_index, SoftDeleteTicket 1 8]) (RBT.empty, fresh_mem) = (Inr rs, (d', s' :: bytes raft_mem))
     \<and> map dr_value rs = [Some (to_be_bytes 1), None]"
proof -
  have adm: "admissible (db_abs mem_db (view mem_db RBT.empty)) [CreateTicket [5] sample_index, SoftDeleteTicket 1 8]"
    by (simp add: db_empty spec_init_def saturating_inc_def Let_def)
  have vals: "fst (spec_run [CreateTicket [5] sample_index, SoftDeleteTicket 1 8] (db_abs mem_db (view mem_db RBT.empty)))
      = [Some (to_be_bytes 1), None]"
    by (simp add: db_empty spec_init_def saturating_inc_def Let_def)
  let ?ids = "[\<lparr>li_term = 1, li_node = 1, li_index = 1\<rparr>, \<lparr>li_term = 1, li_node = 1, li_index = 2\<rparr>]"
  have "length ?ids = length [CreateTicket [5] sample_index, SoftDeleteTicket 1 8]" by simp
  from committed_commands_refine [OF mem_db_ok mem_db_empty(1) this adm, unfolded vals, of "fresh_mem :: bytes raft_mem"]
  show ?thesis by (elim exE conjE) (intro exI conjI, assumption+)
qed

text \<open>A committed change of a ticket that does not exist is not answered with a failure: it
  stops the batch with a storage error of the state machine, which the Raft engine treats as
  fatal, with the entry already recorded as the last one applied and nothing written.
\<close>

theorem missing_ticket_stops_batch:
  assumes "db_env_ok E" and "db_inv E (view E d)" and "sp_tickets (db_abs E (view E d)) i = None"
  shows "\<exists>d' s'. apply_to_state_machine E (\<lparr>en_log_id = l, en_payload = Normal (UpdateTicket i body index)\<rparr> # rest) (d, s)
       = (Inl (sm_write (TicketNotFound i)), (d', s'))
     \<and> view E d' = view E d \<and> rm_last_applied s' = Some l"
proof -
  have ok: "sled_ok E" using assms(1) by (simp add: db_env_ok_def)
  have "view E d TREE_TICKETS (to_be_bytes i) = None"
  proof (rule ccontr)
    assume "view E d TREE_TICKETS (to_be_bytes i) \<noteq> None"
    then obtain b where "view E d TREE_TICKETS (to_be_bytes i) = Some b" by blast
    from tickets.row_present [OF tickets_table [OF assms(2)] this] show False
      using assms(3) by (auto simp: abs_ticket)
  qed
  from does_missing(1) [where W = "view E d", OF ok this]
  obtain d' where "update_ticket E i body index d = (Inl (TicketNotFound i), d')" "view E d' = view E d"
    by (rule does_runE)
  then show ?thesis
    by (intro exI [of _ d'] exI [of _ "s\<lparr>rm_last_applied := Some l\<rparr>"])
      (simp add: apply_to_state_machine_def sm_apply_def act_defs on_mem_def on_disk_def map_err_def)
qed

theorem missing_ticket_stops_batch_witness:
  "\<exists>d' s'. apply_to_state_machine mem_db
       [\<lparr>en_log_id = \<lparr>li_term = 1, li_node = 1, li_index = 4\<rparr>, en_payload = Normal (UpdateTicket 9 [] sample_index)\<rparr>]
       (RBT.empty, fresh_mem)
       = (Inl (sm_write (TicketNotFound 9)), (d', s' :: bytes raft_mem))
     \<and> rm_last_applied s' = Some \<lparr>li_term = 1, li_node = 1, li_index = 4\<rparr>"
proof -
  have "sp_tickets (db_abs mem_db (view mem_db RBT.empty)) 9 = None" by (simp add: db_empty spec_init_def)
  from missing_ticket_stops_batch [OF mem_db_ok mem_db_empty(1) this] show ?thesis by blast
qed

subsection \<open>The log\<close>

text \<open>The log is a finite map. Appending entries overrides the map at their indices, and a
  read of any pair of bounds returns exactly the entries whose index lies within them, in
  increasing order of index.
\<close>

theorem append_then_read:
  assumes "sled_ok E" and "raft_codec_ok C" and "log_inv C (view E d)"
  shows "\<exists>d1 d2. append_to_log E (db_ops E) C es d = (Inr (), d1) \<and> log_inv C (view E d1)
     \<and> try_get_log_entries E (db_ops E) C lo hi d1
         = (Inr (log_range (log_append es (log_of C (view E d))) (in_range lo hi)), d2)
     \<and> view E d2 = view E d1"
proof -
  obtain d1 where d1: "append_to_log E (db_ops E) C es d = (Inr (), d1)"
    "view E d1 = wbatch (view E d) TREE_RAFT_LOG
       (map (\<lambda>e. (to_be_bytes (entry_index e), Some (enc (rc_entry C) e))) es)"
    by (rule does_runE [OF db_store.does_append [OF assms(1,2)]])
  note w = db_store.log_append_world [OF assms(2,3), of es, folded d1(2)]
  obtain xs where "scan_of (view E d1 TREE_RAFT_LOG) xs" using view_scans [OF assms(1)] by blast
  from db_store.does_read_log [OF assms(1) w(2) this]
  obtain d2 where "try_get_log_entries E (db_ops E) C lo hi d1
      = (Inr (log_range (log_of C (view E d1)) (in_range lo hi)), d2)" "view E d2 = view E d1"
    by (rule does_runE)
  then show ?thesis using d1(1) w by auto
qed

theorem append_then_read_witness:
  "\<exists>d1 d2. append_to_log mem_db (db_ops mem_db) db_raft_codec
        [sample_entry 2 (Get [] []), sample_entry 1 (Get [] [])] RBT.empty = (Inr (), d1)
     \<and> try_get_log_entries mem_db (db_ops mem_db) db_raft_codec (Included 1) (Excluded 3) d1
         = (Inr [sample_entry 1 (Get [] []), sample_entry 2 (Get [] [])], d2)"
proof -
  let ?es = "[sample_entry 2 (Get [] []), sample_entry 1 (Get [] [])]"
  have "log_inv db_raft_codec (view mem_db RBT.empty)" by (simp add: empty_log)
  from append_then_read [OF mem_db_sled db_raft_codec_ok this, of ?es "Included 1" "Excluded 3"]
  obtain d1 d2 where run: "append_to_log mem_db (db_ops mem_db) db_raft_codec ?es RBT.empty = (Inr (), d1)"
    "try_get_log_entries mem_db (db_ops mem_db) db_raft_codec (Included 1) (Excluded 3) d1
      = (Inr (log_range (log_append ?es Map.empty) (in_range (Included 1) (Excluded 3))), d2)"
    by (auto simp: empty_log)
  have L: "log_append ?es Map.empty = [2 \<mapsto> sample_entry 2 (Get [] []), 1 \<mapsto> sample_entry 1 (Get [] [])]"
    by (simp add: log_append_def sample_entry_def)
  have "{i \<in> dom (log_append ?es Map.empty). in_range (Included 1) (Excluded 3) i} = {1, 2 :: u64}"
    unfolding L by (auto simp: in_range_def range_start_def range_end_def)
  then have "log_range (log_append ?es Map.empty) (in_range (Included 1) (Excluded 3))
      = [sample_entry 1 (Get [] []), sample_entry 2 (Get [] [])]"
    unfolding log_range_def by (simp add: L)
  with run show ?thesis by auto
qed

text \<open>Cutting the log. \<open>delete_conflict_logs_since\<close> keeps exactly the entries below the given
  index and \<open>purge_logs_upto\<close> exactly those above it; neither touches application data, and
  the purge also records its log id.
\<close>

theorem log_truncation:
  assumes "sled_ok E" and "raft_codec_ok C" and "log_inv C (view E d)"
  shows "(\<exists>d'. delete_conflict_logs_since E (db_ops E) l d = (Inr (), d')
        \<and> log_of C (view E d') = log_of C (view E d) |` {i. i < li_index l} \<and> log_inv C (view E d')
        \<and> (\<forall>t. \<not> raft_internal t \<longrightarrow> view E d' t = view E d t))
     \<and> (\<exists>d'. purge_logs_upto E (db_ops E) C l (d, s) = (Inr (), (d', s\<lparr>rm_purged := Some l\<rparr>))
        \<and> log_of C (view E d') = log_of C (view E d) |` {i. li_index l < i} \<and> log_inv C (view E d')
        \<and> meta_of (rc_log_id C) key_last_purged (view E d') = Some l
        \<and> (\<forall>t. \<not> raft_internal t \<longrightarrow> view E d' t = view E d t))"
proof -
  obtain xs where xs: "scan_of (view E d TREE_RAFT_LOG) xs" using view_scans [OF assms(1)] by blast
  obtain W1 where W1: "does (view E) (delete_conflict_logs_since E (db_ops E) l) (view E d) (Inr ()) W1"
    "log_of C W1 = log_of C (view E d) |` {i. i < li_index l}" "log_inv C W1"
    "\<forall>t. t \<noteq> TREE_RAFT_LOG \<longrightarrow> W1 t = view E d t"
    using db_store.does_delete_conflict [OF assms(1,3) xs] by blast
  obtain W2 where W2: "does (nview E) (purge_logs_upto E (db_ops E) C l) (view E d, s) (Inr ())
      (W2, s\<lparr>rm_purged := Some l\<rparr>)"
    "log_of C W2 = log_of C (view E d) |` {i. li_index l < i}" "log_inv C W2"
    "meta_of (rc_log_id C) key_last_purged W2 = Some l"
    "\<forall>t. t \<noteq> TREE_RAFT_LOG \<longrightarrow> t \<noteq> TREE_RAFT_METADATA \<longrightarrow> W2 t = view E d t"
    using db_store.does_purge [OF assms xs] by blast
  have int: "t \<noteq> TREE_RAFT_LOG" "t \<noteq> TREE_RAFT_METADATA" if "\<not> raft_internal t" for t
    using that by (auto simp: raft_internal_def)
  obtain d1 where d1: "delete_conflict_logs_since E (db_ops E) l d = (Inr (), d1)" "view E d1 = W1"
    by (rule does_runE [OF W1(1)])
  obtain d2 where d2: "purge_logs_upto E (db_ops E) C l (d, s) = (Inr (), (d2, s\<lparr>rm_purged := Some l\<rparr>))"
    "view E d2 = W2"
    by (rule nrun [OF W2(1)])
  show ?thesis
    using d1 d2 W1(2-4) W2(2-5) int by (intro conjI exI [of _ d1] exI [of _ d2]) auto
qed

theorem log_truncation_witness:
  "\<exists>d'. purge_logs_upto mem_db (db_ops mem_db) db_raft_codec \<lparr>li_term = 1, li_node = 1, li_index = 6\<rparr>
       (RBT.empty, fresh_mem) = (Inr (), (d', fresh_mem\<lparr>rm_purged := Some \<lparr>li_term = 1, li_node = 1, li_index = 6\<rparr>\<rparr>))"
proof -
  have "log_inv db_raft_codec (view mem_db RBT.empty)" by (simp add: empty_log)
  from log_truncation [OF mem_db_sled db_raft_codec_ok this] show ?thesis by blast
qed

text \<open>
 \<open>get_log_state\<close> reports the id of the entry with the greatest index (none for an empty
  log) and the purge point held in memory, and changes nothing.
\<close>

theorem log_state_spec:
  assumes "sled_ok E" and "log_inv C (view E d)"
  shows "\<exists>d'. get_log_state E (db_ops E) C (d, s) =
       (Inr \<lparr>ls_last_log_id = last_id (log_of C (view E d)), ls_last_purged = rm_purged s\<rparr>, (d', s))
     \<and> view E d' = view E d
     \<and> (\<forall>i e. log_of C (view E d) i = Some e \<longrightarrow>
          (\<exists>l. last_id (log_of C (view E d)) = Some l \<and> i \<le> li_index l))"
proof -
  obtain xs where xs: "scan_of (view E d TREE_RAFT_LOG) xs" using view_scans [OF assms(1)] by blast
  let ?L = "log_of C (view E d)"
  have "finite (dom ?L)"
  proof -
    have "dom ?L \<subseteq> (\<lambda>x. entry_index (entry_at C x)) ` set xs"
      using log_scan(3) [OF assms(2) xs] by (auto simp: dom_def)
    then show ?thesis by (rule finite_subset) simp
  qed
  have "\<exists>l. last_id ?L = Some l \<and> i \<le> li_index l" if "?L i = Some e" for i e
  proof -
    have dom: "i \<in> dom ?L" using that by blast
    then have "Max (dom ?L) \<in> dom ?L" using \<open>finite (dom ?L)\<close> Max_in by blast
    then obtain m where m: "?L (Max (dom ?L)) = Some m" by blast
    have "i \<le> entry_index m"
      using Max_ge [OF \<open>finite (dom ?L)\<close> dom] log_of_index [OF assms(2) m] by simp
    then show ?thesis using m dom by (auto simp: last_id_def)
  qed
  moreover obtain d' where "get_log_state E (db_ops E) C (d, s) =
       (Inr \<lparr>ls_last_log_id = last_id ?L, ls_last_purged = rm_purged s\<rparr>, (d', s))" "view E d' = view E d"
    by (rule nrun [OF db_store.does_log_state [OF assms xs]])
  ultimately show ?thesis by blast
qed

theorem log_state_spec_witness:
  "\<exists>d'. get_log_state mem_db (db_ops mem_db) db_raft_codec (RBT.empty, fresh_mem) =
       (Inr \<lparr>ls_last_log_id = None, ls_last_purged = None\<rparr>, (d', fresh_mem))"
proof -
  have "log_inv db_raft_codec (view mem_db RBT.empty)" by (simp add: empty_log)
  from log_state_spec [OF mem_db_sled this, of fresh_mem] show ?thesis
    by (auto simp: empty_log last_id_def fresh_mem_def)
qed

subsection \<open>Metadata and restarts\<close>



subsection \<open>Snapshots\<close>

text \<open>C33: a snapshot built on one node and installed on another carries every pair of every data
  tree (rows, indexes and counters alike) and the applied log id and membership, and leaves
  the receiver's vote, purge point and log alone. It is a merge, not a replacement: a pair the
  sender does not have stays on the receiver, whose storage is never cleared.
\<close>

theorem snapshot_transfer:
  assumes "sled_ok E1" and "sled_ok E2" and "raft_codec_ok C"
  shows "\<exists>meta data d1 d2 s'.
       build_snapshot (db_ops E1) C \<lparr>sb_last_applied = la, sb_membership = lm\<rparr> dA = (Inr (meta, data), d1)
     \<and> view E1 d1 = view E1 dA
     \<and> install_snapshot (db_ops E2) C meta data (dB, s) = (Inr (), (d2, s'))
     \<and> s' = s\<lparr>rm_last_applied := la, rm_membership := lm\<rparr>
     \<and> (\<forall>c k. raft_internal c \<longrightarrow> view E2 d2 c k = view E2 dB c k)
     \<and> (\<forall>c k. \<not> raft_internal c \<longrightarrow> utf8_string c \<longrightarrow> view E2 d2 c k =
          (case view E1 dA c k of Some v \<Rightarrow> Some v | None \<Rightarrow> view E2 dB c k))"
proof -
  let ?b = "\<lparr>sb_last_applied = la, sb_membership = lm\<rparr>"
  let ?meta = "\<lparr>mt_last_log_id = la, mt_last_membership = lm, mt_snapshot_id = snapshot_id la\<rparr>"
  obtain items d1 where b: "build_snapshot (db_ops E1) C ?b dA = (Inr (?meta, enc (rc_snapshot C) items), d1)"
    "view E1 d1 = view E1 dA" and sn: "snapshot_of (view E1 dA) items"
    using db_store.build_snapshot_holds [OF assms(1,3), of ?b dA] by auto
  obtain d2 where d2: "install_snapshot (db_ops E2) C ?meta (enc (rc_snapshot C) items) (dB, s)
      = (Inr (), (d2, s\<lparr>rm_last_applied := la, rm_membership := lm\<rparr>))"
    "view E2 d2 = restore items (view E2 dB)"
    by (rule nrun [OF db_store.does_install [OF assms(2,3), where meta = ?meta]]) auto
  show ?thesis
    using b d2 db_store.install_contents [OF sn]
    by (intro exI [of _ ?meta] exI [of _ "enc (rc_snapshot C) items"] exI [of _ d1] exI [of _ d2]
        exI [of _ "s\<lparr>rm_last_applied := la, rm_membership := lm\<rparr>"]) auto
qed

theorem snapshot_transfer_witness:
  "\<exists>meta data d1 d2 s'.
       build_snapshot (db_ops mem_db) db_raft_codec \<lparr>sb_last_applied = None, sb_membership = DefaultMembership\<rparr>
         RBT.empty = (Inr (meta, data), d1)
     \<and> install_snapshot (db_ops mem_db) db_raft_codec meta data
         (RBT.insert TREE_AUDIT (RBT.insert [1] [2] RBT.empty) RBT.empty, fresh_mem) = (Inr (), (d2, s'))
     \<and> view mem_db d2 TREE_AUDIT [1] = Some [2]"
proof -
  have "utf8_string TREE_AUDIT" "\<not> raft_internal TREE_AUDIT" by code_simp+
  moreover have "view mem_db RBT.empty TREE_AUDIT [1] = None"
    "view mem_db (RBT.insert TREE_AUDIT (RBT.insert [1] [2] RBT.empty) RBT.empty) TREE_AUDIT [1] = Some [2]"
    by (simp_all add: mem_view mem_tree_def)
  ultimately show ?thesis
    using snapshot_transfer [OF mem_db_sled mem_db_sled db_raft_codec_ok, of None DefaultMembership RBT.empty
        "RBT.insert TREE_AUDIT (RBT.insert [1] [2] RBT.empty) RBT.empty" fresh_mem]
    by fastforce
qed

end
