(* ===== verification/Lock_Props.thy ===== *)
theory Lock_Props
  imports Lock_Raft Db_Raft_Props
begin

text \<open>
  The lock table of the custodian against its specification, a finite map from tickets to
  locks: what a command does, who can hold a lock, when it expires, and what a replay does.
\<close>

subsection \<open>Specification\<close>

fun lock_step ::
  "('d, 'z) lockstore_scheme \<Rightarrow> lock_command \<Rightarrow> (u64 \<rightharpoonup> lock_info) \<Rightarrow> lock_response \<times> (u64 \<rightharpoonup> lock_info)" where
  "lock_step E (AcquireLock t u at ttl) L =
     (case L t of
        Some i \<Rightarrow> if lk_user_id i \<noteq> u \<and> \<not> is_expired i at
                  then (lock_denied (locked_by_msg E t (lk_user_id i)), L)
                  else (lock_done, L(t \<mapsto> make_lock E t u at ttl))
      | None \<Rightarrow> (lock_done, L(t \<mapsto> make_lock E t u at ttl)))"
| "lock_step E (ReleaseLock t u) L =
     (case L t of
        Some i \<Rightarrow> if lk_user_id i \<noteq> u then (lock_denied (held_msg t), L) else (lock_done, L(t := None))
      | None \<Rightarrow> (lock_done, L(t := None)))"

fun lock_run ::
  "('d, 'z) lockstore_scheme \<Rightarrow> lock_command list \<Rightarrow> (u64 \<rightharpoonup> lock_info)
   \<Rightarrow> lock_response list \<times> (u64 \<rightharpoonup> lock_info)" where
  "lock_run E [] L = ([], L)"
| "lock_run E (c # cs) L =
     (case lock_run E cs (snd (lock_step E c L)) of (rs, L') \<Rightarrow> (fst (lock_step E c L) # rs, L'))"

definition locks_of :: "('d, 'z) lockstore_scheme \<Rightarrow> world \<Rightarrow> u64 \<Rightarrow> lock_info option" where
  "locks_of E W = table_rows (li_codec E) to_be_bytes TREE_LOCKS W"

definition locks_inv :: "('d, 'z) lockstore_scheme \<Rightarrow> world \<Rightarrow> bool" where
  "locks_inv E W \<longleftrightarrow> (\<forall>k b. W TREE_LOCKS k = Some b \<longrightarrow>
     (\<exists>i. k = to_be_bytes (lk_ticket_id i) \<and> cd_de (li_codec E) b = Inr i))"

definition lock_env_ok :: "('d, 'z) lockstore_scheme \<Rightarrow> bool" where
  "lock_env_ok E \<longleftrightarrow> sled_ok E \<and> codec_ok (li_codec E)"

subsection \<open>Refinement\<close>

lemma does_get_lock_info:
  assumes ok: "sled_ok E" and inv: "locks_inv E W"
  shows "does (view E) (get_lock_info E t) W (Inr (locks_of E W t)) W"
proof (cases "W TREE_LOCKS (to_be_bytes t)")
  case None
  then show ?thesis
    unfolding get_lock_info_def
    by (intro does_bind [OF does_c_get [OF ok]])
      (simp add: None locks_of_def table_rows_def decode_row_def does_ret)
next
  case (Some b)
  obtain i where "cd_de (li_codec E) b = Inr i" using inv Some unfolding locks_inv_def by blast
  then show ?thesis
    unfolding get_lock_info_def
    by (intro does_bind [OF does_c_get [OF ok]])
      (simp add: Some locks_of_def table_rows_def decode_row_def does_ret)
qed

lemma does_acquire:
  assumes "lock_env_ok E"
  shows "does (view E) (acquire_lock_at E t u at ttl) W (Inr ())
     (wput W TREE_LOCKS (to_be_bytes t) (enc (li_codec E) (make_lock E t u at ttl)))"
  using assms by (simp add: acquire_lock_at_def lock_env_ok_def codec_okD(1) does_c_put)

lemma locks_after_put:
  fixes t u at ttl
  assumes "codec_ok (li_codec E)" and "locks_inv E W"
  defines "W' \<equiv> wput W TREE_LOCKS (to_be_bytes t) (enc (li_codec E) (make_lock E t u at ttl))"
  shows "locks_of E W' = (locks_of E W)(t \<mapsto> make_lock E t u at ttl)" and "locks_inv E W'"
proof -
  show "locks_of E W' = (locks_of E W)(t \<mapsto> make_lock E t u at ttl)"
    by (auto simp: W'_def locks_of_def table_rows_def decode_row_def codec_okD(2) [OF assms(1)])
  show "locks_inv E W'"
    using assms(2) codec_okD(2) [OF assms(1)]
    by (auto simp: W'_def locks_inv_def make_lock_def)
qed

lemma locks_after_del:
  fixes t
  assumes "locks_inv E W"
  defines "W' \<equiv> wdel W TREE_LOCKS (to_be_bytes t)"
  shows "locks_of E W' = (locks_of E W)(t := None)" and "locks_inv E W'"
proof -
  show "locks_of E W' = (locks_of E W)(t := None)"
    by (auto simp: W'_def locks_of_def table_rows_def decode_row_def)
  show "locks_inv E W'" using assms(1) by (auto simp: W'_def locks_inv_def)
qed

text \<open>One command, on every branch.\<close>

lemma lock_refines:
  assumes ok: "lock_env_ok E" and inv: "locks_inv E W"
  shows "\<exists>W'. does (view E) (lk_apply E c) W (Inr (fst (lock_step E c (locks_of E W)))) W'
     \<and> locks_of E W' = snd (lock_step E c (locks_of E W)) \<and> locks_inv E W'"
proof -
  have s: "sled_ok E" and cd: "codec_ok (li_codec E)" using ok by (simp_all add: lock_env_ok_def)
  have acq: "does (view E) (thenA (acquire_lock_at E t u at ttl) (ret lock_done)) W (Inr lock_done)
      (wput W TREE_LOCKS (to_be_bytes t) (enc (li_codec E) (make_lock E t u at ttl)))" for t u at ttl
    by (rule does_then [OF does_acquire [OF ok] does_ret])
  have rel: "does (view E) (thenA (release_lock E t) (ret lock_done)) W (Inr lock_done)
      (wdel W TREE_LOCKS (to_be_bytes t))" for t
    unfolding release_lock_def by (rule does_then [OF does_c_delete [OF s] does_ret])
  show ?thesis
  proof (cases c)
    case c: (AcquireLock t u at ttl)
    show ?thesis
    proof (cases "\<exists>i. locks_of E W t = Some i \<and> lk_user_id i \<noteq> u \<and> \<not> is_expired i at")
      case True
      then obtain i where "locks_of E W t = Some i" "lk_user_id i \<noteq> u" "\<not> is_expired i at" by blast
      then show ?thesis
        using inv unfolding c lk_apply.simps
        by (intro exI [of _ W] conjI does_bind [OF does_get_lock_info [OF s inv]]) (simp_all add: does_ret)
    next
      case False
      then show ?thesis
        using acq [of t u at ttl] locks_after_put [OF cd inv, of t u at ttl] unfolding c lk_apply.simps
        by (intro exI [of _ "wput W TREE_LOCKS (to_be_bytes t) (enc (li_codec E) (make_lock E t u at ttl))"]
            conjI does_bind [OF does_get_lock_info [OF s inv]])
          (auto simp: Let_def split: option.split)
    qed
  next
    case c: (ReleaseLock t u)
    show ?thesis
    proof (cases "\<exists>i. locks_of E W t = Some i \<and> lk_user_id i \<noteq> u")
      case True
      then obtain i where "locks_of E W t = Some i" "lk_user_id i \<noteq> u" by blast
      then show ?thesis
        using inv unfolding c lk_apply.simps
        by (intro exI [of _ W] conjI does_bind [OF does_get_lock_info [OF s inv]]) (simp_all add: does_ret)
    next
      case False
      then show ?thesis
        using rel [of t] locks_after_del [OF inv, of t] unfolding c lk_apply.simps
        by (intro exI [of _ "wdel W TREE_LOCKS (to_be_bytes t)"]
            conjI does_bind [OF does_get_lock_info [OF s inv]])
          (auto simp: Let_def split: option.split)
    qed
  qed
qed

text \<open>A batch of committed commands.\<close>

lemma lock_batch_refines:
  assumes ok: "lock_env_ok E"
  shows "locks_inv E (view E d) \<Longrightarrow> length ids = length cmds \<Longrightarrow>
    \<exists>d' s'. apply_loop (lk_apply E) lock_done
        (map (\<lambda>(i, c). \<lparr>en_log_id = i, en_payload = Normal c\<rparr>) (zip ids cmds)) rs0 (d, s)
      = (Inr (rs0 @ fst (lock_run E cmds (locks_of E (view E d)))), (d', s'))
     \<and> locks_of E (view E d') = snd (lock_run E cmds (locks_of E (view E d))) \<and> locks_inv E (view E d')"
proof (induction cmds arbitrary: ids d s rs0)
  case Nil
  then show ?case by (simp add: ret_def)
next
  case (Cons c cmds)
  then obtain i ids' where ids: "ids = i # ids'" "length ids' = length cmds" by (cases ids) auto
  let ?L = "locks_of E (view E d)"
  obtain W' where W': "does (view E) (lk_apply E c) (view E d) (Inr (fst (lock_step E c ?L))) W'"
    "locks_of E W' = snd (lock_step E c ?L)" "locks_inv E W'"
    using lock_refines [OF ok Cons.prems(1)] by blast
  obtain d1 where d1: "lk_apply E c d = (Inr (fst (lock_step E c ?L)), d1)" "view E d1 = W'"
    by (rule does_runE [OF W'(1)])
  have inv: "locks_inv E (view E d1)" using W'(3) d1(2) by simp
  from Cons.IH [OF inv ids(2), of "rs0 @ [fst (lock_step E c ?L)]" "s\<lparr>rm_last_applied := Some i\<rparr>"]
  show ?case
    by (auto simp: ids(1) d1 W'(2) thenA_def bindA_def on_mem_def on_disk_def map_err_def split: prod.split)
qed

text \<open>C30: the lock state machine implements the lock table. A batch of committed commands never
  fails; it answers each command as the specification does and leaves the table the
  specification reaches: an acquisition is denied exactly when another user holds a lock
  that has not expired at the command's own time stamp, a release exactly when another user
  holds the lock.
\<close>

theorem lock_commands_refine:
  assumes "lock_env_ok E" and "locks_inv E (view E d)" and "length ids = length cmds"
  shows "\<exists>d' s'. lk_apply_to_state_machine E
        (map (\<lambda>(i, c). \<lparr>en_log_id = i, en_payload = Normal c\<rparr>) (zip ids cmds)) (d, s)
      = (Inr (fst (lock_run E cmds (locks_of E (view E d)))), (d', s'))
     \<and> locks_of E (view E d') = snd (lock_run E cmds (locks_of E (view E d))) \<and> locks_inv E (view E d')"
  using lock_batch_refines [OF assms, of "[]"] unfolding lk_apply_to_state_machine_def by simp

subsection \<open>An in-memory instance\<close>

definition lock_pk :: "lock_info pickle" where
  "lock_pk = map_pk
     (\<lambda>l. (lk_ticket_id l, lk_user_id l, dt_secs (lk_acquired_at l), dt_nanos (lk_acquired_at l), lk_expires_at_unix l))
     (\<lambda>(a, b, c, d, e). \<lparr>lk_ticket_id = a, lk_user_id = b, lk_acquired_at = \<lparr>dt_secs = c, dt_nanos = d\<rparr>,
         lk_expires_at_unix = e\<rparr>)
     (pair_pk u64_pk (pair_pk uuid_pk (pair_pk int_pk (pair_pk nat_pk u64_pk))))"

lemma lock_pk_ok [pickles]: "pickle_ok lock_pk"
  unfolding lock_pk_def by (rule map_pk_ok) (simp_all add: pickles)

definition mem_locks :: "memdb lockstore" where
  "mem_locks = sled.extend mem_sled (lockstore.fields (mk_codec lock_pk)
     (\<lambda>t. Some \<lparr>dt_secs = sint t, dt_nanos = 0\<rparr>) (\<lambda>u. show_nat (unat u)))"

lemma mem_locks_simps [simp]:
  "sled.truncate mem_locks = mem_sled" "li_codec mem_locks = mk_codec lock_pk"
  "ts_from_unix mem_locks t = Some \<lparr>dt_secs = sint t, dt_nanos = 0\<rparr>"
  "uuid_text mem_locks u = show_nat (unat u)"
  by (simp_all add: mem_locks_def sled.defs lockstore.defs mem_sled_def)

lemma mem_locks_ok: "lock_env_ok mem_locks"
  by (simp add: lock_env_ok_def mem_sled_ok mk_codec_ok pickles)

lemma mem_locks_empty: "locks_inv mem_locks (view mem_locks RBT.empty)"
  "locks_of mem_locks (view mem_locks RBT.empty) = Map.empty"
  by (simp_all add: locks_inv_def locks_of_def table_rows_def decode_row_def fun_eq_iff)

theorem lock_commands_refine_witness:
  "\<exists>d' s'. lk_apply_to_state_machine mem_locks
        [\<lparr>en_log_id = \<lparr>li_term = 1, li_node = 1, li_index = 1\<rparr>, en_payload = Normal (AcquireLock 7 10 0 60)\<rparr>,
         \<lparr>en_log_id = \<lparr>li_term = 1, li_node = 1, li_index = 2\<rparr>, en_payload = Normal (AcquireLock 7 11 30 60)\<rparr>]
        (RBT.empty, fresh_mem)
      = (Inr [lock_done, lock_denied (locked_by_msg mem_locks 7 10)], (d', s' :: bytes raft_mem))"
proof -
  let ?ids = "[\<lparr>li_term = 1, li_node = 1, li_index = 1\<rparr>, \<lparr>li_term = 1, li_node = 1, li_index = 2\<rparr>]"
  let ?cs = "[AcquireLock 7 10 0 60, AcquireLock 7 11 30 60]"
  have "length ?ids = length ?cs" by simp
  note r = lock_commands_refine [OF mem_locks_ok mem_locks_empty(1) this, of "fresh_mem :: bytes raft_mem"]
  have "fst (lock_run mem_locks ?cs Map.empty) = [lock_done, lock_denied (locked_by_msg mem_locks 7 10)]"
    by (simp add: make_lock_def lock_expiry_def is_expired_def)
  then show ?thesis using r unfolding mem_locks_empty(2) by auto
qed

end
