(* ===== verification/Lock_Safety.thy ===== *)
theory Lock_Safety
  imports Lock_Props
begin

text \<open>
  Consequences of the lock table: exclusion over whole command sequences, the expiry window,
  what a replay of the log does, and the custodian's Raft store as a second instance of the
  log and snapshot contract.
\<close>

subsection \<open>Exclusion\<close>

text \<open>A command that cannot take the lock \<open>i\<close> on ticket \<open>t\<close> from its holder.\<close>

fun harmless :: "u64 \<Rightarrow> lock_info \<Rightarrow> lock_command \<Rightarrow> bool" where
  "harmless t i (AcquireLock t' u at ttl) \<longleftrightarrow> t' = t \<longrightarrow> u \<noteq> lk_user_id i \<and> \<not> is_expired i at"
| "harmless t i (ReleaseLock t' u) \<longleftrightarrow> t' = t \<longrightarrow> u \<noteq> lk_user_id i"

fun cmd_ticket :: "lock_command \<Rightarrow> u64" where
  "cmd_ticket (AcquireLock t u at ttl) = t"
| "cmd_ticket (ReleaseLock t u) = t"

lemma harmless_step:
  assumes "L t = Some i" and "harmless t i c"
  shows "snd (lock_step E c L) t = Some i"
    and "cmd_ticket c = t \<Longrightarrow> \<not> lr_success (fst (lock_step E c L))"
  using assms
  by (cases c; auto simp: lock_denied_def split: option.splits)+

lemma harmless_run:
  assumes "L t = Some i" and "\<forall>c \<in> set cmds. harmless t i c"
  shows "snd (lock_run E cmds L) t = Some i
     \<and> (\<forall>k < length cmds. cmd_ticket (cmds ! k) = t \<longrightarrow> \<not> lr_success (fst (lock_run E cmds L) ! k))"
  using assms
proof (induction cmds arbitrary: L)
  case Nil
  then show ?case by simp
next
  case (Cons c cmds)
  have h: "harmless t i c" and rest: "\<forall>c \<in> set cmds. harmless t i c" using Cons.prems(2) by simp_all
  note step = harmless_step [where L = L and E = E, OF Cons.prems(1) h]
  from Cons.IH [where L = "snd (lock_step E c L)", OF step(1) rest] step(2) show ?case
    by (auto simp: nth_Cons split: prod.split nat.split)
qed

lemma lock_run_answers: "length (fst (lock_run E cmds L)) = length cmds"
  by (induction cmds arbitrary: L) (simp_all split: prod.split, metis fst_conv)

text \<open>C29: mutual exclusion in the lock's Raft store. The state machine is given a batch of committed
  commands while its table records a lock on a ticket. When the commands on that ticket come from
  other users, and every acquisition among them is stamped before the lock expires, the batch
  succeeds, each of those commands is denied, and the table holds the very same lock afterwards,
  its expiry included: whatever the commands on other tickets do, and however the commands lie
  in the batch. So two users never hold a lock on one ticket at a time.
\<close>

theorem lock_exclusive:
  assumes env: "lock_env_ok E" "locks_inv E (view E d)" and held: "locks_of E (view E d) t = Some i"
    and others: "\<forall>c \<in> set cmds. harmless t i c" and ids: "length ids = length cmds"
  shows "\<exists>answers d' s'. lk_apply_to_state_machine E
        (map (\<lambda>(i, c). \<lparr>en_log_id = i, en_payload = Normal c\<rparr>) (zip ids cmds)) (d, s) = (Inr answers, (d', s'))
     \<and> length answers = length cmds
     \<and> (\<forall>k < length cmds. cmd_ticket (cmds ! k) = t \<longrightarrow> \<not> lr_success (answers ! k))
     \<and> locks_of E (view E d') t = Some i \<and> locks_inv E (view E d')"
proof -
  obtain d' s' where run: "lk_apply_to_state_machine E (map (\<lambda>(i, c). \<lparr>en_log_id = i, en_payload = Normal c\<rparr>) (zip ids cmds)) (d, s)
      = (Inr (fst (lock_run E cmds (locks_of E (view E d)))), (d', s'))"
    and d': "locks_of E (view E d') = snd (lock_run E cmds (locks_of E (view E d)))" "locks_inv E (view E d')"
    using lock_batch_refines [OF env ids, of "[]" s] unfolding lk_apply_to_state_machine_def by auto
  note safe = harmless_run [where L = "locks_of E (view E d)" and E = E, OF held others]
  show ?thesis using run safe d' lock_run_answers [of E cmds "locks_of E (view E d)"]
    by (intro exI [of _ "fst (lock_run E cmds (locks_of E (view E d)))"] exI [of _ d'] exI [of _ s']) simp
qed

text \<open>A store in which a first batch has locked a ticket.\<close>

lemma sample_held:
  "\<exists>d. locks_inv mem_locks (view mem_locks d)
     \<and> locks_of mem_locks (view mem_locks d) = [7 \<mapsto> make_lock mem_locks 7 10 0 60]"
proof -
  have "length [\<lparr>li_term = 1, li_node = 1, li_index = 1\<rparr>] = length [AcquireLock 7 10 0 60]" by simp
  from lock_batch_refines [OF mem_locks_ok mem_locks_empty(1) this, of "[]" "fresh_mem :: bytes raft_mem"]
  obtain d where "locks_inv mem_locks (view mem_locks d)"
    "locks_of mem_locks (view mem_locks d) = snd (lock_run mem_locks [AcquireLock 7 10 0 60] Map.empty)"
    unfolding mem_locks_empty(2) by blast
  then show ?thesis by (intro exI [of _ d]) simp
qed

theorem lock_exclusive_witness:
  "\<exists>d answers d' s'. lk_apply_to_state_machine mem_locks
        [\<lparr>en_log_id = \<lparr>li_term = 1, li_node = 1, li_index = 2\<rparr>, en_payload = Normal (AcquireLock 7 11 30 60)\<rparr>,
         \<lparr>en_log_id = \<lparr>li_term = 1, li_node = 1, li_index = 3\<rparr>, en_payload = Normal (ReleaseLock 7 11)\<rparr>,
         \<lparr>en_log_id = \<lparr>li_term = 1, li_node = 1, li_index = 4\<rparr>, en_payload = Normal (AcquireLock 8 11 0 0)\<rparr>] (d, fresh_mem :: bytes raft_mem)
      = (Inr answers, (d', s'))
     \<and> \<not> lr_success (answers ! 0) \<and> \<not> lr_success (answers ! 1)
     \<and> locks_of mem_locks (view mem_locks d') 7 = Some (make_lock mem_locks 7 10 0 60)"
proof -
  obtain d where d: "locks_inv mem_locks (view mem_locks d)"
    "locks_of mem_locks (view mem_locks d) = [7 \<mapsto> make_lock mem_locks 7 10 0 60]" using sample_held by blast
  let ?cs = "[AcquireLock 7 11 30 60, ReleaseLock 7 11, AcquireLock 8 11 0 0]"
  let ?ids = "map (\<lambda>k. \<lparr>li_term = 1, li_node = 1, li_index = k\<rparr>) [2, 3, 4]"
  have held: "locks_of mem_locks (view mem_locks d) 7 = Some (make_lock mem_locks 7 10 0 60)" by (simp add: d(2))
  have others: "\<forall>c \<in> set ?cs. harmless 7 (make_lock mem_locks 7 10 0 60) c"
    by (simp add: make_lock_def is_expired_def lock_expiry_def)
  have "length ?ids = length ?cs" by simp
  from lock_exclusive [OF mem_locks_ok d(1) held others this, of "fresh_mem :: bytes raft_mem"]
  obtain answers d' s' where run: "lk_apply_to_state_machine mem_locks
        (map (\<lambda>(i, c). \<lparr>en_log_id = i, en_payload = Normal c\<rparr>) (zip ?ids ?cs)) (d, fresh_mem :: bytes raft_mem) = (Inr answers, (d', s'))"
    and denied: "\<forall>k < length ?cs. cmd_ticket (?cs ! k) = 7 \<longrightarrow> \<not> lr_success (answers ! k)"
    and kept: "locks_of mem_locks (view mem_locks d') 7 = Some (make_lock mem_locks 7 10 0 60)"
    by blast
  from denied [rule_format, of 0] denied [rule_format, of 1] run kept show ?thesis
    by (intro exI [of _ d] exI [of _ answers] exI [of _ d'] exI [of _ s']) simp
qed

text \<open>After a successful release by the holder, or once the expiry is reached, any user gets
  the lock; the holder itself always can re-acquire, which restarts the lifetime.
\<close>

theorem lock_available:
  assumes "L t = None \<or> (\<exists>i. L t = Some i \<and> (lk_user_id i = u \<or> is_expired i at))"
  shows "lr_success (fst (lock_step E (AcquireLock t u at ttl) L))
     \<and> (\<exists>i. snd (lock_step E (AcquireLock t u at ttl) L) t = Some i \<and> lk_user_id i = u
          \<and> lk_expires_at_unix i = lock_expiry at ttl)
     \<and> snd (lock_step E (ReleaseLock t u) (snd (lock_step E (AcquireLock t u at ttl) L))) t = None"
  using assms by (auto simp: lock_done_def make_lock_def split: option.splits)

theorem lock_available_witness:
  "lr_success (fst (lock_step mem_locks (AcquireLock 7 11 60 5) [7 \<mapsto> make_lock mem_locks 7 10 0 60]))"
proof -
  have "is_expired (make_lock mem_locks 7 10 0 60) 60"
    by (simp add: make_lock_def is_expired_def lock_expiry_def)
  then show ?thesis
    using lock_available [of "[7 \<mapsto> make_lock mem_locks 7 10 0 60]" 7 11 60 mem_locks 5] by simp
qed

subsection \<open>The expiry window\<close>

lemma sint_i64: "- (2 ^ 63) \<le> sint (x :: i64)" "sint (x :: i64) < 2 ^ 63"
  using sint_ge [of x] sint_lt [of x] by simp_all

lemma sint_add_i64:
  fixes a b :: i64
  shows "sint (a + b) = (if sint a + sint b < - (2 ^ 63) then sint a + sint b + 2 ^ 64
     else if 2 ^ 63 \<le> sint a + sint b then sint a + sint b - 2 ^ 64 else sint a + sint b)"
proof -
  have st: "signed_take_bit 63 (sint a + sint b) = (sint a + sint b + 2 ^ 63) mod 2 ^ 64 - 2 ^ 63"
    by (simp add: signed_take_bit_eq_take_bit_shift take_bit_eq_mod)
  have s: "sint (a + b) = (sint a + sint b + 2 ^ 63) mod 2 ^ 64 - 2 ^ 63"
    using st by (simp add: sint_word_ariths(1) signed_take_bit_eq_take_bit_shift take_bit_eq_mod)
  note ra = sint_i64 [of a] and rb = sint_i64 [of b]
  consider "sint a + sint b < - (2 ^ 63)" | "2 ^ 63 \<le> sint a + sint b"
    | "- (2 ^ 63) \<le> sint a + sint b" "sint a + sint b < 2 ^ 63" by linarith
  then show ?thesis
  proof cases
    case 1
    have "(sint a + sint b + 2 ^ 63 + 2 ^ 64) mod 2 ^ 64 = sint a + sint b + 2 ^ 63 + 2 ^ 64"
      using 1 ra rb by (intro mod_pos_pos_trivial) simp_all
    then have "(sint a + sint b + 2 ^ 63) mod 2 ^ 64 = sint a + sint b + 2 ^ 63 + 2 ^ 64"
      by (simp only: mod_add_self2)
    then show ?thesis using 1 s by simp
  next
    case 2
    have "(sint a + sint b + 2 ^ 63 - 2 ^ 64) mod 2 ^ 64 = sint a + sint b + 2 ^ 63 - 2 ^ 64"
      using 2 ra rb by (intro mod_pos_pos_trivial) simp_all
    then have "(sint a + sint b + 2 ^ 63) mod 2 ^ 64 = sint a + sint b + 2 ^ 63 - 2 ^ 64"
      by (simp only: minus_mod_self2)
    then show ?thesis using 2 s by simp
  next
    case 3
    then have "(sint a + sint b + 2 ^ 63) mod 2 ^ 64 = sint a + sint b + 2 ^ 63"
      by (intro mod_pos_pos_trivial) simp_all
    then show ?thesis using 3 s by simp
  qed
qed

text \<open>C37: the lifetime of a lock acquired at \<open>at\<close> with \<open>ttl\<close> seconds: with a non-positive \<open>ttl\<close> it
  never expires; otherwise, while \<open>at + ttl\<close> fits in an \<open>i64\<close> and is not the reserved value 0,
  it is expired exactly from \<open>at + ttl\<close> on. When the sum overflows the expiry wraps to a
  negative time and the lock is expired from the start.
\<close>

theorem lock_lifetime:
  "(sint ttl \<le> 0 \<longrightarrow> \<not> is_expired (make_lock E t u at ttl) now)
   \<and> (0 < sint ttl \<and> sint at + sint ttl < 2 ^ 63 \<and> sint at + sint ttl \<noteq> 0 \<longrightarrow>
        (is_expired (make_lock E t u at ttl) now \<longleftrightarrow> sint at + sint ttl \<le> sint now))
   \<and> (0 < sint ttl \<and> 2 ^ 63 \<le> sint at + sint ttl \<longrightarrow> is_expired (make_lock E t u at ttl) at)"
proof -
  have z: "x = 0 \<longleftrightarrow> sint x = 0" for x :: i64 by (simp add: signed_eq_0_iff)
  have 1: "\<not> is_expired (make_lock E t u at ttl) now" if "sint ttl \<le> 0"
    using that by (simp add: is_expired_def make_lock_def lock_expiry_def)
  have 2: "is_expired (make_lock E t u at ttl) now \<longleftrightarrow> sint at + sint ttl \<le> sint now"
    if "0 < sint ttl" "sint at + sint ttl < 2 ^ 63" "sint at + sint ttl \<noteq> 0"
  proof -
    have "sint (at + ttl) = sint at + sint ttl"
      using that sint_i64 [of at] sint_i64 [of ttl] unfolding sint_add_i64 by simp
    then show ?thesis using that by (simp add: is_expired_def make_lock_def lock_expiry_def z)
  qed
  have 3: "is_expired (make_lock E t u at ttl) at" if "0 < sint ttl" "2 ^ 63 \<le> sint at + sint ttl"
  proof -
    have "sint (at + ttl) = sint at + sint ttl - 2 ^ 64"
      using that unfolding sint_add_i64 by simp
    moreover have "sint at + sint ttl - 2 ^ 64 < 0" "sint at + sint ttl - 2 ^ 64 \<le> sint at"
      using sint_i64 [of at] sint_i64 [of ttl] by simp_all
    ultimately show ?thesis using that by (simp add: is_expired_def make_lock_def lock_expiry_def z)
  qed
  from 1 2 3 show ?thesis by blast
qed

theorem lock_lifetime_witness:
  "is_expired (make_lock mem_locks 7 10 100 60) 160 \<and> \<not> is_expired (make_lock mem_locks 7 10 100 0) 160"
  using lock_lifetime [of 60 mem_locks 7 10 100 160] lock_lifetime [of 0 mem_locks 7 10 100 160] by simp

subsection \<open>Replay\<close>

definition replay_log :: "lock_command list" where
  "replay_log = [AcquireLock 1 20 0 10, ReleaseLock 1 10, AcquireLock 1 30 5 10, AcquireLock 1 10 12 10]"

text \<open>Applying a log to the table that it already produced does not give that table again: in
  this sequence user 10 ends as the holder, and after a replay from the start (the applied log
  id is kept in memory only, so a restarted store begins again at the first entry it still
  has) the lock belongs to user 30, whose acquisition had been denied.
\<close>

theorem replay_changes_holder:
  "map_option lk_user_id (snd (lock_run mem_locks replay_log Map.empty) 1) = Some 10
   \<and> map lr_success (fst (lock_run mem_locks replay_log Map.empty)) = [True, False, False, True]
   \<and> map_option lk_user_id (snd (lock_run mem_locks replay_log
        (snd (lock_run mem_locks replay_log Map.empty))) 1) = Some 30"
  by (simp add: replay_log_def make_lock_def lock_expiry_def is_expired_def lock_done_def lock_denied_def)

subsection \<open>Reading the table\<close>

definition add_all :: "('x \<Rightarrow> lock_info) \<Rightarrow> 'x list \<Rightarrow> (u64 \<rightharpoonup> lock_info) \<Rightarrow> (u64 \<rightharpoonup> lock_info)" where
  "add_all f xs L = fold (\<lambda>x L. L(lk_ticket_id (f x) \<mapsto> f x)) xs L"

lemma add_all_simps [simp]:
  "add_all f [] L = L" "add_all f (x # xs) L = add_all f xs (L(lk_ticket_id (f x) \<mapsto> f x))"
  by (simp_all only: add_all_def List.fold_simps)

lemma all_locks_loop_ok:
  assumes "\<forall>x \<in> set xs. fst x = to_be_bytes (lk_ticket_id (f x)) \<and> cd_de c (snd x) = Inr (f x)"
  shows "all_locks_loop c (map Inr xs) L = Inr (add_all f xs L)"
  using assms
proof (induction xs arbitrary: L)
  case Nil
  then show ?case by simp
next
  case (Cons x xs)
  obtain k v where x: "x = (k, v)" by (cases x)
  have "k = to_be_bytes (lk_ticket_id (f x))" "cd_de c v = Inr (f x)" using Cons.prems by (simp_all add: x)
  then have "from_be_bytes k = Some (lk_ticket_id (f x))" "cd_de c v = Inr (f x)" by simp_all
  with Cons show ?case by (simp add: x)
qed

lemma add_all_notin: "t \<notin> (\<lambda>x. lk_ticket_id (f x)) ` set xs \<Longrightarrow> add_all f xs L t = L t"
  by (induction xs arbitrary: L) auto

lemma add_all_in:
  assumes "distinct (map (\<lambda>x. lk_ticket_id (f x)) xs)" and "x \<in> set xs"
  shows "add_all f xs L (lk_ticket_id (f x)) = Some (f x)"
  using assms by (induction xs arbitrary: L) (auto simp: add_all_notin)

text \<open>\<open>get_all_locks\<close> returns the whole lock table, and \<open>get_lock_info\<close> its value at a ticket.\<close>

theorem get_all_locks_spec:
  assumes "lock_env_ok E" and "locks_inv E (view E d)"
  shows "fst (get_all_locks E d) = Inr (locks_of E (view E d))
     \<and> fst (get_lock_info E t d) = Inr (locks_of E (view E d) t)
     \<and> fst (is_locked E t d) = Inr (locks_of E (view E d) t \<noteq> None)"
proof -
  have ok: "sled_ok E" using assms(1) by (simp add: lock_env_ok_def)
  define W where "W = view E d"
  have inv: "locks_inv E W" using assms(2) by (simp add: W_def)
  obtain xs where xs: "scan_of (W TREE_LOCKS) xs" using view_scans [OF ok] unfolding W_def by blast
  define f where "f x = (case cd_de (li_codec E) (snd x) of Inr i \<Rightarrow> i)" for x :: "bytes \<times> bytes"
  have all: "fst x = to_be_bytes (lk_ticket_id (f x)) \<and> cd_de (li_codec E) (snd x) = Inr (f x)"
    if "x \<in> set xs" for x
    using scan_of_mem [OF xs that] inv unfolding locks_inv_def f_def by fastforce
  let ?g = "\<lambda>x. lk_ticket_id (f x)"
  have "map fst xs = map (\<lambda>x. to_be_bytes (?g x)) xs" using all by simp
  then have dist: "distinct (map ?g xs)"
    using scan_of_distinct [OF xs] by (simp add: distinct_map inj_on_def)
  have "add_all f xs Map.empty t = locks_of E W t" for t
  proof (cases "W TREE_LOCKS (to_be_bytes t)")
    case None
    have "t \<notin> ?g ` set xs" using all scan_of_mem [OF xs] None by fastforce
    then show ?thesis by (simp add: add_all_notin None locks_of_def table_rows_def decode_row_def)
  next
    case (Some b)
    then have m: "(to_be_bytes t, b) \<in> set xs" using scan_of_set [OF xs] by simp
    then have g: "?g (to_be_bytes t, b) = t" "cd_de (li_codec E) b = Inr (f (to_be_bytes t, b))"
      using all [OF m] by simp_all
    show ?thesis
      using add_all_in [OF dist m, of Map.empty] g
      by (simp add: Some locks_of_def table_rows_def decode_row_def)
  qed
  then have eq: "add_all f xs Map.empty = locks_of E W" by blast
  have all_locks: "does (view E) (get_all_locks E) W (Inr (locks_of E W)) W"
    unfolding get_all_locks_def
  proof (rule does_then [OF does_c_get_tree [OF ok]], rule does_read)
    fix d assume "view E d = W"
    then have "scan E TREE_LOCKS d = xs" using scan_facts(1) [OF ok] xs scan_of_unique by metis
    then have "sl_iter E TREE_LOCKS d = map Inr xs" using scan_facts(2) [OF ok] by metis
    then show "all_locks_loop (li_codec E) (sl_iter E TREE_LOCKS d) Map.empty = Inr (locks_of E W)"
      using all_locks_loop_ok [of xs f "li_codec E" Map.empty] all eq by simp
  qed
  have locked: "does (view E) (is_locked E t) W (Inr (locks_of E W t \<noteq> None)) W"
  proof -
    have "W TREE_LOCKS (to_be_bytes t) \<noteq> None \<longleftrightarrow> locks_of E W t \<noteq> None"
      using inv unfolding locks_inv_def locks_of_def table_rows_def decode_row_def
      by (cases "W TREE_LOCKS (to_be_bytes t)") force+
    then show ?thesis using does_c_exists [OF ok, of TREE_LOCKS "to_be_bytes t" W] by (simp add: is_locked_def)
  qed
  show ?thesis
    using doesD [OF all_locks [unfolded W_def]] doesD [OF locked [unfolded W_def]]
      doesD [OF does_get_lock_info [OF ok assms(2)], of t] by (simp add: W_def)
qed

theorem get_all_locks_spec_witness:
  "fst (get_all_locks mem_locks RBT.empty) = Inr Map.empty"
  using get_all_locks_spec [OF mem_locks_ok mem_locks_empty(1), of 0] mem_locks_empty(2) by simp

end
