(* ===== verification/Lock_Store.thy ===== *)
theory Lock_Store
  imports Lock_Safety
begin

text \<open>
  The custodian's Raft store as a second instance of \<open>raft_storage\<close>: the log and snapshot
  lemmas hold of it by interpretation.
\<close>

lemma c_names: "c_data_tree_names E = data_tree_names E"
  by (simp add: fun_eq_iff c_data_tree_names_def data_tree_names_def)

interpretation lock_store: raft_storage "sled_ok E" E "lock_ops E" for E :: "('d, 'z) sled_scheme"
proof unfold_locales
  fix W :: world and c xs
  assume "sled_ok E" "scan_of (W c) xs"
  then show "does (view E) (so_list (lock_ops E) c [] None) W (Inr xs) W"
    using lock_kv.does_klist by simp
qed (simp_all add: does_c_get_tree does_c_put does_c_get does_c_delete c_names)

lemmas lk_store_defs =
  lk_store_new_def lk_save_vote_def lk_try_get_log_entries_def lk_append_to_log_def
  lk_delete_conflict_logs_since_def lk_purge_logs_upto_def lk_get_log_state_def
  lk_install_snapshot_def lk_build_snapshot_def

definition lock_raft_codec :: "(lock_command, bytes) raft_codec" where
  "lock_raft_codec = mem_raft_codec
     (map_pk (\<lambda>c. case c of AcquireLock t u a l \<Rightarrow> (t, u, Some (a, l)) | ReleaseLock t u \<Rightarrow> (t, u, None))
        (\<lambda>(t, u, x). case x of Some (a, l) \<Rightarrow> AcquireLock t u a l | None \<Rightarrow> ReleaseLock t u)
        (pair_pk u64_pk (pair_pk uuid_pk (option_pk (pair_pk u64_pk u64_pk))))) bytes_pk"

lemma lock_raft_codec_ok: "raft_codec_ok lock_raft_codec"
  unfolding lock_raft_codec_def
  by (intro mem_raft_codec_ok map_pk_ok) (simp_all add: pickles split: lock_command.split)

lemma mem_locks_sled: "sled_ok mem_locks"
  using mem_locks_ok by (simp add: lock_env_ok_def)

lemma lk_append_then_read:
  assumes "sled_ok E" and "raft_codec_ok C" and "log_inv C (view E d)"
  shows "\<exists>d1. append_to_log E (lock_ops E) C es d = (Inr (), d1) \<and> log_inv C (view E d1)
     \<and> fst (try_get_log_entries E (lock_ops E) C lo hi d1)
         = Inr (log_range (log_append es (log_of C (view E d))) (in_range lo hi))"
proof -
  obtain d1 where d1: "append_to_log E (lock_ops E) C es d = (Inr (), d1)"
    "view E d1 = wbatch (view E d) TREE_RAFT_LOG
       (map (\<lambda>e. (to_be_bytes (entry_index e), Some (enc (rc_entry C) e))) es)"
    by (rule does_runE [OF lock_store.does_append [OF assms(1,2)]])
  note w = lock_store.log_append_world [OF assms(2,3), of es, folded d1(2)]
  obtain ys where "scan_of (view E d1 TREE_RAFT_LOG) ys" using view_scans [OF assms(1)] by blast
  from doesD [OF lock_store.does_read_log [OF assms(1) w(2) this]] show ?thesis
    using d1(1) w by auto
qed

text \<open>The custodian's log store: entries appended are read back by index, a conflict cut keeps
  the prefix below the cut, and the vote, though its storage layer does not flush, is what a
  store opened on the same contents starts with.
\<close>

theorem custodian_log_store:
  assumes "sled_ok E" and "raft_codec_ok C" and "log_inv C (view E d)" and "meta_inv C (view E d)"
  shows "(\<exists>d1. lk_append_to_log E C es d = (Inr (), d1) \<and> log_inv C (view E d1)
        \<and> fst (lk_try_get_log_entries E C lo hi d1)
            = Inr (log_range (log_append es (log_of C (view E d))) (in_range lo hi)))
     \<and> (\<exists>d2. lk_delete_conflict_logs_since E l d = (Inr (), d2)
        \<and> log_of C (view E d2) = log_of C (view E d) |` {i. i < li_index l})
     \<and> (\<exists>d3 d4. lk_save_vote E C v (d, s) = (Inr (), (d3, s\<lparr>rm_vote := Some v\<rparr>))
        \<and> (\<exists>s'. lk_store_new E C d3 = (Inr s', d4) \<and> rm_vote s' = Some v))"
proof -
  obtain xs where xs: "scan_of (view E d TREE_RAFT_LOG) xs" using view_scans [OF assms(1)] by blast
  have "\<exists>d1. append_to_log E (lock_ops E) C es d = (Inr (), d1) \<and> log_inv C (view E d1)
        \<and> fst (try_get_log_entries E (lock_ops E) C lo hi d1)
            = Inr (log_range (log_append es (log_of C (view E d))) (in_range lo hi))"
    by (rule lk_append_then_read [OF assms(1-3)])
  moreover have "\<exists>d2. delete_conflict_logs_since E (lock_ops E) l d = (Inr (), d2)
        \<and> log_of C (view E d2) = log_of C (view E d) |` {i. i < li_index l}"
    using lock_store.does_delete_conflict [OF assms(1,3) xs, of l] by (metis does_runE)
  moreover have "\<exists>d3 d4. save_vote (lock_ops E) C v (d, s) = (Inr (), (d3, s\<lparr>rm_vote := Some v\<rparr>))
        \<and> (\<exists>s'. store_new (lock_ops E) C d3 = (Inr s', d4) \<and> rm_vote s' = Some v)"
  proof -
    have c: "codec_ok (rc_vote C)" by (rule raft_codec_okD(2) [OF assms(2)])
    obtain d3 where d3: "save_vote (lock_ops E) C v (d, s) = (Inr (), (d3, s\<lparr>rm_vote := Some v\<rparr>))"
      "view E d3 = wput (view E d) TREE_RAFT_METADATA key_vote (enc (rc_vote C) v)"
      by (rule nrun [OF lock_store.does_save_vote [OF assms(1,2)]])
    have "meta_inv C (view E d3)" using assms(4) codec_okD(2) [OF c] by (simp add: d3(2) meta_inv_def)
    moreover have "meta_of (rc_vote C) key_vote (view E d3) = Some v"
      using codec_okD(2) [OF c] by (simp add: d3(2) meta_of_def decode_row_def)
    ultimately show ?thesis
      using d3(1) doesD [OF lock_store.does_store_new [OF assms(1)], of C d3]
      by (cases "store_new (lock_ops E) C d3") auto
  qed
  ultimately show ?thesis unfolding lk_store_defs by blast
qed

theorem custodian_log_store_witness:
  "\<exists>d1. lk_append_to_log mem_locks lock_raft_codec [sample_entry 3 (ReleaseLock 1 2)] RBT.empty = (Inr (), d1)
     \<and> log_inv lock_raft_codec (view mem_locks d1)"
proof -
  have "log_inv lock_raft_codec (view mem_locks RBT.empty)" "meta_inv lock_raft_codec (view mem_locks RBT.empty)"
    by (simp_all add: empty_log meta_inv_def)
  from custodian_log_store [OF mem_locks_sled lock_raft_codec_ok this, of "[sample_entry 3 (ReleaseLock 1 2)]"]
  show ?thesis by blast
qed

lemma not_internal_locks: "\<not> raft_internal TREE_LOCKS" "utf8_string TREE_LOCKS"
  by (simp add: raft_internal_def TREE_LOCKS_def tree_defs, unfold TREE_LOCKS_def, code_simp)

text \<open>A lock that was released does not go away on a replica that catches up by a snapshot:
  installing a snapshot only writes the pairs it holds, so a lock the sender no longer has
  stays in the receiver's table, with the sender's applied log id recorded.
\<close>

theorem snapshot_keeps_released_lock:
  assumes "sled_ok E" and "raft_codec_ok C" and "view E dA TREE_LOCKS (to_be_bytes t) = None"
    and "locks_of E (view E dB) t = Some i"
  shows "\<exists>meta data d1 d2.
       lk_build_snapshot E C \<lparr>sb_last_applied = la, sb_membership = lm\<rparr> dA = (Inr (meta, data), d1)
     \<and> lk_install_snapshot E C meta data (dB, s)
         = (Inr (), (d2, s\<lparr>rm_last_applied := la, rm_membership := lm\<rparr>))
     \<and> locks_of E (view E d2) t = Some i"
proof -
  let ?b = "\<lparr>sb_last_applied = la, sb_membership = lm\<rparr>"
  let ?meta = "\<lparr>mt_last_log_id = la, mt_last_membership = lm, mt_snapshot_id = snapshot_id la\<rparr>"
  obtain items d1 where b: "build_snapshot (lock_ops E) C ?b dA = (Inr (?meta, enc (rc_snapshot C) items), d1)"
    and sn: "snapshot_of (view E dA) items"
    using lock_store.build_snapshot_holds [OF assms(1,2), of ?b dA] by auto
  obtain d2 where d2: "install_snapshot (lock_ops E) C ?meta (enc (rc_snapshot C) items) (dB, s)
      = (Inr (), (d2, s\<lparr>rm_last_applied := la, rm_membership := lm\<rparr>))"
    "view E d2 = restore items (view E dB)"
    by (rule nrun [OF lock_store.does_install [OF assms(1,2), where meta = ?meta]]) auto
  have "view E d2 TREE_LOCKS (to_be_bytes t) = view E dB TREE_LOCKS (to_be_bytes t)"
    unfolding d2(2) lock_store.install_contents(2) [OF sn not_internal_locks] by (simp add: assms(3))
  then have "locks_of E (view E d2) t = Some i"
    using assms(4) by (simp add: locks_of_def table_rows_def)
  then show ?thesis unfolding lk_store_defs using b d2(1) by blast
qed

theorem snapshot_keeps_released_lock_witness:
  "\<exists>dB meta data d1 d2 s'.
       lk_build_snapshot mem_locks lock_raft_codec \<lparr>sb_last_applied = None, sb_membership = DefaultMembership\<rparr>
         RBT.empty = (Inr (meta, data), d1)
     \<and> lk_install_snapshot mem_locks lock_raft_codec meta data (dB, fresh_mem) = (Inr (), (d2, s'))
     \<and> locks_of mem_locks (view mem_locks d2) 4 = Some (make_lock mem_locks 4 9 0 0)"
proof -
  obtain dB where dB: "view mem_locks dB =
      wput (view mem_locks RBT.empty) TREE_LOCKS (to_be_bytes 4) (enc (li_codec mem_locks) (make_lock mem_locks 4 9 0 0))"
    by (rule does_runE [OF does_acquire [OF mem_locks_ok]])
  have c: "codec_ok (li_codec mem_locks)" using mem_locks_ok by (simp add: lock_env_ok_def)
  have "locks_of mem_locks (view mem_locks dB) 4 = Some (make_lock mem_locks 4 9 0 0)"
    unfolding dB locks_after_put(1) [OF c mem_locks_empty(1)] by simp
  from snapshot_keeps_released_lock [OF mem_locks_sled lock_raft_codec_ok _ this,
      of RBT.empty None DefaultMembership fresh_mem]
  obtain meta data d1 d2 s' where
    "lk_build_snapshot mem_locks lock_raft_codec \<lparr>sb_last_applied = None, sb_membership = DefaultMembership\<rparr>
       RBT.empty = (Inr (meta, data), d1)"
    "lk_install_snapshot mem_locks lock_raft_codec meta data (dB, fresh_mem) = (Inr (), (d2, s'))"
    "locks_of mem_locks (view mem_locks d2) 4 = Some (make_lock mem_locks 4 9 0 0)"
    by auto
  then show ?thesis by blast
qed

end
