(* ===== verification/Raft_Wire.thy ===== *)
theory Raft_Wire
  imports Raft_Codec
begin

text \<open>
  The Raft RPC layer: \<open>raft-rpc/src/lib.rs\<close> (conversions between the engine's types and the
  wire), \<open>db/src/raft_service.rs\<close> (the handlers a peer runs) and \<open>db/src/network.rs\<close> (the calls
  a node makes). The custodian's copies of the last two differ in type names only.

  The messages are those of \<open>db/proto/db.proto\<close>; a message field is optional. The engine that
  a handler forwards to, and the transport of a call, are parameters; an error of theirs is its
  text. The empty membership that a received snapshot is given is the parameter \<open>no_members\<close>.
\<close>

datatype status =
    InvalidArgument string
  | Internal string
  | NotFoundStatus string
  | Unauthenticated string
  | FailedPrecondition string
  | Unavailable string
  | PermissionDenied string
  | UnimplementedStatus string

subsection \<open>Wire messages\<close>

record proto_vote =
  pv_term :: u64
  pv_node_id :: u64
  pv_committed :: bool

record proto_log_id =
  pl_term :: u64
  pl_index :: u64

record vote_request_msg =
  vq_vote :: "proto_vote option"
  vq_last_log_id :: "proto_log_id option"

record vote_response_msg =
  vs_vote :: "proto_vote option"
  vs_vote_granted :: bool
  vs_last_log_id :: "proto_log_id option"

record append_request_msg =
  aq_vote :: "proto_vote option"
  aq_prev_log_id :: "proto_log_id option"
  aq_entries :: "bytes list"
  aq_leader_commit :: "proto_log_id option"

record append_response_msg =
  as_vote :: "proto_vote option"
  as_response_type :: u32
  as_partial :: "proto_log_id option"

record snapshot_meta_msg =
  sm_last_log_id :: "proto_log_id option"
  sm_last_applied :: u64
  sm_last_membership :: u32
  sm_snapshot_id :: string

record install_request_msg =
  iq_vote :: "proto_vote option"
  iq_meta :: "snapshot_meta_msg option"
  iq_offset :: u64
  iq_data :: bytes
  iq_done :: bool

record install_response_msg =
  is_vote :: "proto_vote option"

subsection \<open>Engine messages\<close>

record vote_request =
  vr_vote :: vote
  vr_last_log_id :: "log_id option"

record vote_response =
  vp_vote :: vote
  vp_vote_granted :: bool
  vp_last_log_id :: "log_id option"

record ('p, 'm) append_request =
  ar_vote :: vote
  ar_prev_log_id :: "log_id option"
  ar_entries :: "('p, 'm) entry list"
  ar_leader_commit :: "log_id option"

datatype append_response =
    Success
  | PartialSuccess "log_id option"
  | ConflictResponse
  | HigherVote vote

record 'm install_request =
  ir_vote :: vote
  ir_meta :: "'m snapshot_meta"
  ir_offset :: u64
  ir_data :: bytes
  ir_done :: bool

subsection \<open>Conversions\<close>

datatype wire_error = UnknownResponseType u32 | EntryDecode store_error

type_synonym vote_parts = "u64 \<times> u64 \<times> bool"
type_synonym log_id_parts = "u64 \<times> u64"

definition wire_vote :: "vote_parts \<Rightarrow> vote" where
  "wire_vote p = (case p of (term_, node_id, committed) \<Rightarrow>
     \<lparr>vt_term = term_, vt_node_id = node_id, vt_committed = committed\<rparr>)"

definition vote_parts :: "vote \<Rightarrow> vote_parts" where
  "vote_parts v = (vt_term v, vt_node_id v, vt_committed v)"

definition wire_log_id :: "log_id_parts \<Rightarrow> u64 \<Rightarrow> log_id" where
  "wire_log_id p node_id = (case p of (term_, index) \<Rightarrow>
     \<lparr>li_term = term_, li_node = node_id, li_index = index\<rparr>)"

definition log_id_parts :: "log_id \<Rightarrow> log_id_parts" where
  "log_id_parts l = (li_term l, li_index l)"

record append_wire =
  aw_response_type :: u32
  aw_partial_index :: "log_id_parts option"
  aw_vote :: vote_parts

fun classify_append_response :: "append_response \<Rightarrow> vote_parts \<Rightarrow> append_wire" where
  "classify_append_response Success echoed =
     \<lparr>aw_response_type = 0, aw_partial_index = None, aw_vote = echoed\<rparr>"
| "classify_append_response (PartialSuccess matching) echoed =
     \<lparr>aw_response_type = 1, aw_partial_index = map_option log_id_parts matching, aw_vote = echoed\<rparr>"
| "classify_append_response ConflictResponse echoed =
     \<lparr>aw_response_type = 2, aw_partial_index = None, aw_vote = echoed\<rparr>"
| "classify_append_response (HigherVote higher) echoed =
     \<lparr>aw_response_type = 3, aw_partial_index = None, aw_vote = vote_parts higher\<rparr>"

definition append_response_from_wire ::
  "u32 \<Rightarrow> log_id_parts option \<Rightarrow> vote_parts \<Rightarrow> wire_error + append_response" where
  "append_response_from_wire response_type partial_index responder_vote =
     (case responder_vote of (_, node_id, _) \<Rightarrow>
        if response_type = 0 then Inr Success
        else if response_type = 1
        then Inr (PartialSuccess (map_option (\<lambda>parts. wire_log_id parts node_id) partial_index))
        else if response_type = 2 then Inr ConflictResponse
        else if response_type = 3 then Inr (HigherVote (wire_vote responder_vote))
        else Inl (UnknownResponseType response_type))"

definition mk_vote_request :: "vote_parts \<Rightarrow> log_id_parts option \<Rightarrow> vote_request" where
  "mk_vote_request v last_log_id = (case v of (_, node_id, _) \<Rightarrow>
     \<lparr>vr_vote = wire_vote v,
      vr_last_log_id = map_option (\<lambda>parts. wire_log_id parts node_id) last_log_id\<rparr>)"

definition mk_append_request ::
  "vote_parts \<Rightarrow> log_id_parts option \<Rightarrow> ('p, 'm) entry list \<Rightarrow> log_id_parts option \<Rightarrow> ('p, 'm) append_request" where
  "mk_append_request v prev_log_id entries leader_commit = (case v of (_, node_id, _) \<Rightarrow>
     \<lparr>ar_vote = wire_vote v,
      ar_prev_log_id = map_option (\<lambda>parts. wire_log_id parts node_id) prev_log_id,
      ar_entries = entries,
      ar_leader_commit = map_option (\<lambda>parts. wire_log_id parts node_id) leader_commit\<rparr>)"

definition mk_snapshot_meta ::
  "'m \<Rightarrow> log_id_parts option \<Rightarrow> u32 \<Rightarrow> string \<Rightarrow> u64 \<Rightarrow> 'm snapshot_meta" where
  "mk_snapshot_meta no_members last_log_id last_membership snap_id node_id =
     \<lparr>mt_last_log_id = map_option (\<lambda>parts. wire_log_id parts node_id) last_log_id,
      mt_last_membership = StoredMembership
        (Some \<lparr>li_term = (case last_log_id of None \<Rightarrow> 0 | Some (term_, _) \<Rightarrow> term_),
               li_node = node_id, li_index = ucast last_membership\<rparr>) no_members,
      mt_snapshot_id = snap_id\<rparr>"

definition decode_entries :: "('p, 'm) entry codec \<Rightarrow> bytes list \<Rightarrow> wire_error + ('p, 'm) entry list" where
  "decode_entries c raw = map_errR EntryDecode (collect_res (map (cd_de c) raw))"

subsection \<open>The handlers of a peer\<close>

definition to_proto_vote :: "vote_parts \<Rightarrow> proto_vote" where
  "to_proto_vote p = (case p of (term_, node_id, committed) \<Rightarrow>
     \<lparr>pv_term = term_, pv_node_id = node_id, pv_committed = committed\<rparr>)"

definition to_proto_log_id :: "log_id_parts \<Rightarrow> proto_log_id" where
  "to_proto_log_id p = (case p of (term_, index) \<Rightarrow> \<lparr>pl_term = term_, pl_index = index\<rparr>)"

definition proto_vote_parts :: "proto_vote \<Rightarrow> vote_parts" where
  "proto_vote_parts v = (pv_term v, pv_node_id v, pv_committed v)"

definition proto_log_id_parts :: "proto_log_id \<Rightarrow> log_id_parts" where
  "proto_log_id_parts l = (pl_term l, pl_index l)"

text \<open>
  The engine a handler forwards to, on a state \<open>'r\<close>; the text of a decoding error is
  \<open>wire_text\<close>.
\<close>

record ('r, 'p, 'm) raft_engine =
  eng_vote :: "vote_request \<Rightarrow> ('r, string, vote_response) eff"
  eng_append :: "('p, 'm) append_request \<Rightarrow> ('r, string, append_response) eff"
  eng_install :: "'m install_request \<Rightarrow> ('r, string, vote) eff"

definition service_vote ::
  "('r, 'p, 'm) raft_engine \<Rightarrow> vote_request_msg \<Rightarrow> ('r, status, vote_response_msg) eff" where
  "service_vote R req =
     (case vq_vote req of
        None \<Rightarrow> throw (InvalidArgument ''missing vote'')
      | Some v \<Rightarrow>
          bindA (map_err (\<lambda>e. Internal (''vote failed: '' @ e))
                   (eng_vote R (mk_vote_request (proto_vote_parts v)
                      (map_option proto_log_id_parts (vq_last_log_id req)))))
            (\<lambda>r. ret \<lparr>vs_vote = Some (to_proto_vote (vote_parts (vp_vote r))),
                     vs_vote_granted = vp_vote_granted r,
                     vs_last_log_id = map_option (\<lambda>l. to_proto_log_id (log_id_parts l)) (vp_last_log_id r)\<rparr>))"

definition service_append_entries ::
  "('r, 'p, 'm) raft_engine \<Rightarrow> (wire_error \<Rightarrow> string) \<Rightarrow> ('p, 'm) entry codec \<Rightarrow> append_request_msg
   \<Rightarrow> ('r, status, append_response_msg) eff" where
  "service_append_entries R wire_text c req =
     (case aq_vote req of
        None \<Rightarrow> throw (InvalidArgument ''missing vote'')
      | Some v \<Rightarrow>
          bindA (lift_res (map_errR (\<lambda>e. InvalidArgument (wire_text e)) (decode_entries c (aq_entries req))))
            (\<lambda>entries.
              bindA (map_err (\<lambda>e. Internal (''append_entries failed: '' @ e))
                       (eng_append R (mk_append_request (proto_vote_parts v)
                          (map_option proto_log_id_parts (aq_prev_log_id req)) entries
                          (map_option proto_log_id_parts (aq_leader_commit req)))))
                (\<lambda>r. let wire = classify_append_response r (proto_vote_parts v)
                     in ret \<lparr>as_vote = Some (to_proto_vote (aw_vote wire)),
                             as_response_type = aw_response_type wire,
                             as_partial = map_option to_proto_log_id (aw_partial_index wire)\<rparr>)))"

definition service_install_snapshot ::
  "('r, 'p, 'm) raft_engine \<Rightarrow> 'm \<Rightarrow> install_request_msg \<Rightarrow> ('r, status, install_response_msg) eff" where
  "service_install_snapshot R no_members req =
     (case iq_vote req of
        None \<Rightarrow> throw (InvalidArgument ''missing vote'')
      | Some v \<Rightarrow> (case iq_meta req of
          None \<Rightarrow> throw (InvalidArgument ''missing snapshot meta'')
        | Some meta \<Rightarrow>
            bindA (map_err (\<lambda>e. Internal (''install_snapshot failed: '' @ e))
                     (eng_install R
                        \<lparr>ir_vote = wire_vote (proto_vote_parts v),
                         ir_meta = mk_snapshot_meta no_members
                           (map_option proto_log_id_parts (sm_last_log_id meta))
                           (sm_last_membership meta) (sm_snapshot_id meta) (pv_node_id v),
                         ir_offset = iq_offset req, ir_data = iq_data req, ir_done = iq_done req\<rparr>))
              (\<lambda>vote. ret \<lparr>is_vote = Some (to_proto_vote (vote_parts vote))\<rparr>)))"

subsection \<open>The calls of a node\<close>

datatype rpc_error =
    ConnectError string
  | StatusError status
  | EncodeError store_error
  | MissingVote
  | BadResponse wire_error

text \<open>A client: connecting may fail; then a call goes out and comes back or fails.\<close>

record 's transport =
  tr_connect :: "('s, string, unit) eff"
  tr_vote :: "vote_request_msg \<Rightarrow> ('s, status, vote_response_msg) eff"
  tr_append :: "append_request_msg \<Rightarrow> ('s, status, append_response_msg) eff"
  tr_install :: "install_request_msg \<Rightarrow> ('s, status, install_response_msg) eff"

definition proto_of_vote :: "vote \<Rightarrow> proto_vote" where
  "proto_of_vote v = \<lparr>pv_term = vt_term v, pv_node_id = vt_node_id v, pv_committed = vt_committed v\<rparr>"

definition proto_of_log_id :: "log_id \<Rightarrow> proto_log_id" where
  "proto_of_log_id l = \<lparr>pl_term = li_term l, pl_index = li_index l\<rparr>"

definition network_vote :: "'s transport \<Rightarrow> vote_request \<Rightarrow> ('s, rpc_error, vote_response) eff" where
  "network_vote T rpc =
     thenA (map_err ConnectError (tr_connect T))
       (bindA (map_err StatusError (tr_vote T
                 \<lparr>vq_vote = Some (proto_of_vote (vr_vote rpc)),
                  vq_last_log_id = map_option proto_of_log_id (vr_last_log_id rpc)\<rparr>))
         (\<lambda>resp. case vs_vote resp of
            None \<Rightarrow> throw MissingVote
          | Some v \<Rightarrow> ret
              \<lparr>vp_vote = wire_vote (proto_vote_parts v),
               vp_vote_granted = vs_vote_granted resp,
               vp_last_log_id = map_option
                 (\<lambda>l. \<lparr>li_term = pl_term l, li_node = pv_node_id v, li_index = pl_index l\<rparr>)
                 (vs_last_log_id resp)\<rparr>))"

definition network_append_entries ::
  "'s transport \<Rightarrow> ('p, 'm) entry codec \<Rightarrow> ('p, 'm) append_request \<Rightarrow> ('s, rpc_error, append_response) eff" where
  "network_append_entries T c rpc =
     thenA (map_err ConnectError (tr_connect T))
       (bindA (lift_res (map_errR EncodeError (collect_res (map (cd_ser c) (ar_entries rpc))))) (\<lambda>datas.
          bindA (map_err StatusError (tr_append T
                   \<lparr>aq_vote = Some (proto_of_vote (ar_vote rpc)),
                    aq_prev_log_id = map_option proto_of_log_id (ar_prev_log_id rpc),
                    aq_entries = datas,
                    aq_leader_commit = map_option proto_of_log_id (ar_leader_commit rpc)\<rparr>))
            (\<lambda>resp. case as_vote resp of
               None \<Rightarrow> throw MissingVote
             | Some v \<Rightarrow> lift_res (map_errR BadResponse
                 (append_response_from_wire (as_response_type resp)
                    (map_option proto_log_id_parts (as_partial resp)) (proto_vote_parts v))))))"

text \<open>\<open>u32::try_from(index).unwrap_or(u32::MAX)\<close>, the membership version on the wire.\<close>

definition membership_version :: "'m stored_membership \<Rightarrow> u32" where
  "membership_version m =
     (let i = (case m of StoredMembership (Some l) _ \<Rightarrow> li_index l | _ \<Rightarrow> 0)
      in if unat i < 2 ^ 32 then ucast i else - 1)"

definition network_install_snapshot ::
  "'s transport \<Rightarrow> 'm install_request \<Rightarrow> ('s, rpc_error, vote) eff" where
  "network_install_snapshot T rpc =
     thenA (map_err ConnectError (tr_connect T))
       (bindA (map_err StatusError (tr_install T
                 \<lparr>iq_vote = Some (proto_of_vote (ir_vote rpc)),
                  iq_meta = Some \<lparr>sm_last_log_id = map_option proto_of_log_id (mt_last_log_id (ir_meta rpc)),
                    sm_last_applied = (case mt_last_log_id (ir_meta rpc) of None \<Rightarrow> 0 | Some l \<Rightarrow> li_index l),
                    sm_last_membership = membership_version (mt_last_membership (ir_meta rpc)),
                    sm_snapshot_id = mt_snapshot_id (ir_meta rpc)\<rparr>,
                  iq_offset = ir_offset rpc, iq_data = ir_data rpc, iq_done = ir_done rpc\<rparr>))
         (\<lambda>resp. case is_vote resp of
            None \<Rightarrow> throw MissingVote
          | Some v \<Rightarrow> ret (wire_vote (proto_vote_parts v))))"

subsection \<open>What survives the wire\<close>

text \<open>A log id on the wire loses its leader's node id; the receiver puts the vote's there.\<close>

definition relabel :: "u64 \<Rightarrow> log_id \<Rightarrow> log_id" where
  "relabel node l = l\<lparr>li_node := node\<rparr>"

lemma wire_log_id_parts [simp]: "wire_log_id (log_id_parts l) node = relabel node l"
  by (simp add: wire_log_id_def log_id_parts_def relabel_def)

lemma wire_vote_parts [simp]: "wire_vote (vote_parts v) = v"
  by (simp add: wire_vote_def vote_parts_def)

lemma proto_parts [simp]:
  "proto_vote_parts (to_proto_vote p) = p" "proto_log_id_parts (to_proto_log_id q) = q"
  "proto_vote_parts (proto_of_vote v) = vote_parts v"
  "proto_log_id_parts (proto_of_log_id l) = log_id_parts l"
  by (simp_all add: proto_vote_parts_def to_proto_vote_def proto_log_id_parts_def to_proto_log_id_def
      proto_of_vote_def vote_parts_def proto_of_log_id_def log_id_parts_def split: prod.split)

lemma proto_comp [simp]:
  "proto_log_id_parts \<circ> proto_of_log_id = log_id_parts" "proto_log_id_parts \<circ> to_proto_log_id = id"
  by (simp_all add: fun_eq_iff)

fun relabel_response :: "u64 \<Rightarrow> append_response \<Rightarrow> append_response" where
  "relabel_response node (PartialSuccess m) = PartialSuccess (map_option (relabel node) m)"
| "relabel_response node r = r"

lemma from_wire_classify:
  "append_response_from_wire (aw_response_type (classify_append_response r v))
     (aw_partial_index (classify_append_response r v)) (aw_vote (classify_append_response r v))
   = Inr (relabel_response (fst (snd v)) r)"
  by (cases r) (auto simp: append_response_from_wire_def option.map_comp comp_def split: prod.split)

lemma collect_ser:
  assumes "codec_ok c"
  shows "collect_res (map (cd_ser c) es) = Inr (map (enc c) es)"
    and "collect_res (map (cd_de c) (map (enc c) es)) = Inr es"
  by (induction es) (simp_all add: codec_okD [OF assms])

text \<open>A transport that runs the peer's handlers.\<close>

definition loopback ::
  "('r, 'p, 'm) raft_engine \<Rightarrow> (wire_error \<Rightarrow> string) \<Rightarrow> ('p, 'm) entry codec \<Rightarrow> 'm \<Rightarrow> 'r transport" where
  "loopback R wire_text c no_members =
     \<lparr>tr_connect = ret (), tr_vote = service_vote R,
      tr_append = service_append_entries R wire_text c,
      tr_install = service_install_snapshot R no_members\<rparr>"

lemma append_call_as_engine:
  assumes "codec_ok c"
  shows "network_append_entries (loopback R wire_text c no_members) c rpc r =
     (case eng_append R (rpc\<lparr>ar_prev_log_id := map_option (relabel (vt_node_id (ar_vote rpc))) (ar_prev_log_id rpc),
                             ar_leader_commit := map_option (relabel (vt_node_id (ar_vote rpc))) (ar_leader_commit rpc)\<rparr>) r of
        (Inl e, r') \<Rightarrow> (Inl (StatusError (Internal (''append_entries failed: '' @ e))), r')
      | (Inr x, r') \<Rightarrow> (Inr (relabel_response (vt_node_id (ar_vote rpc)) x), r'))"
proof -
  let ?n = "vt_node_id (ar_vote rpc)"
  have rq: "mk_append_request (vote_parts (ar_vote rpc)) (map_option log_id_parts (ar_prev_log_id rpc))
      (ar_entries rpc) (map_option log_id_parts (ar_leader_commit rpc))
    = rpc\<lparr>ar_prev_log_id := map_option (relabel ?n) (ar_prev_log_id rpc),
          ar_leader_commit := map_option (relabel ?n) (ar_leader_commit rpc)\<rparr>"
    by (cases rpc)
      (simp add: mk_append_request_def vote_parts_def option.map_comp comp_def wire_vote_def)
  have dec: "decode_entries c (map (enc c) (ar_entries rpc)) = Inr (ar_entries rpc)"
    unfolding decode_entries_def collect_ser(2) [OF assms] by simp
  have answer: "append_response_from_wire (aw_response_type (classify_append_response x (vote_parts (ar_vote rpc))))
      (aw_partial_index (classify_append_response x (vote_parts (ar_vote rpc))))
      (aw_vote (classify_append_response x (vote_parts (ar_vote rpc)))) = Inr (relabel_response ?n x)" for x
    unfolding from_wire_classify by (simp add: vote_parts_def)
  show ?thesis
    by (simp add: network_append_entries_def loopback_def service_append_entries_def collect_ser(1) [OF assms]
        dec option.map_comp rq act_defs map_err_def Let_def answer option.map_id split: prod.split sum.split)
qed

text \<open>
  The append-entries outcome round-trips: what the leader rebuilds from the wire is the
  follower's answer, with the node id of a partially matching log id replaced by the leader's
  own; any response type above 3 is rejected with that type.
\<close>

theorem append_outcome_roundtrip:
  "append_response_from_wire (aw_response_type (classify_append_response r v))
     (aw_partial_index (classify_append_response r v)) (aw_vote (classify_append_response r v))
   = Inr (relabel_response (fst (snd v)) r)
   \<and> (3 < n \<longrightarrow> append_response_from_wire n p v = Inl (UnknownResponseType n))"
proof (intro conjI impI)
  assume "3 < n"
  then have "n \<noteq> 0" "n \<noteq> 1" "n \<noteq> 2" "n \<noteq> 3" by auto
  then show "append_response_from_wire n p v = Inl (UnknownResponseType n)"
    by (simp add: append_response_from_wire_def split: prod.split)
qed (rule from_wire_classify)

theorem append_outcome_roundtrip_witness:
  "append_response_from_wire 4 None (1, 2, True) = Inl (UnknownResponseType 4)"
  using append_outcome_roundtrip [of Success "(1, 2, True)" 4 None] by simp

text \<open>C34: an append-entries call to a peer that runs the handler is the engine's own
  append-entries: the entries arrive as they were sent, every log id in the request arrives
  relabelled with the caller's node id, the answer comes back as the engine gave it (a partial
  match relabelled likewise), and an engine error comes back as an internal status.
\<close>

theorem append_call_reaches_engine:
  assumes "codec_ok c"
  shows "network_append_entries (loopback R wire_text c no_members) c rpc r =
     (case eng_append R (rpc\<lparr>ar_prev_log_id := map_option (relabel (vt_node_id (ar_vote rpc))) (ar_prev_log_id rpc),
                             ar_leader_commit := map_option (relabel (vt_node_id (ar_vote rpc))) (ar_leader_commit rpc)\<rparr>) r of
        (Inl e, r') \<Rightarrow> (Inl (StatusError (Internal (''append_entries failed: '' @ e))), r')
      | (Inr x, r') \<Rightarrow> (Inr (relabel_response (vt_node_id (ar_vote rpc)) x), r'))"
  by (rule append_call_as_engine [OF assms])

theorem append_call_reaches_engine_witness:
  "network_append_entries
     (loopback \<lparr>eng_vote = \<lambda>q r. (Inl [], r), eng_append = \<lambda>q r. (Inr (PartialSuccess (ar_prev_log_id q)), ar_entries q),
        eng_install = \<lambda>q r. (Inl [], r)\<rparr> (\<lambda>_. []) (rc_entry db_raft_codec) []) (rc_entry db_raft_codec)
     \<lparr>ar_vote = \<lparr>vt_term = 2, vt_node_id = 5, vt_committed = True\<rparr>,
      ar_prev_log_id = Some \<lparr>li_term = 1, li_node = 3, li_index = 9\<rparr>, ar_entries = [], ar_leader_commit = None\<rparr> []
   = (Inr (PartialSuccess (Some \<lparr>li_term = 1, li_node = 5, li_index = 9\<rparr>)), [])"
proof -
  have "codec_ok (rc_entry db_raft_codec)" by (rule raft_codec_okD(1) [OF db_raft_codec_ok])
  from append_call_reaches_engine [OF this, where
      R = "\<lparr>eng_vote = \<lambda>q r. (Inl [], r), eng_append = \<lambda>q r. (Inr (PartialSuccess (ar_prev_log_id q)), ar_entries q),
        eng_install = \<lambda>q r. (Inl [], r)\<rparr>" and wire_text = "\<lambda>_. []" and no_members = "[]" and r = "[]"
      and rpc = "\<lparr>ar_vote = \<lparr>vt_term = 2, vt_node_id = 5, vt_committed = True\<rparr>,
      ar_prev_log_id = Some \<lparr>li_term = 1, li_node = 3, li_index = 9\<rparr>, ar_entries = [], ar_leader_commit = None\<rparr>"]
  show ?thesis by (simp add: relabel_def)
qed

text \<open>A previous log id written under another leader never matches on the follower. Let the
  follower's engine answer a conflict whenever the previous log id of a request is not the log
  id its log holds at that index, and let the log hold exactly the id the caller means. If
  that entry was written by a node other than the caller, the call still ends in a conflict,
  because the wire replaces the entry's node id with the caller's.
\<close>

theorem previous_log_id_changes:
  assumes c: "codec_ok c"
    and engine: "\<And>q p r. ar_prev_log_id q = Some p \<Longrightarrow> held r (li_index p) \<noteq> Some p \<Longrightarrow>
      eng_append R q r = (Inr ConflictResponse, r)"
    and prev: "ar_prev_log_id rpc = Some l"
    and holds: "held r (li_index l) = Some l"
    and other: "li_node l \<noteq> vt_node_id (ar_vote rpc)"
  shows "network_append_entries (loopback R wire_text c no_members) c rpc r = (Inr ConflictResponse, r)"
proof -
  let ?n = "vt_node_id (ar_vote rpc)"
  have "held r (li_index (relabel ?n l)) \<noteq> Some (relabel ?n l)"
    using holds other by (cases l) (auto simp: relabel_def)
  then show ?thesis
    unfolding append_call_as_engine [OF c] by (simp add: prev engine [where p = "relabel ?n l"])
qed

theorem previous_log_id_changes_witness:
  "network_append_entries
     (loopback \<lparr>eng_vote = \<lambda>q r. (Inl [], r),
        eng_append = \<lambda>q r. (case ar_prev_log_id q of
            Some p \<Rightarrow> (Inr (if r (li_index p) = Some p then Success else ConflictResponse), r)
          | None \<Rightarrow> (Inr Success, r)),
        eng_install = \<lambda>q r. (Inl [], r)\<rparr> (\<lambda>_. []) (rc_entry db_raft_codec) []) (rc_entry db_raft_codec)
     \<lparr>ar_vote = \<lparr>vt_term = 2, vt_node_id = 2, vt_committed = True\<rparr>,
      ar_prev_log_id = Some \<lparr>li_term = 1, li_node = 1, li_index = 4\<rparr>, ar_entries = [], ar_leader_commit = None\<rparr>
     (Map.empty((4::u64) \<mapsto> \<lparr>li_term = 1, li_node = 1, li_index = 4\<rparr>))
   = (Inr ConflictResponse, Map.empty(4 \<mapsto> \<lparr>li_term = 1, li_node = 1, li_index = 4\<rparr>))"
  by (rule previous_log_id_changes [where held = "\<lambda>r. r" and l = "\<lparr>li_term = 1, li_node = 1, li_index = 4\<rparr>"])
    (simp_all add: raft_codec_okD(1) [OF db_raft_codec_ok])

text \<open>A snapshot sent to a peer arrives with its data, id and position, but not with its
  membership: whatever configuration the sender's snapshot carries, the peer's engine is given
  the empty one, under a log id made from the membership's index cut to 32 bits.
\<close>

theorem snapshot_call_drops_membership:
  "fst (network_install_snapshot (loopback R wire_text c no_members) rpc r) =
     map_errR (\<lambda>e. StatusError (Internal (''install_snapshot failed: '' @ e)))
       (fst (eng_install R (rpc\<lparr>ir_meta :=
          \<lparr>mt_last_log_id = map_option (relabel (vt_node_id (ir_vote rpc))) (mt_last_log_id (ir_meta rpc)),
           mt_last_membership = StoredMembership
             (Some \<lparr>li_term = (case mt_last_log_id (ir_meta rpc) of None \<Rightarrow> 0 | Some l \<Rightarrow> li_term l),
                    li_node = vt_node_id (ir_vote rpc),
                    li_index = ucast (membership_version (mt_last_membership (ir_meta rpc)))\<rparr>) no_members,
           mt_snapshot_id = mt_snapshot_id (ir_meta rpc)\<rparr>\<rparr>) r))"
proof -
  let ?v = "ir_vote rpc"
  have t: "(case map_option log_id_parts x of None \<Rightarrow> 0 | Some (term_, _) \<Rightarrow> term_) =
      (case x of None \<Rightarrow> 0 | Some l \<Rightarrow> li_term l)" for x
    by (cases x) (simp_all add: log_id_parts_def)
  have m: "mk_snapshot_meta no_members (map_option log_id_parts l) k i (vt_node_id ?v) =
      \<lparr>mt_last_log_id = map_option (relabel (vt_node_id ?v)) l,
       mt_last_membership = StoredMembership (Some \<lparr>li_term = (case l of None \<Rightarrow> 0 | Some l \<Rightarrow> li_term l),
          li_node = vt_node_id ?v, li_index = ucast k\<rparr>) no_members,
       mt_snapshot_id = i\<rparr>" for l k i
    by (cases l) (simp_all add: mk_snapshot_meta_def log_id_parts_def relabel_def wire_log_id_def)
  have q: "\<lparr>ir_vote = ?v, ir_meta = x, ir_offset = ir_offset rpc, ir_data = ir_data rpc, ir_done = ir_done rpc\<rparr>
      = rpc\<lparr>ir_meta := x\<rparr>" for x
    by (cases rpc) simp
  have n: "pv_node_id (proto_of_vote ?v) = vt_node_id ?v" by (simp add: proto_of_vote_def)
  show ?thesis
    by (simp add: network_install_snapshot_def loopback_def service_install_snapshot_def act_defs map_err_def
        option.map_comp m n q map_errR_def split: prod.split sum.split)
qed

end
