(* ===== verification/Raft_Network.thy ===== *)
theory Raft_Network
  imports Raft_Wire
begin

text \<open>
  The peers of a node, \<open>db/src/network.rs\<close>: the factory that knows their addresses, the client
  of one peer, which connects on first use and keeps its connection, and the transfer of a whole
  snapshot with its cancellation. The calls themselves are those of \<open>Raft_Wire\<close>, over the
  transport that a client makes of its address.
\<close>

subsection \<open>The factory\<close>

record network_factory =
  nf_peers :: "u64 \<rightharpoonup> string"

record network_client =
  nc_target :: u64
  nc_address :: string
  nc_open :: bool

definition factory_new :: network_factory where
  "factory_new = \<lparr>nf_peers = Map.empty\<rparr>"

definition factory_with_peers :: "(u64 \<rightharpoonup> string) \<Rightarrow> network_factory" where
  "factory_with_peers peers = \<lparr>nf_peers = peers\<rparr>"

definition add_node :: "u64 \<Rightarrow> string \<Rightarrow> network_factory \<Rightarrow> network_factory" where
  "add_node node_id address f = f\<lparr>nf_peers := (nf_peers f)(node_id \<mapsto> address)\<rparr>"

definition get_peer_address :: "network_factory \<Rightarrow> u64 \<Rightarrow> string option" where
  "get_peer_address f node_id = nf_peers f node_id"

definition new_client :: "network_factory \<Rightarrow> u64 \<Rightarrow> string \<Rightarrow> network_client" where
  "new_client f target node_addr =
     \<lparr>nc_target = target,
      nc_address = (case get_peer_address f target of
          Some a \<Rightarrow> a | None \<Rightarrow> ''http://'' @ node_addr @ '':8080''),
      nc_open = False\<rparr>"

subsection \<open>The client of a peer\<close>

text \<open>\<open>T a\<close> is the transport to the address \<open>a\<close>; the state of a call is the client and the network's.\<close>

definition get_client :: "(string \<Rightarrow> 's transport) \<Rightarrow> (network_client \<times> 's, string, unit) eff" where
  "get_client T = (\<lambda>(n, s).
     if nc_open n then (Inr (), (n, s))
     else case tr_connect (T (nc_address n)) s of
         (Inl e, s') \<Rightarrow> (Inl e, (n, s'))
       | (Inr _, s') \<Rightarrow> (Inr (), (n\<lparr>nc_open := True\<rparr>, s')))"

definition over_client ::
  "(string \<Rightarrow> 's transport) \<Rightarrow> ('s transport \<Rightarrow> ('s, 'e, 'a) eff) \<Rightarrow> (network_client \<times> 's, 'e, 'a) eff" where
  "over_client T call = (\<lambda>(n, s). case call (T (nc_address n)) s of (x, s') \<Rightarrow> (x, (n, s')))"

definition client_transport :: "(string \<Rightarrow> 's transport) \<Rightarrow> (network_client \<times> 's) transport" where
  "client_transport T =
     \<lparr>tr_connect = get_client T, tr_vote = \<lambda>req. over_client T (\<lambda>X. tr_vote X req),
      tr_append = \<lambda>req. over_client T (\<lambda>X. tr_append X req),
      tr_install = \<lambda>req. over_client T (\<lambda>X. tr_install X req)\<rparr>"

datatype streaming_error = StreamClosed string | StreamNetwork rpc_error

text \<open>
  The transfer of a whole snapshot. \<open>cancel\<close> is the reason of the replication's end when that
  is known before the client is connected: the two futures are raced, and once the client has
  won, the cancellation is not looked at again.
\<close>

definition network_full_snapshot ::
  "'s transport \<Rightarrow> string option \<Rightarrow> vote \<Rightarrow> 'm snapshot_meta \<Rightarrow> bytes \<Rightarrow> ('s, streaming_error, vote) eff" where
  "network_full_snapshot T cancel vote meta data =
     (case cancel of
        Some closed \<Rightarrow> throw (StreamClosed closed)
      | None \<Rightarrow>
          thenA (map_err (\<lambda>e. StreamNetwork (ConnectError e)) (tr_connect T))
            (bindA (map_err (\<lambda>e. StreamNetwork (StatusError e)) (tr_install T
                 \<lparr>iq_vote = Some (proto_of_vote vote),
                  iq_meta = Some \<lparr>sm_last_log_id = map_option proto_of_log_id (mt_last_log_id meta),
                    sm_last_applied = (case mt_last_log_id meta of None \<Rightarrow> 0 | Some l \<Rightarrow> li_index l),
                    sm_last_membership = membership_version (mt_last_membership meta),
                    sm_snapshot_id = mt_snapshot_id meta\<rparr>,
                  iq_offset = 0, iq_data = data, iq_done = True\<rparr>))
              (\<lambda>resp. case is_vote resp of
                 None \<Rightarrow> throw (StreamNetwork MissingVote)
               | Some v \<Rightarrow> ret (wire_vote (proto_vote_parts v)))))"

subsection \<open>Connections\<close>

lemma full_snapshot_is_install:
  "network_full_snapshot T None vote meta data =
     map_err StreamNetwork (network_install_snapshot T
       \<lparr>ir_vote = vote, ir_meta = meta, ir_offset = 0, ir_data = data, ir_done = True\<rparr>)"
  by (auto simp: network_full_snapshot_def network_install_snapshot_def act_defs map_err_def fun_eq_iff
      split: prod.split sum.split option.split)

lemma client_calls [simp]:
  "tr_connect (client_transport T) = get_client T"
  "tr_vote (client_transport T) req = over_client T (\<lambda>X. tr_vote X req)"
  "tr_append (client_transport T) areq = over_client T (\<lambda>X. tr_append X areq)"
  "tr_install (client_transport T) ireq = over_client T (\<lambda>X. tr_install X ireq)"
  by (simp_all add: client_transport_def)

text \<open>A call of a client as the call over the plain transport to its address.\<close>

definition ready :: "'s transport \<Rightarrow> 's transport" where
  "ready X = X\<lparr>tr_connect := ret ()\<rparr>"

lemma ready_simps [simp]:
  "tr_connect (ready X) = ret ()" "tr_vote (ready X) = tr_vote X" "tr_append (ready X) = tr_append X"
  "tr_install (ready X) = tr_install X"
  by (simp_all add: ready_def)

lemma vote_open:
  "nc_open n \<Longrightarrow> network_vote (client_transport T) rpc (n, s) =
     over_client (\<lambda>a. ready (T a)) (\<lambda>X. network_vote X rpc) (n, s)"
  by (simp add: network_vote_def over_client_def get_client_def act_defs map_err_def
      split: prod.split sum.split option.split)

lemma append_open:
  "nc_open n \<Longrightarrow> network_append_entries (client_transport T) c arpc (n, s) =
     over_client (\<lambda>a. ready (T a)) (\<lambda>X. network_append_entries X c arpc) (n, s)"
  by (simp add: network_append_entries_def over_client_def get_client_def act_defs map_err_def
      split: prod.split sum.split option.split)

lemma install_open:
  "nc_open n \<Longrightarrow> network_install_snapshot (client_transport T) irpc (n, s) =
     over_client (\<lambda>a. ready (T a)) (\<lambda>X. network_install_snapshot X irpc) (n, s)"
  by (simp add: network_install_snapshot_def over_client_def get_client_def act_defs map_err_def
      split: prod.split sum.split option.split)

lemmas call_open = vote_open append_open install_open

lemma call_closed:
  assumes "\<not> nc_open n" and "tr_connect (T (nc_address n)) s = (Inl e, s')"
  shows "network_vote (client_transport T) rpc (n, s) = (Inl (ConnectError e), (n, s'))"
    and "network_append_entries (client_transport T) c arpc (n, s) = (Inl (ConnectError e), (n, s'))"
    and "network_install_snapshot (client_transport T) irpc (n, s) = (Inl (ConnectError e), (n, s'))"
  using assms
  by (simp_all add: network_vote_def network_append_entries_def network_install_snapshot_def get_client_def
      thenA_def bindA_def map_err_def)

lemma call_first:
  assumes "\<not> nc_open n" and "tr_connect (T (nc_address n)) s = (Inr x, s')"
  shows "network_vote (client_transport T) rpc (n, s) = network_vote (client_transport T) rpc (n\<lparr>nc_open := True\<rparr>, s')"
    and "network_append_entries (client_transport T) c arpc (n, s)
       = network_append_entries (client_transport T) c arpc (n\<lparr>nc_open := True\<rparr>, s')"
    and "network_install_snapshot (client_transport T) irpc (n, s)
       = network_install_snapshot (client_transport T) irpc (n\<lparr>nc_open := True\<rparr>, s')"
  using assms
  by (simp_all add: network_vote_def network_append_entries_def network_install_snapshot_def get_client_def
      thenA_def bindA_def map_err_def)

text \<open>A client of the factory talks to the address the factory has for its peer, or to port
  8080 of the node's address when it has none. It connects on its first call; a failed
  connection fails that call and leaves the client closed, so the next call tries again; once
  connected, no call connects again, and a call is exactly the call over that address.
\<close>

theorem client_connects_once:
  "let n = new_client f i addr in
     nc_address n = (case get_peer_address f i of Some a \<Rightarrow> a | None \<Rightarrow> ''http://'' @ addr @ '':8080'')
     \<and> get_peer_address (add_node i a f) j = (if j = i then Some a else get_peer_address f j)
     \<and> (case tr_connect (T (nc_address n)) s of
          (Inl e, s') \<Rightarrow> network_append_entries (client_transport T) c rpc (n, s) = (Inl (ConnectError e), (n, s'))
        | (Inr _, s') \<Rightarrow> network_append_entries (client_transport T) c rpc (n, s) =
             (case network_append_entries (ready (T (nc_address n))) c rpc s' of
                (x, s'') \<Rightarrow> (x, (n\<lparr>nc_open := True\<rparr>, s''))))
     \<and> network_append_entries (client_transport T) c rpc (n\<lparr>nc_open := True\<rparr>, s) =
         (case network_append_entries (ready (T (nc_address n))) c rpc s of
            (x, s') \<Rightarrow> (x, (n\<lparr>nc_open := True\<rparr>, s')))"
proof -
  define n where "n = new_client f i addr"
  have closed: "\<not> nc_open n" by (simp add: n_def new_client_def)
  have opened: "network_append_entries (client_transport T) c rpc (n\<lparr>nc_open := True\<rparr>, s) =
      (case network_append_entries (ready (T (nc_address n))) c rpc s of
         (x, s') \<Rightarrow> (x, (n\<lparr>nc_open := True\<rparr>, s')))" for s
    by (simp add: append_open over_client_def)
  have "case tr_connect (T (nc_address n)) s of
          (Inl e, s') \<Rightarrow> network_append_entries (client_transport T) c rpc (n, s) = (Inl (ConnectError e), (n, s'))
        | (Inr _, s') \<Rightarrow> network_append_entries (client_transport T) c rpc (n, s) =
             (case network_append_entries (ready (T (nc_address n))) c rpc s' of
                (x, s'') \<Rightarrow> (x, (n\<lparr>nc_open := True\<rparr>, s'')))"
  proof (cases "tr_connect (T (nc_address n)) s")
    case (Pair x s')
    show ?thesis
    proof (cases x)
      case (Inl e)
      then show ?thesis using Pair call_closed(2) [where T = T and n = n, OF closed] by simp
    next
      case (Inr u)
      then have "network_append_entries (client_transport T) c rpc (n, s)
          = network_append_entries (client_transport T) c rpc (n\<lparr>nc_open := True\<rparr>, s')"
        using Pair by (intro call_first(2) [OF closed]) simp
      then show ?thesis using Pair Inr opened by simp
    qed
  qed
  then show ?thesis using opened
    by (simp add: Let_def n_def [symmetric]) (simp add: n_def new_client_def add_node_def get_peer_address_def)
qed

text \<open>Sending a snapshot to a peer that runs the handler gives the peer's engine the whole
  data as one final chunk at offset 0, with the relabelled log id and the empty membership of
  every snapshot call, and answers with the engine's vote; a cancellation that is known before
  the client is ready sends nothing.
\<close>

theorem full_snapshot_one_chunk:
  "fst (network_full_snapshot (loopback R wire_text c no_members) None vote meta data r) =
     map_errR (\<lambda>e. StreamNetwork (StatusError (Internal (''install_snapshot failed: '' @ e))))
       (fst (eng_install R
          \<lparr>ir_vote = vote,
           ir_meta = mk_snapshot_meta no_members (map_option log_id_parts (mt_last_log_id meta))
             (membership_version (mt_last_membership meta)) (mt_snapshot_id meta) (vt_node_id vote),
           ir_offset = 0, ir_data = data, ir_done = True\<rparr> r))
   \<and> network_full_snapshot T (Some closed) vote meta data s = (Inl (StreamClosed closed), s)"
proof -
  have n: "pv_node_id (proto_of_vote vote) = vt_node_id vote" by (simp add: proto_of_vote_def)
  have "fst (network_full_snapshot (loopback R wire_text c no_members) None vote meta data r) =
     map_errR (\<lambda>e. StreamNetwork (StatusError (Internal (''install_snapshot failed: '' @ e))))
       (fst (eng_install R
          \<lparr>ir_vote = vote,
           ir_meta = mk_snapshot_meta no_members (map_option log_id_parts (mt_last_log_id meta))
             (membership_version (mt_last_membership meta)) (mt_snapshot_id meta) (vt_node_id vote),
           ir_offset = 0, ir_data = data, ir_done = True\<rparr> r))"
    by (simp add: network_full_snapshot_def loopback_def service_install_snapshot_def act_defs map_err_def
        option.map_comp n map_errR_def split: prod.split sum.split)
  then show ?thesis by (simp add: network_full_snapshot_def throw_def)
qed

end
