(* ===== verification/Lock_Wire.thy ===== *)
theory Lock_Wire
  imports Raft_Network Lock_Store
begin

text \<open>
  The custodian's Raft RPC layer, \<open>custodian/src/raft_service.rs\<close> and
  \<open>custodian/src/network.rs\<close>: the same code as the database's over lock commands, with counters
  added, which are left out. Its entries travel in the custodian's own serialisation.
\<close>

subsection \<open>The handlers of a peer\<close>

definition lk_to_proto_vote :: "vote_parts \<Rightarrow> proto_vote" where
  "lk_to_proto_vote p = to_proto_vote p"

definition lk_to_proto_log_id :: "log_id_parts \<Rightarrow> proto_log_id" where
  "lk_to_proto_log_id p = to_proto_log_id p"

definition lk_service_vote ::
  "('r, lock_command, 'm) raft_engine \<Rightarrow> vote_request_msg \<Rightarrow> ('r, status, vote_response_msg) eff" where
  "lk_service_vote R req = service_vote R req"

definition lk_service_append_entries ::
  "('r, lock_command, 'm) raft_engine \<Rightarrow> (wire_error \<Rightarrow> string) \<Rightarrow> 'm lock_codec \<Rightarrow> append_request_msg
   \<Rightarrow> ('r, status, append_response_msg) eff" where
  "lk_service_append_entries R wire_text C req = service_append_entries R wire_text (rc_entry C) req"

definition lk_service_install_snapshot ::
  "('r, lock_command, 'm) raft_engine \<Rightarrow> 'm \<Rightarrow> install_request_msg \<Rightarrow> ('r, status, install_response_msg) eff" where
  "lk_service_install_snapshot R no_members req = service_install_snapshot R no_members req"

subsection \<open>The calls of a node\<close>

definition lk_factory_new :: network_factory where
  "lk_factory_new = factory_new"

definition lk_factory_with_peers :: "(u64 \<rightharpoonup> string) \<Rightarrow> network_factory" where
  "lk_factory_with_peers peers = factory_with_peers peers"

definition lk_add_node :: "u64 \<Rightarrow> string \<Rightarrow> network_factory \<Rightarrow> network_factory" where
  "lk_add_node node_id address f = add_node node_id address f"

definition lk_get_peer_address :: "network_factory \<Rightarrow> u64 \<Rightarrow> string option" where
  "lk_get_peer_address f node_id = get_peer_address f node_id"

definition lk_new_client :: "network_factory \<Rightarrow> u64 \<Rightarrow> string \<Rightarrow> network_client" where
  "lk_new_client f target node_addr = new_client f target node_addr"

definition lk_get_client :: "(string \<Rightarrow> 's transport) \<Rightarrow> (network_client \<times> 's, string, unit) eff" where
  "lk_get_client T = get_client T"

definition lk_network_vote :: "'s transport \<Rightarrow> vote_request \<Rightarrow> ('s, rpc_error, vote_response) eff" where
  "lk_network_vote T rpc = network_vote T rpc"

definition lk_network_append_entries ::
  "'s transport \<Rightarrow> 'm lock_codec \<Rightarrow> (lock_command, 'm) append_request \<Rightarrow> ('s, rpc_error, append_response) eff" where
  "lk_network_append_entries T C rpc = network_append_entries T (rc_entry C) rpc"

definition lk_network_full_snapshot ::
  "'s transport \<Rightarrow> string option \<Rightarrow> vote \<Rightarrow> 'm snapshot_meta \<Rightarrow> bytes \<Rightarrow> ('s, streaming_error, vote) eff" where
  "lk_network_full_snapshot T cancel vote meta data = network_full_snapshot T cancel vote meta data"

definition lk_network_install_snapshot ::
  "'s transport \<Rightarrow> 'm install_request \<Rightarrow> ('s, rpc_error, vote) eff" where
  "lk_network_install_snapshot T rpc = network_install_snapshot T rpc"

subsection \<open>Replication of the lock log\<close>

text \<open>
  A follower whose engine accepts a request by writing its entries to the lock log; the text
  of a storage error is \<open>text_of\<close>.
\<close>

definition log_engine ::
  "('d, 'z) sled_scheme \<Rightarrow> 'm lock_codec \<Rightarrow> (raft_error \<Rightarrow> string) \<Rightarrow> ('d, lock_command, 'm) raft_engine" where
  "log_engine E C text_of =
     \<lparr>eng_vote = \<lambda>q d. (Inl [], d),
      eng_append = \<lambda>q. bindA (map_err text_of (lk_append_to_log E C (ar_entries q))) (\<lambda>_. ret Success),
      eng_install = \<lambda>q d. (Inl [], d)\<rparr>"

definition lk_peer ::
  "('r, lock_command, 'm) raft_engine \<Rightarrow> (wire_error \<Rightarrow> string) \<Rightarrow> 'm lock_codec \<Rightarrow> 'm \<Rightarrow> 'r transport" where
  "lk_peer R wire_text C no_members =
     \<lparr>tr_connect = ret (), tr_vote = lk_service_vote R,
      tr_append = lk_service_append_entries R wire_text C,
      tr_install = lk_service_install_snapshot R no_members\<rparr>"

lemma lk_peer_loopback: "lk_peer R wire_text C no_members = loopback R wire_text (rc_entry C) no_members"
  by (simp add: lk_peer_def loopback_def lk_service_vote_def lk_service_append_entries_def
      lk_service_install_snapshot_def fun_eq_iff)

text \<open>Lock commands cross the wire unchanged. After a successful append-entries call to a peer
  whose engine writes what it accepts to its lock log, the peer reads back from its disk the
  very entries of the request, on top of the log it had.
\<close>

theorem lock_log_replicates:
  assumes "sled_ok E" and "raft_codec_ok C" and "log_inv C (view E d)"
  shows "\<exists>d1. lk_network_append_entries (lk_peer (log_engine E C text_of) wire_text C no_members) C rpc d = (Inr Success, d1)
     \<and> fst (lk_try_get_log_entries E C lo hi d1) =
         Inr (log_range (log_append (ar_entries rpc) (log_of C (view E d))) (in_range lo hi))"
proof -
  have "codec_ok (rc_entry C)" by (rule raft_codec_okD(1) [OF assms(2)])
  note call = append_call_as_engine [OF this, where R = "log_engine E C text_of" and wire_text = wire_text
      and no_members = no_members and rpc = rpc and r = d]
  obtain d1 where "append_to_log E (lock_ops E) C (ar_entries rpc) d = (Inr (), d1)"
    and "fst (try_get_log_entries E (lock_ops E) C lo hi d1)
         = Inr (log_range (log_append (ar_entries rpc) (log_of C (view E d))) (in_range lo hi))"
    using lk_append_then_read [OF assms, of "ar_entries rpc" lo hi] by blast
  then show ?thesis
    unfolding lk_network_append_entries_def lk_peer_loopback call lk_try_get_log_entries_def
    by (intro exI [of _ d1]) (simp add: log_engine_def lk_append_to_log_def act_defs map_err_def)
qed

theorem lock_log_replicates_witness:
  "\<exists>d1. lk_network_append_entries (lk_peer (log_engine mem_locks lock_raft_codec (\<lambda>_. [])) (\<lambda>_. []) lock_raft_codec []) lock_raft_codec
       \<lparr>ar_vote = \<lparr>vt_term = 1, vt_node_id = 1, vt_committed = True\<rparr>, ar_prev_log_id = None,
        ar_entries = [sample_entry 3 (AcquireLock 7 1 0 60)], ar_leader_commit = None\<rparr> RBT.empty = (Inr Success, d1)"
proof -
  have "log_inv lock_raft_codec (view mem_locks RBT.empty)" by (simp add: empty_log)
  from lock_log_replicates [OF mem_locks_sled lock_raft_codec_ok this] show ?thesis by blast
qed

end
