(* ===== verification/Encryption.thy ===== *)
theory Encryption
  imports Prelude
begin

text \<open>
  \<open>shared/src/encryption.rs\<close>: password and public-key encryption of a byte string.

  The primitives come from third-party crates and are the fields of \<open>crypto\<close>: Argon2id, the
  Kyber-768 encapsulation and the two authenticated ciphers, each returning the text of its
  error. What a call draws at random (the salt, the coins of the encapsulation, the nonce) is
  an argument. \<open>Nonce::from_slice\<close> panics unless the slice has 12 bytes; \<open>Panicked\<close> is that
  outcome.
\<close>

datatype encryption_algorithm = Aes256Gcm | ChaCha20Poly1305

definition default_algorithm :: encryption_algorithm where
  "default_algorithm = ChaCha20Poly1305"

fun algorithm_u32 :: "encryption_algorithm \<Rightarrow> u32" where
  "algorithm_u32 Aes256Gcm = 0"
| "algorithm_u32 ChaCha20Poly1305 = 1"

definition algorithm_of_u32 :: "u32 \<Rightarrow> string + encryption_algorithm" where
  "algorithm_of_u32 v =
     (if v = 0 then Inr Aes256Gcm else if v = 1 then Inr ChaCha20Poly1305
      else Inl (''Invalid algorithm: '' @ show_nat (unat v)))"

record encrypted_data =
  ed_algorithm :: encryption_algorithm
  ed_salt :: "bytes option"
  ed_kem_ciphertext :: "bytes option"
  ed_nonce :: bytes
  ed_ciphertext :: bytes

datatype encryption_error =
    RandomNumberGeneration string
  | SymmetricEncryption string
  | SymmetricDecryption string
  | KeyGeneration string
  | KeyDerivation string
  | KeyEncapsulation string
  | KeyDecapsulation string
  | InvalidInput string
  | EncInternalError string
  | Panicked

record crypto =
  cr_argon2 :: "string \<Rightarrow> bytes \<Rightarrow> string + bytes"
  cr_keypair :: "bytes \<Rightarrow> bytes \<times> bytes"
  cr_encapsulate :: "bytes \<Rightarrow> bytes \<Rightarrow> string + bytes \<times> bytes"
  cr_decapsulate :: "bytes \<Rightarrow> bytes \<Rightarrow> string + bytes"
  cr_seal :: "encryption_algorithm \<Rightarrow> bytes \<Rightarrow> bytes \<Rightarrow> bytes \<Rightarrow> string + bytes"
  cr_open :: "encryption_algorithm \<Rightarrow> bytes \<Rightarrow> bytes \<Rightarrow> bytes \<Rightarrow> string + bytes"
  cr_public_len :: nat
  cr_secret_len :: nat

subsection \<open>The service\<close>

definition derive_key_from_password :: "crypto \<Rightarrow> string \<Rightarrow> bytes \<Rightarrow> encryption_error + bytes" where
  "derive_key_from_password K password salt =
     map_errR (\<lambda>e. KeyDerivation (''Argon2id key derivation failed: '' @ e)) (cr_argon2 K password salt)"

definition encrypt_symmetric ::
  "crypto \<Rightarrow> bytes \<Rightarrow> bytes \<Rightarrow> bytes \<Rightarrow> encryption_algorithm \<Rightarrow> encryption_error + bytes \<times> bytes" where
  "encrypt_symmetric K nonce key data algorithm =
     (let failed = (case algorithm of
            Aes256Gcm \<Rightarrow> ''AES-GCM encryption failed: ''
          | ChaCha20Poly1305 \<Rightarrow> ''ChaCha20-Poly1305 encryption failed: '')
      in mapR (\<lambda>ciphertext. (nonce, ciphertext))
           (map_errR (\<lambda>e. SymmetricEncryption (failed @ e)) (cr_seal K algorithm key nonce data)))"

definition decrypt_symmetric ::
  "crypto \<Rightarrow> bytes \<Rightarrow> encrypted_data \<Rightarrow> encryption_algorithm \<Rightarrow> encryption_error + bytes" where
  "decrypt_symmetric K key ed algorithm =
     (let failed = (case algorithm of
            Aes256Gcm \<Rightarrow> ''AES-GCM decryption failed: ''
          | ChaCha20Poly1305 \<Rightarrow> ''ChaCha20-Poly1305 decryption failed: '')
      in if length (ed_nonce ed) \<noteq> 12 then Inl Panicked
         else map_errR (\<lambda>e. SymmetricDecryption (failed @ e))
                (cr_open K algorithm key (ed_nonce ed) (ed_ciphertext ed)))"

definition encrypt_with_password_and_algorithm ::
  "crypto \<Rightarrow> (string + bytes) \<Rightarrow> bytes \<Rightarrow> bytes \<Rightarrow> string \<Rightarrow> encryption_algorithm
   \<Rightarrow> encryption_error + encrypted_data" where
  "encrypt_with_password_and_algorithm K salt_draw nonce data password algorithm =
     (case salt_draw of
        Inl e \<Rightarrow> Inl (RandomNumberGeneration (''Error generating random number: '' @ e))
      | Inr salt \<Rightarrow> (case derive_key_from_password K password salt of
          Inl e \<Rightarrow> Inl e
        | Inr key \<Rightarrow> (case encrypt_symmetric K nonce key data algorithm of
            Inl e \<Rightarrow> Inl e
          | Inr (nonce, ciphertext) \<Rightarrow> Inr
              \<lparr>ed_algorithm = algorithm, ed_salt = Some salt, ed_kem_ciphertext = None,
               ed_nonce = nonce, ed_ciphertext = ciphertext\<rparr>)))"

definition encrypt_with_password ::
  "crypto \<Rightarrow> (string + bytes) \<Rightarrow> bytes \<Rightarrow> bytes \<Rightarrow> string \<Rightarrow> encryption_error + encrypted_data" where
  "encrypt_with_password K salt_draw nonce data password =
     encrypt_with_password_and_algorithm K salt_draw nonce data password default_algorithm"

definition decrypt_with_password ::
  "crypto \<Rightarrow> encrypted_data \<Rightarrow> string \<Rightarrow> encryption_error + bytes" where
  "decrypt_with_password K ed password =
     (case ed_salt ed of
        None \<Rightarrow> Inl (InvalidInput ''Missing salt for password decryption'')
      | Some salt \<Rightarrow> (case derive_key_from_password K password salt of
          Inl e \<Rightarrow> Inl e
        | Inr key \<Rightarrow> decrypt_symmetric K key ed (ed_algorithm ed)))"

definition generate_keypair :: "crypto \<Rightarrow> bytes \<Rightarrow> encryption_error + bytes \<times> bytes" where
  "generate_keypair K seed = Inr (cr_keypair K seed)"

definition wrong_length :: "string \<Rightarrow> nat \<Rightarrow> nat \<Rightarrow> string" where
  "wrong_length what expected got =
     ''Invalid '' @ what @ '' key length: expected '' @ show_nat expected @ '', got '' @ show_nat got"

definition encrypt_with_public_key_and_algorithm ::
  "crypto \<Rightarrow> bytes \<Rightarrow> bytes \<Rightarrow> bytes \<Rightarrow> bytes \<Rightarrow> encryption_algorithm
   \<Rightarrow> encryption_error + encrypted_data" where
  "encrypt_with_public_key_and_algorithm K coins nonce data public_key algorithm =
     (if length public_key \<noteq> cr_public_len K
      then Inl (InvalidInput (wrong_length ''public'' (cr_public_len K) (length public_key)))
      else case cr_encapsulate K public_key coins of
          Inl e \<Rightarrow> Inl (KeyEncapsulation (''Kyber encapsulation failed: '' @ e))
        | Inr (kem_ct, key) \<Rightarrow> (case encrypt_symmetric K nonce key data algorithm of
            Inl e \<Rightarrow> Inl e
          | Inr (nonce, payload) \<Rightarrow> Inr
              \<lparr>ed_algorithm = algorithm, ed_salt = None, ed_kem_ciphertext = Some kem_ct,
               ed_nonce = nonce, ed_ciphertext = payload\<rparr>))"

definition encrypt_with_public_key ::
  "crypto \<Rightarrow> bytes \<Rightarrow> bytes \<Rightarrow> bytes \<Rightarrow> bytes \<Rightarrow> encryption_error + encrypted_data" where
  "encrypt_with_public_key K coins nonce data public_key =
     encrypt_with_public_key_and_algorithm K coins nonce data public_key default_algorithm"

definition decrypt_with_private_key ::
  "crypto \<Rightarrow> encrypted_data \<Rightarrow> bytes \<Rightarrow> encryption_error + bytes" where
  "decrypt_with_private_key K ed private_key =
     (case ed_kem_ciphertext ed of
        None \<Rightarrow> Inl (InvalidInput ''Missing KEM ciphertext for private key decryption'')
      | Some kem_ct \<Rightarrow>
          if length private_key \<noteq> cr_secret_len K
          then Inl (InvalidInput (wrong_length ''private'' (cr_secret_len K) (length private_key)))
          else case cr_decapsulate K kem_ct private_key of
              Inl e \<Rightarrow> Inl (KeyDecapsulation (''Kyber decapsulation failed: '' @ e))
            | Inr key \<Rightarrow> decrypt_symmetric K key ed (ed_algorithm ed))"

subsection \<open>What the primitives promise\<close>

text \<open>
  An authenticated cipher opens what it sealed and nothing else under the same key and nonce,
  and a decapsulation with the secret key of a generated pair yields the encapsulated secret.
  \<open>key_ok\<close> is a pair with that property and the two lengths of the scheme.
\<close>

definition aead_ok :: "crypto \<Rightarrow> bool" where
  "aead_ok K \<longleftrightarrow> (\<forall>alg key nonce data ct.
     cr_open K alg key nonce ct = Inr data \<longleftrightarrow> cr_seal K alg key nonce data = Inr ct)"

definition key_ok :: "crypto \<Rightarrow> bytes \<times> bytes \<Rightarrow> bool" where
  "key_ok K kp \<longleftrightarrow> length (fst kp) = cr_public_len K \<and> length (snd kp) = cr_secret_len K
     \<and> (\<forall>coins ct ss. cr_encapsulate K (fst kp) coins = Inr (ct, ss) \<longrightarrow>
          cr_decapsulate K ct (snd kp) = Inr ss)"

text \<open>A keyed instance: the key and nonce are stamped in front of the text.\<close>

definition toy_crypto :: crypto where
  "toy_crypto = \<lparr>cr_argon2 = \<lambda>p s. Inr (utf8_bytes p @ s), cr_keypair = \<lambda>seed. ([1], [2]),
     cr_encapsulate = \<lambda>pk coins. Inr (coins, coins), cr_decapsulate = \<lambda>ct sk. Inr ct,
     cr_seal = \<lambda>alg key nonce data. Inr (key @ nonce @ data),
     cr_open = \<lambda>alg key nonce ct. if take (length (key @ nonce)) ct = key @ nonce
         then Inr (drop (length (key @ nonce)) ct) else Inl ''tag mismatch'',
     cr_public_len = 1, cr_secret_len = 1\<rparr>"

lemma toy_crypto_ok: "aead_ok toy_crypto" "key_ok toy_crypto ([1], [2])"
proof -
  have "take (length p) ct = p \<and> drop (length p) ct = x \<longleftrightarrow> p @ x = ct" for p x ct :: bytes
    by (metis append_eq_conv_conj append_take_drop_id)
  from this [of "key @ nonce" for key nonce] show "aead_ok toy_crypto"
    by (auto simp: aead_ok_def toy_crypto_def)
  show "key_ok toy_crypto ([1], [2])" by (simp add: key_ok_def toy_crypto_def)
qed

subsection \<open>Correctness\<close>

lemma symmetric_roundtrip:
  assumes "aead_ok K" and "encrypt_symmetric K nonce key data alg = Inr (n, ct)" and "length nonce = 12"
    and "ed_nonce ed = n" and "ed_ciphertext ed = ct"
  shows "decrypt_symmetric K key ed alg = Inr data"
proof -
  have "cr_seal K alg key nonce data = Inr ct" and n: "n = nonce"
    using assms(2) by (auto simp: encrypt_symmetric_def mapR_def map_errR_def split: sum.splits)
  then have "cr_open K alg key nonce ct = Inr data" using assms(1) by (simp add: aead_ok_def)
  then show ?thesis by (simp add: decrypt_symmetric_def assms(3-5) n)
qed

lemma public_key_roundtrip:
  assumes "aead_ok K" and "key_ok K kp" and "length nonce = 12"
    and "encrypt_with_public_key K coins nonce data (fst kp) = Inr ed"
  shows "decrypt_with_private_key K ed (snd kp) = Inr data"
  using assms(2,4) symmetric_roundtrip [OF assms(1) _ assms(3)]
  by (auto simp: encrypt_with_public_key_def encrypt_with_public_key_and_algorithm_def
      decrypt_with_private_key_def key_ok_def split: if_splits sum.splits)

lemma public_key_total:
  assumes "key_ok K kp" and "cr_encapsulate K (fst kp) coins = Inr (kem, key)"
    and "cr_seal K default_algorithm key nonce data = Inr ct"
  shows "encrypt_with_public_key K coins nonce data (fst kp) = Inr
     \<lparr>ed_algorithm = default_algorithm, ed_salt = None, ed_kem_ciphertext = Some kem,
      ed_nonce = nonce, ed_ciphertext = ct\<rparr>"
  using assms by (simp add: encrypt_with_public_key_def encrypt_with_public_key_and_algorithm_def
      key_ok_def encrypt_symmetric_def)

text \<open>What is encrypted decrypts to itself: with the password it was encrypted under, for both
  ciphers, and with the secret key that belongs to the public key. The two modes do not mix: a
  password body has no encapsulated key and a public-key body has no salt, and decrypting
  either in the other mode is an input error, as is a key of the wrong length.
\<close>

theorem encryption_roundtrip:
  assumes "aead_ok K" and "length nonce = 12"
  shows "(encrypt_with_password_and_algorithm K salt_draw nonce data password alg = Inr ed \<longrightarrow>
          decrypt_with_password K ed password = Inr data
          \<and> (\<exists>m. decrypt_with_private_key K ed sk = Inl (InvalidInput m)))
     \<and> (key_ok K kp \<and> encrypt_with_public_key_and_algorithm K coins nonce data (fst kp) alg = Inr ed \<longrightarrow>
          decrypt_with_private_key K ed (snd kp) = Inr data
          \<and> (\<exists>m. decrypt_with_password K ed password = Inl (InvalidInput m))
          \<and> (length sk \<noteq> cr_secret_len K \<longrightarrow>
              decrypt_with_private_key K ed sk
                = Inl (InvalidInput (wrong_length ''private'' (cr_secret_len K) (length sk)))))"
  using symmetric_roundtrip [OF assms(1) _ assms(2)]
  by (auto simp: encrypt_with_password_and_algorithm_def decrypt_with_password_def key_ok_def
      encrypt_with_public_key_and_algorithm_def decrypt_with_private_key_def split: if_splits sum.splits)

theorem encryption_roundtrip_witness:
  "\<exists>ed. encrypt_with_password_and_algorithm toy_crypto (Inr [9]) (replicate 12 0) [1, 2, 3] ''pw'' Aes256Gcm = Inr ed
     \<and> decrypt_with_password toy_crypto ed ''pw'' = Inr [1, 2, 3]"
proof -
  have "\<exists>ed. encrypt_with_password_and_algorithm toy_crypto (Inr [9]) (replicate 12 0) [1, 2, 3] ''pw'' Aes256Gcm = Inr ed"
    by (simp add: encrypt_with_password_and_algorithm_def derive_key_from_password_def toy_crypto_def
        encrypt_symmetric_def)
  with encryption_roundtrip [OF toy_crypto_ok(1), of "replicate 12 0" "Inr [9]" "[1, 2, 3]" "''pw''" Aes256Gcm]
  show ?thesis by fastforce
qed

end
