(* ===== verification/Db_Server.thy ===== *)
theory Db_Server
  imports Db_Raft Raft_Wire
begin

text \<open>
  The request handlers of the database service, \<open>db/src/server.rs\<close>: writes are proposed to the
  consensus engine as a log entry, reads go to the local store.

  The state of a node is its store and the engine's state \<open>'r\<close>. The engine itself is a
  parameter: \<open>dv_client_write\<close> for \<open>raft.client_write\<close> (an error of it is its text) and
  \<open>dv_metrics\<close> for \<open>raft.metrics()\<close>. The text of a storage error is \<open>dv_error_text\<close>; the
  clock of a handler is its argument \<open>now\<close>. The messages are those of \<open>db/proto/db.proto\<close>.
\<close>

subsection \<open>Messages\<close>

record ticket_index_msg =
  xi_status :: u32
  xi_account_uuid :: string
  xi_assigned_to_uuid :: "string option"
  xi_project :: string
  xi_tracking_url :: "string option"
  xi_created_at_unix :: i64
  xi_updated_at_unix :: i64

record user_index_msg =
  xu_username :: string
  xu_email :: string
  xu_role :: u32

record ticket_write =
  tw_ticket_id :: u64
  tw_encrypted_body :: bytes
  tw_index :: "ticket_index_msg option"

record ticket_record =
  tr_ticket_id :: u64
  tr_encrypted_body :: bytes
  tr_deleted :: bool
  tr_deleted_at_unix :: i64

record ticket_lookup =
  tl_ticket_id :: u64
  tl_include_deleted :: bool

record ticket_query_msg =
  qm_status :: "u32 option"
  qm_assigned_to_uuid :: "string option"
  qm_account_uuid :: "string option"
  qm_project :: "string option"
  qm_include_deleted :: bool
  qm_limit :: u32

record user_write =
  uw_user_uuid :: string
  uw_encrypted_body :: bytes
  uw_index :: "user_index_msg option"

record user_record =
  ur_user_uuid :: string
  ur_encrypted_body :: bytes
  ur_deleted :: bool
  ur_deleted_at_unix :: i64

record user_lookup =
  ul_user_uuid :: string
  ul_include_deleted :: bool

record get_response =
  gr_found :: bool
  gr_value :: bytes
  gr_error :: string

record ack =
  ak_success :: bool
  ak_error :: string

record batch_ack =
  ba_success :: bool
  ba_written :: u32
  ba_error :: string

datatype server_state = Learner | Follower | Candidate | Leader | Shutdown

record metrics =
  mx_id :: u64
  mx_state :: server_state
  mx_current_leader :: "u64 option"
  mx_nodes :: "u64 list"
  mx_current_term :: u64
  mx_last_applied :: "log_id option"

record health_response =
  hr_healthy :: bool
  hr_node_id :: string
  hr_role :: string

record cluster_status_response =
  cs_leader_id :: string
  cs_member_ids :: "string list"
  cs_term :: u64
  cs_commit_index :: u64

subsection \<open>Conversions\<close>

text \<open>\<open>u8::try_from\<close> on a \<open>u32\<close>.\<close>

definition u8_of_u32 :: "u32 \<Rightarrow> u8 option" where
  "u8_of_u32 n = (if n < 256 then Some (ucast n) else None)"

definition ticket_index_from_proto :: "ticket_index_msg option \<Rightarrow> ticket_index_fields" where
  "ticket_index_from_proto opt =
     (let idx = (case opt of Some i \<Rightarrow> i | None \<Rightarrow>
            \<lparr>xi_status = 0, xi_account_uuid = [], xi_assigned_to_uuid = None, xi_project = [],
             xi_tracking_url = None, xi_created_at_unix = 0, xi_updated_at_unix = 0\<rparr>)
      in \<lparr>ti_status = (case u8_of_u32 (xi_status idx) of Some s \<Rightarrow> s | None \<Rightarrow> 0),
          ti_account_uuid = xi_account_uuid idx,
          ti_assigned_to_uuid = xi_assigned_to_uuid idx,
          ti_project = xi_project idx,
          ti_tracking_url = xi_tracking_url idx,
          ti_created_at_unix = xi_created_at_unix idx,
          ti_updated_at_unix = xi_updated_at_unix idx\<rparr>)"

definition user_index_from_proto :: "user_index_msg option \<Rightarrow> user_index_fields" where
  "user_index_from_proto opt =
     (let idx = (case opt of Some i \<Rightarrow> i | None \<Rightarrow> \<lparr>xu_username = [], xu_email = [], xu_role = 0\<rparr>)
      in \<lparr>ui_username = xu_username idx, ui_email = xu_email idx,
          ui_role = (case u8_of_u32 (xu_role idx) of Some r \<Rightarrow> r | None \<Rightarrow> 0)\<rparr>)"

definition ticket_record_of :: "u64 \<Rightarrow> stored_ticket \<Rightarrow> ticket_record" where
  "ticket_record_of i stored =
     \<lparr>tr_ticket_id = i, tr_encrypted_body = sk_body stored, tr_deleted = sk_deleted stored,
      tr_deleted_at_unix = sk_deleted_at_unix stored\<rparr>"

definition user_record_of :: "string \<Rightarrow> stored_user \<Rightarrow> user_record" where
  "user_record_of u stored =
     \<lparr>ur_user_uuid = u, ur_encrypted_body = su_body stored, ur_deleted = su_deleted stored,
      ur_deleted_at_unix = su_deleted_at_unix stored\<rparr>"

definition query_from_proto :: "ticket_query_msg \<Rightarrow> ticket_query" where
  "query_from_proto req =
     \<lparr>tq_status = Option.bind (qm_status req) u8_of_u32,
      tq_assigned_to_uuid = qm_assigned_to_uuid req,
      tq_account_uuid = qm_account_uuid req,
      tq_project = qm_project req,
      tq_include_deleted = qm_include_deleted req,
      tq_limit = unat (qm_limit req)\<rparr>"

subsection \<open>The service\<close>

record ('d, 'r) db_service =
  dv_client_write :: "log_entry \<Rightarrow> ('d \<times> 'r, string, db_response) eff"
  dv_metrics :: "'r \<Rightarrow> metrics"
  dv_error_text :: "store_error \<Rightarrow> string"

text \<open>A storage operation, in a handler: its error becomes an internal status.\<close>

definition local_op :: "(store_error \<Rightarrow> string) \<Rightarrow> string \<Rightarrow> ('d, 'a) act \<Rightarrow> ('d \<times> 'r, status, 'a) eff" where
  "local_op text_of what m = (\<lambda>(d, r). case m d of
       (Inl e, d') \<Rightarrow> (Inl (Internal (what @ text_of e)), (d', r))
     | (Inr x, d') \<Rightarrow> (Inr x, (d', r)))"

definition propose :: "('d, 'r) db_service \<Rightarrow> log_entry \<Rightarrow> ('d \<times> 'r, status, db_response) eff" where
  "propose Q e = map_err (\<lambda>t. Internal (''Raft write failed: '' @ t)) (dv_client_write Q e)"

definition rpc_create_ticket ::
  "('d, 'r) db_service \<Rightarrow> ticket_write \<Rightarrow> ('d \<times> 'r, status, ticket_record) eff" where
  "rpc_create_ticket Q req =
     bindA (propose Q (CreateTicket (tw_encrypted_body req) (ticket_index_from_proto (tw_index req))))
       (\<lambda>resp. case Option.bind (dr_value resp) from_be_bytes of
          None \<Rightarrow> throw (Internal ''create_ticket did not return an id'')
        | Some i \<Rightarrow> ret \<lparr>tr_ticket_id = i, tr_encrypted_body = tw_encrypted_body req,
                       tr_deleted = False, tr_deleted_at_unix = 0\<rparr>)"

definition rpc_get_ticket ::
  "('d, 'r) db_service \<Rightarrow> ('d, 'z) dbstore_scheme \<Rightarrow> ticket_lookup \<Rightarrow> ('d \<times> 'r, status, ticket_record) eff" where
  "rpc_get_ticket Q E req =
     bindA (local_op (dv_error_text Q) ''Storage read failed: ''
              (get_ticket E (tl_ticket_id req) (tl_include_deleted req)))
       (\<lambda>found. case found of
          Some stored \<Rightarrow> ret (ticket_record_of (tl_ticket_id req) stored)
        | None \<Rightarrow> throw (NotFoundStatus ''ticket not found''))"

definition rpc_update_ticket ::
  "('d, 'r) db_service \<Rightarrow> ('d, 'z) dbstore_scheme \<Rightarrow> ticket_write \<Rightarrow> ('d \<times> 'r, status, ticket_record) eff" where
  "rpc_update_ticket Q E req =
     (if tw_ticket_id req = 0 then throw (InvalidArgument ''update_ticket requires a ticket_id'')
      else thenA (propose Q (UpdateTicket (tw_ticket_id req) (tw_encrypted_body req)
                    (ticket_index_from_proto (tw_index req))))
        (bindA (local_op (dv_error_text Q) ''Storage read failed: '' (get_ticket E (tw_ticket_id req) True))
          (\<lambda>found. case found of
             Some stored \<Rightarrow> ret (ticket_record_of (tw_ticket_id req) stored)
           | None \<Rightarrow> throw (NotFoundStatus ''ticket not found''))))"

definition rpc_soft_delete_ticket ::
  "('d, 'r) db_service \<Rightarrow> i64 \<Rightarrow> ticket_lookup \<Rightarrow> ('d \<times> 'r, status, bool) eff" where
  "rpc_soft_delete_ticket Q now req =
     thenA (propose Q (SoftDeleteTicket (tl_ticket_id req) now)) (ret True)"

definition rpc_query_tickets ::
  "('d, 'r) db_service \<Rightarrow> ('d, 'z) dbstore_scheme \<Rightarrow> ticket_query_msg
   \<Rightarrow> ('d \<times> 'r, status, ticket_record list) eff" where
  "rpc_query_tickets Q E req =
     bindA (local_op (dv_error_text Q) ''Storage query failed: '' (query_tickets E (query_from_proto req)))
       (\<lambda>rows. ret (map (\<lambda>(i, stored). ticket_record_of i stored) rows))"

definition rpc_create_user ::
  "('d, 'r) db_service \<Rightarrow> user_write \<Rightarrow> ('d \<times> 'r, status, user_record) eff" where
  "rpc_create_user Q req =
     (if uw_user_uuid req = [] then throw (InvalidArgument ''create_user requires a user_uuid'')
      else thenA (propose Q (CreateUser (uw_user_uuid req) (uw_encrypted_body req)
                    (user_index_from_proto (uw_index req))))
        (ret \<lparr>ur_user_uuid = uw_user_uuid req, ur_encrypted_body = uw_encrypted_body req,
              ur_deleted = False, ur_deleted_at_unix = 0\<rparr>))"

definition rpc_get_user ::
  "('d, 'r) db_service \<Rightarrow> ('d, 'z) dbstore_scheme \<Rightarrow> user_lookup \<Rightarrow> ('d \<times> 'r, status, user_record) eff" where
  "rpc_get_user Q E req =
     bindA (local_op (dv_error_text Q) ''Storage read failed: ''
              (get_user E (ul_user_uuid req) (ul_include_deleted req)))
       (\<lambda>found. case found of
          Some stored \<Rightarrow> ret (user_record_of (ul_user_uuid req) stored)
        | None \<Rightarrow> throw (NotFoundStatus ''user not found''))"

definition rpc_update_user ::
  "('d, 'r) db_service \<Rightarrow> ('d, 'z) dbstore_scheme \<Rightarrow> user_write \<Rightarrow> ('d \<times> 'r, status, user_record) eff" where
  "rpc_update_user Q E req =
     (if uw_user_uuid req = [] then throw (InvalidArgument ''update_user requires a user_uuid'')
      else thenA (propose Q (UpdateUser (uw_user_uuid req) (uw_encrypted_body req)
                    (user_index_from_proto (uw_index req))))
        (bindA (local_op (dv_error_text Q) ''Storage read failed: '' (get_user E (uw_user_uuid req) True))
          (\<lambda>found. case found of
             Some stored \<Rightarrow> ret (user_record_of (uw_user_uuid req) stored)
           | None \<Rightarrow> throw (NotFoundStatus ''user not found''))))"

definition rpc_soft_delete_user ::
  "('d, 'r) db_service \<Rightarrow> i64 \<Rightarrow> user_lookup \<Rightarrow> ('d \<times> 'r, status, bool) eff" where
  "rpc_soft_delete_user Q now req =
     thenA (propose Q (SoftDeleteUser (ul_user_uuid req) now)) (ret True)"

subsection \<open>Raw key-value requests\<close>

definition rpc_put ::
  "('d, 'r) db_service \<Rightarrow> string \<Rightarrow> bytes \<Rightarrow> bytes \<Rightarrow> ('d \<times> 'r, status, ack) eff" where
  "rpc_put Q collection key val =
     thenA (propose Q (Put collection key val)) (ret \<lparr>ak_success = True, ak_error = []\<rparr>)"

definition rpc_get ::
  "('d, 'r) db_service \<Rightarrow> ('d, 'z) dbstore_scheme \<Rightarrow> string \<Rightarrow> bytes \<Rightarrow> ('d \<times> 'r, status, get_response) eff" where
  "rpc_get Q E collection key =
     bindA (local_op (dv_error_text Q) ''Storage read failed: '' (get E collection key))
       (\<lambda>found. ret (case found of
            Some val \<Rightarrow> \<lparr>gr_found = True, gr_value = val, gr_error = []\<rparr>
          | None \<Rightarrow> \<lparr>gr_found = False, gr_value = [], gr_error = []\<rparr>))"

definition rpc_delete ::
  "('d, 'r) db_service \<Rightarrow> string \<Rightarrow> bytes \<Rightarrow> ('d \<times> 'r, status, ack) eff" where
  "rpc_delete Q collection key =
     thenA (propose Q (Delete collection key)) (ret \<lparr>ak_success = True, ak_error = []\<rparr>)"

definition rpc_list ::
  "('d, 'r) db_service \<Rightarrow> ('d, 'z) dbstore_scheme \<Rightarrow> string \<Rightarrow> bytes \<Rightarrow> u32
   \<Rightarrow> ('d \<times> 'r, status, (bytes \<times> bytes) list) eff" where
  "rpc_list Q E collection pfx limit =
     local_op (dv_error_text Q) ''Storage list failed: ''
       (list_pairs E collection pfx (if 0 < limit then Some (unat limit) else None))"

definition rpc_exists ::
  "('d, 'r) db_service \<Rightarrow> ('d, 'z) dbstore_scheme \<Rightarrow> string \<Rightarrow> bytes \<Rightarrow> ('d \<times> 'r, status, bool) eff" where
  "rpc_exists Q E collection key =
     local_op (dv_error_text Q) ''Storage check failed: '' (exists E collection key)"

definition rpc_batch_put ::
  "('d, 'r) db_service \<Rightarrow> string \<Rightarrow> (bytes \<times> bytes) list \<Rightarrow> ('d \<times> 'r, status, batch_ack) eff" where
  "rpc_batch_put Q collection items =
     (let count = (if length items < 2 ^ 32 then of_nat (length items) else - 1)
      in thenA (propose Q (BatchPut collection items))
           (ret \<lparr>ba_success = True, ba_written = count, ba_error = []\<rparr>))"

subsection \<open>Cluster requests\<close>

definition show_u64 :: "u64 \<Rightarrow> string" where
  "show_u64 n = show_nat (unat n)"

definition rpc_health :: "('d, 'r) db_service \<Rightarrow> ('d \<times> 'r, status, health_response) eff" where
  "rpc_health Q = (\<lambda>(d, r). let m = dv_metrics Q r in
     (Inr \<lparr>hr_healthy = (case mx_state m of Leader \<Rightarrow> True | Follower \<Rightarrow> True | _ \<Rightarrow> False),
           hr_node_id = show_u64 (mx_id m),
           hr_role = (case mx_state m of Leader \<Rightarrow> ''leader'' | Follower \<Rightarrow> ''follower''
             | Candidate \<Rightarrow> ''candidate'' | Learner \<Rightarrow> ''learner'' | Shutdown \<Rightarrow> ''shutdown'')\<rparr>, (d, r)))"

definition rpc_cluster_status ::
  "('d, 'r) db_service \<Rightarrow> ('d \<times> 'r, status, cluster_status_response) eff" where
  "rpc_cluster_status Q = (\<lambda>(d, r). let m = dv_metrics Q r in
     (Inr \<lparr>cs_leader_id = (case mx_current_leader m of Some i \<Rightarrow> show_u64 i | None \<Rightarrow> []),
           cs_member_ids = map show_u64 (mx_nodes m),
           cs_term = mx_current_term m,
           cs_commit_index = (case mx_last_applied m of Some i \<Rightarrow> li_index i | None \<Rightarrow> 0)\<rparr>, (d, r)))"

end
