(* ===== verification/Custodian_Server.thy ===== *)
theory Custodian_Server
  imports Encryption Lock_Store Db_Server
begin

text \<open>
  The request handlers of the custodian, \<open>custodian/src/server.rs\<close>, and its client of the
  database service, \<open>custodian/src/db_client.rs\<close>.

  The messages are those of \<open>custodian/proto/custodian.proto\<close>; an enumeration field is an
  \<open>i32\<close>. The state of a handler is the custodian's node (its lock store and the consensus
  engine's state \<open>'r\<close>) and the state \<open>'b\<close> of the database service behind the client.
\<close>

subsection \<open>Messages\<close>

type_synonym i32 = "32 word"

record timestamp =
  ts_seconds :: i64
  ts_nanos :: i32

datatype next_action_kind =
    KindFollowUp timestamp
  | KindAppointment timestamp
  | KindAutoClose i32

record history_entry_msg =
  hm_user_uuid :: string
  hm_timestamp :: "timestamp option"
  hm_action :: string
  hm_details :: string

record device_msg =
  dm_make :: string
  dm_model :: string
  dm_mac_address :: "string option"
  dm_serial_number :: "string option"

datatype device_type_msg =
    MsgDslModem device_msg
  | MsgCoaxModem device_msg
  | MsgOnt device_msg
  | MsgFixedWirelessAntenna device_msg
  | MsgVpnGw device_msg
  | MsgSwitch device_msg
  | MsgRouter device_msg
  | MsgFirewall device_msg

record ticket_msg =
  mg_ticket_id :: u64
  mg_customer_ticket_number :: "string option"
  mg_isp_ticket_number :: "string option"
  mg_other_ticket_number :: "string option"
  mg_title :: string
  mg_project :: string
  mg_account_uuid :: string
  mg_symptom :: i32
  mg_priority :: i32
  mg_status :: i32
  mg_next_action :: "next_action_kind option option"
  mg_resolution :: "i32 option"
  mg_locked_by_uuid :: "string option"
  mg_assigned_to_uuid :: "string option"
  mg_created_by_uuid :: string
  mg_created_at :: "timestamp option"
  mg_updated_by_uuid :: string
  mg_updated_at :: "timestamp option"
  mg_history :: "history_entry_msg list"
  mg_ebond :: "string option"
  mg_tracking_url :: "string option"
  mg_network_devices :: "device_type_msg option list"
  mg_schema_version :: u32

record create_ticket_request =
  cr_title :: string
  cr_project :: string
  cr_account_uuid :: string
  cr_symptom :: i32
  cr_priority :: i32
  cr_created_by_uuid :: string
  cr_customer_ticket_number :: "string option"
  cr_isp_ticket_number :: "string option"
  cr_other_ticket_number :: "string option"
  cr_ebond :: "string option"
  cr_tracking_url :: "string option"
  cr_network_devices :: "device_type_msg option list"

record update_ticket_request =
  up_ticket_id :: u64
  up_title :: "string option"
  up_project :: "string option"
  up_symptom :: "i32 option"
  up_priority :: "i32 option"
  up_status :: "i32 option"
  up_next_action :: "next_action_kind option option"
  up_resolution :: "i32 option"
  up_assigned_to_uuid :: "string option"
  up_updated_by_uuid :: "string option"
  up_ebond :: "string option"
  up_tracking_url :: "string option"
  up_network_devices :: "device_type_msg option list"

record lock_request =
  lq_ticket_id :: u64
  lq_user_uuid :: string

record lock_response_msg =
  lm_success :: bool
  lm_error :: string
  lm_current_holder :: "string option"

record custodian_health =
  ch_healthy :: bool
  ch_status :: string

record custodian_cluster_status =
  cc_leader_id :: string
  cc_follower_ids :: "string list"
  cc_term :: u64
  cc_commit_index :: u64

subsection \<open>What the handlers call\<close>

text \<open>
  The third-party functions: \<open>uuid\<close>'s parser and text, \<open>prost\<close>'s and \<open>chrono\<close>'s timestamp
  conversions, \<open>serde_json\<close> for tickets and encrypted bodies, the cryptographic primitives, and
  the texts of errors.
\<close>

record custodian_lib =
  cl_parse_uuid :: "string \<Rightarrow> uuid option"
  cl_uuid_text :: "uuid \<Rightarrow> string"
  cl_to_timestamp :: "datetime \<Rightarrow> timestamp"
  cl_from_timestamp :: "i64 \<Rightarrow> u32 \<Rightarrow> datetime option"
  cl_ticket_json :: "ticket codec"
  cl_body_json :: "encrypted_data codec"
  cl_crypto :: crypto
  cl_store_text :: "store_error \<Rightarrow> string"
  cl_crypto_text :: "encryption_error \<Rightarrow> string"
  cl_status_text :: "status \<Rightarrow> string"

text \<open>The database service as its client sees it: requests that answer or fail with a status.\<close>

record 'b database_api =
  da_put :: "string \<Rightarrow> bytes \<Rightarrow> bytes \<Rightarrow> ('b, status, ack) eff"
  da_get :: "string \<Rightarrow> bytes \<Rightarrow> ('b, status, get_response) eff"
  da_create_ticket :: "ticket_write \<Rightarrow> ('b, status, ticket_record) eff"
  da_get_ticket :: "ticket_lookup \<Rightarrow> ('b, status, ticket_record) eff"
  da_update_ticket :: "ticket_write \<Rightarrow> ('b, status, ticket_record) eff"
  da_soft_delete_ticket :: "ticket_lookup \<Rightarrow> ('b, status, bool) eff"
  da_query_tickets :: "ticket_query_msg \<Rightarrow> ('b, status, ticket_record list) eff"

text \<open>The error of a raw write: the call failed, or the service refused it with a text.\<close>

datatype client_error = CallFailed status | Refused string

definition dbc_put :: "'b database_api \<Rightarrow> string \<Rightarrow> bytes \<Rightarrow> bytes \<Rightarrow> ('b, client_error, unit) eff" where
  "dbc_put A collection key val =
     bindA (map_err CallFailed (da_put A collection key val))
       (\<lambda>resp. if ak_success resp then ret () else throw (Refused (ak_error resp)))"

definition dbc_get :: "'b database_api \<Rightarrow> string \<Rightarrow> bytes \<Rightarrow> ('b, client_error, bytes option) eff" where
  "dbc_get A collection key =
     bindA (map_err CallFailed (da_get A collection key))
       (\<lambda>r. if gr_found r then ret (Some (gr_value r)) else ret None)"

definition dbc_create_ticket :: "'b database_api \<Rightarrow> bytes \<Rightarrow> ticket_index_msg \<Rightarrow> ('b, status, u64) eff" where
  "dbc_create_ticket A encrypted_body index =
     bindA (da_create_ticket A \<lparr>tw_ticket_id = 0, tw_encrypted_body = encrypted_body, tw_index = Some index\<rparr>)
       (\<lambda>resp. ret (tr_ticket_id resp))"

definition dbc_get_ticket :: "'b database_api \<Rightarrow> u64 \<Rightarrow> bool \<Rightarrow> ('b, status, ticket_record option) eff" where
  "dbc_get_ticket A ticket_id include_deleted = (\<lambda>b.
     case da_get_ticket A \<lparr>tl_ticket_id = ticket_id, tl_include_deleted = include_deleted\<rparr> b of
       (Inr resp, b') \<Rightarrow> (Inr (Some resp), b')
     | (Inl (NotFoundStatus m), b') \<Rightarrow> (Inr None, b')
     | (Inl e, b') \<Rightarrow> (Inl e, b'))"

definition dbc_update_ticket ::
  "'b database_api \<Rightarrow> u64 \<Rightarrow> bytes \<Rightarrow> ticket_index_msg \<Rightarrow> ('b, status, unit) eff" where
  "dbc_update_ticket A ticket_id encrypted_body index =
     thenA (da_update_ticket A \<lparr>tw_ticket_id = ticket_id, tw_encrypted_body = encrypted_body, tw_index = Some index\<rparr>)
       (ret ())"

definition dbc_soft_delete_ticket :: "'b database_api \<Rightarrow> u64 \<Rightarrow> ('b, status, unit) eff" where
  "dbc_soft_delete_ticket A ticket_id =
     thenA (da_soft_delete_ticket A \<lparr>tl_ticket_id = ticket_id, tl_include_deleted = False\<rparr>) (ret ())"

definition dbc_query_tickets ::
  "'b database_api \<Rightarrow> ticket_query_msg \<Rightarrow> ('b, status, ticket_record list) eff" where
  "dbc_query_tickets A query = da_query_tickets A query"

text \<open>The service: its engine, its key pair and, when one is configured, its database client.\<close>

record ('c, 'r, 'b) custodian =
  cu_client_write :: "lock_command \<Rightarrow> ('c \<times> 'r, string, lock_response) eff"
  cu_metrics :: "'r \<Rightarrow> metrics"
  cu_db :: "'b database_api option"
  cu_keypair :: "bytes \<times> bytes"

subsection \<open>Configuration\<close>

text \<open>\<open>i64::from_str\<close>: an optional sign, then decimal digits; out of range is an error.\<close>

fun parse_digits :: "string \<Rightarrow> nat \<Rightarrow> nat option" where
  "parse_digits [] n = Some n"
| "parse_digits (c # cs) n =
     (if 48 \<le> (of_char c :: nat) \<and> (of_char c :: nat) \<le> 57 then parse_digits cs (10 * n + (of_char c - 48)) else None)"

definition parse_i64 :: "string \<Rightarrow> i64 option" where
  "parse_i64 s =
     (let (neg, digits) = (case s of
            c # cs \<Rightarrow> if c = CHR ''-'' then (True, cs) else if c = CHR ''+'' then (False, cs) else (False, s)
          | [] \<Rightarrow> (False, []))
      in if digits = [] then None
         else case parse_digits digits 0 of
             None \<Rightarrow> None
           | Some n \<Rightarrow>
               if neg then (if n \<le> 2 ^ 63 then Some (- of_nat n) else None)
               else (if n < 2 ^ 63 then Some (of_nat n) else None))"

definition lock_ttl_secs :: "string option \<Rightarrow> i64" where
  "lock_ttl_secs env =
     (case Option.bind env parse_i64 of Some v \<Rightarrow> v | None \<Rightarrow> 900)"

subsection \<open>Conversions\<close>

definition u8_of_i32 :: "i32 \<Rightarrow> u8" where
  "u8_of_i32 n = (if 0 \<le> sint n \<and> sint n < 256 then ucast n else 0)"

definition proto_to_dt :: "custodian_lib \<Rightarrow> timestamp \<Rightarrow> datetime" where
  "proto_to_dt L ts =
     (let nanos = (if 0 \<le> sint (ts_nanos ts) then ts_nanos ts else 0)
      in case cl_from_timestamp L (ts_seconds ts) nanos of Some t \<Rightarrow> t | None \<Rightarrow> epoch)"

fun auto_close_to_proto :: "auto_close_schedule \<Rightarrow> i32" where
  "auto_close_to_proto Hours24 = 2"
| "auto_close_to_proto Hours48 = 3"
| "auto_close_to_proto Hours72 = 4"
| "auto_close_to_proto EndOfDay = 1"

definition proto_to_auto_close :: "i32 \<Rightarrow> auto_close_schedule" where
  "proto_to_auto_close v =
     (if v = 2 then Hours24 else if v = 3 then Hours48 else if v = 4 then Hours72 else EndOfDay)"

fun map_next_action :: "custodian_lib \<Rightarrow> next_action \<Rightarrow> next_action_kind option option" where
  "map_next_action L (FollowUp t) = Some (Some (KindFollowUp (cl_to_timestamp L t)))"
| "map_next_action L (Appointment t) = Some (Some (KindAppointment (cl_to_timestamp L t)))"
| "map_next_action L (AutoCloseAt schedule) = Some (Some (KindAutoClose (auto_close_to_proto schedule)))"
| "map_next_action L NoAction = None"

fun proto_to_next_action :: "custodian_lib \<Rightarrow> next_action_kind option \<Rightarrow> next_action" where
  "proto_to_next_action L (Some (KindFollowUp ts)) = FollowUp (proto_to_dt L ts)"
| "proto_to_next_action L (Some (KindAppointment ts)) = Appointment (proto_to_dt L ts)"
| "proto_to_next_action L (Some (KindAutoClose v)) = AutoCloseAt (proto_to_auto_close v)"
| "proto_to_next_action L None = NoAction"

text \<open>The arrow of the history line is U+2192, three bytes.\<close>

definition arrow :: string where
  "arrow = '' '' @ [CHR 0xE2, CHR 0x86, CHR 0x92] @ '' ''"

definition map_history_entry :: "custodian_lib \<Rightarrow> history_entry \<Rightarrow> history_entry_msg" where
  "map_history_entry L entry =
     (let details = (case (he_old_value entry, he_new_value entry) of
            (Some old, Some new) \<Rightarrow> he_field_changed entry @ '': '' @ old @ arrow @ new
          | (Some old, None) \<Rightarrow> he_field_changed entry @ '': '' @ old @ arrow @ ''(removed)''
          | (None, Some new) \<Rightarrow> he_field_changed entry @ '': (new)'' @ arrow @ new
          | (None, None) \<Rightarrow> he_field_changed entry)
      in \<lparr>hm_user_uuid = cl_uuid_text L (he_user_id entry),
          hm_timestamp = Some (cl_to_timestamp L (he_timestamp entry)),
          hm_action = he_field_changed entry, hm_details = details\<rparr>)"

definition device_fields :: "device_info \<Rightarrow> device_msg" where
  "device_fields i = \<lparr>dm_make = dev_make i, dm_model = dev_model i,
     dm_mac_address = map_option as_str (dev_mac_address i), dm_serial_number = dev_serial_number i\<rparr>"

fun map_network_device :: "network_device \<Rightarrow> device_type_msg option" where
  "map_network_device (DslModem i) = Some (MsgDslModem (device_fields i))"
| "map_network_device (CoaxModem i) = Some (MsgCoaxModem (device_fields i))"
| "map_network_device (Ont i) = Some (MsgOnt (device_fields i))"
| "map_network_device (FixedWirelessAntenna i) = Some (MsgFixedWirelessAntenna (device_fields i))"
| "map_network_device (VpnGw i) = Some (MsgVpnGw (device_fields i))"
| "map_network_device (Switch i) = Some (MsgSwitch (device_fields i))"
| "map_network_device (Router i) = Some (MsgRouter (device_fields i))"
| "map_network_device (Firewall i) = Some (MsgFirewall (device_fields i))"

definition domain_to_proto :: "custodian_lib \<Rightarrow> ticket \<Rightarrow> ticket_msg" where
  "domain_to_proto L t =
     \<lparr>mg_ticket_id = tk_ticket_id t,
      mg_customer_ticket_number = tk_customer_ticket_number t,
      mg_isp_ticket_number = tk_isp_ticket_number t,
      mg_other_ticket_number = tk_other_ticket_number t,
      mg_title = tk_title t, mg_project = tk_project t,
      mg_account_uuid = cl_uuid_text L (tk_account_uuid t),
      mg_symptom = ucast (symptom_u8 (tk_symptom t)),
      mg_priority = ucast (priority_u8 (tk_priority t)),
      mg_status = ucast (status_u8 (tk_status t)),
      mg_next_action = map_next_action L (tk_next_action t),
      mg_resolution = map_option (\<lambda>r. ucast (resolution_u8 r)) (tk_resolution t),
      mg_locked_by_uuid = map_option (cl_uuid_text L) (tk_locked_by t),
      mg_assigned_to_uuid = map_option (cl_uuid_text L) (tk_assigned_to t),
      mg_created_by_uuid = cl_uuid_text L (tk_created_by t),
      mg_created_at = Some (cl_to_timestamp L (tk_created_at t)),
      mg_updated_by_uuid = cl_uuid_text L (tk_updated_by t),
      mg_updated_at = Some (cl_to_timestamp L (tk_updated_at t)),
      mg_history = map (map_history_entry L) (tk_history t),
      mg_ebond = tk_ebond t, mg_tracking_url = tk_tracking_url t,
      mg_network_devices = map map_network_device (tk_network_devices t),
      mg_schema_version = tk_schema_version t\<rparr>"

text \<open>\<open>timestamp()\<close> of a \<open>DateTime\<close>: its Unix seconds.\<close>

definition unix_secs :: "datetime \<Rightarrow> i64" where
  "unix_secs t = of_int (dt_secs t)"

definition ticket_index :: "custodian_lib \<Rightarrow> ticket \<Rightarrow> ticket_index_msg" where
  "ticket_index L t =
     \<lparr>xi_status = ucast (status_u8 (tk_status t)),
      xi_account_uuid = cl_uuid_text L (tk_account_uuid t),
      xi_assigned_to_uuid = map_option (cl_uuid_text L) (tk_assigned_to t),
      xi_project = tk_project t, xi_tracking_url = tk_tracking_url t,
      xi_created_at_unix = unix_secs (tk_created_at t),
      xi_updated_at_unix = unix_secs (tk_updated_at t)\<rparr>"

subsection \<open>Sealing a ticket\<close>

text \<open>The randomness of one encryption: the coins of the encapsulation and the nonce.\<close>

definition encrypt_ticket ::
  "custodian_lib \<Rightarrow> ('c, 'r, 'b) custodian \<Rightarrow> bytes \<times> bytes \<Rightarrow> ticket \<Rightarrow> status + bytes" where
  "encrypt_ticket L Q rnd t =
     (case cd_ser (cl_ticket_json L) t of
        Inl e \<Rightarrow> Inl (Internal (''serialize error: '' @ cl_store_text L e))
      | Inr ticket_bytes \<Rightarrow>
          (case encrypt_with_public_key (cl_crypto L) (fst rnd) (snd rnd) ticket_bytes (fst (cu_keypair Q)) of
             Inl e \<Rightarrow> Inl (Internal (''encryption error: '' @ cl_crypto_text L e))
           | Inr encrypted \<Rightarrow> map_errR
               (\<lambda>e. Internal (''serialize encrypted data error: '' @ cl_store_text L e))
               (cd_ser (cl_body_json L) encrypted)))"

definition decrypt_ticket ::
  "custodian_lib \<Rightarrow> ('c, 'r, 'b) custodian \<Rightarrow> u64 \<Rightarrow> bytes \<Rightarrow> status + ticket" where
  "decrypt_ticket L Q ticket_id body =
     (case cd_de (cl_body_json L) body of
        Inl e \<Rightarrow> Inl (Internal (''deserialize encrypted data error: '' @ cl_store_text L e))
      | Inr ed \<Rightarrow>
          (case decrypt_with_private_key (cl_crypto L) ed (snd (cu_keypair Q)) of
             Inl e \<Rightarrow> Inl (Internal (''decryption error: '' @ cl_crypto_text L e))
           | Inr plain \<Rightarrow> (case cd_de (cl_ticket_json L) plain of
               Inl e \<Rightarrow> Inl (Internal (''deserialize ticket error: '' @ cl_store_text L e))
             | Inr t \<Rightarrow> Inr (t\<lparr>tk_ticket_id := ticket_id\<rparr>))))"

subsection \<open>The handlers\<close>

type_synonym ('c, 'r, 'b, 'a) handler = "(('c \<times> 'r) \<times> 'b, status, 'a) eff"

definition on_db :: "('b, 'e, 'a) eff \<Rightarrow> ('n \<times> 'b, 'e, 'a) eff" where
  "on_db m = (\<lambda>(n, b). case m b of (x, b') \<Rightarrow> (x, (n, b')))"

definition db_call :: "custodian_lib \<Rightarrow> string \<Rightarrow> ('b, status, 'a) eff \<Rightarrow> ('c, 'r, 'b, 'a) handler" where
  "db_call L what m = on_db (map_err (\<lambda>e. Internal (what @ cl_status_text L e)) m)"

definition with_client :: "('c, 'r, 'b) custodian \<Rightarrow> ('b database_api \<Rightarrow> ('c, 'r, 'b, 'a) handler) \<Rightarrow> ('c, 'r, 'b, 'a) handler" where
  "with_client Q f =
     (case cu_db Q of None \<Rightarrow> throw (Unavailable ''no db client configured'') | Some A \<Rightarrow> f A)"

definition cs_get_ticket ::
  "custodian_lib \<Rightarrow> ('c, 'r, 'b) custodian \<Rightarrow> u64 \<Rightarrow> ('c, 'r, 'b, ticket_msg) handler" where
  "cs_get_ticket L Q ticket_id =
     with_client Q (\<lambda>A.
       bindA (db_call L ''db get error: '' (dbc_get_ticket A ticket_id False)) (\<lambda>record.
         case record of
           Some rec \<Rightarrow> bindA (lift_res (decrypt_ticket L Q (tr_ticket_id rec) (tr_encrypted_body rec)))
                          (\<lambda>t. ret (domain_to_proto L t))
         | None \<Rightarrow> throw (NotFoundStatus ''ticket not found'')))"

definition cs_query_tickets ::
  "custodian_lib \<Rightarrow> ('c, 'r, 'b) custodian \<Rightarrow> ticket_query_msg \<Rightarrow> ('c, 'r, 'b, ticket_msg list) handler" where
  "cs_query_tickets L Q req =
     with_client Q (\<lambda>A.
       bindA (db_call L ''db query_tickets error: '' (dbc_query_tickets A req)) (\<lambda>records.
         lift_res (collect_res (map (\<lambda>rec. mapR (domain_to_proto L)
           (decrypt_ticket L Q (tr_ticket_id rec) (tr_encrypted_body rec))) records))))"

text \<open>
  \<open>now\<close> is the clock reading inside \<open>Ticket::new\<close>; \<open>millis\<close> the later reading, in milliseconds,
  that names the ticket when there is no database.
\<close>

definition new_ticket :: "datetime \<Rightarrow> create_ticket_request \<Rightarrow> uuid \<Rightarrow> uuid \<Rightarrow> ticket" where
  "new_ticket now req account_uuid created_by_uuid =
     (ticket_new now 0 (cr_title req) (cr_project req) account_uuid
        (symptom_from_u8 (u8_of_i32 (cr_symptom req))) created_by_uuid)
       \<lparr>tk_priority := priority_from_u8 (u8_of_i32 (cr_priority req)),
        tk_customer_ticket_number := cr_customer_ticket_number req,
        tk_isp_ticket_number := cr_isp_ticket_number req,
        tk_other_ticket_number := cr_other_ticket_number req,
        tk_ebond := cr_ebond req, tk_tracking_url := cr_tracking_url req\<rparr>"

definition cs_create_ticket ::
  "custodian_lib \<Rightarrow> ('c, 'r, 'b) custodian \<Rightarrow> datetime \<Rightarrow> i64 \<Rightarrow> bytes \<times> bytes \<Rightarrow> create_ticket_request
   \<Rightarrow> ('c, 'r, 'b, ticket_msg) handler" where
  "cs_create_ticket L Q now millis rnd req =
     (if cr_title req = [] then throw (InvalidArgument ''title is required'')
      else case cl_parse_uuid L (cr_account_uuid req) of
          None \<Rightarrow> throw (InvalidArgument ''Invalid account UUID'')
        | Some account_uuid \<Rightarrow> (case cl_parse_uuid L (cr_created_by_uuid req) of
            None \<Rightarrow> throw (InvalidArgument ''Invalid created_by UUID'')
          | Some created_by_uuid \<Rightarrow>
              let t = new_ticket now req account_uuid created_by_uuid
              in bindA (lift_res (encrypt_ticket L Q rnd t)) (\<lambda>encrypted_bytes.
                   bindA (case cu_db Q of
                       Some A \<Rightarrow> db_call L ''db create_ticket error: ''
                         (dbc_create_ticket A encrypted_bytes (ticket_index L t))
                     | None \<Rightarrow> ret (if 0 \<le> sint millis then millis else 0))
                     (\<lambda>ticket_id. ret (domain_to_proto L (t\<lparr>tk_ticket_id := ticket_id\<rparr>))))))"

definition raft_call :: "('c \<times> 'r, string, 'a) eff \<Rightarrow> ('c, 'r, 'b, 'a) handler" where
  "raft_call m = on_disk (map_err (\<lambda>e. Internal (''Raft write failed: '' @ e)) m)"

definition cs_acquire_lock ::
  "custodian_lib \<Rightarrow> ('c, 'z) lockstore_scheme \<Rightarrow> ('c, 'r, 'b) custodian \<Rightarrow> i64 \<Rightarrow> string option \<Rightarrow> lock_request
   \<Rightarrow> ('c, 'r, 'b, lock_response_msg) handler" where
  "cs_acquire_lock L E Q now ttl_env req =
     (case cl_parse_uuid L (lq_user_uuid req) of
        None \<Rightarrow> throw (InvalidArgument ''Invalid user UUID'')
      | Some user_id \<Rightarrow>
          bindA (raft_call (cu_client_write Q (AcquireLock (lq_ticket_id req) user_id now (lock_ttl_secs ttl_env))))
            (\<lambda>response.
               bindA (if lr_success response then ret None
                      else (\<lambda>((c, r), b). case get_lock_info E (lq_ticket_id req) c of
                          (Inr i, c') \<Rightarrow> (Inr (map_option (\<lambda>lock. cl_uuid_text L (lk_user_id lock)) i), ((c', r), b))
                        | (Inl _, c') \<Rightarrow> (Inr None, ((c', r), b))))
                 (\<lambda>current_holder. ret
                    \<lparr>lm_success = lr_success response,
                     lm_error = (case lr_error response of Some e \<Rightarrow> e | None \<Rightarrow> []),
                     lm_current_holder = current_holder\<rparr>)))"

definition cs_release_lock ::
  "custodian_lib \<Rightarrow> ('c, 'r, 'b) custodian \<Rightarrow> lock_request \<Rightarrow> ('c, 'r, 'b, lock_response_msg) handler" where
  "cs_release_lock L Q req =
     (case cl_parse_uuid L (lq_user_uuid req) of
        None \<Rightarrow> throw (InvalidArgument ''Invalid user UUID'')
      | Some user_id \<Rightarrow>
          bindA (raft_call (cu_client_write Q (ReleaseLock (lq_ticket_id req) user_id)))
            (\<lambda>response. ret
               \<lparr>lm_success = lr_success response,
                lm_error = (case lr_error response of Some e \<Rightarrow> e | None \<Rightarrow> []),
                lm_current_holder = None\<rparr>))"

text \<open>The lock check of an update, at the clock reading \<open>now\<close>.\<close>

definition check_lock ::
  "custodian_lib \<Rightarrow> ('c, 'z) lockstore_scheme \<Rightarrow> i64 \<Rightarrow> u64 \<Rightarrow> uuid \<Rightarrow> ('c, 'r, 'b, unit) handler" where
  "check_lock L E now ticket_id updater =
     bindA (on_disk (on_disk (map_err (\<lambda>e. Internal (''storage error: '' @ cl_store_text L e))
              (get_lock_info E ticket_id))))
       (\<lambda>found. case found of
          Some lock \<Rightarrow>
            if is_expired lock now then throw (PermissionDenied ''ticket lock has expired'')
            else if lk_user_id lock \<noteq> updater then throw (PermissionDenied ''user does not hold lock'')
            else ret ()
        | None \<Rightarrow> throw (PermissionDenied ''ticket is not locked''))"

text \<open>The fields of the request, applied in the order of the code; the first refusal wins.\<close>

definition apply_update ::
  "custodian_lib \<Rightarrow> update_ticket_request \<Rightarrow> uuid \<Rightarrow> datetime \<Rightarrow> ticket \<Rightarrow> status + ticket" where
  "apply_update L req updater now t0 =
     (let t1 = (case up_title req of Some x \<Rightarrow> t0\<lparr>tk_title := x\<rparr> | None \<Rightarrow> t0);
          t2 = (case up_project req of Some x \<Rightarrow> t1\<lparr>tk_project := x\<rparr> | None \<Rightarrow> t1);
          t3 = (case up_symptom req of
                  Some x \<Rightarrow> t2\<lparr>tk_symptom := symptom_from_u8 (u8_of_i32 x)\<rparr> | None \<Rightarrow> t2);
          t4 = (case up_priority req of
                  Some x \<Rightarrow> t3\<lparr>tk_priority := priority_from_u8 (u8_of_i32 x)\<rparr> | None \<Rightarrow> t3);
          new_status = (case up_status req of
                  Some x \<Rightarrow> status_from_u8 (u8_of_i32 x) | None \<Rightarrow> tk_status t4)
      in if up_status req \<noteq> None \<and> \<not> can_transition_to (tk_status t4) new_status
         then Inl (FailedPrecondition (''invalid status transition: '' @ status_name (tk_status t4)
                @ '' -> '' @ status_name new_status))
         else
           let t5 = t4\<lparr>tk_status := new_status\<rparr>;
               t6 = (case up_next_action req of
                  Some x \<Rightarrow> t5\<lparr>tk_next_action := proto_to_next_action L x\<rparr> | None \<Rightarrow> t5);
               t7 = (case up_resolution req of
                  Some x \<Rightarrow> t6\<lparr>tk_resolution := Some (resolution_from_u8 (u8_of_i32 x))\<rparr> | None \<Rightarrow> t6)
           in case up_assigned_to_uuid req of
                None \<Rightarrow> Inr (t7\<lparr>tk_updated_by := updater, tk_updated_at := now\<rparr>)
              | Some a \<Rightarrow> (case cl_parse_uuid L a of
                  None \<Rightarrow> Inl (InvalidArgument ''Invalid assigned_to UUID'')
                | Some u \<Rightarrow> Inr (t7\<lparr>tk_assigned_to := Some u, tk_updated_by := updater, tk_updated_at := now\<rparr>)))"

definition cs_update_ticket ::
  "custodian_lib \<Rightarrow> ('c, 'z) lockstore_scheme \<Rightarrow> ('c, 'r, 'b) custodian \<Rightarrow> i64 \<Rightarrow> datetime \<Rightarrow> bytes \<times> bytes
   \<Rightarrow> update_ticket_request \<Rightarrow> ('c, 'r, 'b, ticket_msg) handler" where
  "cs_update_ticket L E Q lock_now now rnd req =
     (case up_updated_by_uuid req of
        None \<Rightarrow> throw (InvalidArgument ''updated_by_uuid is required'')
      | Some updater_str \<Rightarrow> (case cl_parse_uuid L updater_str of
          None \<Rightarrow> throw (InvalidArgument ''Invalid updated_by_uuid'')
        | Some updater \<Rightarrow>
            thenA (check_lock L E lock_now (up_ticket_id req) updater)
              (with_client Q (\<lambda>A.
                 bindA (db_call L ''db get error: '' (dbc_get_ticket A (up_ticket_id req) False)) (\<lambda>record.
                   case record of
                     None \<Rightarrow> throw (NotFoundStatus ''ticket not found'')
                   | Some rec \<Rightarrow>
                       bindA (lift_res (decrypt_ticket L Q (tr_ticket_id rec) (tr_encrypted_body rec))) (\<lambda>t0.
                         bindA (lift_res (apply_update L req updater now t0)) (\<lambda>t.
                           bindA (lift_res (encrypt_ticket L Q rnd t)) (\<lambda>encrypted_bytes.
                             thenA (db_call L ''db update_ticket error: ''
                                      (dbc_update_ticket A (up_ticket_id req) encrypted_bytes (ticket_index L t)))
                               (ret (domain_to_proto L t))))))))))"

definition cs_health :: "('c, 'r, 'b) custodian \<Rightarrow> ('c, 'r, 'b, custodian_health) handler" where
  "cs_health Q = (\<lambda>((c, r), b). let m = cu_metrics Q r in
     (Inr \<lparr>ch_healthy = (case mx_state m of Leader \<Rightarrow> True | Follower \<Rightarrow> True | _ \<Rightarrow> False),
           ch_status = (case mx_state m of Leader \<Rightarrow> ''leader'' | Follower \<Rightarrow> ''follower''
             | Candidate \<Rightarrow> ''candidate'' | Learner \<Rightarrow> ''learner'' | Shutdown \<Rightarrow> ''shutdown'')\<rparr>, ((c, r), b)))"

definition cs_cluster_status :: "('c, 'r, 'b) custodian \<Rightarrow> ('c, 'r, 'b, custodian_cluster_status) handler" where
  "cs_cluster_status Q = (\<lambda>((c, r), b). let m = cu_metrics Q r in
     (Inr \<lparr>cc_leader_id = (case mx_current_leader m of Some i \<Rightarrow> show_u64 i | None \<Rightarrow> []),
           cc_follower_ids = map show_u64 (filter (\<lambda>i. Some i \<noteq> mx_current_leader m) (mx_nodes m)),
           cc_term = mx_current_term m,
           cc_commit_index = (case mx_last_applied m of Some i \<Rightarrow> li_index i | None \<Rightarrow> 0)\<rparr>, ((c, r), b)))"

end
