(* ===== verification/Db_Server_Props.thy ===== *)
theory Db_Server_Props
  imports Db_Server
begin

text \<open>
  The contract of the request handlers: what a client of the database service sees. The
  locale \<open>db_leader\<close> is what the handlers rely on: a store that works, and an engine that
  answers a write only after the entry was applied to the local state machine, with the
  response of that application. It is interpreted on a one-node engine over any store.
\<close>

subsection \<open>The engine\<close>

definition leader_applies :: "('d, 'z) dbstore_scheme \<Rightarrow> ('d, 'r) db_service \<Rightarrow> bool" where
  "leader_applies E Q \<longleftrightarrow> (\<forall>e d r. \<exists>r'. case sm_apply E e d of
       (Inr x, d') \<Rightarrow> dv_client_write Q e (d, r) = (Inr x, (d', r'))
     | (Inl err, d') \<Rightarrow> \<exists>t. dv_client_write Q e (d, r) = (Inl t, (d', r')))"

definition one_node :: "('d, 'z) dbstore_scheme \<Rightarrow> (store_error \<Rightarrow> string) \<Rightarrow> ('d, metrics) db_service" where
  "one_node E text_of = \<lparr>dv_client_write = (\<lambda>e (d, r). case sm_apply E e d of
       (Inr x, d') \<Rightarrow> (Inr x, (d', r))
     | (Inl err, d') \<Rightarrow> (Inl (text_of err), (d', r))), dv_metrics = (\<lambda>r. r), dv_error_text = text_of\<rparr>"

lemma one_node_applies: "leader_applies E (one_node E text_of)"
  by (auto simp: leader_applies_def one_node_def split: prod.split sum.split)

definition write_answer :: "(store_error + bytes option) \<Rightarrow> (status + db_response) \<Rightarrow> bool" where
  "write_answer spec ans \<longleftrightarrow> (case spec of
       Inr v \<Rightarrow> ans = Inr \<lparr>dr_success = True, dr_value = v\<rparr>
     | Inl e \<Rightarrow> (\<exists>t. ans = Inl (Internal (''Raft write failed: '' @ t))))"

fun is_write :: "log_entry \<Rightarrow> bool" where
  "is_write (Get c k) = False"
| "is_write _ = True"

lemma sm_apply_write: "is_write e \<Longrightarrow> sm_apply E e =
   bindA (log_apply E e) (\<lambda>v. ret \<lparr>dr_success = True, dr_value = v\<rparr>)"
  unfolding sm_apply_def by (cases e) simp_all

lemma local_op_run:
  assumes "does (view E) m (view E d) x W"
  obtains d' where "local_op f w m (d, r) = (map_errR (\<lambda>e. Internal (w @ f e)) x, (d', r))"
    and "view E d' = W"
proof -
  from assms obtain d' where "m d = (x, d')" "view E d' = W" by (rule does_runE)
  then show ?thesis by (intro that [of d']) (auto simp: local_op_def split: sum.split)
qed

locale db_leader =
  fixes E :: "('d, 'z) dbstore_scheme" and Q :: "('d, 'r) db_service"
  assumes env: "db_env_ok E"
    and applies: "leader_applies E Q"
begin

lemma sled: "sled_ok E"
  using env by (simp add: db_env_ok_def)

lemma propose_run:
  assumes w: "is_write e" and run: "log_apply E e d = (x, d')"
  obtains ans r' where "propose Q e (d, r) = (ans, (d', r'))" and "write_answer x ans"
proof -
  have sm: "sm_apply E e d = (mapR (\<lambda>v. \<lparr>dr_success = True, dr_value = v\<rparr>) x, d')"
    unfolding sm_apply_write [OF w] by (cases x) (simp_all add: act_defs run)
  note answers = applies [unfolded leader_applies_def, rule_format, of e d r]
  show ?thesis
  proof (cases x)
    case (Inl err)
    with answers sm obtain t r' where "dv_client_write Q e (d, r) = (Inl t, (d', r'))" by auto
    then show ?thesis
      by (intro that [of "Inl (Internal (''Raft write failed: '' @ t))" r'])
        (auto simp: propose_def map_err_def write_answer_def Inl)
  next
    case (Inr v)
    with answers sm obtain r' where
      "dv_client_write Q e (d, r) = (Inr \<lparr>dr_success = True, dr_value = v\<rparr>, (d', r'))" by auto
    then show ?thesis
      by (intro that [of "Inr \<lparr>dr_success = True, dr_value = v\<rparr>" r'])
        (auto simp: propose_def map_err_def write_answer_def Inr)
  qed
qed

lemma propose_spec:
  assumes inv: "db_part E P (view E d)" and ok: "entry_ok (db_abs E (view E d)) e" and w: "is_write e"
    and side: "ticket_entry e \<or> P = users_inv E"
  obtains ans d' r' where "propose Q e (d, r) = (ans, (d', r'))"
    and "write_answer (fst (spec_apply e (db_abs E (view E d)))) ans"
    and "db_part E P (view E d')" and "db_abs E (view E d') = snd (spec_apply e (db_abs E (view E d)))"
proof -
  obtain d' where run: "log_apply E e d = (fst (spec_apply e (db_abs E (view E d))), d')"
    and rest: "db_part E P (view E d')" "db_abs E (view E d') = snd (spec_apply e (db_abs E (view E d)))"
    by (rule refines_run [OF env inv ok side])
  obtain ans r' where "propose Q e (d, r) = (ans, (d', r'))"
    "write_answer (fst (spec_apply e (db_abs E (view E d)))) ans"
    by (rule propose_run [OF w run])
  then show ?thesis using rest that by blast
qed

lemma get_ticket_run:
  assumes inv: "db_part E P (view E d)"
  shows "\<exists>d'. rpc_get_ticket Q E req (d, r) =
     ((case visible (tl_include_deleted req) (sp_tickets (db_abs E (view E d)) (tl_ticket_id req)) of
        Some stored \<Rightarrow> Inr (ticket_record_of (tl_ticket_id req) stored)
      | None \<Rightarrow> Inl (NotFoundStatus ''ticket not found'')), (d', r)) \<and> view E d' = view E d"
proof -
  obtain d' where "local_op (dv_error_text Q) ''Storage read failed: ''
       (get_ticket E (tl_ticket_id req) (tl_include_deleted req)) (d, r) =
     (Inr (visible (tl_include_deleted req) (sp_tickets (db_abs E (view E d)) (tl_ticket_id req))), (d', r))"
    "view E d' = view E d"
    by (rule local_op_run [OF does_get_ticket [OF sled inv]]) auto
  then show ?thesis
    by (intro exI [of _ d']) (simp add: rpc_get_ticket_def act_defs split: option.split)
qed

lemma get_ticket_answer:
  assumes inv: "db_part E P (view E d)"
  shows "fst (rpc_get_ticket Q E req (d, r)) =
     (case visible (tl_include_deleted req) (sp_tickets (db_abs E (view E d)) (tl_ticket_id req)) of
        Some stored \<Rightarrow> Inr (ticket_record_of (tl_ticket_id req) stored)
      | None \<Rightarrow> Inl (NotFoundStatus ''ticket not found''))"
  using get_ticket_run [OF inv, of req r] by auto

lemma create_ticket_answer:
  assumes inv: "db_part E P (view E d)" and room: "sp_last_id (db_abs E (view E d)) \<noteq> - 1"
  obtains d' r' where "rpc_create_ticket Q req (d, r) =
       (Inr \<lparr>tr_ticket_id = saturating_inc (sp_last_id (db_abs E (view E d))),
             tr_encrypted_body = tw_encrypted_body req, tr_deleted = False, tr_deleted_at_unix = 0\<rparr>, (d', r'))"
    and "db_part E P (view E d')"
    and "sp_tickets (db_abs E (view E d')) = (sp_tickets (db_abs E (view E d)))
       (saturating_inc (sp_last_id (db_abs E (view E d))) \<mapsto> \<lparr>sk_body = tw_encrypted_body req,
          sk_index = ticket_index_from_proto (tw_index req), sk_deleted = False, sk_deleted_at_unix = 0\<rparr>)"
proof -
  let ?e = "CreateTicket (tw_encrypted_body req) (ticket_index_from_proto (tw_index req))"
  have "entry_ok (db_abs E (view E d)) ?e" using room by simp
  from propose_spec [OF inv this, of r] obtain ans d' r' where
    p: "propose Q ?e (d, r) = (ans, (d', r'))" "write_answer (fst (spec_apply ?e (db_abs E (view E d)))) ans"
    and rest: "db_part E P (view E d')" "db_abs E (view E d') = snd (spec_apply ?e (db_abs E (view E d)))"
    by auto
  then show ?thesis
    by (intro that [of d' r'])
      (auto simp: rpc_create_ticket_def act_defs write_answer_def Let_def rest)
qed

lemma update_ticket_present:
  assumes inv: "db_part E P (view E d)" and row: "sp_tickets (db_abs E (view E d)) (tw_ticket_id req) = Some row"
    and nz: "tw_ticket_id req \<noteq> 0"
  obtains d' r' where "rpc_update_ticket Q E req (d, r) =
       (Inr (ticket_record_of (tw_ticket_id req) (row\<lparr>sk_body := tw_encrypted_body req,
          sk_index := ticket_index_from_proto (tw_index req)\<rparr>)), (d', r'))"
    and "db_part E P (view E d')"
    and "sp_tickets (db_abs E (view E d')) = (sp_tickets (db_abs E (view E d)))
       (tw_ticket_id req \<mapsto> row\<lparr>sk_body := tw_encrypted_body req, sk_index := ticket_index_from_proto (tw_index req)\<rparr>)"
proof -
  let ?e = "UpdateTicket (tw_ticket_id req) (tw_encrypted_body req) (ticket_index_from_proto (tw_index req))"
  have "entry_ok (db_abs E (view E d)) ?e" by simp
  from propose_spec [OF inv this, of r] obtain ans d1 r1 where
    p: "propose Q ?e (d, r) = (ans, (d1, r1))" "write_answer (fst (spec_apply ?e (db_abs E (view E d)))) ans"
    and rest: "db_part E P (view E d1)" "db_abs E (view E d1) = snd (spec_apply ?e (db_abs E (view E d)))"
    by auto
  obtain d2 where "local_op (dv_error_text Q) ''Storage read failed: '' (get_ticket E (tw_ticket_id req) True) (d1, r1)
     = (Inr (visible True (sp_tickets (db_abs E (view E d1)) (tw_ticket_id req))), (d2, r1))"
    "view E d2 = view E d1"
    by (rule local_op_run [OF does_get_ticket [OF sled rest(1)]]) auto
  then show ?thesis using p rest nz row
    by (intro that [of d2 r1])
      (auto simp: rpc_update_ticket_def act_defs write_answer_def visible_def)
qed

lemma missing_ticket_write:
  assumes inv: "db_part E P (view E d)" and missing: "sp_tickets (db_abs E (view E d)) i = None"
    and e: "e = UpdateTicket i body index \<or> e = SoftDeleteTicket i now"
  obtains t d' r' where "propose Q e (d, r) = (Inl (Internal (''Raft write failed: '' @ t)), (d', r'))"
    and "db_abs E (view E d') = db_abs E (view E d)"
proof -
  have "entry_ok (db_abs E (view E d)) e" "is_write e" "ticket_entry e \<or> P = users_inv E" using e by auto
  from propose_spec [OF inv this, of r] obtain ans d1 r1 where
    "propose Q e (d, r) = (ans, (d1, r1))" "write_answer (fst (spec_apply e (db_abs E (view E d)))) ans"
    and "db_abs E (view E d1) = snd (spec_apply e (db_abs E (view E d)))" by blast
  then show ?thesis using e missing that by (auto simp: write_answer_def)
qed

lemma soft_delete_present:
  assumes inv: "db_part E P (view E d)" and row: "sp_tickets (db_abs E (view E d)) (tl_ticket_id req) = Some row"
  obtains d' r' where "rpc_soft_delete_ticket Q now req (d, r) = (Inr True, (d', r'))"
    and "db_part E P (view E d')"
    and "sp_tickets (db_abs E (view E d')) = (sp_tickets (db_abs E (view E d)))
       (tl_ticket_id req \<mapsto> row\<lparr>sk_deleted := True, sk_deleted_at_unix := now\<rparr>)"
proof -
  let ?e = "SoftDeleteTicket (tl_ticket_id req) now"
  have "entry_ok (db_abs E (view E d)) ?e" by simp
  from propose_spec [OF inv this, of r] obtain ans d1 r1 where
    p: "propose Q ?e (d, r) = (ans, (d1, r1))" "write_answer (fst (spec_apply ?e (db_abs E (view E d)))) ans"
    and rest: "db_part E P (view E d1)" "db_abs E (view E d1) = snd (spec_apply ?e (db_abs E (view E d)))"
    by auto
  then show ?thesis using row
    by (intro that [of d1 r1]) (auto simp: rpc_soft_delete_ticket_def act_defs write_answer_def)
qed

lemma get_answer:
  "fst (rpc_get Q E c k (d, r)) = Inr (case view E d c k of
       Some v \<Rightarrow> \<lparr>gr_found = True, gr_value = v, gr_error = []\<rparr>
     | None \<Rightarrow> \<lparr>gr_found = False, gr_value = [], gr_error = []\<rparr>)"
  and exists_answer: "fst (rpc_exists Q E c k (d, r)) = Inr (view E d c k \<noteq> None)"
proof -
  obtain d' where "local_op (dv_error_text Q) ''Storage read failed: '' (get E c k) (d, r) = (Inr (view E d c k), (d', r))"
    by (rule local_op_run [OF does_get [OF sled]]) auto
  then show "fst (rpc_get Q E c k (d, r)) = Inr (case view E d c k of
       Some v \<Rightarrow> \<lparr>gr_found = True, gr_value = v, gr_error = []\<rparr>
     | None \<Rightarrow> \<lparr>gr_found = False, gr_value = [], gr_error = []\<rparr>)"
    by (simp add: rpc_get_def act_defs)
  obtain d2 where "local_op (dv_error_text Q) ''Storage check failed: '' (exists E c k) (d, r)
      = (Inr (view E d c k \<noteq> None), (d2, r))"
    by (rule local_op_run [OF does_exists [OF sled]]) auto
  then show "fst (rpc_exists Q E c k (d, r)) = Inr (view E d c k \<noteq> None)"
    by (simp add: rpc_exists_def)
qed

lemma raw_write:
  assumes run: "does (view E) (log_apply E e) (view E d) (Inr None) W" and w: "is_write e"
    and k: "\<And>t. \<not> foreign t \<Longrightarrow> W t = view E d t"
  obtains d' r' where "propose Q e (d, r) = (Inr \<lparr>dr_success = True, dr_value = None\<rparr>, (d', r'))"
    and "view E d' = W" and "db_abs E (view E d') = db_abs E (view E d)"
proof -
  obtain d' where d': "log_apply E e d = (Inr None, d')" "view E d' = W" by (rule does_runE [OF run])
  obtain ans r' where "propose Q e (d, r) = (ans, (d', r'))" "write_answer (Inr None) ans"
    by (rule propose_run [OF w d'(1)])
  then show ?thesis using that [of d' r'] d'(2) db_frame(1) [where W' = W and W = "view E d" and E = E, OF k]
    by (auto simp: write_answer_def)
qed

end

interpretation one_node: db_leader mem_db "one_node mem_db text_of" for text_of
  by unfold_locales (rule mem_db_ok one_node_applies)+

subsection \<open>What a client sees\<close>

text \<open>
 Creating a ticket answers with a fresh, nonzero id and the body that was sent; the ticket
  was not there before, is there now under that id with the index fields of the request (a
  status or role above 255 is stored as 0), and reading it back gives the same record.
\<close>

theorem create_then_get_rpc:
  assumes "db_env_ok E" and "leader_applies E Q" and "db_inv E (view E d)"
    and "sp_last_id (db_abs E (view E d)) \<noteq> - 1"
  shows "\<exists>rec d' r'. rpc_create_ticket Q req (d, r) = (Inr rec, (d', r'))
     \<and> tr_ticket_id rec \<noteq> 0 \<and> tr_encrypted_body rec = tw_encrypted_body req
     \<and> sp_tickets (db_abs E (view E d)) (tr_ticket_id rec) = None
     \<and> sp_tickets (db_abs E (view E d')) = (sp_tickets (db_abs E (view E d)))(tr_ticket_id rec \<mapsto>
          \<lparr>sk_body = tw_encrypted_body req, sk_index = ticket_index_from_proto (tw_index req),
           sk_deleted = False, sk_deleted_at_unix = 0\<rparr>)
     \<and> fst (rpc_get_ticket Q E \<lparr>tl_ticket_id = tr_ticket_id rec, tl_include_deleted = False\<rparr> (d', r')) = Inr rec
     \<and> (\<forall>i. tw_index req = Some i \<and> 255 < xi_status i \<longrightarrow> ti_status (ticket_index_from_proto (tw_index req)) = 0)"
proof -
  have leader: "db_leader E Q" by unfold_locales (rule assms(1,2))+
  let ?i = "saturating_inc (sp_last_id (db_abs E (view E d)))"
  obtain d' r' where run: "rpc_create_ticket Q req (d, r) =
       (Inr \<lparr>tr_ticket_id = ?i, tr_encrypted_body = tw_encrypted_body req, tr_deleted = False, tr_deleted_at_unix = 0\<rparr>, (d', r'))"
    and inv: "db_inv E (view E d')"
    and tickets: "sp_tickets (db_abs E (view E d')) = (sp_tickets (db_abs E (view E d)))(?i \<mapsto>
          \<lparr>sk_body = tw_encrypted_body req, sk_index = ticket_index_from_proto (tw_index req),
           sk_deleted = False, sk_deleted_at_unix = 0\<rparr>)"
    by (rule db_leader.create_ticket_answer [OF leader assms(3,4)])
  have i: "unat ?i = unat (sp_last_id (db_abs E (view E d))) + 1" by (rule unat_saturating_inc [OF assms(4)])
  then have "?i \<noteq> 0" by (auto simp: unat_eq_0)
  moreover have "\<not> ?i \<le> sp_last_id (db_abs E (view E d))" using i by (simp add: word_le_nat_alt)
  then have "sp_tickets (db_abs E (view E d)) ?i = None"
    using assms(3) by (auto simp: db_inv_def ids_fresh_def)
  moreover have "fst (rpc_get_ticket Q E \<lparr>tl_ticket_id = ?i, tl_include_deleted = False\<rparr> (d', r')) =
      Inr \<lparr>tr_ticket_id = ?i, tr_encrypted_body = tw_encrypted_body req, tr_deleted = False, tr_deleted_at_unix = 0\<rparr>"
    unfolding db_leader.get_ticket_answer [OF leader inv]
    by (simp add: tickets visible_def ticket_record_of_def)
  moreover have "ti_status (ticket_index_from_proto (tw_index req)) = 0"
    if "tw_index req = Some i" "255 < xi_status i" for i
  proof -
    have "\<not> xi_status i < 256" using that(2) by (simp add: word_less_nat_alt)
    then show ?thesis using that(1) by (simp add: ticket_index_from_proto_def u8_of_u32_def)
  qed
  ultimately show ?thesis using run tickets by (intro exI conjI) (assumption | simp)+
qed

definition sample_write :: "u64 \<Rightarrow> ticket_write" where
  "sample_write i = \<lparr>tw_ticket_id = i, tw_encrypted_body = [8, 9], tw_index = None\<rparr>"

definition sample_metrics :: metrics where
  "sample_metrics = \<lparr>mx_id = 1, mx_state = Leader, mx_current_leader = Some 1, mx_nodes = [1],
     mx_current_term = 1, mx_last_applied = None\<rparr>"

lemma one_node_empty:
  "sp_last_id (db_abs mem_db (view mem_db RBT.empty)) \<noteq> - 1"
  "sp_tickets (db_abs mem_db (view mem_db RBT.empty)) i = None"
  by (simp_all add: db_empty spec_init_def)

theorem create_then_get_rpc_witness:
  "\<exists>rec s'. rpc_create_ticket (one_node mem_db (\<lambda>_. [])) (sample_write 0) (RBT.empty, sample_metrics) = (Inr rec, s')
     \<and> fst (rpc_get_ticket (one_node mem_db (\<lambda>_. [])) mem_db
          \<lparr>tl_ticket_id = tr_ticket_id rec, tl_include_deleted = False\<rparr> s') = Inr rec"
  using create_then_get_rpc [OF mem_db_ok one_node_applies mem_db_empty(1) one_node_empty(1), of "\<lambda>_. []"
      "sample_write 0" sample_metrics] by blast

text \<open>Updating a ticket: without an id the request is refused as invalid and nothing happens;
  for an id that is not stored the write fails and no ticket or user changes (the client gets
  an internal error, not the not-found status of a read); for a stored one, also a soft-deleted
  one, the answer carries the new body with the deletion state as it was, and exactly that
  ticket changes.
\<close>

theorem update_ticket_rpc:
  assumes "db_env_ok E" and "leader_applies E Q" and "db_inv E (view E d)"
  shows "(tw_ticket_id req = 0 \<longrightarrow> rpc_update_ticket Q E req (d, r) =
            (Inl (InvalidArgument ''update_ticket requires a ticket_id''), (d, r)))
     \<and> (tw_ticket_id req \<noteq> 0 \<and> sp_tickets (db_abs E (view E d)) (tw_ticket_id req) = None \<longrightarrow>
          (\<exists>t d' r'. rpc_update_ticket Q E req (d, r) = (Inl (Internal (''Raft write failed: '' @ t)), (d', r'))
             \<and> db_abs E (view E d') = db_abs E (view E d)))
     \<and> (\<forall>row. tw_ticket_id req \<noteq> 0 \<and> sp_tickets (db_abs E (view E d)) (tw_ticket_id req) = Some row \<longrightarrow>
          (\<exists>d' r'. rpc_update_ticket Q E req (d, r) =
              (Inr \<lparr>tr_ticket_id = tw_ticket_id req, tr_encrypted_body = tw_encrypted_body req,
                    tr_deleted = sk_deleted row, tr_deleted_at_unix = sk_deleted_at_unix row\<rparr>, (d', r'))
             \<and> sp_tickets (db_abs E (view E d')) = (sp_tickets (db_abs E (view E d)))(tw_ticket_id req \<mapsto>
                 row\<lparr>sk_body := tw_encrypted_body req, sk_index := ticket_index_from_proto (tw_index req)\<rparr>)))"
proof (intro conjI allI impI; (elim conjE)?)
  assume "tw_ticket_id req = 0"
  then show "rpc_update_ticket Q E req (d, r) =
      (Inl (InvalidArgument ''update_ticket requires a ticket_id''), (d, r))"
    by (simp add: rpc_update_ticket_def throw_def)
next
  have leader: "db_leader E Q" by unfold_locales (rule assms(1,2))+
  assume nz: "tw_ticket_id req \<noteq> 0" and "sp_tickets (db_abs E (view E d)) (tw_ticket_id req) = None"
  from db_leader.missing_ticket_write [OF leader assms(3) this(2) disjI1 [OF refl]]
  obtain t d' r' where "propose Q (UpdateTicket (tw_ticket_id req) (tw_encrypted_body req)
        (ticket_index_from_proto (tw_index req))) (d, r) = (Inl (Internal (''Raft write failed: '' @ t)), (d', r'))"
    "db_abs E (view E d') = db_abs E (view E d)" by metis
  then show "\<exists>t d' r'. rpc_update_ticket Q E req (d, r) = (Inl (Internal (''Raft write failed: '' @ t)), (d', r'))
      \<and> db_abs E (view E d') = db_abs E (view E d)"
    using nz by (intro exI [of _ t] exI [of _ d'] exI [of _ r']) (simp add: rpc_update_ticket_def act_defs)
next
  have leader: "db_leader E Q" by unfold_locales (rule assms(1,2))+
  fix row assume "tw_ticket_id req \<noteq> 0" and "sp_tickets (db_abs E (view E d)) (tw_ticket_id req) = Some row"
  from db_leader.update_ticket_present [OF leader assms(3) this(2,1), of r]
  obtain d' r' where "rpc_update_ticket Q E req (d, r) =
      (Inr (ticket_record_of (tw_ticket_id req) (row\<lparr>sk_body := tw_encrypted_body req,
          sk_index := ticket_index_from_proto (tw_index req)\<rparr>)), (d', r'))"
    "sp_tickets (db_abs E (view E d')) = (sp_tickets (db_abs E (view E d)))(tw_ticket_id req \<mapsto>
         row\<lparr>sk_body := tw_encrypted_body req, sk_index := ticket_index_from_proto (tw_index req)\<rparr>)"
    by blast
  then show "\<exists>d' r'. rpc_update_ticket Q E req (d, r) =
      (Inr \<lparr>tr_ticket_id = tw_ticket_id req, tr_encrypted_body = tw_encrypted_body req,
            tr_deleted = sk_deleted row, tr_deleted_at_unix = sk_deleted_at_unix row\<rparr>, (d', r'))
     \<and> sp_tickets (db_abs E (view E d')) = (sp_tickets (db_abs E (view E d)))(tw_ticket_id req \<mapsto>
         row\<lparr>sk_body := tw_encrypted_body req, sk_index := ticket_index_from_proto (tw_index req)\<rparr>)"
    by (intro exI [of _ d'] exI [of _ r']) (simp add: ticket_record_of_def)
qed

theorem update_ticket_rpc_witness:
  "\<exists>t s'. rpc_update_ticket (one_node mem_db (\<lambda>_. [])) mem_db (sample_write 4) (RBT.empty, sample_metrics)
     = (Inl (Internal (''Raft write failed: '' @ t)), s')"
  using update_ticket_rpc [OF mem_db_ok one_node_applies [of mem_db "\<lambda>_. []"] mem_db_empty(1), where req = "sample_write 4" and r = sample_metrics]
  by (auto simp: db_empty spec_init_def sample_write_def)

text \<open>
 After a soft delete of a stored ticket is acknowledged, a plain read answers not-found
  and a read that includes deleted rows answers the old body with the time of the request; no
  other ticket's answer changes. For a ticket that is not stored the request fails with an
  internal error and nothing changes.
\<close>

theorem soft_delete_rpc:
  assumes "db_env_ok E" and "leader_applies E Q" and "db_inv E (view E d)"
  shows "\<exists>ans d' r'. rpc_soft_delete_ticket Q now \<lparr>tl_ticket_id = i, tl_include_deleted = b\<rparr> (d, r) = (ans, (d', r'))
     \<and> (case sp_tickets (db_abs E (view E d)) i of
          None \<Rightarrow> (\<exists>t. ans = Inl (Internal (''Raft write failed: '' @ t))) \<and> db_abs E (view E d') = db_abs E (view E d)
        | Some row \<Rightarrow> ans = Inr True
            \<and> fst (rpc_get_ticket Q E \<lparr>tl_ticket_id = i, tl_include_deleted = False\<rparr> (d', r'))
                = Inl (NotFoundStatus ''ticket not found'')
            \<and> fst (rpc_get_ticket Q E \<lparr>tl_ticket_id = i, tl_include_deleted = True\<rparr> (d', r'))
                = Inr \<lparr>tr_ticket_id = i, tr_encrypted_body = sk_body row, tr_deleted = True, tr_deleted_at_unix = now\<rparr>
            \<and> (\<forall>j incl. j \<noteq> i \<longrightarrow>
                  fst (rpc_get_ticket Q E \<lparr>tl_ticket_id = j, tl_include_deleted = incl\<rparr> (d', r'))
                = fst (rpc_get_ticket Q E \<lparr>tl_ticket_id = j, tl_include_deleted = incl\<rparr> (d, r))))"
proof -
  have leader: "db_leader E Q" by unfold_locales (rule assms(1,2))+
  let ?req = "\<lparr>tl_ticket_id = i, tl_include_deleted = b\<rparr>"
  show ?thesis
  proof (cases "sp_tickets (db_abs E (view E d)) i")
    case None
    from db_leader.missing_ticket_write [OF leader assms(3) None disjI2 [OF refl]]
    obtain t d' r' where "propose Q (SoftDeleteTicket i now) (d, r) = (Inl (Internal (''Raft write failed: '' @ t)), (d', r'))"
      "db_abs E (view E d') = db_abs E (view E d)" by metis
    then show ?thesis
      by (intro exI [of _ "Inl (Internal (''Raft write failed: '' @ t))"] exI [of _ d'] exI [of _ r'])
        (simp add: None rpc_soft_delete_ticket_def act_defs)
  next
    case (Some row)
    then have "sp_tickets (db_abs E (view E d)) (tl_ticket_id ?req) = Some row" by simp
    from db_leader.soft_delete_present [OF leader assms(3) this, where r = r and now = now]
    obtain d' r' where run: "rpc_soft_delete_ticket Q now ?req (d, r) = (Inr True, (d', r'))"
      and inv: "db_inv E (view E d')" and tickets: "sp_tickets (db_abs E (view E d')) =
        (sp_tickets (db_abs E (view E d)))(i \<mapsto> row\<lparr>sk_deleted := True, sk_deleted_at_unix := now\<rparr>)"
      by auto
    then show ?thesis
      by (intro exI [of _ "Inr True"] exI [of _ d'] exI [of _ r'])
        (simp add: Some db_leader.get_ticket_answer [OF leader inv] db_leader.get_ticket_answer [OF leader assms(3)]
          visible_def ticket_record_of_def)
  qed
qed

theorem soft_delete_rpc_witness:
  "\<exists>t s'. rpc_soft_delete_ticket (one_node mem_db (\<lambda>_. [])) 7 \<lparr>tl_ticket_id = 4, tl_include_deleted = False\<rparr>
     (RBT.empty, sample_metrics) = (Inl (Internal (''Raft write failed: '' @ t)), s')"
  using soft_delete_rpc [OF mem_db_ok one_node_applies [of mem_db "\<lambda>_. []"] mem_db_empty(1), where i = 4
      and b = False and now = 7 and r = sample_metrics]
  by (auto simp: db_empty spec_init_def)

definition limited :: "u32 \<Rightarrow> 'x list \<Rightarrow> 'x list" where
  "limited n xs = (if n = 0 then xs else take (unat n) xs)"

lemma limited_zero [simp]: "limited 0 xs = xs"
  by (simp add: limited_def)

lemma limited_map: "limited n (map f xs) = map f (limited n xs)"
  by (simp add: limited_def take_map)

lemma limited_subset: "set (limited n xs) \<subseteq> set xs"
  by (simp add: limited_def set_take_subset)

lemma query_rows:
  assumes "db_env_ok E" and "db_part E P (view E d)"
  shows "\<exists>rows d'. rpc_query_tickets Q E req (d, r) =
      (Inr (map (\<lambda>(i, stored). ticket_record_of i stored) (limited (qm_limit req) rows)), (d', r))
     \<and> view E d' = view E d
     \<and> distinct (map fst rows)
     \<and> set rows = {(i, row). sp_tickets (db_abs E (view E d)) i = Some row \<and> matches (query_from_proto req) row}"
proof -
  let ?s = "db_abs E (view E d)" and ?q = "query_from_proto req"
  have lim: "tq_limit ?q = unat (qm_limit req)" by (simp add: query_from_proto_def)
  have ok: "sled_ok E" using assms(1) by (simp add: db_env_ok_def)
  obtain ids where dist: "distinct ids"
    and compl: "\<forall>i r. sp_tickets ?s i = Some r \<longrightarrow> matches ?q r \<longrightarrow> i \<in> set ids"
    and run: "does (view E) (query_tickets E ?q) (view E d)
       (Inr (let all = List.map_filter (selected ?s ?q) ids
             in if tq_limit ?q = 0 then all else take (tq_limit ?q) all)) (view E d)"
    using does_query [OF ok assms(2) view_scans [OF ok]] by blast
  define rows where "rows = List.map_filter (selected ?s ?q) ids"
  note sel = selected_all [OF dist compl, folded rows_def]
  have run': "does (view E) (query_tickets E ?q) (view E d) (Inr (limited (qm_limit req) rows)) (view E d)"
    using run by (cases "qm_limit req = 0") (simp_all add: lim rows_def limited_def Let_def unat_eq_0)
  obtain d' where "local_op (dv_error_text Q) ''Storage query failed: '' (query_tickets E ?q) (d, r)
      = (Inr (limited (qm_limit req) rows), (d', r))" "view E d' = view E d"
    by (rule local_op_run [OF run', where f = "dv_error_text Q" and w = "''Storage query failed: ''" and r = r]) auto
  moreover have "set rows = {(i, row). sp_tickets ?s i = Some row \<and> matches ?q row}" using sel(2) by auto
  ultimately show ?thesis using sel(1)
    by (intro exI [of _ rows] exI [of _ d'] conjI) (simp_all only: rpc_query_tickets_def act_defs prod.case sum.case)
qed

text \<open>
  A query answers with the records of exactly the stored tickets that match it when it
  sets no limit, each once, and changes no contents. A requested status above 255 names no
  status at all: it is dropped, and the request is answered as if it asked for any status.
\<close>

theorem query_rpc:
  assumes "db_env_ok E" and "db_inv E (view E d)"
  shows "(qm_limit req = 0 \<longrightarrow> (\<exists>recs d'. rpc_query_tickets Q E req (d, r) = (Inr recs, (d', r))
          \<and> view E d' = view E d \<and> distinct (map tr_ticket_id recs)
          \<and> set recs = {ticket_record_of i row |i row.
              sp_tickets (db_abs E (view E d)) i = Some row \<and> matches (query_from_proto req) row}))
     \<and> (\<forall>n. qm_status req = Some n \<and> 255 < n \<longrightarrow>
          rpc_query_tickets Q E req = rpc_query_tickets Q E (req\<lparr>qm_status := None\<rparr>))"
proof (intro conjI allI impI)
  assume "qm_limit req = 0"
  with query_rows [OF assms, where Q = Q and r = r and req = req]
  obtain rows d' where out: "rpc_query_tickets Q E req (d, r) =
      (Inr (map (\<lambda>(i, stored). ticket_record_of i stored) rows), (d', r))" "view E d' = view E d"
    and rows: "distinct (map fst rows)" "set rows = {(i, row). sp_tickets (db_abs E (view E d)) i = Some row
        \<and> matches (query_from_proto req) row}" unfolding limited_def by auto
  let ?recs = "map (\<lambda>(i, stored). ticket_record_of i stored) rows"
  have "map tr_ticket_id ?recs = map fst rows" by (auto simp: ticket_record_of_def)
  then have "distinct (map tr_ticket_id ?recs)" using rows(1) by argo
  moreover have "set ?recs = {ticket_record_of i row |i row. sp_tickets (db_abs E (view E d)) i = Some row
        \<and> matches (query_from_proto req) row}"
    using rows(2) by force
  ultimately show "\<exists>recs d'. rpc_query_tickets Q E req (d, r) = (Inr recs, (d', r))
      \<and> view E d' = view E d \<and> distinct (map tr_ticket_id recs)
      \<and> set recs = {ticket_record_of i row |i row. sp_tickets (db_abs E (view E d)) i = Some row
        \<and> matches (query_from_proto req) row}"
    using out by blast
next
  fix n assume "qm_status req = Some n \<and> 255 < n"
  then have "query_from_proto req = query_from_proto (req\<lparr>qm_status := None\<rparr>)"
    by (auto simp: query_from_proto_def u8_of_u32_def word_less_nat_alt)
  then show "rpc_query_tickets Q E req = rpc_query_tickets Q E (req\<lparr>qm_status := None\<rparr>)"
    by (simp add: rpc_query_tickets_def)
qed

theorem query_rpc_witness:
  "\<exists>recs s'. rpc_query_tickets (one_node mem_db (\<lambda>_. [])) mem_db
     \<lparr>qm_status = Some 300, qm_assigned_to_uuid = None, qm_account_uuid = None, qm_project = None,
      qm_include_deleted = False, qm_limit = 0\<rparr> (RBT.empty, sample_metrics) = (Inr recs, s') \<and> recs = []"
  using query_rpc [OF mem_db_ok mem_db_empty(1), where Q = "one_node mem_db (\<lambda>_. [])" and r = sample_metrics
      and req = "\<lparr>qm_status = Some 300, qm_assigned_to_uuid = None, qm_account_uuid = None, qm_project = None,
      qm_include_deleted = False, qm_limit = 0\<rparr>"]
  by (auto simp: db_empty spec_init_def)

text \<open>
  Raw requests on a collection that is none of the service's own: a value that was put is
  read back and exists, and every other key of every collection reads as before; a deleted key
  is not found. Neither touches a ticket or a user.
\<close>

theorem raw_requests:
  assumes "db_env_ok E" and "leader_applies E Q" and "foreign c"
  shows "(\<exists>d' r'. rpc_put Q c k v (d, r) = (Inr \<lparr>ak_success = True, ak_error = []\<rparr>, (d', r'))
       \<and> fst (rpc_get Q E c k (d', r')) = Inr \<lparr>gr_found = True, gr_value = v, gr_error = []\<rparr>
       \<and> fst (rpc_exists Q E c k (d', r')) = Inr True
       \<and> (\<forall>c' k'. (c', k') \<noteq> (c, k) \<longrightarrow> fst (rpc_get Q E c' k' (d', r')) = fst (rpc_get Q E c' k' (d, r)))
       \<and> db_abs E (view E d') = db_abs E (view E d))
   \<and> (\<exists>d' r'. rpc_delete Q c k (d, r) = (Inr \<lparr>ak_success = True, ak_error = []\<rparr>, (d', r'))
       \<and> fst (rpc_get Q E c k (d', r')) = Inr \<lparr>gr_found = False, gr_value = [], gr_error = []\<rparr>
       \<and> fst (rpc_exists Q E c k (d', r')) = Inr False
       \<and> (\<forall>c' k'. (c', k') \<noteq> (c, k) \<longrightarrow> fst (rpc_get Q E c' k' (d', r')) = fst (rpc_get Q E c' k' (d, r)))
       \<and> db_abs E (view E d') = db_abs E (view E d))"
proof -
  have leader: "db_leader E Q" by unfold_locales (rule assms(1,2))+
  have ok: "sled_ok E" using assms(1) by (simp add: db_env_ok_def)
  note answers = db_leader.get_answer [OF leader] db_leader.exists_answer [OF leader]
  have "does (view E) (log_apply E (Put c k v)) (view E d) (Inr None) (wput (view E d) c k v)"
    unfolding log_apply.simps by (rule does_then_None [OF does_put [OF ok]])
  from db_leader.raw_write [OF leader this, of r]
  obtain d1 r1 where p: "propose Q (Put c k v) (d, r) = (Inr \<lparr>dr_success = True, dr_value = None\<rparr>, (d1, r1))"
    "view E d1 = wput (view E d) c k v" "db_abs E (view E d1) = db_abs E (view E d)"
    using assms(3) wput_other by (metis is_write.simps(2))
  have "does (view E) (log_apply E (Delete c k)) (view E d) (Inr None) (wdel (view E d) c k)"
    unfolding log_apply.simps by (rule does_then_None [OF does_delete [OF ok]])
  from db_leader.raw_write [OF leader this, of r]
  obtain d2 r2 where q: "propose Q (Delete c k) (d, r) = (Inr \<lparr>dr_success = True, dr_value = None\<rparr>, (d2, r2))"
    "view E d2 = wdel (view E d) c k" "db_abs E (view E d2) = db_abs E (view E d)"
    using assms(3) wdel_other by (metis is_write.simps(3))
  have "\<exists>d' r'. rpc_put Q c k v (d, r) = (Inr \<lparr>ak_success = True, ak_error = []\<rparr>, (d', r'))
       \<and> fst (rpc_get Q E c k (d', r')) = Inr \<lparr>gr_found = True, gr_value = v, gr_error = []\<rparr>
       \<and> fst (rpc_exists Q E c k (d', r')) = Inr True
       \<and> (\<forall>c' k'. (c', k') \<noteq> (c, k) \<longrightarrow> fst (rpc_get Q E c' k' (d', r')) = fst (rpc_get Q E c' k' (d, r)))
       \<and> db_abs E (view E d') = db_abs E (view E d)"
    by (intro exI [of _ d1] exI [of _ r1]) (auto simp: answers p p(3) [unfolded p(2)] rpc_put_def act_defs wput_apply)
  moreover have "\<exists>d' r'. rpc_delete Q c k (d, r) = (Inr \<lparr>ak_success = True, ak_error = []\<rparr>, (d', r'))
       \<and> fst (rpc_get Q E c k (d', r')) = Inr \<lparr>gr_found = False, gr_value = [], gr_error = []\<rparr>
       \<and> fst (rpc_exists Q E c k (d', r')) = Inr False
       \<and> (\<forall>c' k'. (c', k') \<noteq> (c, k) \<longrightarrow> fst (rpc_get Q E c' k' (d', r')) = fst (rpc_get Q E c' k' (d, r)))
       \<and> db_abs E (view E d') = db_abs E (view E d)"
    by (intro exI [of _ d2] exI [of _ r2]) (auto simp: answers q q(3) [unfolded q(2)] rpc_delete_def act_defs wdel_apply)
  ultimately show ?thesis by blast
qed

theorem raw_requests_witness:
  "\<exists>s'. rpc_put (one_node mem_db (\<lambda>_. [])) ''sessions'' [1] [2] (RBT.empty, sample_metrics)
       = (Inr \<lparr>ak_success = True, ak_error = []\<rparr>, s')
     \<and> fst (rpc_get (one_node mem_db (\<lambda>_. [])) mem_db ''sessions'' [1] s')
         = Inr \<lparr>gr_found = True, gr_value = [2], gr_error = []\<rparr>"
proof -
  have "foreign ''sessions''" by (simp add: foreign_def trees_defs)
  from raw_requests [OF mem_db_ok one_node_applies [of mem_db "\<lambda>_. []"] this, of "[1]" "[2]" RBT.empty sample_metrics]
  show ?thesis by blast
qed

end
