(* ===== verification/Ticket_Service.thy ===== *)
theory Ticket_Service
  imports Custodian_Server Db_Server_Props
begin

text \<open>
  What the custodian relies on from the database service: the locale \<open>ticket_db\<close>, a map from
  ids to stored tickets behind the requests of \<open>database_api\<close>. The handlers of the database
  service give it, whenever their engine applies what it accepts (\<open>db_leader\<close>), so the locale
  holds of the two services composed.
\<close>

definition row_of :: "ticket_write \<Rightarrow> stored_ticket" where
  "row_of w = \<lparr>sk_body = tw_encrypted_body w, sk_index = ticket_index_from_proto (tw_index w),
     sk_deleted = False, sk_deleted_at_unix = 0\<rparr>"

locale ticket_db =
  fixes A :: "'b database_api"
    and rows :: "'b \<Rightarrow> u64 \<Rightarrow> stored_ticket option"
    and ok :: "'b \<Rightarrow> bool"
    and room :: "'b \<Rightarrow> bool"
  assumes create: "ok b \<Longrightarrow> room b \<Longrightarrow>
      \<exists>i b'. da_create_ticket A w b = (Inr (ticket_record_of i (row_of w)), b') \<and> ok b'
        \<and> rows b i = None \<and> i \<noteq> 0 \<and> rows b' = (rows b)(i \<mapsto> row_of w)"
    and lookup: "ok b \<Longrightarrow> \<exists>b'. da_get_ticket A l b =
        ((case visible (tl_include_deleted l) (rows b (tl_ticket_id l)) of
            Some row \<Rightarrow> Inr (ticket_record_of (tl_ticket_id l) row)
          | None \<Rightarrow> Inl (NotFoundStatus ''ticket not found'')), b') \<and> ok b' \<and> rows b' = rows b \<and> (room b' = room b)"
    and update_row: "ok b \<Longrightarrow> tw_ticket_id w \<noteq> 0 \<Longrightarrow> rows b (tw_ticket_id w) = Some row \<Longrightarrow>
      \<exists>b'. da_update_ticket A w b =
        (Inr (ticket_record_of (tw_ticket_id w) (row\<lparr>sk_body := tw_encrypted_body w,
            sk_index := ticket_index_from_proto (tw_index w)\<rparr>)), b') \<and> ok b'
        \<and> rows b' = (rows b)(tw_ticket_id w \<mapsto> row\<lparr>sk_body := tw_encrypted_body w,
            sk_index := ticket_index_from_proto (tw_index w)\<rparr>)"
    and query: "ok b \<Longrightarrow>
      \<exists>xs b'. da_query_tickets A m b =
        (Inr (map (\<lambda>(i, row). ticket_record_of i row) (limited (qm_limit m) xs)), b')
        \<and> ok b' \<and> rows b' = rows b \<and> distinct (map fst xs)
        \<and> set xs = {(i, row). rows b i = Some row \<and> matches (query_from_proto m) row}"
    and nonzero: "ok b \<Longrightarrow> rows b 0 = None"
begin

lemma get_record:
  assumes "ok b"
  shows "\<exists>b'. dbc_get_ticket A i incl b =
     (Inr (map_option (ticket_record_of i) (visible incl (rows b i))), b') \<and> ok b' \<and> rows b' = rows b \<and> room b' = room b"
  using lookup [OF assms, of "\<lparr>tl_ticket_id = i, tl_include_deleted = incl\<rparr>"]
  by (auto simp: dbc_get_ticket_def split: option.splits)

lemma create_record:
  assumes "ok b" and "room b"
  shows "\<exists>i b'. dbc_create_ticket A body idx b = (Inr i, b') \<and> ok b' \<and> rows b i = None \<and> i \<noteq> 0
     \<and> rows b' = (rows b)(i \<mapsto> \<lparr>sk_body = body, sk_index = ticket_index_from_proto (Some idx),
          sk_deleted = False, sk_deleted_at_unix = 0\<rparr>)"
  using create [OF assms, of "\<lparr>tw_ticket_id = 0, tw_encrypted_body = body, tw_index = Some idx\<rparr>"]
  by (auto simp: dbc_create_ticket_def act_defs row_of_def ticket_record_of_def)

lemma update_record:
  assumes "ok b" and "rows b i = Some row"
  shows "\<exists>b'. dbc_update_ticket A i body idx b = (Inr (), b') \<and> ok b'
     \<and> rows b' = (rows b)(i \<mapsto> row\<lparr>sk_body := body, sk_index := ticket_index_from_proto (Some idx)\<rparr>)"
proof -
  have "i \<noteq> 0" using assms nonzero by (metis option.distinct(1))
  then show ?thesis
    using update_row [OF assms(1), of "\<lparr>tw_ticket_id = i, tw_encrypted_body = body, tw_index = Some idx\<rparr>" row] assms(2)
    by (auto simp: dbc_update_ticket_def act_defs)
qed

end

subsection \<open>The database service gives it\<close>

definition database_requests ::
  "('d, 'r) db_service \<Rightarrow> ('d, 'z) dbstore_scheme \<Rightarrow> i64 \<Rightarrow> ('d \<times> 'r) database_api" where
  "database_requests Q E now =
     \<lparr>da_put = rpc_put Q, da_get = rpc_get Q E,
      da_create_ticket = rpc_create_ticket Q, da_get_ticket = rpc_get_ticket Q E,
      da_update_ticket = rpc_update_ticket Q E, da_soft_delete_ticket = rpc_soft_delete_ticket Q now,
      da_query_tickets = rpc_query_tickets Q E\<rparr>"

definition stored_rows :: "('d, 'z) dbstore_scheme \<Rightarrow> 'd \<times> 'r \<Rightarrow> u64 \<Rightarrow> stored_ticket option" where
  "stored_rows E b = sp_tickets (db_abs E (view E (fst b)))"

text \<open>
  The invariant the ticket requests keep: that of the tickets, with any property \<open>P\<close> of the other
  trees, which the requests leave alone. \<open>stored_ok\<close> asks nothing of the other trees.
\<close>

definition stored_with :: "('d, 'z) dbstore_scheme \<Rightarrow> (world \<Rightarrow> bool) \<Rightarrow> 'd \<times> 'r \<Rightarrow> bool" where
  "stored_with E P b \<longleftrightarrow> db_part E P (view E (fst b)) \<and> stored_rows E b 0 = None"

abbreviation stored_ok :: "('d, 'z) dbstore_scheme \<Rightarrow> 'd \<times> 'r \<Rightarrow> bool" where
  "stored_ok E \<equiv> stored_with E (\<lambda>_. True)"

definition stored_room :: "('d, 'z) dbstore_scheme \<Rightarrow> 'd \<times> 'r \<Rightarrow> bool" where
  "stored_room E b \<longleftrightarrow> sp_last_id (db_abs E (view E (fst b))) \<noteq> - 1"

lemmas stored_defs = stored_rows_def stored_with_def stored_room_def

context db_leader
begin

lemma stored_create:
  assumes "stored_with E P b" and "stored_room E b"
  shows "\<exists>i b'. rpc_create_ticket Q w b = (Inr (ticket_record_of i (row_of w)), b') \<and> stored_with E P b'
     \<and> stored_rows E b i = None \<and> i \<noteq> 0 \<and> stored_rows E b' = (stored_rows E b)(i \<mapsto> row_of w)"
proof -
  obtain d r where b: "b = (d, r)" by (cases b)
  have inv: "db_part E P (view E d)" and room: "sp_last_id (db_abs E (view E d)) \<noteq> - 1"
    using assms by (simp_all add: b stored_defs)
  let ?i = "saturating_inc (sp_last_id (db_abs E (view E d)))"
  have "unat ?i = unat (sp_last_id (db_abs E (view E d))) + 1" by (rule unat_saturating_inc [OF room])
  then have "?i \<noteq> 0" and gt: "\<not> ?i \<le> sp_last_id (db_abs E (view E d))"
    by (auto simp: unat_eq_0 word_le_nat_alt)
  from gt have "sp_tickets (db_abs E (view E d)) ?i = None"
    using inv by (auto simp: db_part_def ids_fresh_def)
  moreover obtain d' r' where "rpc_create_ticket Q w (d, r) = (Inr \<lparr>tr_ticket_id = ?i,
         tr_encrypted_body = tw_encrypted_body w, tr_deleted = False, tr_deleted_at_unix = 0\<rparr>, (d', r'))"
    "db_part E P (view E d')" "sp_tickets (db_abs E (view E d')) = (sp_tickets (db_abs E (view E d)))(?i \<mapsto> row_of w)"
    unfolding row_of_def by (rule create_ticket_answer [OF inv room])
  ultimately show ?thesis using \<open>?i \<noteq> 0\<close> assms(1)
    by (intro exI [of _ ?i] exI [of _ "(d', r')"]) (simp add: b stored_defs row_of_def ticket_record_of_def)
qed

lemma stored_lookup:
  assumes "stored_with E P b"
  shows "\<exists>b'. rpc_get_ticket Q E l b =
        ((case visible (tl_include_deleted l) (stored_rows E b (tl_ticket_id l)) of
            Some row \<Rightarrow> Inr (ticket_record_of (tl_ticket_id l) row)
          | None \<Rightarrow> Inl (NotFoundStatus ''ticket not found'')), b')
     \<and> stored_with E P b' \<and> stored_rows E b' = stored_rows E b \<and> stored_room E b' = stored_room E b"
proof -
  obtain d r where b: "b = (d, r)" by (cases b)
  have "db_part E P (view E d)" using assms by (simp add: b stored_defs)
  from get_ticket_run [OF this, of l r] obtain d' where
    "rpc_get_ticket Q E l (d, r) =
     ((case visible (tl_include_deleted l) (sp_tickets (db_abs E (view E d)) (tl_ticket_id l)) of
        Some stored \<Rightarrow> Inr (ticket_record_of (tl_ticket_id l) stored)
      | None \<Rightarrow> Inl (NotFoundStatus ''ticket not found'')), (d', r))" "view E d' = view E d" by blast
  then show ?thesis using assms by (intro exI [of _ "(d', r)"]) (simp add: b stored_defs)
qed

lemma stored_update:
  assumes "stored_with E P b" and "tw_ticket_id w \<noteq> 0" and "stored_rows E b (tw_ticket_id w) = Some row"
  shows "\<exists>b'. rpc_update_ticket Q E w b =
        (Inr (ticket_record_of (tw_ticket_id w) (row\<lparr>sk_body := tw_encrypted_body w,
            sk_index := ticket_index_from_proto (tw_index w)\<rparr>)), b') \<and> stored_with E P b'
     \<and> stored_rows E b' = (stored_rows E b)(tw_ticket_id w \<mapsto> row\<lparr>sk_body := tw_encrypted_body w,
            sk_index := ticket_index_from_proto (tw_index w)\<rparr>)"
proof -
  obtain d r where b: "b = (d, r)" by (cases b)
  have inv: "db_part E P (view E d)" and row: "sp_tickets (db_abs E (view E d)) (tw_ticket_id w) = Some row"
    using assms by (simp_all add: b stored_defs)
  let ?row = "row\<lparr>sk_body := tw_encrypted_body w, sk_index := ticket_index_from_proto (tw_index w)\<rparr>"
  obtain d' r' where "rpc_update_ticket Q E w (d, r) = (Inr (ticket_record_of (tw_ticket_id w) ?row), (d', r'))"
    "db_part E P (view E d')"
    "sp_tickets (db_abs E (view E d')) = (sp_tickets (db_abs E (view E d)))(tw_ticket_id w \<mapsto> ?row)"
    by (rule update_ticket_present [OF inv row assms(2)])
  then show ?thesis using assms(1,2) by (intro exI [of _ "(d', r')"]) (simp add: b stored_defs)
qed

lemma stored_query:
  assumes "stored_with E P b"
  shows "\<exists>xs b'. rpc_query_tickets Q E m b =
       (Inr (map (\<lambda>(i, row). ticket_record_of i row) (limited (qm_limit m) xs)), b')
     \<and> stored_with E P b' \<and> stored_rows E b' = stored_rows E b \<and> distinct (map fst xs)
     \<and> set xs = {(i, row). stored_rows E b i = Some row \<and> matches (query_from_proto m) row}"
proof -
  obtain d r where b: "b = (d, r)" by (cases b)
  have "db_part E P (view E d)" using assms by (simp add: b stored_defs)
  from query_rows [OF env this, of Q m r]
  obtain xs d' where "rpc_query_tickets Q E m (d, r) =
      (Inr (map (\<lambda>(i, stored). ticket_record_of i stored) (limited (qm_limit m) xs)), (d', r))"
    "view E d' = view E d" "distinct (map fst xs)"
    "set xs = {(i, row). sp_tickets (db_abs E (view E d)) i = Some row \<and> matches (query_from_proto m) row}" by blast
  then show ?thesis using assms by (intro exI [of _ xs] exI [of _ "(d', r)"]) (simp add: b stored_defs)
qed

end

sublocale db_leader \<subseteq> served: ticket_db "database_requests Q E now" "stored_rows E" "stored_with E P" "stored_room E"
  for now P
  by (unfold_locales, unfold database_requests_def database_api.simps)
    (rule stored_create stored_lookup stored_update stored_query | assumption | simp add: stored_with_def)+

context db_leader
begin

lemma serves: "ticket_db (database_requests Q E now) (stored_rows E) (stored_with E P) (stored_room E)"
  by (rule served.ticket_db_axioms)

end

lemma served_empty:
  "stored_ok mem_db (RBT.empty, r)" "stored_room mem_db (RBT.empty, r)" "stored_rows mem_db (RBT.empty, r) = Map.empty"
  by (simp_all add: stored_defs db_empty db_part_empty spec_init_def)

end
