(* ===== verification/User_Model.thy ===== *)
theory User_Model
  imports Ticket_Model
begin

text \<open>
  \<open>shared/src/user.rs\<close>: roles and the permission check, accounts, credentials and sessions.
  Clock readings and freshly drawn UUIDs are arguments; the discriminant order of \<open>role\<close> is
  made a linear order, since \<open>has_permission\<close> compares \<open>role as u8\<close>.
\<close>

datatype role = Admin | Manager | Supervisor | Technician | EbondPartner | ReadOnly

fun role_u8 :: "role \<Rightarrow> u8" where
  "role_u8 Admin = 0"
| "role_u8 Manager = 1"
| "role_u8 Supervisor = 2"
| "role_u8 Technician = 3"
| "role_u8 EbondPartner = 4"
| "role_u8 ReadOnly = 5"

lemma role_u8_inject [simp]: "role_u8 r = role_u8 r' \<longleftrightarrow> r = r'"
  by (cases r; cases r') simp_all

instantiation role :: linorder
begin

definition less_eq_role :: "role \<Rightarrow> role \<Rightarrow> bool" where
  "less_eq_role r r' \<longleftrightarrow> role_u8 r \<le> role_u8 r'"

definition less_role :: "role \<Rightarrow> role \<Rightarrow> bool" where
  "less_role r r' \<longleftrightarrow> role_u8 r < role_u8 r'"

instance
  by intro_classes (auto simp: less_eq_role_def less_role_def order.strict_iff_order)

end

definition is_admin :: "role \<Rightarrow> bool" where
  "is_admin r \<longleftrightarrow> r = Admin"

definition can_modify_tickets :: "role \<Rightarrow> bool" where
  "can_modify_tickets r \<longleftrightarrow> r = Admin \<or> r = Manager \<or> r = Supervisor \<or> r = Technician"

definition can_manage_users :: "role \<Rightarrow> bool" where
  "can_manage_users r \<longleftrightarrow> r = Admin \<or> r = Manager"

datatype auth_method = Password | WebAuthn | U2F | TOTP | ActiveDirectory

record user_auth =
  ua_user_id :: uuid
  ua_password_hash :: string
  ua_mfa_secret :: "string option"
  ua_mfa_method :: "auth_method option"

record mfa_status =
  mf_method :: auth_method
  mf_verified_at :: datetime
  mf_device_name :: "string option"

record user =
  us_user_id :: uuid
  us_username :: string
  us_display_name :: string
  us_email :: string
  us_role :: role
  us_is_active :: bool
  us_mfa_enabled :: bool
  us_last_login :: "datetime option"
  us_created_at :: datetime
  us_updated_at :: datetime

definition user_new :: "datetime \<Rightarrow> uuid \<Rightarrow> string \<Rightarrow> string \<Rightarrow> string \<Rightarrow> role \<Rightarrow> user" where
  "user_new now fresh username display_name email r =
     \<lparr>us_user_id = fresh, us_username = username, us_display_name = display_name,
      us_email = email, us_role = r, us_is_active = True, us_mfa_enabled = False,
      us_last_login = None, us_created_at = now, us_updated_at = now\<rparr>"

definition has_permission :: "user \<Rightarrow> role \<Rightarrow> bool" where
  "has_permission u required_role =
     (if \<not> us_is_active u then False
      else if is_admin (us_role u) then True
      else role_u8 (us_role u) \<le> role_u8 required_role)"

record session =
  se_session_id :: uuid
  se_user_id :: uuid
  se_created_at :: datetime
  se_expires_at :: datetime
  se_mfa_verified :: bool
  se_ip_address :: string
  se_user_agent :: string

text \<open>
  \<open>Session::new\<close>: \<open>plus_hours t h\<close> is chrono's \<open>t + Duration::hours(h)\<close>, \<open>None\<close> its panic.
\<close>

definition session_new ::
  "(datetime \<Rightarrow> int \<Rightarrow> datetime option) \<Rightarrow> datetime \<Rightarrow> uuid \<Rightarrow> uuid \<Rightarrow> string \<Rightarrow> string \<Rightarrow> int
   \<Rightarrow> session option" where
  "session_new plus_hours now fresh user_id ip_address user_agent ttl_hours =
     (case plus_hours now ttl_hours of
        None \<Rightarrow> None
      | Some e \<Rightarrow> Some
          \<lparr>se_session_id = fresh, se_user_id = user_id, se_created_at = now, se_expires_at = e,
           se_mfa_verified = False, se_ip_address = ip_address, se_user_agent = user_agent\<rparr>)"

definition dt_less :: "datetime \<Rightarrow> datetime \<Rightarrow> bool" where
  "dt_less a b \<longleftrightarrow> dt_secs a < dt_secs b \<or> dt_secs a = dt_secs b \<and> dt_nanos a < dt_nanos b"

definition session_is_valid :: "datetime \<Rightarrow> session \<Rightarrow> bool" where
  "session_is_valid now s \<longleftrightarrow> dt_less now (se_expires_at s)"

definition is_fully_authenticated :: "session \<Rightarrow> bool" where
  "is_fully_authenticated s = se_mfa_verified s"

lemma Admin_least [simp]: "Admin \<le> r"
  by (simp add: less_eq_role_def)

text \<open>The permission check is the role order: an active user passes exactly when its role is
  at or above the required one (the separate administrator branch agrees with the order), so
  permission is inherited by every weaker requirement, and an inactive user never passes.
\<close>

theorem has_permission_order:
  "(has_permission u r \<longleftrightarrow> us_is_active u \<and> us_role u \<le> r)
   \<and> (has_permission u r \<longrightarrow> r \<le> r' \<longrightarrow> has_permission u r')
   \<and> (has_permission u Technician \<longleftrightarrow> us_is_active u \<and> can_modify_tickets (us_role u))
   \<and> (has_permission u Manager \<longleftrightarrow> us_is_active u \<and> can_manage_users (us_role u))"
proof -
  have iff: "has_permission u q \<longleftrightarrow> us_is_active u \<and> us_role u \<le> q" for q
    by (auto simp: has_permission_def is_admin_def less_eq_role_def)
  moreover have "us_role u \<le> Technician \<longleftrightarrow> can_modify_tickets (us_role u)"
    by (cases "us_role u") (simp_all add: less_eq_role_def can_modify_tickets_def word_le_nat_alt)
  moreover have "us_role u \<le> Manager \<longleftrightarrow> can_manage_users (us_role u)"
    by (cases "us_role u") (simp_all add: less_eq_role_def can_manage_users_def word_le_nat_alt)
  ultimately show ?thesis by (auto intro: order_trans)
qed

theorem has_permission_order_witness:
  "has_permission (user_new \<lparr>dt_secs = 0, dt_nanos = 0\<rparr> 9 ''mgr'' ''M'' ''m@e'' Manager) ReadOnly"
proof -
  let ?u = "user_new \<lparr>dt_secs = 0, dt_nanos = 0\<rparr> 9 ''mgr'' ''M'' ''m@e'' Manager"
  have "has_permission ?u Technician" by (simp add: has_permission_def user_new_def is_admin_def)
  moreover have "Technician \<le> ReadOnly" by (simp add: less_eq_role_def)
  ultimately show ?thesis using has_permission_order [of ?u Technician ReadOnly] by blast
qed

end
