(* ===== verification/Account_Lib.thy ===== *)
theory Account_Lib
  imports Ticket_Service User_Model
begin

text \<open>
  What the authentication service and the administration service share: the raw requests of
  the database they call (\<open>raw_api\<close>), the third-party functions (\<open>account_lib\<close>), and the sealed
  form in which both keep their records.

  \<open>raw_db\<close> is the interface they rely on: the raw requests read and write a \<open>world\<close>, the
  contents of the trees. The handlers of the database service give it over any engine that
  applies what it accepts (\<open>db_leader\<close>).
\<close>

subsection \<open>The database behind the services\<close>

record 'b raw_api =
  ra_put :: "string \<Rightarrow> bytes \<Rightarrow> bytes \<Rightarrow> ('b, status, ack) eff"
  ra_get :: "string \<Rightarrow> bytes \<Rightarrow> ('b, status, get_response) eff"
  ra_list :: "string \<Rightarrow> bytes \<Rightarrow> u32 \<Rightarrow> ('b, status, (bytes \<times> bytes) list) eff"

definition raw_requests :: "('d, 'r) db_service \<Rightarrow> ('d, 'z) dbstore_scheme \<Rightarrow> ('d \<times> 'r) raw_api" where
  "raw_requests Q E = \<lparr>ra_put = rpc_put Q, ra_get = rpc_get Q E, ra_list = rpc_list Q E\<rparr>"

definition found_value :: "bytes option \<Rightarrow> get_response" where
  "found_value v = (case v of
       Some x \<Rightarrow> \<lparr>gr_found = True, gr_value = x, gr_error = []\<rparr>
     | None \<Rightarrow> \<lparr>gr_found = False, gr_value = [], gr_error = []\<rparr>)"

lemma found_value_simps [simp]:
  "gr_found (found_value v) \<longleftrightarrow> v \<noteq> None" "gr_value (found_value (Some x)) = x"
  by (simp_all add: found_value_def split: option.split)

locale raw_db =
  fixes A :: "'b raw_api" and cells :: "'b \<Rightarrow> world"
  assumes put_law: "does cells (ra_put A c k v) W (Inr \<lparr>ak_success = True, ak_error = []\<rparr>) (wput W c k v)"
    and get_law: "does cells (ra_get A c k) W (Inr (found_value (W c k))) W"
    and list_law: "scan_of (W c) xs \<Longrightarrow>
      does cells (ra_list A c p n) W (Inr (limited n (filter (\<lambda>x. is_prefix p (fst x)) xs))) W"
    and scanned: "\<exists>xs. scan_of (cells b c) xs"

context db_leader
begin

lemma does_write:
  assumes "is_write e" and run: "\<And>W. does (view E) (log_apply E e) W (Inr v) (f W)"
  shows "does (\<lambda>b. view E (fst b)) (propose Q e) W (Inr \<lparr>dr_success = True, dr_value = v\<rparr>) (f W)"
  unfolding does_def
proof (intro allI impI)
  fix b :: "'d \<times> 'r"
  assume W: "view E (fst b) = W"
  obtain d r where b: "b = (d, r)" by (cases b)
  obtain d' where d': "log_apply E e d = (Inr v, d')" "view E d' = f (view E d)"
    by (rule does_runE [OF run])
  obtain ans r' where "propose Q e (d, r) = (ans, (d', r'))" "write_answer (Inr v) ans"
    by (rule propose_run [OF assms(1) d'(1)])
  then show "fst (propose Q e b) = Inr \<lparr>dr_success = True, dr_value = v\<rparr> \<and> view E (fst (snd (propose Q e b))) = f W"
    using W d'(2) by (simp add: b write_answer_def)
qed

lemma does_local:
  assumes "does (view E) m W (Inr x) W"
  shows "does (\<lambda>b. view E (fst b)) (local_op (dv_error_text Q) what m) W (Inr x) W"
  using assms by (auto simp: does_def local_op_def split: prod.split sum.split)

lemma raw_put:
  "does (\<lambda>b. view E (fst b)) (rpc_put Q c k v) W (Inr \<lparr>ak_success = True, ak_error = []\<rparr>) (wput W c k v)"
  unfolding rpc_put_def
proof (rule does_then [OF does_write does_ret])
  show "does (view E) (log_apply E (Put c k v)) W' (Inr None) (wput W' c k v)" for W'
    by (simp add: does_then [OF does_put [OF sled] does_ret])
qed simp

lemma raw_get: "does (\<lambda>b. view E (fst b)) (rpc_get Q E c k) W (Inr (found_value (W c k))) W"
  unfolding rpc_get_def found_value_def
  by (rule does_bind [OF does_local [OF does_get [OF sled]] does_ret])

lemma raw_list:
  assumes "scan_of (W c) xs"
  shows "does (\<lambda>b. view E (fst b)) (rpc_list Q E c p n) W
     (Inr (limited n (filter (\<lambda>x. is_prefix p (fst x)) xs))) W"
  unfolding rpc_list_def
  using does_local [OF does_list_pairs [where W = W, OF sled assms, of p "if 0 < n then Some (unat n) else None"],
      of "''Storage list failed: ''"]
  by (cases "n = 0") (simp_all add: limited_def list_limit_def word_greater_zero_iff)

end

sublocale db_leader \<subseteq> raw: raw_db "raw_requests Q E" "\<lambda>b. view E (fst b)"
proof
  show "\<exists>xs. scan_of (view E (fst b) c) xs" for b c
    using scan_facts(1) [OF sled] by blast
qed (simp_all add: raw_requests_def raw_put raw_get raw_list)

context db_leader
begin

lemma serves_raw: "raw_db (raw_requests Q E) (\<lambda>b. view E (fst b))"
  by (rule raw.raw_db_axioms)

end

lemma raw_over: "db_env_ok E \<Longrightarrow> leader_applies E Q \<Longrightarrow> raw_db (raw_requests Q E) (\<lambda>b. view E (fst b))"
  by (rule db_leader.serves_raw [OF db_leader.intro])

subsection \<open>Third-party functions\<close>

text \<open>
  Argon2 (\<open>al_hash_password\<close> with the drawn salt, \<open>al_parse_hash\<close> and \<open>al_verify_password\<close> on the
  parsed hash \<open>'h\<close>), the TOTP check at a Unix time with the base32 reader of its secret, JSON web
  tokens under a secret (decoding checks the expiry at a Unix time), \<open>uuid\<close>'s parser and text,
  \<open>chrono\<close>'s checked addition of hours, \<open>prost\<close>'s timestamps and messages, \<open>serde_json\<close>, and the
  texts of errors.
\<close>

record claims =
  cm_sub :: string
  cm_exp :: u64
  cm_role :: string

record intrusion_event =
  iv_timestamp_unix :: i64
  iv_source_ip :: string
  iv_endpoint_accessed :: string
  iv_request_method :: string
  iv_user_agent :: "string option"
  iv_request_body :: "string option"
  iv_tls_fingerprint :: "string option"

record 'h account_lib =
  al_parse_uuid :: "string \<Rightarrow> uuid option"
  al_uuid_text :: "uuid \<Rightarrow> string"
  al_hash_password :: "bytes \<Rightarrow> bytes \<Rightarrow> string + string"
  al_parse_hash :: "string \<Rightarrow> string + 'h"
  al_verify_password :: "bytes \<Rightarrow> 'h \<Rightarrow> bool"
  al_totp_secret :: "string \<Rightarrow> string + bytes"
  al_totp_check :: "bytes \<Rightarrow> u64 \<Rightarrow> string \<Rightarrow> bool"
  al_jwt_encode :: "bytes \<Rightarrow> claims \<Rightarrow> string + string"
  al_jwt_decode :: "bytes \<Rightarrow> int \<Rightarrow> string \<Rightarrow> claims option"
  al_add_hours :: "datetime \<Rightarrow> int \<Rightarrow> datetime option"
  al_to_timestamp :: "datetime \<Rightarrow> timestamp"
  al_user_json :: "user codec"
  al_auth_json :: "user_auth codec"
  al_body_json :: "encrypted_data codec"
  al_event_bytes :: "intrusion_event \<Rightarrow> bytes"
  al_crypto :: crypto
  al_json_text :: "store_error \<Rightarrow> string"
  al_crypto_text :: "encryption_error \<Rightarrow> string"
  al_status_text :: "status \<Rightarrow> string"

subsection \<open>Keys and sealed records\<close>

text \<open>\<open>Uuid::as_bytes\<close>: the 16 bytes, most significant first.\<close>

definition uuid_bytes :: "uuid \<Rightarrow> bytes" where
  "uuid_bytes u = be_nat 16 (unat u)"

definition auth_key :: "string \<Rightarrow> bytes" where
  "auth_key username = utf8_bytes (''auth:username:'' @ username)"

text \<open>
  A record is kept as the JSON text of an encrypted body that holds the record's JSON text. The
  three readers of the code differ in the texts of two errors.
\<close>

definition unseal ::
  "'h account_lib \<Rightarrow> bytes \<times> bytes \<Rightarrow> 'a codec \<Rightarrow> string \<Rightarrow> string \<Rightarrow> bytes \<Rightarrow> status + 'a" where
  "unseal L keys json bad_body bad_record val =
     (case cd_de (al_body_json L) val of
        Inl e \<Rightarrow> Inl (Internal (bad_body @ al_json_text L e))
      | Inr ed \<Rightarrow>
          (case decrypt_with_private_key (al_crypto L) ed (snd keys) of
             Inl e \<Rightarrow> Inl (Internal (''Decryption failed: '' @ al_crypto_text L e))
           | Inr plain \<Rightarrow> map_errR (\<lambda>e. Internal (bad_record @ al_json_text L e)) (cd_de json plain)))"

definition seal_record ::
  "'h account_lib \<Rightarrow> bytes \<times> bytes \<Rightarrow> 'a codec \<Rightarrow> bytes \<times> bytes \<Rightarrow> 'a \<Rightarrow> status + encrypted_data" where
  "seal_record L keys json rnd x =
     (case cd_ser json x of
        Inl e \<Rightarrow> Inl (Internal (''Serialization error: '' @ al_json_text L e))
      | Inr plain \<Rightarrow> map_errR (\<lambda>e. Internal (''Encryption error: '' @ al_crypto_text L e))
          (encrypt_with_public_key (al_crypto L) (fst rnd) (snd rnd) plain (fst keys)))"

definition body_bytes :: "'h account_lib \<Rightarrow> encrypted_data \<Rightarrow> status + bytes" where
  "body_bytes L ed = map_errR (\<lambda>e. Internal (''Serialization error: '' @ al_json_text L e)) (cd_ser (al_body_json L) ed)"

end
