(* ===== verification/Auth_Server.thy ===== *)
theory Auth_Server
  imports Account_Lib
begin

text \<open>
  The authentication service, \<open>auth/src/server.rs\<close>: login with a password and a one-time code,
  session tokens and their validation. It reads the records the administration service writes.

  The clock is read twice in a login: \<open>totp_clock\<close> for the one-time code (a Unix time, or the
  error of a clock before 1970) and \<open>now\<close> for the token's expiry. \<open>mfa_env\<close> is the environment
  variable \<open>MFA_DISABLED\<close>. The messages are those of \<open>auth/proto/auth.proto\<close>.
\<close>

subsection \<open>Messages and state\<close>

record authenticate_request =
  nq_username :: string
  nq_password :: string
  nq_mfa_token :: string

record user_info =
  uf_user_uuid :: string
  uf_username :: string
  uf_display_name :: string
  uf_email :: string
  uf_role :: string
  uf_last_login :: "timestamp option"

record authenticate_response =
  nr_success :: bool
  nr_session_token :: string
  nr_error :: string
  nr_user :: "user_info option"

record validate_session_response =
  vs_valid :: bool
  vs_user :: "user_info option"
  vs_error :: string

record logout_response =
  lo_success :: bool
  lo_error :: string

record 'b auth_service =
  as_db :: "'b raw_api"
  as_jwt_secret :: bytes
  as_keys :: "bytes \<times> bytes"

subsection \<open>Trimming\<close>

text \<open>
  \<open>str::trim\<close>: the characters of the Unicode property White_Space, each as its UTF-8 bytes. No
  byte sequence of the list begins or ends another one, so on well-formed text matching bytes
  is matching characters, from either side.
\<close>

definition white_space :: "string list" where
  "white_space =
     [[CHR 0x09], [CHR 0x0A], [CHR 0x0B], [CHR 0x0C], [CHR 0x0D], [CHR 0x20],
      [CHR 0xC2, CHR 0x85], [CHR 0xC2, CHR 0xA0], [CHR 0xE1, CHR 0x9A, CHR 0x80]]
     @ map (\<lambda>n. [CHR 0xE2, CHR 0x80, char_of n]) ([0x80 ..< 0x8B] @ [0xA8, 0xA9, 0xAF])
     @ [[CHR 0xE2, CHR 0x81, CHR 0x9F], [CHR 0xE3, CHR 0x80, CHR 0x80]]"

function strip_left :: "string list \<Rightarrow> string \<Rightarrow> string" where
  "strip_left ws s =
     (case List.find (\<lambda>w. w \<noteq> [] \<and> take (length w) s = w) ws of
        Some w \<Rightarrow> strip_left ws (drop (length w) s)
      | None \<Rightarrow> s)"
  by pat_completeness auto
termination
proof (relation "measure (\<lambda>(ws, s). length s)")
  show "wf (measure (\<lambda>(ws :: string list, s :: string). length s))" by simp
next
  fix ws :: "string list" and s w
  assume "List.find (\<lambda>w. w \<noteq> [] \<and> take (length w) s = w) ws = Some w"
  then have "w \<noteq> []" "take (length w) s = w" by (auto simp: find_Some_iff)
  then have "0 < length w" "s \<noteq> []" by auto
  then show "((ws, drop (length w) s), (ws, s)) \<in> measure (\<lambda>(ws, s). length s)" by simp
qed

declare strip_left.simps [simp del]

definition trim :: "string \<Rightarrow> string" where
  "trim s = rev (strip_left (map rev white_space) (rev (strip_left white_space s)))"

subsection \<open>Reading accounts\<close>

definition get_user_auth ::
  "'h account_lib \<Rightarrow> 'b auth_service \<Rightarrow> string \<Rightarrow> ('b, status, user_auth option) eff" where
  "get_user_auth L S username =
     bindA (map_err (\<lambda>e. Internal (''DB error: '' @ al_status_text L e))
              (ra_get (as_db S) ''auth'' (auth_key username)))
       (\<lambda>inner. if \<not> gr_found inner then ret None
          else bindA (lift_res (unseal L (as_keys S) (al_auth_json L)
                 ''Failed to decode encrypted data: '' ''Failed to decode UserAuth: '' (gr_value inner)))
                 (\<lambda>user_auth. ret (Some user_auth)))"

definition get_user_profile ::
  "'h account_lib \<Rightarrow> 'b auth_service \<Rightarrow> uuid \<Rightarrow> ('b, status, user option) eff" where
  "get_user_profile L S user_id =
     bindA (map_err (\<lambda>e. Internal (''DB error: '' @ al_status_text L e))
              (ra_get (as_db S) ''users'' (uuid_bytes user_id)))
       (\<lambda>inner. if \<not> gr_found inner then ret None
          else bindA (lift_res (unseal L (as_keys S) (al_user_json L)
                 ''Failed to decode encrypted data: '' ''Failed to decode User: '' (gr_value inner)))
                 (\<lambda>user. ret (Some user)))"

definition verify_totp ::
  "'h account_lib \<Rightarrow> (string + u64) \<Rightarrow> string \<Rightarrow> string \<Rightarrow> status + bool" where
  "verify_totp L totp_clock secret token =
     (case al_totp_secret L secret of
        Inl e \<Rightarrow> Inl (Internal (''invalid MFA secret: '' @ e))
      | Inr bytes \<Rightarrow> (case totp_clock of
          Inl e \<Rightarrow> Inl (Internal (''TOTP check failed: '' @ e))
        | Inr t \<Rightarrow> Inr (al_totp_check L bytes t token)))"

subsection \<open>Login\<close>

fun role_debug :: "role \<Rightarrow> string" where
  "role_debug Admin = ''Admin''"
| "role_debug Manager = ''Manager''"
| "role_debug Supervisor = ''Supervisor''"
| "role_debug Technician = ''Technician''"
| "role_debug EbondPartner = ''EbondPartner''"
| "role_debug ReadOnly = ''ReadOnly''"

definition rejected :: "string \<Rightarrow> authenticate_response" where
  "rejected why = \<lparr>nr_success = False, nr_session_token = [], nr_error = why, nr_user = None\<rparr>"

definition user_info_of :: "'h account_lib \<Rightarrow> user \<Rightarrow> user_info" where
  "user_info_of L u =
     \<lparr>uf_user_uuid = al_uuid_text L (us_user_id u), uf_username = us_username u,
      uf_display_name = us_display_name u, uf_email = us_email u, uf_role = role_debug (us_role u),
      uf_last_login = map_option (al_to_timestamp L) (us_last_login u)\<rparr>"

text \<open>Step 3 of a login: the refusal of the one-time code, or none.\<close>

definition check_mfa ::
  "'h account_lib \<Rightarrow> string option \<Rightarrow> (string + u64) \<Rightarrow> user_auth \<Rightarrow> string \<Rightarrow> status + string option" where
  "check_mfa L mfa_env totp_clock user_auth mfa_token =
     (case ua_mfa_secret user_auth of
        None \<Rightarrow> Inr None
      | Some secret \<Rightarrow>
          if mfa_env = Some ''1'' then Inr None
          else if trim mfa_token = [] then Inr (Some ''MFA token required'')
          else mapR (\<lambda>good. if good then None else Some ''Invalid MFA token'')
                 (verify_totp L totp_clock secret (trim mfa_token)))"

text \<open>\<open>usize::try_from(t.timestamp()).unwrap_or(0)\<close>.\<close>

definition expiry_secs :: "datetime \<Rightarrow> u64" where
  "expiry_secs t = (if 0 \<le> sint (unix_secs t) then unix_secs t else 0)"

definition claims_of :: "'h account_lib \<Rightarrow> user \<Rightarrow> datetime \<Rightarrow> claims" where
  "claims_of L u expires =
     \<lparr>cm_sub = al_uuid_text L (us_user_id u), cm_exp = expiry_secs expires, cm_role = role_debug (us_role u)\<rparr>"

definition au_authenticate ::
  "'h account_lib \<Rightarrow> 'b auth_service \<Rightarrow> string option \<Rightarrow> (string + u64) \<Rightarrow> datetime \<Rightarrow> authenticate_request
   \<Rightarrow> ('b, status, authenticate_response) eff" where
  "au_authenticate L S mfa_env totp_clock now req =
     bindA (get_user_auth L S (nq_username req)) (\<lambda>found. case found of
         None \<Rightarrow> ret (rejected ''Invalid credentials'')
       | Some user_auth \<Rightarrow> (case al_parse_hash L (ua_password_hash user_auth) of
           Inl e \<Rightarrow> throw (Internal (''Invalid password hash in DB: '' @ e))
         | Inr parsed_hash \<Rightarrow>
             if \<not> al_verify_password L (utf8_bytes (nq_password req)) parsed_hash
             then ret (rejected ''Invalid credentials'')
             else bindA (lift_res (check_mfa L mfa_env totp_clock user_auth (nq_mfa_token req)))
               (\<lambda>refusal. case refusal of
                  Some why \<Rightarrow> ret (rejected why)
                | None \<Rightarrow> bindA (get_user_profile L S (ua_user_id user_auth)) (\<lambda>profile. case profile of
                    None \<Rightarrow> throw (Internal ''User profile missing for valid auth'')
                  | Some user \<Rightarrow> (case al_add_hours L now 24 of
                      None \<Rightarrow> throw (Internal ''token expiry timestamp overflow'')
                    | Some expires \<Rightarrow> (case al_jwt_encode L (as_jwt_secret S) (claims_of L user expires) of
                        Inl e \<Rightarrow> throw (Internal (''Token generation failed: '' @ e))
                      | Inr token \<Rightarrow> ret
                          \<lparr>nr_success = True, nr_session_token = token, nr_error = [],
                           nr_user = Some (user_info_of L user)\<rparr>))))))"

subsection \<open>Sessions\<close>

definition invalid_session :: "string \<Rightarrow> validate_session_response" where
  "invalid_session why = \<lparr>vs_valid = False, vs_user = None, vs_error = why\<rparr>"

definition au_validate_session ::
  "'h account_lib \<Rightarrow> 'b auth_service \<Rightarrow> int \<Rightarrow> string \<Rightarrow> ('b, status, validate_session_response) eff" where
  "au_validate_session L S now_secs session_token =
     (case al_jwt_decode L (as_jwt_secret S) now_secs session_token of
        None \<Rightarrow> ret (invalid_session ''Invalid token'')
      | Some token \<Rightarrow> (case al_parse_uuid L (cm_sub token) of
          None \<Rightarrow> throw (Internal ''Invalid user_id in token'')
        | Some user_id \<Rightarrow> bindA (get_user_profile L S user_id) (\<lambda>profile. case profile of
            None \<Rightarrow> ret (invalid_session ''User not found'')
          | Some user \<Rightarrow> ret \<lparr>vs_valid = True, vs_user = Some (user_info_of L user), vs_error = []\<rparr>)))"

definition au_logout :: "string \<Rightarrow> ('b, status, logout_response) eff" where
  "au_logout session_token = ret \<lparr>lo_success = True, lo_error = []\<rparr>"

end
