(* ===== verification/Service_Registry.thy ===== *)
theory Service_Registry
  imports Auth_Server
begin

text \<open>
  Where the gateway finds its backends: the registry of \<open>services.toml\<close>
  (\<open>shared/src/discovery.rs\<close>), the resolution of the three endpoints at start-up and their
  periodic reload (\<open>lbrp/src/discovery.rs\<close>, \<open>lbrp/src/main.rs\<close>).

  Reading a file, parsing TOML, opening a channel to an address and parsing a header value are
  third-party: \<open>read_file\<close>, \<open>parse_toml\<close>, \<open>dial\<close> (\<open>proto::tls::connect_lazy\<close>) and \<open>parse_header\<close>.
  What the environment holds is an argument of type \<open>string option\<close> per variable.
\<close>

subsection \<open>The registry\<close>

type_synonym registry = "string \<rightharpoonup> string"

definition from_toml_str :: "(string \<Rightarrow> string + registry) \<Rightarrow> string \<Rightarrow> infovulcan_error + registry" where
  "from_toml_str parse_toml source =
     map_errR (\<lambda>e. ValidationError (''invalid services.toml: '' @ e)) (parse_toml source)"

definition registry_load ::
  "(string \<Rightarrow> string + string) \<Rightarrow> (string \<Rightarrow> string + registry) \<Rightarrow> string \<Rightarrow> infovulcan_error + registry" where
  "registry_load read_file parse_toml path =
     (case read_file path of
        Inl e \<Rightarrow> Inl (NotFound (''services.toml at '' @ path @ '': '' @ e))
      | Inr source \<Rightarrow> from_toml_str parse_toml source)"

definition registry_get :: "registry \<Rightarrow> string \<Rightarrow> string option" where
  "registry_get reg service = reg service"

definition registry_is_empty :: "registry \<Rightarrow> bool" where
  "registry_is_empty reg \<longleftrightarrow> dom reg = {}"

definition resolve_with :: "registry \<Rightarrow> string option \<Rightarrow> string \<Rightarrow> string \<Rightarrow> string" where
  "resolve_with reg override_value service dflt =
     (case override_value of
        Some value \<Rightarrow>
          if trim value \<noteq> [] then value
          else (case registry_get reg service of Some url \<Rightarrow> url | None \<Rightarrow> dflt)
      | None \<Rightarrow> (case registry_get reg service of Some url \<Rightarrow> url | None \<Rightarrow> dflt))"

definition registry_resolve :: "(string \<Rightarrow> string option) \<Rightarrow> registry \<Rightarrow> string \<Rightarrow> string \<Rightarrow> string \<Rightarrow> string" where
  "registry_resolve env reg service env_var dflt = resolve_with reg (env env_var) service dflt"

subsection \<open>The three endpoints\<close>

record backend_addrs =
  ba_auth :: string
  ba_admin :: string
  ba_custodian :: string

definition DEFAULT_AUTH :: string where "DEFAULT_AUTH = ''http://auth:8082''"
definition DEFAULT_ADMIN :: string where "DEFAULT_ADMIN = ''http://admin:8083''"
definition DEFAULT_CUSTODIAN :: string where "DEFAULT_CUSTODIAN = ''http://custodian-leader:8081''"

definition from_registry ::
  "registry \<Rightarrow> string option \<Rightarrow> string option \<Rightarrow> string option \<Rightarrow> backend_addrs" where
  "from_registry reg auth_override admin_override custodian_override =
     \<lparr>ba_auth = resolve_with reg auth_override ''auth'' DEFAULT_AUTH,
      ba_admin = resolve_with reg admin_override ''admin'' DEFAULT_ADMIN,
      ba_custodian = resolve_with reg custodian_override ''custodian'' DEFAULT_CUSTODIAN\<rparr>"

definition from_env_registry :: "(string \<Rightarrow> string option) \<Rightarrow> registry \<Rightarrow> backend_addrs" where
  "from_env_registry env reg =
     from_registry reg (env ''AUTH_ADDR'') (env ''ADMIN_ADDR'') (env ''CUSTODIAN_ADDR'')"

definition env_or_default :: "string option \<Rightarrow> string \<Rightarrow> string" where
  "env_or_default raw default_value = (case raw of Some v \<Rightarrow> v | None \<Rightarrow> default_value)"

definition resolve_backend_addrs ::
  "string option \<Rightarrow> string option \<Rightarrow> string option \<Rightarrow> string \<times> string \<times> string" where
  "resolve_backend_addrs auth_raw admin_raw custodian_raw =
     (env_or_default auth_raw ''http://auth:8082'',
      env_or_default admin_raw ''http://admin:8083'',
      env_or_default custodian_raw ''http://custodian-leader:8081'')"

text \<open>The choice \<open>main\<close> makes: the registry when it could be loaded, else the environment.\<close>

definition startup_backend :: "(string \<Rightarrow> string option) \<Rightarrow> registry option \<Rightarrow> backend_addrs" where
  "startup_backend env registry =
     (case registry of
        Some reg \<Rightarrow> from_env_registry env reg
      | None \<Rightarrow>
          (case resolve_backend_addrs (env ''AUTH_ADDR'') (env ''ADMIN_ADDR'') (env ''CUSTODIAN_ADDR'') of
             (auth, admin, custodian) \<Rightarrow>
               \<lparr>ba_auth = auth, ba_admin = admin, ba_custodian = custodian\<rparr>))"

definition jwt_secret_from_env :: "string option \<Rightarrow> string + bytes" where
  "jwt_secret_from_env raw =
     (case raw of
        Some secret \<Rightarrow>
          if secret \<noteq> [] then Inr (utf8_bytes secret)
          else Inl ''JWT_SECRET must be set on LBRP and must match the auth service's JWT_SECRET''
      | None \<Rightarrow> Inl ''JWT_SECRET must be set on LBRP and must match the auth service's JWT_SECRET'')"

subsection \<open>The clients and the reload\<close>

text \<open>
  The three gRPC clients, each the channel it holds at present: the cell a reload swaps and every
  call reads.
\<close>

record 'ch clients =
  gc_auth :: 'ch
  gc_admin :: 'ch
  gc_custodian :: 'ch

definition reconnect_auth :: "(string \<Rightarrow> string + 'ch) \<Rightarrow> string \<Rightarrow> ('ch clients, string, unit) eff" where
  "reconnect_auth dial addr = (\<lambda>c. case dial addr of Inl e \<Rightarrow> (Inl e, c) | Inr ch \<Rightarrow> (Inr (), c\<lparr>gc_auth := ch\<rparr>))"

definition reconnect_admin :: "(string \<Rightarrow> string + 'ch) \<Rightarrow> string \<Rightarrow> ('ch clients, string, unit) eff" where
  "reconnect_admin dial addr = (\<lambda>c. case dial addr of Inl e \<Rightarrow> (Inl e, c) | Inr ch \<Rightarrow> (Inr (), c\<lparr>gc_admin := ch\<rparr>))"

definition reconnect_custodian :: "(string \<Rightarrow> string + 'ch) \<Rightarrow> string \<Rightarrow> ('ch clients, string, unit) eff" where
  "reconnect_custodian dial addr =
     (\<lambda>c. case dial addr of Inl e \<Rightarrow> (Inl e, c) | Inr ch \<Rightarrow> (Inr (), c\<lparr>gc_custodian := ch\<rparr>))"

text \<open>One service of \<open>apply_changes\<close>: nothing when its endpoint is the same, else a reconnection.\<close>

definition apply_change ::
  "bool \<Rightarrow> string \<Rightarrow> ('ch clients, string, unit) eff \<Rightarrow> string list \<times> 'ch clients \<Rightarrow> string list \<times> 'ch clients" where
  "apply_change differs service reconnect =
     (\<lambda>(changed, c). if \<not> differs then (changed, c)
        else case reconnect c of
            (Inr u, c') \<Rightarrow> (changed @ [service], c')
          | (Inl e, c') \<Rightarrow> (changed, c'))"

definition apply_changes ::
  "(string \<Rightarrow> string + 'ch) \<Rightarrow> backend_addrs \<Rightarrow> backend_addrs \<Rightarrow> 'ch clients \<Rightarrow> string list \<times> 'ch clients" where
  "apply_changes dial current nxt c =
     apply_change (ba_custodian current \<noteq> ba_custodian nxt) ''custodian'' (reconnect_custodian dial (ba_custodian nxt))
       (apply_change (ba_admin current \<noteq> ba_admin nxt) ''admin'' (reconnect_admin dial (ba_admin nxt))
         (apply_change (ba_auth current \<noteq> ba_auth nxt) ''auth'' (reconnect_auth dial (ba_auth nxt))
           ([], c)))"

text \<open>
  One reload of the file at \<open>path\<close>, and the loop of \<open>spawn_reloader\<close>, its first tick skipped: one
  reading of the file system per tick.
\<close>

definition reload_once ::
  "(string \<Rightarrow> string + 'ch) \<Rightarrow> (string \<Rightarrow> string option) \<Rightarrow> (string \<Rightarrow> string + registry) \<Rightarrow> string
   \<Rightarrow> (string \<Rightarrow> string + string) \<Rightarrow> backend_addrs \<times> 'ch clients \<Rightarrow> backend_addrs \<times> 'ch clients" where
  "reload_once dial env parse_toml path read_file = (\<lambda>(current, c).
     case registry_load read_file parse_toml path of
       Inl e \<Rightarrow> (current, c)
     | Inr reg \<Rightarrow>
         let nxt = from_env_registry env reg
         in if nxt = current then (current, c)
            else case apply_changes dial current nxt c of (changed, c') \<Rightarrow> (nxt, c'))"

fun reload_ticks ::
  "(string \<Rightarrow> string + 'ch) \<Rightarrow> (string \<Rightarrow> string option) \<Rightarrow> (string \<Rightarrow> string + registry) \<Rightarrow> string
   \<Rightarrow> (string \<Rightarrow> string + string) list \<Rightarrow> backend_addrs \<times> 'ch clients \<Rightarrow> backend_addrs \<times> 'ch clients" where
  "reload_ticks dial env parse_toml path [] s = s"
| "reload_ticks dial env parse_toml path (read_file # later) s =
     reload_ticks dial env parse_toml path later (reload_once dial env parse_toml path read_file s)"

text \<open>The clients \<open>main\<close> starts with: the three endpoints are dialled in turn.\<close>

definition connect_all :: "(string \<Rightarrow> string + 'ch) \<Rightarrow> backend_addrs \<Rightarrow> string + 'ch clients" where
  "connect_all dial backend =
     (case dial (ba_auth backend) of
        Inl e \<Rightarrow> Inl e
      | Inr auth \<Rightarrow> (case dial (ba_admin backend) of
          Inl e \<Rightarrow> Inl e
        | Inr admin \<Rightarrow> (case dial (ba_custodian backend) of
            Inl e \<Rightarrow> Inl e
          | Inr custodian \<Rightarrow> Inr \<lparr>gc_auth = auth, gc_admin = admin, gc_custodian = custodian\<rparr>)))"

subsection \<open>Cross-origin requests\<close>

text \<open>The allowed origins of \<open>cors_layer\<close>: a list, or any origin (\<open>None\<close>).\<close>

definition allowed_origins :: "(string \<Rightarrow> 'hv option) \<Rightarrow> string option \<Rightarrow> 'hv list option" where
  "allowed_origins parse_header raw =
     (case raw of
        Some text \<Rightarrow>
          if trim text \<noteq> []
          then Some (List.map_filter (\<lambda>o'. parse_header (trim o')) (split_on (CHR '','') text))
          else None
      | None \<Rightarrow> None)"

end
