(* ===== verification/Admin_Server.thy ===== *)
theory Admin_Server
  imports Account_Lib
begin

text \<open>
  The administration service, \<open>admin/src/server.rs\<close>: accounts are created, listed, changed and
  deactivated here, and the honeypot's reports are kept.

  What a handler draws (the new id, the salt, the coins and nonces of its encryptions) and its
  clock readings are arguments. The messages are those of \<open>admin/proto/admin.proto\<close>; a role is
  an \<open>i32\<close> there.
\<close>

subsection \<open>Messages and state\<close>

record user_msg =
  um_id :: string
  um_username :: string
  um_email :: string
  um_display_name :: string
  um_role :: i32
  um_active :: bool
  um_created_at :: u64

record create_user_request =
  nu_username :: string
  nu_password :: string
  nu_email :: string
  nu_display_name :: string
  nu_role :: i32

record list_users_request =
  pg_page :: u32
  pg_page_size :: u32

record list_users_response =
  pr_users :: "user_msg list"
  pr_total_count :: u32

record update_user_request =
  eu_id :: string
  eu_email :: "string option"
  eu_display_name :: "string option"
  eu_role :: "i32 option"
  eu_active :: "bool option"
  eu_password :: "string option"

record metrics_snapshot =
  ms_service :: string
  ms_timestamp :: u64
  ms_counters :: "string \<rightharpoonup> i64"
  ms_last_snapshot_size :: u64

record 'b admin_service =
  am_db :: "'b raw_api"
  am_keys :: "bytes \<times> bytes"

subsection \<open>Conversions\<close>

definition map_role :: "i32 \<Rightarrow> role" where
  "map_role r = (if r = 0 then Admin else if r = 1 then Manager else if r = 2 then Supervisor
     else if r = 3 then Technician else if r = 4 then EbondPartner else ReadOnly)"

text \<open>The number of the message's role, \<open>map_proto_role(role) as i32\<close>.\<close>

fun map_proto_role :: "role \<Rightarrow> i32" where
  "map_proto_role Admin = 0"
| "map_proto_role Manager = 1"
| "map_proto_role Supervisor = 2"
| "map_proto_role Technician = 3"
| "map_proto_role EbondPartner = 4"
| "map_proto_role ReadOnly = 5"

definition user_key :: "'h account_lib \<Rightarrow> string \<Rightarrow> status + bytes" where
  "user_key L i = (case al_parse_uuid L i of
       None \<Rightarrow> Inl (InvalidArgument ''invalid user id'')
     | Some u \<Rightarrow> Inr (uuid_bytes u))"

text \<open>\<open>u64::try_from(t.timestamp()).unwrap_or(0)\<close>.\<close>

definition created_secs :: "datetime \<Rightarrow> u64" where
  "created_secs t = (if 0 \<le> sint (unix_secs t) then unix_secs t else 0)"

definition user_to_proto :: "'h account_lib \<Rightarrow> user \<Rightarrow> user_msg" where
  "user_to_proto L u =
     \<lparr>um_id = al_uuid_text L (us_user_id u), um_username = us_username u, um_email = us_email u,
      um_display_name = us_display_name u, um_role = map_proto_role (us_role u),
      um_active = us_is_active u, um_created_at = created_secs (us_created_at u)\<rparr>"

definition decrypt_user :: "'h account_lib \<Rightarrow> 'b admin_service \<Rightarrow> bytes \<Rightarrow> status + user" where
  "decrypt_user L S val =
     unseal L (am_keys S) (al_user_json L) ''Failed to decode encrypted data: '' ''Failed to decode User: '' val"

definition encrypt_user :: "'h account_lib \<Rightarrow> 'b admin_service \<Rightarrow> bytes \<times> bytes \<Rightarrow> user \<Rightarrow> status + bytes" where
  "encrypt_user L S rnd u =
     (case seal_record L (am_keys S) (al_user_json L) rnd u of
        Inl e \<Rightarrow> Inl e
      | Inr encrypted \<Rightarrow> body_bytes L encrypted)"

definition hash_new_password :: "'h account_lib \<Rightarrow> bytes \<Rightarrow> string \<Rightarrow> status + string" where
  "hash_new_password L salt password =
     map_errR (\<lambda>e. Internal (''Failed to hash password: '' @ e)) (al_hash_password L (utf8_bytes password) salt)"

subsection \<open>Passwords\<close>

text \<open>The second factor of the record that is there, or of a new one.\<close>

definition prior_mfa ::
  "'h account_lib \<Rightarrow> 'b admin_service \<Rightarrow> get_response \<Rightarrow> status + string option \<times> auth_method option" where
  "prior_mfa L S existing =
     (if gr_found existing
      then mapR (\<lambda>prior. (ua_mfa_secret prior, ua_mfa_method prior))
             (unseal L (am_keys S) (al_auth_json L) ''Failed to decode auth: '' ''Failed to decode UserAuth: ''
                (gr_value existing))
      else Inr (None, Some Password))"

definition put_ok :: "'b admin_service \<Rightarrow> string \<Rightarrow> bytes \<Rightarrow> bytes \<Rightarrow> ('b, status, unit) eff" where
  "put_ok S collection key val = thenA (ra_put (am_db S) collection key val) (ret ())"

definition update_password ::
  "'h account_lib \<Rightarrow> 'b admin_service \<Rightarrow> bytes \<Rightarrow> bytes \<times> bytes \<Rightarrow> string \<Rightarrow> uuid \<Rightarrow> string
   \<Rightarrow> ('b, status, unit) eff" where
  "update_password L S salt rnd username user_id password =
     bindA (lift_res (hash_new_password L salt password)) (\<lambda>password_hash.
       bindA (ra_get (am_db S) ''auth'' (auth_key username)) (\<lambda>existing.
         bindA (lift_res (prior_mfa L S existing)) (\<lambda>(mfa_secret, mfa_method).
           bindA (lift_res (seal_record L (am_keys S) (al_auth_json L) rnd
               \<lparr>ua_user_id = user_id, ua_password_hash = password_hash, ua_mfa_secret = mfa_secret,
                ua_mfa_method = mfa_method\<rparr>)) (\<lambda>encrypted.
             bindA (lift_res (body_bytes L encrypted)) (\<lambda>encrypted_bytes.
               put_ok S ''auth'' (auth_key username) encrypted_bytes)))))"

subsection \<open>The handlers\<close>

text \<open>
  \<open>fresh\<close> is the new id, \<open>rnd_auth\<close> and \<open>rnd_user\<close> the draws of the two encryptions, \<open>created\<close>
  and \<open>updated\<close> the two clock readings.
\<close>

definition new_account :: "create_user_request \<Rightarrow> uuid \<Rightarrow> datetime \<Rightarrow> datetime \<Rightarrow> user" where
  "new_account req fresh created updated =
     \<lparr>us_user_id = fresh, us_username = nu_username req, us_display_name = nu_display_name req,
      us_email = nu_email req, us_role = map_role (nu_role req), us_is_active = True,
      us_mfa_enabled = False, us_last_login = None, us_created_at = created, us_updated_at = updated\<rparr>"

definition new_auth :: "uuid \<Rightarrow> string \<Rightarrow> user_auth" where
  "new_auth fresh password_hash =
     \<lparr>ua_user_id = fresh, ua_password_hash = password_hash, ua_mfa_secret = None, ua_mfa_method = Some Password\<rparr>"

definition ad_create_user ::
  "'h account_lib \<Rightarrow> 'b admin_service \<Rightarrow> uuid \<Rightarrow> bytes \<Rightarrow> bytes \<times> bytes \<Rightarrow> bytes \<times> bytes \<Rightarrow> datetime \<Rightarrow> datetime
   \<Rightarrow> create_user_request \<Rightarrow> ('b, status, user_msg) eff" where
  "ad_create_user L S fresh salt rnd_auth rnd_user created updated req =
     bindA (lift_res (hash_new_password L salt (nu_password req))) (\<lambda>password_hash.
       bindA (lift_res (seal_record L (am_keys S) (al_auth_json L) rnd_auth (new_auth fresh password_hash)))
         (\<lambda>encrypted_auth.
           let user = new_account req fresh created updated in
           bindA (lift_res (encrypt_user L S rnd_user user)) (\<lambda>encrypted_user_bytes.
             thenA (put_ok S ''users'' (uuid_bytes fresh) encrypted_user_bytes)
               (bindA (lift_res (body_bytes L encrypted_auth)) (\<lambda>encrypted_auth_bytes.
                 thenA (put_ok S ''auth'' (auth_key (nu_username req)) encrypted_auth_bytes)
                   (ret \<lparr>um_id = al_uuid_text L fresh, um_username = us_username user,
                         um_email = us_email user, um_display_name = us_display_name user,
                         um_role = nu_role req, um_active = us_is_active user,
                         um_created_at = created_secs (us_created_at user)\<rparr>))))))"

text \<open>The profile a handler starts from.\<close>

definition load_user :: "'h account_lib \<Rightarrow> 'b admin_service \<Rightarrow> string \<Rightarrow> ('b, status, user) eff" where
  "load_user L S i =
     bindA (lift_res (user_key L i)) (\<lambda>key.
       bindA (ra_get (am_db S) ''users'' key) (\<lambda>resp.
         if gr_found resp then lift_res (decrypt_user L S (gr_value resp))
         else throw (NotFoundStatus ''User not found'')))"

definition ad_get_user :: "'h account_lib \<Rightarrow> 'b admin_service \<Rightarrow> string \<Rightarrow> ('b, status, user_msg) eff" where
  "ad_get_user L S i = bindA (load_user L S i) (\<lambda>user. ret (user_to_proto L user))"

text \<open>\<open>u32::saturating_mul\<close> and the page of a list.\<close>

definition sat_mul_u32 :: "u32 \<Rightarrow> u32 \<Rightarrow> u32" where
  "sat_mul_u32 a b = (if unat a * unat b < 2 ^ 32 then a * b else - 1)"

definition page_of :: "list_users_request \<Rightarrow> 'x list \<Rightarrow> 'x list" where
  "page_of req xs =
     (let page = max (pg_page req) 1;
          page_size = (if pg_page_size req = 0 then 50 else pg_page_size req);
          start = sat_mul_u32 (page - 1) page_size
      in take (unat page_size) (drop (unat start) xs))"

definition sorted_users :: "user_msg list \<Rightarrow> user_msg list" where
  "sorted_users users = sort_key um_username users"

definition readable_users :: "'h account_lib \<Rightarrow> 'b admin_service \<Rightarrow> (bytes \<times> bytes) list \<Rightarrow> user_msg list" where
  "readable_users L S items =
     List.map_filter (\<lambda>kv. case decrypt_user L S (snd kv) of
         Inr user \<Rightarrow> Some (user_to_proto L user) | Inl _ \<Rightarrow> None) items"

definition ad_list_users ::
  "'h account_lib \<Rightarrow> 'b admin_service \<Rightarrow> list_users_request \<Rightarrow> ('b, status, list_users_response) eff" where
  "ad_list_users L S req =
     bindA (ra_list (am_db S) ''users'' [] 0) (\<lambda>items.
       let users = sorted_users (readable_users L S items);
           total_count = (if length users < 2 ^ 32 then of_nat (length users) else - 1)
       in ret \<lparr>pr_users = page_of req users, pr_total_count = total_count\<rparr>)"

definition edited :: "update_user_request \<Rightarrow> datetime \<Rightarrow> user \<Rightarrow> user" where
  "edited req now u =
     (let u1 = (case eu_email req of Some x \<Rightarrow> u\<lparr>us_email := x\<rparr> | None \<Rightarrow> u);
          u2 = (case eu_display_name req of Some x \<Rightarrow> u1\<lparr>us_display_name := x\<rparr> | None \<Rightarrow> u1);
          u3 = (case eu_role req of Some x \<Rightarrow> u2\<lparr>us_role := map_role x\<rparr> | None \<Rightarrow> u2);
          u4 = (case eu_active req of Some x \<Rightarrow> u3\<lparr>us_is_active := x\<rparr> | None \<Rightarrow> u3)
      in u4\<lparr>us_updated_at := now\<rparr>)"

definition store_user ::
  "'h account_lib \<Rightarrow> 'b admin_service \<Rightarrow> bytes \<times> bytes \<Rightarrow> user \<Rightarrow> ('b, status, unit) eff" where
  "store_user L S rnd user =
     bindA (lift_res (encrypt_user L S rnd user)) (\<lambda>encrypted_user_bytes.
       put_ok S ''users'' (uuid_bytes (us_user_id user)) encrypted_user_bytes)"

definition ad_update_user ::
  "'h account_lib \<Rightarrow> 'b admin_service \<Rightarrow> datetime \<Rightarrow> bytes \<Rightarrow> bytes \<times> bytes \<Rightarrow> bytes \<times> bytes \<Rightarrow> update_user_request
   \<Rightarrow> ('b, status, user_msg) eff" where
  "ad_update_user L S now salt rnd_auth rnd_user req =
     bindA (load_user L S (eu_id req)) (\<lambda>found.
       let user = edited req now found in
       thenA (case eu_password req of
           Some password \<Rightarrow> update_password L S salt rnd_auth (us_username user) (us_user_id user) password
         | None \<Rightarrow> ret ())
         (thenA (store_user L S rnd_user user) (ret (user_to_proto L user))))"

definition ad_delete_user ::
  "'h account_lib \<Rightarrow> 'b admin_service \<Rightarrow> datetime \<Rightarrow> bytes \<times> bytes \<Rightarrow> string \<Rightarrow> ('b, status, bool) eff" where
  "ad_delete_user L S now rnd i =
     bindA (load_user L S i) (\<lambda>found.
       let user = found\<lparr>us_is_active := False, us_updated_at := now\<rparr> in
       thenA (store_user L S rnd user) (ret True))"

definition ad_push_metrics :: "metrics_snapshot \<Rightarrow> ('b, status, bool) eff" where
  "ad_push_metrics snapshot = ret True"

subsection \<open>Intrusion reports\<close>

text \<open>\<open>Display\<close> of an \<open>i64\<close>.\<close>

definition show_i64 :: "i64 \<Rightarrow> string" where
  "show_i64 n = (if sint n < 0 then ''-'' @ show_nat (nat (- sint n)) else show_nat (nat (sint n)))"

definition intrusion_key :: "intrusion_event \<Rightarrow> bytes" where
  "intrusion_key ev = utf8_bytes
     (''intrusion:'' @ show_i64 (iv_timestamp_unix ev) @ '':'' @ iv_source_ip ev @ '':'' @ iv_endpoint_accessed ev)"

definition ad_record_intrusion ::
  "'h account_lib \<Rightarrow> 'b admin_service \<Rightarrow> intrusion_event \<Rightarrow> ('b, status, bool) eff" where
  "ad_record_intrusion L S ev = (\<lambda>b.
     case ra_put (am_db S) ''audit'' (intrusion_key ev) (al_event_bytes L ev) b of
       (Inl _, b') \<Rightarrow> (Inr True, b')
     | (Inr _, b') \<Rightarrow> (Inr True, b'))"

end
