(* ===== verification/Gateway_Server.thy ===== *)
theory Gateway_Server
  imports Service_Registry Admin_Server Custodian_Server
begin

text \<open>
  The HTTP gateway, \<open>lbrp/src\<close>: the error envelope (\<open>error.rs\<close>), the token check in front of the
  protected routes (\<open>middleware.rs\<close>), the calls to the backends (\<open>clients.rs\<close>) and the REST
  handlers with their routing table (\<open>routes.rs\<close>).

  The backends are a record of requests over the state of the system, each sent over a channel.
  The extractors of axum and the JSON reader of serde are a parameter: they give the value a
  handler receives, or the rejection that is answered in its place. A response body is the value
  that is serialised. Compression, the headers of cross-origin requests, the rate limiter and
  the static files are left to axum.
\<close>

subsection \<open>Errors\<close>

type_synonym status_code = nat

abbreviation HTTP_OK :: status_code where "HTTP_OK \<equiv> 200"
abbreviation HTTP_CREATED :: status_code where "HTTP_CREATED \<equiv> 201"
abbreviation HTTP_NO_CONTENT :: status_code where "HTTP_NO_CONTENT \<equiv> 204"
abbreviation HTTP_BAD_REQUEST :: status_code where "HTTP_BAD_REQUEST \<equiv> 400"
abbreviation HTTP_UNAUTHORIZED :: status_code where "HTTP_UNAUTHORIZED \<equiv> 401"
abbreviation HTTP_FORBIDDEN :: status_code where "HTTP_FORBIDDEN \<equiv> 403"
abbreviation HTTP_NOT_FOUND :: status_code where "HTTP_NOT_FOUND \<equiv> 404"
abbreviation HTTP_INTERNAL :: status_code where "HTTP_INTERNAL \<equiv> 500"
abbreviation HTTP_UNAVAILABLE :: status_code where "HTTP_UNAVAILABLE \<equiv> 503"

record api_error =
  ae_status :: status_code
  ae_code :: string
  ae_message :: string

definition api_error_new :: "status_code \<Rightarrow> string \<Rightarrow> string \<Rightarrow> api_error" where
  "api_error_new st code message = \<lparr>ae_status = st, ae_code = code, ae_message = message\<rparr>"

definition api_unauthorized :: "string \<Rightarrow> api_error" where
  "api_unauthorized message = api_error_new HTTP_UNAUTHORIZED ''unauthenticated'' message"

definition api_internal :: "string \<Rightarrow> api_error" where
  "api_internal message = api_error_new HTTP_INTERNAL ''internal'' message"

definition api_not_found :: "string \<Rightarrow> api_error" where
  "api_not_found message = api_error_new HTTP_NOT_FOUND ''not_found'' message"

text \<open>\<open>From<tonic::Status>\<close>.\<close>

fun api_error_of :: "status \<Rightarrow> api_error" where
  "api_error_of (Unauthenticated m) = api_error_new HTTP_UNAUTHORIZED ''unauthenticated'' m"
| "api_error_of (PermissionDenied m) = api_error_new HTTP_FORBIDDEN ''permission_denied'' m"
| "api_error_of (InvalidArgument m) = api_error_new HTTP_BAD_REQUEST ''invalid_argument'' m"
| "api_error_of (NotFoundStatus m) = api_error_new HTTP_NOT_FOUND ''not_found'' m"
| "api_error_of (Unavailable m) = api_error_new HTTP_UNAVAILABLE ''unavailable'' m"
| "api_error_of (Internal m) = api_error_new HTTP_INTERNAL ''internal'' m"
| "api_error_of (FailedPrecondition m) = api_error_new HTTP_INTERNAL ''internal'' m"
| "api_error_of (UnimplementedStatus m) = api_error_new HTTP_INTERNAL ''internal'' m"

subsection \<open>Messages of the REST interface\<close>

record login_request =
  lr_username :: string
  lr_password :: string
  lr_mfa_token :: "string option"

datatype api_next_action =
    ApiFollowUp i64
  | ApiAppointment i64
  | ApiAutoClose string

record api_ticket =
  at_ticket_id :: u64
  at_title :: string
  at_project :: string
  at_priority :: i32
  at_status :: i32
  at_next_action :: "api_next_action option"

record api_user =
  pu_id :: string
  pu_username :: string
  pu_email :: string
  pu_display_name :: string
  pu_role :: i32
  pu_active :: bool
  pu_created_at :: u64

record list_users_params =
  lu_page :: "u32 option"
  lu_page_size :: "u32 option"

record user_changes =
  uc_email :: "string option"
  uc_display_name :: "string option"
  uc_role :: "i32 option"
  uc_active :: "bool option"
  uc_password :: "string option"

record new_ticket_body =
  nb_title :: string
  nb_project :: string
  nb_account_uuid :: string
  nb_symptom :: i32
  nb_priority :: i32

record list_tickets_params =
  lt_status :: "u32 option"
  lt_assignee :: "string option"
  lt_account :: "string option"
  lt_project :: "string option"
  lt_include_deleted :: "bool option"
  lt_limit :: "u32 option"

datatype api_next_action_input =
    InputNone
  | InputFollowUp i64
  | InputAppointment i64
  | InputAutoClose string

record ticket_changes =
  tc_title :: "string option"
  tc_project :: "string option"
  tc_priority :: "i32 option"
  tc_status :: "i32 option"
  tc_next_action :: "api_next_action_input option"

datatype api_body =
    NoBody
  | ErrorBody string string
  | TokenBody string
  | UserBody api_user
  | UsersBody "api_user list" u32
  | TicketBody api_ticket
  | TicketsBody "api_ticket list"
  | HealthBody string "string \<rightharpoonup> string"
  | TextBody string

record http_response =
  hp_status :: status_code
  hp_body :: api_body

datatype http_method = GET | HEAD | POST | PUT | DELETE | OtherMethod string

record http_request =
  hq_method :: http_method
  hq_path :: string
  hq_query :: string
  hq_authorization :: "bytes option"
  hq_body :: bytes

definition error_response :: "api_error \<Rightarrow> http_response" where
  "error_response e = \<lparr>hp_status = ae_status e, hp_body = ErrorBody (ae_code e) (ae_message e)\<rparr>"

subsection \<open>Backends and third-party functions\<close>

text \<open>
  The generated gRPC clients: a request over a channel answers, or fails with a status. The
  answer of a ticket query is a stream whose items can fail.
\<close>

record ('ch, 'g) backends =
  bk_authenticate :: "'ch \<Rightarrow> authenticate_request \<Rightarrow> ('g, status, authenticate_response) eff"
  bk_validate_session :: "'ch \<Rightarrow> string \<Rightarrow> ('g, status, validate_session_response) eff"
  bk_create_user :: "'ch \<Rightarrow> create_user_request \<Rightarrow> ('g, status, user_msg option) eff"
  bk_get_user :: "'ch \<Rightarrow> string \<Rightarrow> ('g, status, user_msg option) eff"
  bk_list_users :: "'ch \<Rightarrow> list_users_request \<Rightarrow> ('g, status, list_users_response) eff"
  bk_update_user :: "'ch \<Rightarrow> update_user_request \<Rightarrow> ('g, status, user_msg option) eff"
  bk_delete_user :: "'ch \<Rightarrow> string \<Rightarrow> ('g, status, bool) eff"
  bk_create_ticket :: "'ch \<Rightarrow> create_ticket_request \<Rightarrow> ('g, status, ticket_msg) eff"
  bk_acquire_lock :: "'ch \<Rightarrow> lock_request \<Rightarrow> ('g, status, lock_response_msg) eff"
  bk_release_lock :: "'ch \<Rightarrow> lock_request \<Rightarrow> ('g, status, lock_response_msg) eff"
  bk_update_ticket :: "'ch \<Rightarrow> update_ticket_request \<Rightarrow> ('g, status, ticket_msg) eff"
  bk_get_ticket :: "'ch \<Rightarrow> u64 \<Rightarrow> ('g, status, ticket_msg) eff"
  bk_query_tickets :: "'ch \<Rightarrow> ticket_query_msg \<Rightarrow> ('g, status, (status + ticket_msg) list) eff"
  bk_cluster_status :: "'ch \<Rightarrow> ('g, status, custodian_cluster_status) eff"

record web_lib =
  wl_header_text :: "bytes \<Rightarrow> string option"
  wl_jwt_decode :: "bytes \<Rightarrow> int \<Rightarrow> string \<Rightarrow> claims option"
  wl_status_text :: "status \<Rightarrow> string"
  wl_login :: "http_request \<Rightarrow> http_response + login_request"
  wl_create_user :: "http_request \<Rightarrow> http_response + create_user_request"
  wl_list_users :: "http_request \<Rightarrow> http_response + list_users_params"
  wl_update_user :: "http_request \<Rightarrow> http_response + user_changes"
  wl_create_ticket :: "http_request \<Rightarrow> http_response + new_ticket_body"
  wl_list_tickets :: "http_request \<Rightarrow> http_response + list_tickets_params"
  wl_update_ticket :: "http_request \<Rightarrow> http_response + ticket_changes"
  wl_path_text :: "string \<Rightarrow> http_response + string"
  wl_path_u64 :: "string \<Rightarrow> http_response + u64"
  wl_unrouted :: "http_request \<Rightarrow> http_response"

record 'ch app_state =
  ap_clients :: "'ch clients"
  ap_jwt_secret :: bytes

subsection \<open>The clients\<close>

text \<open>
  Each call takes the channel its client holds at present. The custodian's client turns a status
  into an \<open>anyhow\<close> error, whose text is that of the status.
\<close>

definition cc_create_ticket ::
  "('ch, 'g) backends \<Rightarrow> 'ch clients \<Rightarrow> create_ticket_request \<Rightarrow> ('g, status, ticket_msg) eff" where
  "cc_create_ticket B c req = bk_create_ticket B (gc_custodian c) req"

definition cc_acquire_lock ::
  "('ch, 'g) backends \<Rightarrow> 'ch clients \<Rightarrow> lock_request \<Rightarrow> ('g, status, lock_response_msg) eff" where
  "cc_acquire_lock B c req = bk_acquire_lock B (gc_custodian c) req"

definition cc_release_lock ::
  "('ch, 'g) backends \<Rightarrow> 'ch clients \<Rightarrow> lock_request \<Rightarrow> ('g, status, lock_response_msg) eff" where
  "cc_release_lock B c req = bk_release_lock B (gc_custodian c) req"

definition cc_update_ticket ::
  "('ch, 'g) backends \<Rightarrow> 'ch clients \<Rightarrow> update_ticket_request \<Rightarrow> ('g, status, ticket_msg) eff" where
  "cc_update_ticket B c req = bk_update_ticket B (gc_custodian c) req"

definition cc_get_ticket :: "('ch, 'g) backends \<Rightarrow> 'ch clients \<Rightarrow> u64 \<Rightarrow> ('g, status, ticket_msg) eff" where
  "cc_get_ticket B c i = bk_get_ticket B (gc_custodian c) i"

definition cc_query_tickets ::
  "('ch, 'g) backends \<Rightarrow> 'ch clients \<Rightarrow> ticket_query_msg \<Rightarrow> ('g, status, ticket_msg list) eff" where
  "cc_query_tickets B c req = bindA (bk_query_tickets B (gc_custodian c) req) (\<lambda>items. lift_res (collect_res items))"

definition cc_cluster_status :: "('ch, 'g) backends \<Rightarrow> 'ch clients \<Rightarrow> ('g, status, custodian_cluster_status) eff" where
  "cc_cluster_status B c = bk_cluster_status B (gc_custodian c)"

definition ac_authenticate ::
  "('ch, 'g) backends \<Rightarrow> 'ch clients \<Rightarrow> authenticate_request \<Rightarrow> ('g, status, authenticate_response) eff" where
  "ac_authenticate B c req = bk_authenticate B (gc_auth c) req"

definition ac_health :: "('ch, 'g) backends \<Rightarrow> 'ch clients \<Rightarrow> ('g, status, unit) eff" where
  "ac_health B c = thenA (bk_validate_session B (gc_auth c) []) (ret ())"

definition dc_create_user ::
  "('ch, 'g) backends \<Rightarrow> 'ch clients \<Rightarrow> create_user_request \<Rightarrow> ('g, status, user_msg option) eff" where
  "dc_create_user B c req = bk_create_user B (gc_admin c) req"

definition dc_get_user :: "('ch, 'g) backends \<Rightarrow> 'ch clients \<Rightarrow> string \<Rightarrow> ('g, status, user_msg option) eff" where
  "dc_get_user B c i = bk_get_user B (gc_admin c) i"

definition dc_list_users ::
  "('ch, 'g) backends \<Rightarrow> 'ch clients \<Rightarrow> list_users_request \<Rightarrow> ('g, status, list_users_response) eff" where
  "dc_list_users B c req = bk_list_users B (gc_admin c) req"

definition dc_update_user ::
  "('ch, 'g) backends \<Rightarrow> 'ch clients \<Rightarrow> update_user_request \<Rightarrow> ('g, status, user_msg option) eff" where
  "dc_update_user B c req = bk_update_user B (gc_admin c) req"

definition dc_delete_user :: "('ch, 'g) backends \<Rightarrow> 'ch clients \<Rightarrow> string \<Rightarrow> ('g, status, bool) eff" where
  "dc_delete_user B c i = bk_delete_user B (gc_admin c) i"

end
