(* ===== verification/Gateway_Routes.thy ===== *)
theory Gateway_Routes
  imports Gateway_Server
begin

text \<open>
  The REST handlers of \<open>lbrp/src/routes.rs\<close>, the token check in front of the protected ones and
  the routing table. A handler takes the value its extractors gave and answers a response or an
  \<open>api_error\<close>; the server turns either into a response.
\<close>

subsection \<open>Conversions\<close>

definition api_map_next_action :: "next_action_kind option \<Rightarrow> api_next_action option" where
  "api_map_next_action next_action =
     (case next_action of
        None \<Rightarrow> None
      | Some (KindFollowUp ts) \<Rightarrow> Some (ApiFollowUp (ts_seconds ts))
      | Some (KindAppointment ts) \<Rightarrow> Some (ApiAppointment (ts_seconds ts))
      | Some (KindAutoClose v) \<Rightarrow> Some (ApiAutoClose
          (if v = 2 then ''hours_24'' else if v = 3 then ''hours_48'' else if v = 4 then ''hours_72''
           else ''end_of_day'')))"

definition api_ticket_of :: "ticket_msg \<Rightarrow> api_ticket" where
  "api_ticket_of t =
     \<lparr>at_ticket_id = mg_ticket_id t, at_title = mg_title t, at_project = mg_project t,
      at_priority = mg_priority t, at_status = mg_status t,
      at_next_action = Option.bind (mg_next_action t) api_map_next_action\<rparr>"

definition api_user_of :: "user_msg \<Rightarrow> api_user" where
  "api_user_of u =
     \<lparr>pu_id = um_id u, pu_username = um_username u, pu_email = um_email u,
      pu_display_name = um_display_name u, pu_role = um_role u, pu_active = um_active u,
      pu_created_at = um_created_at u\<rparr>"

definition to_proto_next_action :: "api_next_action_input \<Rightarrow> next_action_kind option" where
  "to_proto_next_action input =
     (case input of
        InputNone \<Rightarrow> None
      | InputFollowUp t \<Rightarrow> Some (KindFollowUp \<lparr>ts_seconds = t, ts_nanos = 0\<rparr>)
      | InputAppointment t \<Rightarrow> Some (KindAppointment \<lparr>ts_seconds = t, ts_nanos = 0\<rparr>)
      | InputAutoClose schedule \<Rightarrow> Some (KindAutoClose
          (if schedule = ''hours_24'' then 2 else if schedule = ''hours_48'' then 3
           else if schedule = ''hours_72'' then 4 else 1)))"

subsection \<open>Handlers\<close>

type_synonym 'g endpoint = "('g, api_error, http_response) eff"

definition ok_json :: "api_body \<Rightarrow> http_response" where
  "ok_json body = \<lparr>hp_status = HTTP_OK, hp_body = body\<rparr>"

definition rest_login :: "('ch, 'g) backends \<Rightarrow> 'ch clients \<Rightarrow> login_request \<Rightarrow> 'g endpoint" where
  "rest_login B c payload =
     bindA (map_err api_error_of (ac_authenticate B c
         \<lparr>nq_username = lr_username payload, nq_password = lr_password payload,
          nq_mfa_token = (case lr_mfa_token payload of Some t \<Rightarrow> t | None \<Rightarrow> [])\<rparr>))
       (\<lambda>resp. if nr_success resp then ret (ok_json (TokenBody (nr_session_token resp)))
          else throw (api_unauthorized (nr_error resp)))"

definition rest_create_user :: "('ch, 'g) backends \<Rightarrow> 'ch clients \<Rightarrow> create_user_request \<Rightarrow> 'g endpoint" where
  "rest_create_user B c payload =
     thenA (map_err api_error_of (dc_create_user B c payload))
       (ret \<lparr>hp_status = HTTP_CREATED, hp_body = NoBody\<rparr>)"

definition rest_list_users :: "('ch, 'g) backends \<Rightarrow> 'ch clients \<Rightarrow> list_users_params \<Rightarrow> 'g endpoint" where
  "rest_list_users B c params =
     bindA (map_err api_error_of (dc_list_users B c
         \<lparr>pg_page = (case lu_page params of Some n \<Rightarrow> n | None \<Rightarrow> 0),
          pg_page_size = (case lu_page_size params of Some n \<Rightarrow> n | None \<Rightarrow> 0)\<rparr>))
       (\<lambda>resp. ret (ok_json (UsersBody (map api_user_of (pr_users resp)) (pr_total_count resp))))"

text \<open>The end of a handler that answers with one user.\<close>

definition user_or_404 :: "user_msg option \<Rightarrow> 'g endpoint" where
  "user_or_404 found = (case found of
       None \<Rightarrow> throw (api_not_found ''user not found'')
     | Some user \<Rightarrow> ret (ok_json (UserBody (api_user_of user))))"

definition rest_get_user :: "('ch, 'g) backends \<Rightarrow> 'ch clients \<Rightarrow> string \<Rightarrow> 'g endpoint" where
  "rest_get_user B c i = bindA (map_err api_error_of (dc_get_user B c i)) user_or_404"

definition rest_update_user :: "('ch, 'g) backends \<Rightarrow> 'ch clients \<Rightarrow> string \<Rightarrow> user_changes \<Rightarrow> 'g endpoint" where
  "rest_update_user B c i payload =
     bindA (map_err api_error_of (dc_update_user B c
         \<lparr>eu_id = i, eu_email = uc_email payload, eu_display_name = uc_display_name payload,
          eu_role = uc_role payload, eu_active = uc_active payload, eu_password = uc_password payload\<rparr>))
       user_or_404"

definition rest_delete_user :: "('ch, 'g) backends \<Rightarrow> 'ch clients \<Rightarrow> string \<Rightarrow> 'g endpoint" where
  "rest_delete_user B c i =
     thenA (map_err api_error_of (dc_delete_user B c i))
       (ret \<lparr>hp_status = HTTP_NO_CONTENT, hp_body = NoBody\<rparr>)"

definition rest_create_ticket ::
  "web_lib \<Rightarrow> ('ch, 'g) backends \<Rightarrow> 'ch clients \<Rightarrow> claims \<Rightarrow> new_ticket_body \<Rightarrow> 'g endpoint" where
  "rest_create_ticket G B c claims payload =
     bindA (map_err (\<lambda>e. api_internal (wl_status_text G e)) (cc_create_ticket B c
         \<lparr>cr_title = nb_title payload, cr_project = nb_project payload,
          cr_account_uuid = nb_account_uuid payload, cr_symptom = nb_symptom payload,
          cr_priority = nb_priority payload, cr_created_by_uuid = cm_sub claims,
          cr_customer_ticket_number = None, cr_isp_ticket_number = None, cr_other_ticket_number = None,
          cr_ebond = None, cr_tracking_url = None, cr_network_devices = []\<rparr>))
       (\<lambda>resp. ret \<lparr>hp_status = HTTP_CREATED, hp_body = TicketBody (api_ticket_of resp)\<rparr>)"

definition rest_get_ticket :: "web_lib \<Rightarrow> ('ch, 'g) backends \<Rightarrow> 'ch clients \<Rightarrow> u64 \<Rightarrow> 'g endpoint" where
  "rest_get_ticket G B c i =
     bindA (map_err (\<lambda>e. api_not_found (wl_status_text G e)) (cc_get_ticket B c i))
       (\<lambda>resp. ret (ok_json (TicketBody (api_ticket_of resp))))"

definition rest_list_tickets :: "web_lib \<Rightarrow> ('ch, 'g) backends \<Rightarrow> 'ch clients \<Rightarrow> list_tickets_params \<Rightarrow> 'g endpoint" where
  "rest_list_tickets G B c params =
     bindA (map_err (\<lambda>e. api_internal (wl_status_text G e)) (cc_query_tickets B c
         \<lparr>qm_status = lt_status params, qm_assigned_to_uuid = lt_assignee params,
          qm_account_uuid = lt_account params, qm_project = lt_project params,
          qm_include_deleted = (case lt_include_deleted params of Some b \<Rightarrow> b | None \<Rightarrow> False),
          qm_limit = (case lt_limit params of Some n \<Rightarrow> n | None \<Rightarrow> 0)\<rparr>))
       (\<lambda>tickets. ret (ok_json (TicketsBody (map api_ticket_of tickets))))"

definition rest_update_ticket ::
  "web_lib \<Rightarrow> ('ch, 'g) backends \<Rightarrow> 'ch clients \<Rightarrow> u64 \<Rightarrow> claims \<Rightarrow> ticket_changes \<Rightarrow> 'g endpoint" where
  "rest_update_ticket G B c i claims payload =
     bindA (map_err (\<lambda>e. api_internal (wl_status_text G e)) (cc_update_ticket B c
         \<lparr>up_ticket_id = i, up_title = tc_title payload, up_project = tc_project payload,
          up_symptom = None, up_priority = tc_priority payload, up_status = tc_status payload,
          up_next_action = map_option to_proto_next_action (tc_next_action payload),
          up_resolution = None, up_assigned_to_uuid = None, up_updated_by_uuid = Some (cm_sub claims),
          up_ebond = None, up_tracking_url = None, up_network_devices = []\<rparr>))
       (\<lambda>resp. ret (ok_json (TicketBody (api_ticket_of resp))))"

text \<open>
  The two probes run concurrently, each on one backend; neither changes anything there. Only
  whether a probe was answered counts.
\<close>

definition probe :: "('g, status, 'a) eff \<Rightarrow> 'g \<Rightarrow> bool \<times> 'g" where
  "probe m = (\<lambda>g. case m g of (Inl e, g') \<Rightarrow> (False, g') | (Inr x, g') \<Rightarrow> (True, g'))"

definition up_down :: "bool \<Rightarrow> string" where
  "up_down b = (if b then ''up'' else ''down'')"

definition rest_health :: "('ch, 'g) backends \<Rightarrow> 'ch clients \<Rightarrow> 'g endpoint" where
  "rest_health B c = (\<lambda>g.
     case probe (ac_health B c) g of (auth_ok, g1) \<Rightarrow>
       (case probe (cc_cluster_status B c) g1 of (custodian_ok, g2) \<Rightarrow>
          let all_ok = auth_ok \<and> custodian_ok
          in (Inr \<lparr>hp_status = (if all_ok then HTTP_OK else HTTP_UNAVAILABLE),
                  hp_body = HealthBody (if all_ok then ''ok'' else ''degraded'')
                    [''auth'' \<mapsto> up_down auth_ok, ''custodian'' \<mapsto> up_down custodian_ok]\<rparr>, g2)))"

subsection \<open>The token check\<close>

text \<open>
  A refusal is the bare status. The next handler receives the claims of the token. \<open>now\<close> is the
  clock reading inside the decoder.
\<close>

type_synonym 'g reply = "'g \<Rightarrow> http_response \<times> 'g"

definition bare :: "status_code \<Rightarrow> 'g reply" where
  "bare st = (\<lambda>g. (\<lparr>hp_status = st, hp_body = NoBody\<rparr>, g))"

definition auth_middleware ::
  "web_lib \<Rightarrow> bytes \<Rightarrow> int \<Rightarrow> http_request \<Rightarrow> (claims \<Rightarrow> 'g reply) \<Rightarrow> 'g reply" where
  "auth_middleware G jwt_secret now req nxt =
     (case Option.bind (hq_authorization req) (wl_header_text G) of
        None \<Rightarrow> bare HTTP_UNAUTHORIZED
      | Some auth_header \<Rightarrow>
          if take 7 auth_header \<noteq> ''Bearer '' then bare HTTP_UNAUTHORIZED
          else (case wl_jwt_decode G jwt_secret now (drop 7 auth_header) of
              None \<Rightarrow> bare HTTP_UNAUTHORIZED
            | Some token_claims \<Rightarrow> nxt token_claims))"

subsection \<open>Routing\<close>

text \<open>\<open>IntoResponse\<close> of a handler's result, and of a rejection in place of an extracted value.\<close>

definition respond :: "'g endpoint \<Rightarrow> 'g reply" where
  "respond m = (\<lambda>g. case m g of (Inl e, g') \<Rightarrow> (error_response e, g') | (Inr r, g') \<Rightarrow> (r, g'))"

definition with_extracted :: "http_response + 'x \<Rightarrow> ('x \<Rightarrow> 'g reply) \<Rightarrow> 'g reply" where
  "with_extracted x k = (case x of Inl rejection \<Rightarrow> (\<lambda>g. (rejection, g)) | Inr v \<Rightarrow> k v)"

datatype route =
    RHealth
  | RLogin
  | RCreateUser
  | RCreateTicket
  | RListTickets
  | RGetTicket string
  | RUpdateTicket string
  | RListUsers
  | RGetUser string
  | RUpdateUser string
  | RDeleteUser string

text \<open>
  The table of \<open>app\<close>: a parameter matches one non-empty segment, and a GET route also serves HEAD.
\<close>

definition is_get :: "http_method \<Rightarrow> bool" where
  "is_get m \<longleftrightarrow> m = GET \<or> m = HEAD"

definition route_of :: "http_method \<Rightarrow> string \<Rightarrow> route option" where
  "route_of m path =
     (let segments = split_on (CHR ''/'') path in
      if segments = ['''', ''health''] then (if is_get m then Some RHealth else None)
      else if segments = ['''', ''auth'', ''login''] then (if m = POST then Some RLogin else None)
      else if segments = ['''', ''api'', ''admin'', ''users''] then
        (if m = POST then Some RCreateUser else if is_get m then Some RListUsers else None)
      else if segments = ['''', ''api'', ''tickets''] then
        (if m = POST then Some RCreateTicket else if is_get m then Some RListTickets else None)
      else if length segments = 4 \<and> take 3 segments = ['''', ''api'', ''tickets''] \<and> segments ! 3 \<noteq> [] then
        (if is_get m then Some (RGetTicket (segments ! 3))
         else if m = PUT then Some (RUpdateTicket (segments ! 3)) else None)
      else if length segments = 5 \<and> take 4 segments = ['''', ''api'', ''admin'', ''users''] \<and> segments ! 4 \<noteq> [] then
        (if is_get m then Some (RGetUser (segments ! 4))
         else if m = PUT then Some (RUpdateUser (segments ! 4))
         else if m = DELETE then Some (RDeleteUser (segments ! 4)) else None)
      else None)"

fun protected :: "route \<Rightarrow> bool" where
  "protected RHealth = False"
| "protected RLogin = False"
| "protected RCreateUser = False"
| "protected _ = True"

text \<open>The handlers behind the token check, with the claims they are handed.\<close>

fun api_route ::
  "web_lib \<Rightarrow> ('ch, 'g) backends \<Rightarrow> 'ch clients \<Rightarrow> http_request \<Rightarrow> route \<Rightarrow> claims \<Rightarrow> 'g reply" where
  "api_route G B c req RCreateTicket claims =
     with_extracted (wl_create_ticket G req) (\<lambda>payload. respond (rest_create_ticket G B c claims payload))"
| "api_route G B c req RListTickets claims =
     with_extracted (wl_list_tickets G req) (\<lambda>params. respond (rest_list_tickets G B c params))"
| "api_route G B c req (RGetTicket seg) claims =
     with_extracted (wl_path_u64 G seg) (\<lambda>i. respond (rest_get_ticket G B c i))"
| "api_route G B c req (RUpdateTicket seg) claims =
     with_extracted (wl_path_u64 G seg) (\<lambda>i. with_extracted (wl_update_ticket G req)
       (\<lambda>payload. respond (rest_update_ticket G B c i claims payload)))"
| "api_route G B c req RListUsers claims =
     with_extracted (wl_list_users G req) (\<lambda>params. respond (rest_list_users B c params))"
| "api_route G B c req (RGetUser seg) claims =
     with_extracted (wl_path_text G seg) (\<lambda>i. respond (rest_get_user B c i))"
| "api_route G B c req (RUpdateUser seg) claims =
     with_extracted (wl_path_text G seg) (\<lambda>i. with_extracted (wl_update_user G req)
       (\<lambda>payload. respond (rest_update_user B c i payload)))"
| "api_route G B c req (RDeleteUser seg) claims =
     with_extracted (wl_path_text G seg) (\<lambda>i. respond (rest_delete_user B c i))"
| "api_route G B c req _ claims = (\<lambda>g. (wl_unrouted G req, g))"

text \<open>One request. The answer to HEAD has no body.\<close>

definition run_route ::
  "web_lib \<Rightarrow> ('ch, 'g) backends \<Rightarrow> 'ch app_state \<Rightarrow> int \<Rightarrow> http_request \<Rightarrow> route \<Rightarrow> 'g reply" where
  "run_route G B st now req r =
     (case r of
        RHealth \<Rightarrow> respond (rest_health B (ap_clients st))
      | RLogin \<Rightarrow> with_extracted (wl_login G req) (\<lambda>payload. respond (rest_login B (ap_clients st) payload))
      | RCreateUser \<Rightarrow> with_extracted (wl_create_user G req) (\<lambda>payload. respond (rest_create_user B (ap_clients st) payload))
      | _ \<Rightarrow> auth_middleware G (ap_jwt_secret st) now req (api_route G B (ap_clients st) req r))"

definition rest_app :: "web_lib \<Rightarrow> ('ch, 'g) backends \<Rightarrow> 'ch app_state \<Rightarrow> int \<Rightarrow> http_request \<Rightarrow> 'g reply" where
  "rest_app G B st now req = (\<lambda>g.
     case route_of (hq_method req) (hq_path req) of
       None \<Rightarrow> (wl_unrouted G req, g)
     | Some r \<Rightarrow>
         (case run_route G B st now req r g of (resp, g') \<Rightarrow>
            (if hq_method req = HEAD then resp\<lparr>hp_body := NoBody\<rparr> else resp, g')))"

end
