(* ===== verification/Custodian_Client.thy ===== *)
theory Custodian_Client
  imports Ticket_Service
begin

text \<open>
  The custodian over a ticket database: what each handler answers and stores. The locale
  \<open>custodian_over\<close> extends \<open>ticket_db\<close> with the custodian's configuration; it holds of the
  custodian in front of the database service, and the reachable states of that deployment are
  those of \<open>ticket_step\<close>.
\<close>

definition custodian_lib_ok :: "custodian_lib \<Rightarrow> ('c, 'r, 'b) custodian \<Rightarrow> bool" where
  "custodian_lib_ok L Q \<longleftrightarrow> codec_ok (cl_ticket_json L) \<and> codec_ok (cl_body_json L)
     \<and> aead_ok (cl_crypto L) \<and> key_ok (cl_crypto L) (cu_keypair Q)"

text \<open>A stored row seals a ticket when its body decrypts to it and its index is the ticket's.\<close>

definition seals :: "custodian_lib \<Rightarrow> ('c, 'r, 'b) custodian \<Rightarrow> u64 \<Rightarrow> stored_ticket \<Rightarrow> ticket \<Rightarrow> bool" where
  "seals L Q i row t \<longleftrightarrow> decrypt_ticket L Q i (sk_body row) = Inr t
     \<and> sk_index row = ticket_index_from_proto (Some (ticket_index L t))"

definition sealed_as ::
  "custodian_lib \<Rightarrow> ('c, 'r, 'b) custodian \<Rightarrow> (u64 \<rightharpoonup> stored_ticket) \<Rightarrow> u64 \<Rightarrow> ticket \<Rightarrow> bool" where
  "sealed_as L Q R i t \<longleftrightarrow> (\<exists>row. R i = Some row \<and> seals L Q i row t)"

definition all_sealed :: "custodian_lib \<Rightarrow> ('c, 'r, 'b) custodian \<Rightarrow> (u64 \<rightharpoonup> stored_ticket) \<Rightarrow> bool" where
  "all_sealed L Q R \<longleftrightarrow> (\<forall>i row. R i = Some row \<longrightarrow> (\<exists>t. seals L Q i row t))"

lemma seals_fun: "seals L Q i row t \<Longrightarrow> seals L Q i row t' \<Longrightarrow> t = t'"
  by (simp add: seals_def)

lemma seals_dec: "seals L Q i row t \<Longrightarrow> decrypt_ticket L Q i (sk_body row) = Inr t"
  by (simp add: seals_def)

lemma seals_id: "seals L Q i row t \<Longrightarrow> tk_ticket_id t = i"
  by (auto simp: seals_def decrypt_ticket_def split: sum.splits)

lemma ticket_index_id [simp]: "ticket_index L (t\<lparr>tk_ticket_id := i\<rparr>) = ticket_index L t"
  by (simp add: ticket_index_def)

lemma u8_of_u32_ucast [simp]: "u8_of_u32 (ucast (b :: u8)) = Some b"
proof -
  have "(ucast b :: u32) < 256"
    using unsigned_less [of b, where ?'a = nat] by (simp add: word_less_nat_alt unsigned_ucast_eq take_bit_nat_eq_self)
  moreover have "(ucast (ucast b :: u32) :: u8) = b" by transfer simp
  ultimately show ?thesis by (simp add: u8_of_u32_def)
qed

lemma index_status [simp]:
  "ti_status (ticket_index_from_proto (Some (ticket_index L t))) = status_u8 (tk_status t)"
  by (simp add: ticket_index_from_proto_def ticket_index_def)

lemma seal_open:
  assumes "custodian_lib_ok L Q" and "length (snd rnd) = 12" and "encrypt_ticket L Q rnd t = Inr body"
  shows "decrypt_ticket L Q i body = Inr (t\<lparr>tk_ticket_id := i\<rparr>)"
proof -
  note ok = assms(1) [unfolded custodian_lib_ok_def]
  note ser = codec_okD [OF conjunct1 [OF ok], of t]
  obtain ed where ed: "encrypt_with_public_key (cl_crypto L) (fst rnd) (snd rnd) (enc (cl_ticket_json L) t)
      (fst (cu_keypair Q)) = Inr ed" and "cd_ser (cl_body_json L) ed = Inr body"
    using assms(3) by (auto simp: encrypt_ticket_def ser map_errR_def split: sum.splits)
  then have "cd_de (cl_body_json L) body = Inr ed"
    using codec_okD [of "cl_body_json L" ed] ok by simp
  moreover have "decrypt_with_private_key (cl_crypto L) ed (snd (cu_keypair Q)) = Inr (enc (cl_ticket_json L) t)"
    using public_key_roundtrip [OF _ _ assms(2) ed] ok by simp
  ultimately show ?thesis by (simp add: decrypt_ticket_def ser)
qed

subsection \<open>Updates\<close>

text \<open>What an accepted update keeps, and the change of status it makes.\<close>

definition evolves :: "ticket \<Rightarrow> ticket \<Rightarrow> bool" where
  "evolves t t' \<longleftrightarrow> can_transition_to (tk_status t) (tk_status t')
     \<and> tk_ticket_id t' = tk_ticket_id t \<and> tk_account_uuid t' = tk_account_uuid t
     \<and> tk_created_by t' = tk_created_by t \<and> tk_created_at t' = tk_created_at t"

lemma evolves_refl [simp]: "evolves t t"
  by (simp add: evolves_def can_transition_to_def)

text \<open>The fields no update changes besides the status.\<close>

definition kept :: "ticket \<Rightarrow> u64 \<times> uuid \<times> uuid \<times> datetime \<times> history_entry list \<times> string option
     \<times> string option \<times> network_device list" where
  "kept t = (tk_ticket_id t, tk_account_uuid t, tk_created_by t, tk_created_at t, tk_history t, tk_ebond t,
     tk_tracking_url t, tk_network_devices t)"

lemma apply_update_effect:
  assumes "apply_update L req updater now t = Inr t'"
  shows "can_transition_to (tk_status t) (tk_status t') \<and> kept t' = kept t
     \<and> tk_updated_by t' = updater \<and> tk_updated_at t' = now"
proof -
  define frame where "frame = (\<lambda>t :: ticket. (tk_status t, kept t))"
  define t1 where "t1 = (case up_title req of Some x \<Rightarrow> t\<lparr>tk_title := x\<rparr> | None \<Rightarrow> t)"
  define t2 where "t2 = (case up_project req of Some x \<Rightarrow> t1\<lparr>tk_project := x\<rparr> | None \<Rightarrow> t1)"
  define t3 where "t3 = (case up_symptom req of Some x \<Rightarrow> t2\<lparr>tk_symptom := symptom_from_u8 (u8_of_i32 x)\<rparr> | None \<Rightarrow> t2)"
  define t4 where "t4 = (case up_priority req of Some x \<Rightarrow> t3\<lparr>tk_priority := priority_from_u8 (u8_of_i32 x)\<rparr> | None \<Rightarrow> t3)"
  define st where "st = (case up_status req of Some x \<Rightarrow> status_from_u8 (u8_of_i32 x) | None \<Rightarrow> tk_status t4)"
  define t5 where "t5 = t4\<lparr>tk_status := st\<rparr>"
  define t6 where "t6 = (case up_next_action req of Some x \<Rightarrow> t5\<lparr>tk_next_action := proto_to_next_action L x\<rparr> | None \<Rightarrow> t5)"
  define t7 where "t7 = (case up_resolution req of Some x \<Rightarrow> t6\<lparr>tk_resolution := Some (resolution_from_u8 (u8_of_i32 x))\<rparr> | None \<Rightarrow> t6)"
  have f4: "frame t4 = frame t"
  proof -
    have "frame t1 = frame t" "frame t2 = frame t1" "frame t3 = frame t2" "frame t4 = frame t3"
      by (simp_all add: frame_def kept_def t1_def t2_def t3_def t4_def split: option.split)
    then show ?thesis by simp
  qed
  have "frame t6 = frame t5" "frame t7 = frame t6"
    by (simp_all add: frame_def kept_def t6_def t7_def split: option.split)
  then have f7: "frame t7 = frame t5" by simp
  from assms have a: "(if up_status req \<noteq> None \<and> \<not> can_transition_to (tk_status t4) st
      then Inl (FailedPrecondition (''invalid status transition: '' @ status_name (tk_status t4)
                @ '' -> '' @ status_name st))
      else case up_assigned_to_uuid req of
          None \<Rightarrow> Inr (t7\<lparr>tk_updated_by := updater, tk_updated_at := now\<rparr>)
        | Some a \<Rightarrow> (case cl_parse_uuid L a of
            None \<Rightarrow> Inl (InvalidArgument ''Invalid assigned_to UUID'')
          | Some u \<Rightarrow> Inr (t7\<lparr>tk_assigned_to := Some u, tk_updated_by := updater, tk_updated_at := now\<rparr>))) = Inr t'"
    unfolding apply_update_def Let_def t1_def t2_def t3_def t4_def st_def t5_def t6_def t7_def .
  then have "can_transition_to (tk_status t4) st"
    by (cases "up_status req") (auto simp: st_def can_transition_to_def split: if_splits)
  moreover have "frame t' = frame t7 \<and> tk_updated_by t' = updater \<and> tk_updated_at t' = now"
    using a by (auto simp: frame_def kept_def split: if_splits option.splits)
  ultimately show ?thesis using f4 f7 by (simp add: frame_def kept_def t5_def)
qed

lemma apply_update_evolves:
  assumes "apply_update L req updater now t = Inr t'"
  shows "evolves t t' \<and> tk_updated_by t' = updater \<and> tk_updated_at t' = now"
  using apply_update_effect [OF assms] by (simp add: evolves_def kept_def)

lemma apply_update_keeps:
  assumes "apply_update L req updater now t = Inr t'"
  shows "tk_history t' = tk_history t" "tk_ebond t' = tk_ebond t" "tk_tracking_url t' = tk_tracking_url t"
    "tk_network_devices t' = tk_network_devices t"
  using apply_update_effect [OF assms] by (simp_all add: kept_def)

lemma check_lock_frame: "\<exists>x c'. check_lock L E now i u ((c, r), b) = (x, ((c', r), b))"
  by (auto simp: check_lock_def act_defs on_disk_def map_err_def split: prod.split sum.split option.split)

locale custodian_over = ticket_db A rows ok room
  for A :: "'b database_api" and rows ok room +
  fixes L :: custodian_lib and Q :: "('c, 'r, 'b) custodian"
  assumes client: "cu_db Q = Some A"
    and lib: "custodian_lib_ok L Q"
begin

lemma db_get:
  assumes "ok b"
  shows "\<exists>b'. db_call L what (dbc_get_ticket A i incl) (n, b) =
     (Inr (map_option (ticket_record_of i) (visible incl (rows b i))), (n, b')) \<and> ok b' \<and> rows b' = rows b
     \<and> room b' = room b"
proof -
  obtain b' where "dbc_get_ticket A i incl b = (Inr (map_option (ticket_record_of i) (visible incl (rows b i))), b')"
    "ok b'" "rows b' = rows b" "room b' = room b" using get_record [OF assms] by blast
  then show ?thesis by (intro exI [of _ b']) (simp add: db_call_def on_db_def map_err_def)
qed

lemma get_run:
  assumes "ok b"
  shows "\<exists>b'. cs_get_ticket L Q i (n, b) =
     ((case visible False (rows b i) of
         None \<Rightarrow> Inl (NotFoundStatus ''ticket not found'')
       | Some row \<Rightarrow> mapR (domain_to_proto L) (decrypt_ticket L Q i (sk_body row))), (n, b'))
     \<and> ok b' \<and> rows b' = rows b \<and> room b' = room b"
proof -
  obtain b' where "db_call L ''db get error: '' (dbc_get_ticket A i False) (n, b) =
     (Inr (map_option (ticket_record_of i) (visible False (rows b i))), (n, b'))"
    and b': "ok b'" "rows b' = rows b" "room b' = room b" using db_get [OF assms] by blast
  then show ?thesis using b'
    by (intro exI [of _ b'])
      (simp add: cs_get_ticket_def with_client_def client act_defs ticket_record_of_def mapR_def
        split: option.split sum.split)
qed

lemma create_run:
  assumes "ok b" and "room b" and "cr_title req \<noteq> []"
    and "cl_parse_uuid L (cr_account_uuid req) = Some acc" and "cl_parse_uuid L (cr_created_by_uuid req) = Some u"
    and "encrypt_ticket L Q rnd (new_ticket now req acc u) = Inr body" and "length (snd rnd) = 12"
  shows "\<exists>i b'. cs_create_ticket L Q now millis rnd req (n, b) =
       (Inr (domain_to_proto L ((new_ticket now req acc u)\<lparr>tk_ticket_id := i\<rparr>)), (n, b'))
     \<and> ok b' \<and> rows b i = None \<and> i \<noteq> 0 \<and> (\<forall>j. j \<noteq> i \<longrightarrow> rows b' j = rows b j)
     \<and> sealed_as L Q (rows b') i ((new_ticket now req acc u)\<lparr>tk_ticket_id := i\<rparr>)
     \<and> visible False (rows b' i) = rows b' i
     \<and> rows b' = (rows b)(i \<mapsto> \<lparr>sk_body = body,
         sk_index = ticket_index_from_proto (Some (ticket_index L (new_ticket now req acc u))),
         sk_deleted = False, sk_deleted_at_unix = 0\<rparr>)"
proof -
  let ?t = "new_ticket now req acc u"
  obtain i b' where c: "dbc_create_ticket A body (ticket_index L ?t) b = (Inr i, b')"
    and b': "ok b'" "rows b i = None" "i \<noteq> 0"
      "rows b' = (rows b)(i \<mapsto> \<lparr>sk_body = body, sk_index = ticket_index_from_proto (Some (ticket_index L ?t)),
          sk_deleted = False, sk_deleted_at_unix = 0\<rparr>)"
    using create_record [OF assms(1,2)] by blast
  have "cs_create_ticket L Q now millis rnd req (n, b) =
      (Inr (domain_to_proto L (?t\<lparr>tk_ticket_id := i\<rparr>)), (n, b'))"
    using assms(3-6) c
    by (simp add: cs_create_ticket_def client Let_def act_defs db_call_def on_db_def map_err_def)
  moreover have "sealed_as L Q (rows b') i (?t\<lparr>tk_ticket_id := i\<rparr>)"
    using seal_open [OF lib assms(7,6), of i] by (simp add: sealed_as_def seals_def b'(4))
  ultimately show ?thesis using b' by (intro exI [of _ i] exI [of _ b']) (simp add: visible_def)
qed

text \<open>An update whose lock check passed.\<close>

lemma update_run:
  assumes "ok b" and upd: "up_updated_by_uuid req = Some s" "cl_parse_uuid L s = Some u"
    and lock: "check_lock L E lock_now (up_ticket_id req) u (n, b) = (Inr (), (n', b))"
    and row: "rows b (up_ticket_id req) = Some row" "\<not> sk_deleted row"
    and t0: "seals L Q (up_ticket_id req) row t0"
  shows "\<exists>b'. cs_update_ticket L E Q lock_now now rnd req (n, b) =
       ((case apply_update L req u now t0 of
           Inl e \<Rightarrow> Inl e
         | Inr t \<Rightarrow> mapR (\<lambda>_. domain_to_proto L t) (encrypt_ticket L Q rnd t)), (n', b'))
     \<and> ok b'
     \<and> rows b' = (case apply_update L req u now t0 of
           Inl e \<Rightarrow> rows b
         | Inr t \<Rightarrow> (case encrypt_ticket L Q rnd t of
             Inl e \<Rightarrow> rows b
           | Inr body \<Rightarrow> (rows b)(up_ticket_id req \<mapsto> row\<lparr>sk_body := body,
                sk_index := ticket_index_from_proto (Some (ticket_index L t))\<rparr>)))"
proof -
  let ?i = "up_ticket_id req"
  obtain b1 where g: "db_call L ''db get error: '' (dbc_get_ticket A ?i False) (n', b) =
     (Inr (map_option (ticket_record_of ?i) (visible False (rows b ?i))), (n', b1))"
    and b1: "ok b1" "rows b1 = rows b" using db_get [OF assms(1)] by blast
  have dec: "decrypt_ticket L Q ?i (sk_body row) = Inr t0" using t0 by (simp add: seals_def)
  have vis: "visible False (rows b ?i) = Some row" using row by (simp add: visible_def)
  note start = cs_update_ticket_def upd thenA_def bindA_def lock with_client_def client g vis
    ticket_record_of_def lift_res_def dec
  show ?thesis
  proof (cases "apply_update L req u now t0")
    case (Inl e)
    then show ?thesis using b1 by (intro exI [of _ b1]) (simp add: start)
  next
    case t: (Inr t)
    show ?thesis
    proof (cases "encrypt_ticket L Q rnd t")
      case (Inl e)
      then show ?thesis using b1 t by (intro exI [of _ b1]) (simp add: start)
    next
      case (Inr body)
      obtain b2 where "dbc_update_ticket A ?i body (ticket_index L t) b1 = (Inr (), b2)" and b2: "ok b2"
        "rows b2 = (rows b)(?i \<mapsto> row\<lparr>sk_body := body, sk_index := ticket_index_from_proto (Some (ticket_index L t))\<rparr>)"
        using update_record [OF b1(1), of ?i row] row(1) b1(2) by metis
      then have "db_call L ''db update_ticket error: '' (dbc_update_ticket A ?i body (ticket_index L t)) (n', b1)
          = (Inr (), (n', b2))"
        by (simp add: db_call_def on_db_def map_err_def)
      then show ?thesis using b2 t Inr by (intro exI [of _ b2]) (simp add: start ret_def)
    qed
  qed
qed

lemma query_run:
  assumes "ok b" and sealed: "all_sealed L Q (rows b)"
  shows "\<exists>msgs b'. cs_query_tickets L Q req (n, b) = (Inr (limited (qm_limit req) msgs), (n, b'))
     \<and> ok b' \<and> rows b' = rows b
     \<and> set msgs = {domain_to_proto L t |i row t. rows b i = Some row \<and> seals L Q i row t
          \<and> matches (query_from_proto req) row}
     \<and> distinct (map mg_ticket_id msgs)"
proof -
  obtain xs b' where q: "da_query_tickets A req b =
       (Inr (map (\<lambda>(i, row). ticket_record_of i row) (limited (qm_limit req) xs)), b')"
    and b': "ok b'" "rows b' = rows b" and xs: "distinct (map fst xs)"
      "set xs = {(i, row). rows b i = Some row \<and> matches (query_from_proto req) row}"
    using query [OF assms(1)] by blast
  define f where "f = (\<lambda>(i, row). domain_to_proto L (SOME t. seals L Q i row t))"
  have t: "seals L Q i row (SOME t. seals L Q i row t)" if "(i, row) \<in> set xs" for i row
    using that xs(2) sealed unfolding all_sealed_def by (auto intro: someI_ex)
  have "mapR (domain_to_proto L) (decrypt_ticket L Q i (sk_body row)) = Inr (f (i, row))"
    if "(i, row) \<in> set xs" for i row
    using seals_dec [OF t [OF that]] by (simp add: f_def)
  then have m: "map (\<lambda>rec. mapR (domain_to_proto L) (decrypt_ticket L Q (tr_ticket_id rec) (tr_encrypted_body rec)))
      (map (\<lambda>(i, row). ticket_record_of i row) (limited (qm_limit req) xs))
      = map Inr (limited (qm_limit req) (map f xs))"
    using limited_subset [of "qm_limit req" xs] by (auto simp: ticket_record_of_def limited_map)
  have "cs_query_tickets L Q req (n, b) = (Inr (limited (qm_limit req) (map f xs)), (n, b'))"
    using q m by (simp only: cs_query_tickets_def with_client_def client option.case act_defs db_call_def
        dbc_query_tickets_def on_db_def map_err_def prod.case sum.case collect_res_Inr)
  moreover have "map mg_ticket_id (map f xs) = map fst xs"
    using t seals_id by (fastforce simp: f_def domain_to_proto_def)
  moreover have "set (map f xs) = {domain_to_proto L t |i row t. rows b i = Some row \<and> seals L Q i row t
          \<and> matches (query_from_proto req) row}"
  proof -
    have ft: "f (i, row) = domain_to_proto L t" if "(i, row) \<in> set xs" "seals L Q i row t" for i row t
      using seals_fun [OF t [OF that(1)] that(2)] by (simp add: f_def)
    have "x \<in> f ` set xs \<longleftrightarrow> (\<exists>i row t. x = domain_to_proto L t \<and> rows b i = Some row \<and> seals L Q i row t
          \<and> matches (query_from_proto req) row)" for x
    proof
      assume "x \<in> f ` set xs"
      then obtain i row where p: "(i, row) \<in> set xs" "x = f (i, row)" by auto
      then show "\<exists>i row t. x = domain_to_proto L t \<and> rows b i = Some row \<and> seals L Q i row t
          \<and> matches (query_from_proto req) row"
        using ft [OF p(1) t [OF p(1)]] t [OF p(1)] xs(2) by blast
    next
      assume "\<exists>i row t. x = domain_to_proto L t \<and> rows b i = Some row \<and> seals L Q i row t
          \<and> matches (query_from_proto req) row"
      then obtain i row t where "x = domain_to_proto L t" "seals L Q i row t" "(i, row) \<in> set xs"
        using xs(2) by blast
      then show "x \<in> f ` set xs" using ft by (metis image_eqI)
    qed
    then show ?thesis unfolding set_map by (intro set_eqI) (simp only: mem_Collect_eq)
  qed
  ultimately show ?thesis using b' xs(1)
    by (intro exI [of _ "map f xs"] exI [of _ b'] conjI) (assumption | simp only:)+
qed

end

end
