(* ===== verification/Ticket_Codec.thy ===== *)
theory Ticket_Codec
  imports Byte_Codec Encryption Ticket_Model
begin

text \<open>
  Concrete serialisations of tickets and of encrypted bodies, so that the laws asked of the
  JSON library are seen to hold of some writer and reader.
\<close>

definition datetime_pk :: "datetime pickle" where
  "datetime_pk = map_pk (\<lambda>t. (dt_secs t, dt_nanos t)) (\<lambda>(a, b). \<lparr>dt_secs = a, dt_nanos = b\<rparr>)
     (pair_pk int_pk nat_pk)"

lemma datetime_pk_ok [pickles]: "pickle_ok datetime_pk"
  unfolding datetime_pk_def by (rule map_pk_ok) (simp_all add: pickles)

definition u32_pk :: "u32 pickle" where
  "u32_pk = map_pk unat of_nat nat_pk"

lemma u32_pk_ok [pickles]: "pickle_ok u32_pk"
  unfolding u32_pk_def by (rule map_pk_ok) (simp_all add: pickles)

definition enum_pk :: "('a \<Rightarrow> u8) \<Rightarrow> (u8 \<Rightarrow> 'a) \<Rightarrow> 'a pickle" where
  "enum_pk f g = map_pk f g u8_pk"

lemma enum_pk_ok: "(\<And>x. g (f x) = x) \<Longrightarrow> pickle_ok (enum_pk f g)"
  unfolding enum_pk_def by (rule map_pk_ok) (simp_all add: pickles)

lemma vocabulary_pk_ok [pickles]:
  "pickle_ok (enum_pk symptom_u8 symptom_from_u8)" "pickle_ok (enum_pk priority_u8 priority_from_u8)"
  "pickle_ok (enum_pk status_u8 status_from_u8)" "pickle_ok (enum_pk resolution_u8 resolution_from_u8)"
  by (simp_all add: enum_pk_ok)

fun device_tag :: "network_device \<Rightarrow> u8" where
  "device_tag (DslModem i) = 0"
| "device_tag (CoaxModem i) = 1"
| "device_tag (Ont i) = 2"
| "device_tag (FixedWirelessAntenna i) = 3"
| "device_tag (VpnGw i) = 4"
| "device_tag (Switch i) = 5"
| "device_tag (Router i) = 6"
| "device_tag (Firewall i) = 7"

definition device_of :: "u8 \<Rightarrow> device_info \<Rightarrow> network_device" where
  "device_of n = (if n = 0 then DslModem else if n = 1 then CoaxModem else if n = 2 then Ont
     else if n = 3 then FixedWirelessAntenna else if n = 4 then VpnGw else if n = 5 then Switch
     else if n = 6 then Router else Firewall)"

lemma device_of_tag: "device_of (device_tag d) (dev_info d) = d"
  by (cases d) (simp_all add: device_of_def)

definition mac_pk :: "mac_address pickle" where
  "mac_pk = map_pk as_str MacAddress string_pk"

lemma mac_pk_ok [pickles]: "pickle_ok mac_pk"
  unfolding mac_pk_def by (rule map_pk_ok) (simp_all add: pickles)

definition device_info_pk :: "device_info pickle" where
  "device_info_pk = map_pk (\<lambda>i. (dev_make i, dev_model i, dev_mac_address i, dev_serial_number i))
     (\<lambda>(a, b, c, d). \<lparr>dev_make = a, dev_model = b, dev_mac_address = c, dev_serial_number = d\<rparr>)
     (pair_pk string_pk (pair_pk string_pk (pair_pk (option_pk mac_pk) (option_pk string_pk))))"

lemma device_info_pk_ok [pickles]: "pickle_ok device_info_pk"
  unfolding device_info_pk_def by (rule map_pk_ok) (simp_all add: pickles)

definition device_pk :: "network_device pickle" where
  "device_pk = map_pk (\<lambda>d. (device_tag d, dev_info d)) (\<lambda>(n, i). device_of n i) (pair_pk u8_pk device_info_pk)"

lemma device_pk_ok [pickles]: "pickle_ok device_pk"
  unfolding device_pk_def by (rule map_pk_ok) (simp_all add: pickles device_of_tag)

fun schedule_u8 :: "auto_close_schedule \<Rightarrow> u8" where
  "schedule_u8 EndOfDay = 0"
| "schedule_u8 Hours24 = 1"
| "schedule_u8 Hours48 = 2"
| "schedule_u8 Hours72 = 3"

definition schedule_of :: "u8 \<Rightarrow> auto_close_schedule" where
  "schedule_of n = (if n = 0 then EndOfDay else if n = 1 then Hours24 else if n = 2 then Hours48 else Hours72)"

lemma schedule_of_u8 [simp]: "schedule_of (schedule_u8 s) = s"
  by (cases s) (simp_all add: schedule_of_def)

fun action_parts :: "next_action \<Rightarrow> u8 \<times> datetime \<times> u8" where
  "action_parts NoAction = (0, \<lparr>dt_secs = 0, dt_nanos = 0\<rparr>, 0)"
| "action_parts (FollowUp t) = (1, t, 0)"
| "action_parts (Appointment t) = (2, t, 0)"
| "action_parts (AutoCloseAt s) = (3, \<lparr>dt_secs = 0, dt_nanos = 0\<rparr>, schedule_u8 s)"

definition action_of :: "u8 \<times> datetime \<times> u8 \<Rightarrow> next_action" where
  "action_of p = (case p of (n, t, s) \<Rightarrow>
     if n = 0 then NoAction else if n = 1 then FollowUp t else if n = 2 then Appointment t
     else AutoCloseAt (schedule_of s))"

definition action_pk :: "next_action pickle" where
  "action_pk = map_pk action_parts action_of (pair_pk u8_pk (pair_pk datetime_pk u8_pk))"

lemma action_pk_ok [pickles]: "pickle_ok action_pk"
proof -
  have "action_of (action_parts a) = a" for a by (cases a) (simp_all add: action_of_def)
  then show ?thesis unfolding action_pk_def by (intro map_pk_ok) (simp_all add: pickles)
qed

definition history_pk :: "history_entry pickle" where
  "history_pk = map_pk
     (\<lambda>h. (he_timestamp h, he_user_id h, he_field_changed h, he_old_value h, he_new_value h))
     (\<lambda>(a, b, c, d, e). \<lparr>he_timestamp = a, he_user_id = b, he_field_changed = c, he_old_value = d, he_new_value = e\<rparr>)
     (pair_pk datetime_pk (pair_pk uuid_pk (pair_pk string_pk (pair_pk (option_pk string_pk) (option_pk string_pk)))))"

lemma history_pk_ok [pickles]: "pickle_ok history_pk"
  unfolding history_pk_def by (rule map_pk_ok) (simp_all add: pickles)

definition fields_pk :: "(string, string) fmap pickle" where
  "fields_pk = map_pk sorted_list_of_fmap fmap_of_list (list_pk (pair_pk string_pk string_pk))"

lemma fields_pk_ok [pickles]: "pickle_ok fields_pk"
proof -
  have "fmap_of_list (sorted_list_of_fmap m) = m" for m :: "(string, string) fmap"
    by (rule fmap_ext) (simp add: fmlookup_of_list)
  then show ?thesis unfolding fields_pk_def by (intro map_pk_ok) (simp_all add: pickles)
qed

text \<open>The ticket in two halves.\<close>

definition ticket_pk :: "ticket pickle" where
  "ticket_pk = map_pk
     (\<lambda>t. ((tk_ticket_id t, tk_customer_ticket_number t, tk_isp_ticket_number t, tk_other_ticket_number t,
            tk_title t, tk_project t, tk_account_uuid t, tk_symptom t, tk_priority t, tk_status t,
            tk_next_action t, tk_resolution t),
           (tk_locked_by t, tk_assigned_to t, tk_created_by t, tk_created_at t, tk_updated_by t,
            tk_updated_at t, tk_history t, tk_ebond t, tk_tracking_url t, tk_network_devices t,
            tk_schema_version t, tk_custom_fields t)))
     (\<lambda>((a, b, c, d, e, f, g, h, i, j, k, l), (m, n, p, q, r, s, u, v, w, x, y, z)).
        \<lparr>tk_ticket_id = a, tk_customer_ticket_number = b, tk_isp_ticket_number = c, tk_other_ticket_number = d,
         tk_title = e, tk_project = f, tk_account_uuid = g, tk_symptom = h, tk_priority = i, tk_status = j,
         tk_next_action = k, tk_resolution = l, tk_locked_by = m, tk_assigned_to = n, tk_created_by = p,
         tk_created_at = q, tk_updated_by = r, tk_updated_at = s, tk_history = u, tk_ebond = v,
         tk_tracking_url = w, tk_network_devices = x, tk_schema_version = y, tk_custom_fields = z\<rparr>)
     (pair_pk
       (pair_pk u64_pk (pair_pk (option_pk string_pk) (pair_pk (option_pk string_pk) (pair_pk (option_pk string_pk)
         (pair_pk string_pk (pair_pk string_pk (pair_pk uuid_pk (pair_pk (enum_pk symptom_u8 symptom_from_u8)
         (pair_pk (enum_pk priority_u8 priority_from_u8) (pair_pk (enum_pk status_u8 status_from_u8)
         (pair_pk action_pk (option_pk (enum_pk resolution_u8 resolution_from_u8)))))))))))))
       (pair_pk (option_pk uuid_pk) (pair_pk (option_pk uuid_pk) (pair_pk uuid_pk (pair_pk datetime_pk (pair_pk uuid_pk
         (pair_pk datetime_pk (pair_pk (list_pk history_pk) (pair_pk (option_pk string_pk) (pair_pk (option_pk string_pk)
         (pair_pk (list_pk device_pk) (pair_pk u32_pk fields_pk))))))))))))"

lemma ticket_pk_ok [pickles]: "pickle_ok ticket_pk"
  unfolding ticket_pk_def by (rule map_pk_ok) (simp_all add: pickles)

definition body_pk :: "encrypted_data pickle" where
  "body_pk = map_pk
     (\<lambda>e. (ed_algorithm e = Aes256Gcm, ed_salt e, ed_kem_ciphertext e, ed_nonce e, ed_ciphertext e))
     (\<lambda>(a, b, c, d, e). \<lparr>ed_algorithm = (if a then Aes256Gcm else ChaCha20Poly1305), ed_salt = b,
         ed_kem_ciphertext = c, ed_nonce = d, ed_ciphertext = e\<rparr>)
     (pair_pk bool_pk (pair_pk (option_pk bytes_pk) (pair_pk (option_pk bytes_pk) (pair_pk bytes_pk bytes_pk))))"

lemma body_pk_ok [pickles]: "pickle_ok body_pk"
proof -
  have algorithm: "(if a = Aes256Gcm then Aes256Gcm else ChaCha20Poly1305) = a" for a
    by (cases a) simp_all
  show ?thesis
    unfolding body_pk_def by (rule map_pk_ok) (simp_all add: pickles algorithm del: if_splits split del: if_split)
qed

end
