(* ===== verification/Custodian_Props.thy ===== *)
theory Custodian_Props
  imports Custodian_Client Ticket_Codec
begin

text \<open>
  The custodian deployed in front of the database service. \<open>lock_service\<close> is what its lock
  handlers rely on: a lock store that works and an engine that answers a command after it was
  applied to the local table. \<open>deployed\<close> joins the custodian to the handlers of the database
  service, which makes it an instance of \<open>custodian_over\<close>; \<open>ticket_step\<close> is one request to
  that deployment.
\<close>

subsection \<open>The lock engine\<close>

definition lock_leader :: "('c, 'z) lockstore_scheme \<Rightarrow> ('c, 'r, 'b) custodian \<Rightarrow> bool" where
  "lock_leader E Q \<longleftrightarrow> (\<forall>cmd c r. \<exists>r'. case lk_apply E cmd c of
       (Inr x, c') \<Rightarrow> cu_client_write Q cmd (c, r) = (Inr x, (c', r'))
     | (Inl err, c') \<Rightarrow> \<exists>t. cu_client_write Q cmd (c, r) = (Inl t, (c', r')))"

definition check_result ::
  "i64 \<Rightarrow> uuid \<Rightarrow> lock_info option \<Rightarrow> status + unit" where
  "check_result now u found = (case found of
       None \<Rightarrow> Inl (PermissionDenied ''ticket is not locked'')
     | Some lock \<Rightarrow>
         if is_expired lock now then Inl (PermissionDenied ''ticket lock has expired'')
         else if lk_user_id lock \<noteq> u then Inl (PermissionDenied ''user does not hold lock'')
         else Inr ())"

text \<open>The user \<open>u\<close> holds the lock of the ticket at the time \<open>now\<close>.\<close>

definition holds :: "(u64 \<rightharpoonup> lock_info) \<Rightarrow> u64 \<Rightarrow> uuid \<Rightarrow> i64 \<Rightarrow> bool" where
  "holds K i u now \<longleftrightarrow> (\<exists>lock. K i = Some lock \<and> \<not> is_expired lock now \<and> lk_user_id lock = u)"

lemma check_result_holds: "check_result now u (K i) = Inr () \<longleftrightarrow> holds K i u now"
  by (auto simp: check_result_def holds_def split: option.splits)

lemma check_result_denied:
  "\<not> holds K i u now \<Longrightarrow> \<exists>m. check_result now u (K i) = Inl (PermissionDenied m)"
  by (auto simp: check_result_def holds_def split: option.splits)

lemma check_lock_run:
  assumes "lock_env_ok E" and "locks_inv E (view E c)"
  shows "\<exists>c'. check_lock L E now i u ((c, r), b) =
     (check_result now u (locks_of E (view E c) i), ((c', r), b)) \<and> view E c' = view E c"
proof -
  have "sled_ok E" using assms(1) by (simp add: lock_env_ok_def)
  from does_get_lock_info [OF this assms(2), of i] obtain c' where
    "get_lock_info E i c = (Inr (locks_of E (view E c) i), c')" "view E c' = view E c"
    by (rule does_runE)
  then show ?thesis
    by (intro exI [of _ c'])
      (simp add: check_lock_def act_defs on_disk_def map_err_def check_result_def split: option.split)
qed

locale lock_service =
  fixes E :: "('c, 'z) lockstore_scheme" and Q :: "('c, 'r, 'b) custodian"
  assumes lock_env: "lock_env_ok E"
    and lock_applies: "lock_leader E Q"
begin

lemma command_run:
  assumes "locks_inv E (view E c)"
  shows "\<exists>c' r'. cu_client_write Q cmd (c, r) = (Inr (fst (lock_step E cmd (locks_of E (view E c)))), (c', r'))
     \<and> locks_of E (view E c') = snd (lock_step E cmd (locks_of E (view E c))) \<and> locks_inv E (view E c')"
proof -
  let ?K = "locks_of E (view E c)"
  obtain W' where W': "does (view E) (lk_apply E cmd) (view E c) (Inr (fst (lock_step E cmd ?K))) W'"
    "locks_of E W' = snd (lock_step E cmd ?K)" "locks_inv E W'"
    using lock_refines [OF lock_env assms] by blast
  obtain c' where c': "lk_apply E cmd c = (Inr (fst (lock_step E cmd ?K)), c')" "view E c' = W'"
    by (rule does_runE [OF W'(1)])
  obtain r' where "cu_client_write Q cmd (c, r) = (Inr (fst (lock_step E cmd ?K)), (c', r'))"
    using lock_applies [unfolded lock_leader_def, rule_format, of cmd c r] c'(1) by auto
  then show ?thesis using W' c' by (intro exI [of _ c'] exI [of _ r']) simp
qed

lemma commands_reach:
  "locks_inv E (view E c) \<Longrightarrow> \<exists>c'. locks_inv E (view E c')
     \<and> locks_of E (view E c') = snd (lock_run E cmds (locks_of E (view E c)))"
proof (induction cmds arbitrary: c)
  case Nil
  then show ?case by auto
next
  case (Cons cmd cmds)
  from command_run [OF Cons.prems, of cmd undefined] obtain c1 where
    "locks_of E (view E c1) = snd (lock_step E cmd (locks_of E (view E c)))" "locks_inv E (view E c1)" by blast
  with Cons.IH [of c1] show ?case by (auto simp del: lock_step.simps split: prod.split)
qed

text \<open>An acquisition: the answer of the lock table and, when it is denied, the holder.\<close>

lemma acquire_run:
  assumes "locks_inv E (view E c)" and "cl_parse_uuid L (lq_user_uuid req) = Some u"
  shows "\<exists>c' r'. cs_acquire_lock L E Q now env req ((c, r), b) =
       (Inr \<lparr>lm_success = lr_success (fst (lock_step E (AcquireLock (lq_ticket_id req) u now (lock_ttl_secs env)) (locks_of E (view E c)))),
             lm_error = (case lr_error (fst (lock_step E (AcquireLock (lq_ticket_id req) u now (lock_ttl_secs env)) (locks_of E (view E c)))) of
                 Some e \<Rightarrow> e | None \<Rightarrow> []),
             lm_current_holder =
               (if lr_success (fst (lock_step E (AcquireLock (lq_ticket_id req) u now (lock_ttl_secs env)) (locks_of E (view E c))))
                then None
                else map_option (\<lambda>lock. cl_uuid_text L (lk_user_id lock)) (locks_of E (view E c) (lq_ticket_id req)))\<rparr>, ((c', r'), b))
     \<and> locks_of E (view E c') =
         snd (lock_step E (AcquireLock (lq_ticket_id req) u now (lock_ttl_secs env)) (locks_of E (view E c)))
     \<and> locks_inv E (view E c')"
proof -
  let ?K = "locks_of E (view E c)" and ?cmd = "AcquireLock (lq_ticket_id req) u now (lock_ttl_secs env)"
  obtain c1 r1 where w: "cu_client_write Q ?cmd (c, r) = (Inr (fst (lock_step E ?cmd ?K)), (c1, r1))"
    and K1: "locks_of E (view E c1) = snd (lock_step E ?cmd ?K)" and inv1: "locks_inv E (view E c1)"
    using command_run [OF assms(1)] by blast
  have call: "raft_call (cu_client_write Q ?cmd) ((c, r), b) = (Inr (fst (lock_step E ?cmd ?K)), ((c1, r1), b))"
    by (simp add: raft_call_def on_disk_def map_err_def w)
  have "sled_ok E" using lock_env by (simp add: lock_env_ok_def)
  from does_get_lock_info [OF this inv1] obtain c2 where
    g: "get_lock_info E (lq_ticket_id req) c1 = (Inr (locks_of E (view E c1) (lq_ticket_id req)), c2)"
    and v2: "view E c2 = view E c1" by (rule does_runE)
  have same: "snd (lock_step E ?cmd ?K) = ?K" if "\<not> lr_success (fst (lock_step E ?cmd ?K))"
    using that by (auto simp: lock_done_def split: option.split)
  show ?thesis
  proof (cases "lr_success (fst (lock_step E ?cmd ?K))")
    case True
    then show ?thesis using K1 inv1
      by (intro exI [of _ c1] exI [of _ r1])
        (simp del: lock_step.simps add: cs_acquire_lock_def assms(2) bindA_def call ret_def)
  next
    case False
    then show ?thesis using K1 inv1 same v2 g
      by (intro exI [of _ c2] exI [of _ r1])
        (simp del: lock_step.simps add: cs_acquire_lock_def assms(2) bindA_def call ret_def)
  qed
qed

lemma release_run:
  assumes "locks_inv E (view E c)" and "cl_parse_uuid L (lq_user_uuid req) = Some u"
  shows "\<exists>c' r'. cs_release_lock L Q req ((c, r), b) =
       (Inr \<lparr>lm_success = lr_success (fst (lock_step E (ReleaseLock (lq_ticket_id req) u) (locks_of E (view E c)))),
             lm_error = (case lr_error (fst (lock_step E (ReleaseLock (lq_ticket_id req) u) (locks_of E (view E c)))) of
                 Some e \<Rightarrow> e | None \<Rightarrow> []),
             lm_current_holder = None\<rparr>, ((c', r'), b))
     \<and> locks_of E (view E c') = snd (lock_step E (ReleaseLock (lq_ticket_id req) u) (locks_of E (view E c)))
     \<and> locks_inv E (view E c')"
proof -
  let ?K = "locks_of E (view E c)" and ?cmd = "ReleaseLock (lq_ticket_id req) u"
  obtain c1 r1 where w: "cu_client_write Q ?cmd (c, r) = (Inr (fst (lock_step E ?cmd ?K)), (c1, r1))"
    and K1: "locks_of E (view E c1) = snd (lock_step E ?cmd ?K)" and inv1: "locks_inv E (view E c1)"
    using command_run [OF assms(1)] by blast
  have "raft_call (cu_client_write Q ?cmd) ((c, r), b) = (Inr (fst (lock_step E ?cmd ?K)), ((c1, r1), b))"
    by (simp add: raft_call_def on_disk_def map_err_def w)
  then show ?thesis using K1 inv1
    by (intro exI [of _ c1] exI [of _ r1])
      (simp del: lock_step.simps add: cs_release_lock_def assms(2) bindA_def ret_def)
qed

end

subsection \<open>Deployment\<close>

definition deployed ::
  "custodian_lib \<Rightarrow> ('c, 'r, 'd \<times> 's) custodian \<Rightarrow> ('d, 's) db_service \<Rightarrow> ('d, 'z) dbstore_scheme \<Rightarrow> i64 \<Rightarrow> bool" where
  "deployed L Q P F t \<longleftrightarrow> cu_db Q = Some (database_requests P F t) \<and> custodian_lib_ok L Q
     \<and> db_env_ok F \<and> leader_applies F P"

lemma deployed_over:
  assumes "deployed L Q P F t"
  shows "custodian_over (database_requests P F t) (stored_rows F) (stored_with F K) (stored_room F) L Q"
proof -
  note d = assms [unfolded deployed_def]
  have "db_leader F P" using d by unfold_locales blast+
  then have "ticket_db (database_requests P F t) (stored_rows F) (stored_with F K) (stored_room F)"
    by (rule db_leader.serves)
  then show ?thesis using d by (intro custodian_over.intro custodian_over_axioms.intro) blast+
qed

end
