(* ===== verification/Custodian_Run.thy ===== *)
theory Custodian_Run
  imports Custodian_Props
begin

text \<open>
  Requests to the deployed custodian as a step relation, and what every reachable state keeps:
  each stored body decrypts to a ticket whose index is the stored one, a ticket only changes
  through permitted changes of status, and only by the user who holds its lock.
\<close>

subsection \<open>One request\<close>

text \<open>
  \<open>ticket_step L E Q room k s s'\<close>: the custodian served one request, at the clock reading \<open>k\<close>
  where the request reads the clock against a lock. The nonce of an encryption has 12 bytes,
  as \<open>generate_nonce\<close> draws it; \<open>room\<close> says that the id counter is not exhausted.
\<close>

inductive ticket_step ::
  "custodian_lib \<Rightarrow> ('c, 'z) lockstore_scheme \<Rightarrow> ('c, 'r, 'b) custodian \<Rightarrow> ('b \<Rightarrow> bool) \<Rightarrow> i64
   \<Rightarrow> ('c \<times> 'r) \<times> 'b \<Rightarrow> ('c \<times> 'r) \<times> 'b \<Rightarrow> bool"
  for L :: custodian_lib and E :: "('c, 'z) lockstore_scheme" and Q :: "('c, 'r, 'b) custodian"
    and room :: "'b \<Rightarrow> bool" where
  step_create: "cs_create_ticket L Q now millis rnd req (n, b) = (x, s') \<Longrightarrow> room b \<Longrightarrow> length (snd rnd) = 12
     \<Longrightarrow> ticket_step L E Q room k (n, b) s'"
| step_get: "cs_get_ticket L Q i s = (y, s') \<Longrightarrow> ticket_step L E Q room k s s'"
| step_query: "cs_query_tickets L Q q s = (z, s') \<Longrightarrow> ticket_step L E Q room k s s'"
| step_update: "cs_update_ticket L E Q k now rnd u s = (w, s') \<Longrightarrow> length (snd rnd) = 12
     \<Longrightarrow> ticket_step L E Q room k s s'"
| step_acquire: "cs_acquire_lock L E Q k ttl lq s = (a, s') \<Longrightarrow> ticket_step L E Q room k s s'"
| step_release: "cs_release_lock L Q lq s = (a, s') \<Longrightarrow> ticket_step L E Q room k s s'"
| step_health: "cs_health Q s = (h, s') \<Longrightarrow> ticket_step L E Q room k s s'"
| step_status: "cs_cluster_status Q s = (cst, s') \<Longrightarrow> ticket_step L E Q room k s s'"

text \<open>What a request may do to the tickets of the database.\<close>

inductive rows_step ::
  "custodian_lib \<Rightarrow> ('c, 'r, 'b) custodian \<Rightarrow> (u64 \<Rightarrow> uuid \<Rightarrow> bool)
   \<Rightarrow> (u64 \<rightharpoonup> stored_ticket) \<Rightarrow> (u64 \<rightharpoonup> stored_ticket) \<Rightarrow> bool"
  for L :: custodian_lib and Q :: "('c, 'r, 'b) custodian" and may :: "u64 \<Rightarrow> uuid \<Rightarrow> bool" where
  rows_same: "rows_step L Q may R R"
| rows_new: "R i = None \<Longrightarrow> seals L Q i row t \<Longrightarrow> rows_step L Q may R (R(i \<mapsto> row))"
| rows_edit: "R i = Some row \<Longrightarrow> seals L Q i row t \<Longrightarrow> seals L Q i row' t' \<Longrightarrow> evolves t t'
    \<Longrightarrow> may i (tk_updated_by t') \<Longrightarrow> rows_step L Q may R (R(i \<mapsto> row'))"

lemma rows_step_sealed: "rows_step L Q may R R' \<Longrightarrow> all_sealed L Q R \<Longrightarrow> all_sealed L Q R'"
  by (induction rule: rows_step.induct) (auto simp: all_sealed_def)

lemma rows_step_ticket:
  assumes "rows_step L Q may R R'" and "sealed_as L Q R i t"
  shows "\<exists>t'. sealed_as L Q R' i t' \<and> (t' = t \<or> evolves t t' \<and> may i (tk_updated_by t'))"
  using assms
proof (induction rule: rows_step.induct)
  case (rows_edit R j row t0 row' t')
  show ?case
  proof (cases "i = j")
    case True
    then have "t = t0" using rows_edit by (auto simp: sealed_as_def dest: seals_fun)
    then show ?thesis using True rows_edit by (intro exI [of _ t']) (auto simp: sealed_as_def)
  next
    case False
    then show ?thesis using rows_edit by (auto simp: sealed_as_def)
  qed
qed (auto simp: sealed_as_def)

lemma rows_step_changed:
  assumes "rows_step L Q may R R'" and "R i = Some row" and "R' i \<noteq> Some row"
  shows "\<exists>t'. sealed_as L Q R' i t' \<and> may i (tk_updated_by t')"
  using assms by (induction rule: rows_step.induct) (auto simp: sealed_as_def split: if_splits)

lemma acquire_frame: "\<exists>x n'. cs_acquire_lock L E Q k ttl req (n, b) = (x, (n', b))"
  by (cases n) (auto simp: cs_acquire_lock_def act_defs raft_call_def on_disk_def map_err_def
      split: option.split prod.split sum.split)

lemma release_frame: "\<exists>x n'. cs_release_lock L Q req (n, b) = (x, (n', b))"
  by (cases n) (auto simp: cs_release_lock_def act_defs raft_call_def on_disk_def map_err_def
      split: option.split prod.split sum.split)

context custodian_over
begin

lemma create_frame:
  assumes "ok b" and "room b" and "length (snd rnd) = 12"
  shows "\<exists>x b'. cs_create_ticket L Q now millis rnd req (n, b) = (x, (n, b')) \<and> ok b'
     \<and> rows_step L Q may (rows b) (rows b')"
proof (cases "\<exists>acc u body. cr_title req \<noteq> [] \<and> cl_parse_uuid L (cr_account_uuid req) = Some acc
    \<and> cl_parse_uuid L (cr_created_by_uuid req) = Some u
    \<and> encrypt_ticket L Q rnd (new_ticket now req acc u) = Inr body")
  case True
  then obtain acc u body where c: "cr_title req \<noteq> []" "cl_parse_uuid L (cr_account_uuid req) = Some acc"
    "cl_parse_uuid L (cr_created_by_uuid req) = Some u"
    "encrypt_ticket L Q rnd (new_ticket now req acc u) = Inr body" by blast
  from create_run [OF assms(1,2) c assms(3), of millis n] obtain i b' where
    run: "cs_create_ticket L Q now millis rnd req (n, b) =
       (Inr (domain_to_proto L ((new_ticket now req acc u)\<lparr>tk_ticket_id := i\<rparr>)), (n, b'))"
    and b': "ok b'" "rows b i = None" "\<forall>j. j \<noteq> i \<longrightarrow> rows b' j = rows b j"
      "sealed_as L Q (rows b') i ((new_ticket now req acc u)\<lparr>tk_ticket_id := i\<rparr>)" by blast
  from b'(4) obtain row where row: "rows b' i = Some row"
    "seals L Q i row ((new_ticket now req acc u)\<lparr>tk_ticket_id := i\<rparr>)" by (auto simp: sealed_as_def)
  have "rows b' = (rows b)(i \<mapsto> row)" using b'(3) row(1) by (auto simp: fun_eq_iff)
  then have "rows_step L Q may (rows b) (rows b')" using rows_new [where R = "rows b", OF b'(2) row(2)] by simp
  then show ?thesis using run b'(1) by blast
next
  case False
  then have "\<exists>e. cs_create_ticket L Q now millis rnd req (n, b) = (Inl e, (n, b))"
    by (auto simp: cs_create_ticket_def act_defs Let_def split: option.split sum.split)
  then show ?thesis using assms(1) rows_same by blast
qed

lemma get_frame:
  assumes "ok b"
  shows "\<exists>x b'. cs_get_ticket L Q i (n, b) = (x, (n, b')) \<and> ok b' \<and> rows b' = rows b"
  using get_run [OF assms, of i n] by blast

lemma query_frame:
  assumes "ok b" and "all_sealed L Q (rows b)"
  shows "\<exists>x b'. cs_query_tickets L Q req (n, b) = (x, (n, b')) \<and> ok b' \<and> rows b' = rows b"
  using query_run [OF assms, of req n] by blast

lemma update_frame:
  assumes "ok b" and "all_sealed L Q (rows b)" and "length (snd rnd) = 12"
    and env: "lock_env_ok E" "locks_inv E (view E c)"
  shows "\<exists>x c' b'. cs_update_ticket L E Q k now rnd req ((c, r), b) = (x, ((c', r), b')) \<and> ok b'
     \<and> view E c' = view E c
     \<and> rows_step L Q (\<lambda>i u. holds (locks_of E (view E c)) i u k) (rows b) (rows b')"
proof (cases "\<exists>s u. up_updated_by_uuid req = Some s \<and> cl_parse_uuid L s = Some u")
  case False
  then have "\<exists>e. cs_update_ticket L E Q k now rnd req ((c, r), b) = (Inl e, ((c, r), b))"
    by (auto simp: cs_update_ticket_def act_defs split: option.split)
  then show ?thesis using assms(1) rows_same by blast
next
  case True
  then obtain s u where u: "up_updated_by_uuid req = Some s" "cl_parse_uuid L s = Some u" by blast
  let ?i = "up_ticket_id req"
  obtain c' where chk: "check_lock L E k ?i u ((c, r), b) = (check_result k u (locks_of E (view E c) ?i), ((c', r), b))"
    and v: "view E c' = view E c"
    using check_lock_run [OF env, where L = L and now = k and i = ?i and u = u and r = r and b = b] by blast
  show ?thesis
  proof (cases "holds (locks_of E (view E c)) ?i u k")
    case False
    then obtain m where "check_result k u (locks_of E (view E c) ?i) = Inl (PermissionDenied m)"
      using check_result_denied by blast
    then have "cs_update_ticket L E Q k now rnd req ((c, r), b) = (Inl (PermissionDenied m), ((c', r), b))"
      using chk by (simp add: cs_update_ticket_def u thenA_def bindA_def)
    then show ?thesis using assms(1) v rows_same by blast
  next
    case held: True
    then have chk': "check_lock L E k ?i u ((c, r), b) = (Inr (), ((c', r), b))"
      using chk by (simp add: check_result_holds [THEN iffD2])
    show ?thesis
    proof (cases "\<exists>row. rows b ?i = Some row \<and> \<not> sk_deleted row")
      case False
      then have "visible False (rows b ?i) = None" by (auto simp: visible_def split: option.split)
      then obtain b1 where "db_call L ''db get error: '' (dbc_get_ticket A ?i False) ((c', r), b) = (Inr None, ((c', r), b1))"
        and b1: "ok b1" "rows b1 = rows b"
        using db_get [OF assms(1), where i = ?i and incl = False and n = "(c', r)" and what = "''db get error: ''"]
        by auto
      then have "cs_update_ticket L E Q k now rnd req ((c, r), b) = (Inl (NotFoundStatus ''ticket not found''), ((c', r), b1))"
        by (simp add: cs_update_ticket_def u thenA_def bindA_def chk' with_client_def client throw_def)
      then show ?thesis using b1 v by (intro exI conjI) (assumption | simp add: rows_same)+
    next
      case True
      then obtain row where row: "rows b ?i = Some row" "\<not> sk_deleted row" by blast
      then obtain t0 where t0: "seals L Q ?i row t0" using assms(2) unfolding all_sealed_def by blast
      obtain b' where run: "cs_update_ticket L E Q k now rnd req ((c, r), b) =
           ((case apply_update L req u now t0 of Inl e \<Rightarrow> Inl e
             | Inr t \<Rightarrow> mapR (\<lambda>_. domain_to_proto L t) (encrypt_ticket L Q rnd t)), ((c', r), b'))"
        and b': "ok b'" and R: "rows b' = (case apply_update L req u now t0 of
           Inl e \<Rightarrow> rows b
         | Inr t \<Rightarrow> (case encrypt_ticket L Q rnd t of
             Inl e \<Rightarrow> rows b
           | Inr body \<Rightarrow> (rows b)(?i \<mapsto> row\<lparr>sk_body := body,
                sk_index := ticket_index_from_proto (Some (ticket_index L t))\<rparr>)))"
        using update_run [OF assms(1) u chk' row t0] by blast
      have "rows_step L Q (\<lambda>i u. holds (locks_of E (view E c)) i u k) (rows b) (rows b')"
      proof (cases "\<exists>t body. apply_update L req u now t0 = Inr t \<and> encrypt_ticket L Q rnd t = Inr body")
        case True
        then obtain t body where t: "apply_update L req u now t0 = Inr t" "encrypt_ticket L Q rnd t = Inr body"
          by blast
        note ev = apply_update_evolves [OF t(1)]
        have "tk_ticket_id t = ?i" using ev seals_id [OF t0] by (simp add: evolves_def)
        then have "t\<lparr>tk_ticket_id := ?i\<rparr> = t" by simp
        then have "seals L Q ?i (row\<lparr>sk_body := body, sk_index := ticket_index_from_proto (Some (ticket_index L t))\<rparr>) t"
          using seal_open [OF lib assms(3) t(2), of ?i] by (simp add: seals_def)
        from rows_edit [where R = "rows b", OF row(1) t0 this] ev held show ?thesis by (simp add: R t)
      next
        case False
        then show ?thesis by (auto simp: R rows_same split: sum.split)
      qed
      then show ?thesis using run b' v by blast
    qed
  qed
qed

end

text \<open>The custodian over its database and its lock engine.\<close>

locale custodian_node = custodian_over A rows ok room L Q + lock_service E Q
  for A :: "'b database_api" and rows ok room and L :: custodian_lib and Q :: "('c, 'r, 'b) custodian"
    and E :: "('c, 'z) lockstore_scheme"
begin

definition node_ok :: "('c \<times> 'r) \<times> 'b \<Rightarrow> bool" where
  "node_ok s \<longleftrightarrow> ok (snd s) \<and> all_sealed L Q (rows (snd s)) \<and> locks_inv E (view E (fst (fst s)))"

lemma step_frame:
  assumes "ticket_step L E Q room k s s'" and "node_ok s"
  shows "node_ok s' \<and> rows_step L Q (\<lambda>i u. holds (locks_of E (view E (fst (fst s)))) i u k)
     (rows (snd s)) (rows (snd s'))"
proof -
  obtain c r b where s: "s = ((c, r), b)" by (metis prod.collapse)
  let ?may = "\<lambda>i u. holds (locks_of E (view E c)) i u k"
  have ok: "ok b" and sealed: "all_sealed L Q (rows b)" and inv: "locks_inv E (view E c)"
    using assms(2) by (simp_all add: node_ok_def s)
  have "\<exists>c' r' b'. s' = ((c', r'), b') \<and> ok b' \<and> locks_inv E (view E c')
      \<and> rows_step L Q ?may (rows b) (rows b')"
    using assms(1) s
  proof cases
    case (step_create now millis rnd req n b0 x)
    then show ?thesis
      using create_frame [OF ok, where rnd = rnd and now = now and millis = millis and req = req and n = "(c, r)" and may = ?may]
        inv s by auto
  next
    case (step_get i y)
    then show ?thesis using get_frame [OF ok, of i "(c, r)"] inv s rows_same [of L Q ?may "rows b"] by auto
  next
    case (step_query q z)
    then show ?thesis using query_frame [OF ok sealed, of q "(c, r)"] inv s rows_same [of L Q ?may "rows b"] by auto
  next
    case (step_update now rnd u w)
    then show ?thesis
      using update_frame [OF ok sealed _ lock_env inv, where rnd = rnd and k = k and now = now and req = u and r = r]
        inv s by auto
  next
    case (step_acquire ttl lq a)
    show ?thesis
    proof (cases "cl_parse_uuid L (lq_user_uuid lq)")
      case None
      then show ?thesis using step_acquire ok inv s rows_same [of L Q ?may "rows b"]
        by (auto simp: cs_acquire_lock_def throw_def)
    next
      case (Some u)
      from acquire_run [OF inv this, of k ttl r b] step_acquire ok s rows_same [of L Q ?may "rows b"]
      show ?thesis by (auto simp del: lock_step.simps)
    qed
  next
    case (step_release lq a)
    show ?thesis
    proof (cases "cl_parse_uuid L (lq_user_uuid lq)")
      case None
      then show ?thesis using step_release ok inv s rows_same [of L Q ?may "rows b"]
        by (auto simp: cs_release_lock_def throw_def)
    next
      case (Some u)
      from release_run [OF inv this, of r b] step_release ok s rows_same [of L Q ?may "rows b"]
      show ?thesis by (auto simp del: lock_step.simps)
    qed
  next
    case (step_health h)
    then show ?thesis using ok inv s rows_same [of L Q ?may "rows b"] by (auto simp: cs_health_def Let_def)
  next
    case (step_status cst)
    then show ?thesis using ok inv s rows_same [of L Q ?may "rows b"] by (auto simp: cs_cluster_status_def Let_def)
  qed
  then obtain c' r' b' where "s' = ((c', r'), b')" "ok b'" "locks_inv E (view E c')"
    "rows_step L Q ?may (rows b) (rows b')" by blast
  then show ?thesis using rows_step_sealed [OF _ sealed] by (auto simp: node_ok_def s)
qed

definition node_steps :: "('c \<times> 'r) \<times> 'b \<Rightarrow> ('c \<times> 'r) \<times> 'b \<Rightarrow> bool" where
  "node_steps = (\<lambda>s s'. \<exists>k. ticket_step L E Q room k s s')\<^sup>*\<^sup>*"

lemma reach_ok:
  assumes "node_steps s s'" and "node_ok s"
  shows "node_ok s'"
  using assms unfolding node_steps_def by (induction rule: rtranclp_induct) (auto dest: step_frame)

text \<open>What later tickets keep of an earlier one.\<close>

lemma reach_ticket:
  assumes "node_steps s s'" and "node_ok s" and "sealed_as L Q (rows (snd s)) i t"
  shows "\<exists>t'. sealed_as L Q (rows (snd s')) i t' \<and> evolves\<^sup>*\<^sup>* t t'"
  using assms(1) unfolding node_steps_def
proof (induction rule: rtranclp_induct)
  case base
  then show ?case using assms(3) by blast
next
  case (step s1 s2)
  then obtain t1 where t1: "sealed_as L Q (rows (snd s1)) i t1" "evolves\<^sup>*\<^sup>* t t1" by blast
  have "node_ok s1" using reach_ok [OF _ assms(2)] step.hyps(1) unfolding node_steps_def by blast
  then obtain may where "rows_step L Q may (rows (snd s1)) (rows (snd s2))"
    using step.hyps(2) step_frame by blast
  from rows_step_ticket [OF this t1(1)] t1(2) show ?case
    by (meson rtranclp.rtrancl_into_rtrancl)
qed

end

lemma evolves_chain:
  assumes "evolves\<^sup>*\<^sup>* t t'"
  shows "can_transition_to\<^sup>*\<^sup>* (tk_status t) (tk_status t')
     \<and> tk_ticket_id t' = tk_ticket_id t \<and> tk_account_uuid t' = tk_account_uuid t
     \<and> tk_created_by t' = tk_created_by t \<and> tk_created_at t' = tk_created_at t"
  using assms
proof (induction rule: rtranclp_induct)
  case base
  then show ?case by simp
next
  case (step t1 t2)
  then show ?case by (auto simp: evolves_def intro: rtranclp.rtrancl_into_rtrancl)
qed

end
