(* ===== verification/Web_Domain.thy ===== *)
theory Web_Domain
  imports Ticket_Model
begin

text \<open>
  \<open>web/src/domain.rs\<close>: the front end's copy of the status vocabulary and of the lifecycle
  matrix, over \<open>i32\<close> codes, and the tally of the analytics view. The copy is checked
  against the authoritative matrix of \<open>Ticket_Model\<close>.
\<close>

definition STATUSES :: "(int \<times> string) list" where
  "STATUSES =
     [(0, ''Open''), (1, ''Awaiting Customer''), (2, ''Awaiting ISP''), (3, ''Awaiting Partner''),
      (4, ''Support Hold''), (5, ''Handed Off''), (6, ''Appointment Scheduled''),
      (7, ''Ebond Received''), (8, ''Voicemail Received''), (254, ''Auto-Close''),
      (255, ''Closed'')]"

definition PRIORITIES :: "(int \<times> string) list" where
  "PRIORITIES =
     [(0, ''Unknown''), (1, ''Hard Down''), (2, ''Primary Down''), (3, ''Backup Down''),
      (4, ''Intermittent''), (5, ''Packet Loss'')]"

definition show_int :: "int \<Rightarrow> string" where
  "show_int i = (if i < 0 then ''-'' @ show_nat (nat (- i)) else show_nat (nat i))"

definition status_label :: "int \<Rightarrow> string" where
  "status_label value =
     (case find (\<lambda>(v, _). v = value) STATUSES of
        None \<Rightarrow> ''Status '' @ show_int value
      | Some (_, label) \<Rightarrow> label)"

definition priority_label :: "int \<Rightarrow> string" where
  "priority_label value =
     (case find (\<lambda>(v, _). v = value) PRIORITIES of
        None \<Rightarrow> ''Priority '' @ show_int value
      | Some (_, label) \<Rightarrow> label)"

definition web_is_terminal :: "int \<Rightarrow> bool" where
  "web_is_terminal value \<longleftrightarrow> value = 255 \<or> value = 254"

definition web_allowed_transitions :: "int \<Rightarrow> int list" where
  "web_allowed_transitions from =
     (if from = 0 then [1, 2, 3, 4, 5, 6, 7, 8, 255, 254]
      else if from = 1 then [0, 4, 6, 7, 8, 255, 254]
      else if from = 2 then [0, 4, 7, 255, 254]
      else if from = 3 then [0, 4, 5, 255, 254]
      else if from = 4 then [0, 1, 2, 3, 6, 255, 254]
      else if from = 5 then [0, 3, 255, 254]
      else if from = 6 then [0, 1, 4, 255, 254]
      else if from = 7 then [0, 2, 255, 254]
      else if from = 8 then [0, 1, 255, 254]
      else [])"

definition can_transition :: "int \<Rightarrow> int \<Rightarrow> bool" where
  "can_transition from to \<longleftrightarrow> from = to \<or> to \<in> set (web_allowed_transitions from)"

text \<open>
  \<open>tally\<close>: the \<open>BTreeMap\<close> is its key-ordered list of entries; \<open>entry(v).or_default() += 1\<close>
  inserts or bumps in place.
\<close>

fun bump :: "int \<Rightarrow> (int \<times> nat) list \<Rightarrow> (int \<times> nat) list" where
  "bump v [] = [(v, 1)]"
| "bump v ((w, n) # rest) =
     (if v < w then (v, 1) # (w, n) # rest
      else if v = w then (w, Suc n) # rest
      else (w, n) # bump v rest)"

definition tally :: "int list \<Rightarrow> (int \<times> nat) list" where
  "tally values = foldl (\<lambda>counts v. bump v counts) [] values"

abbreviation status_code :: "ticket_status \<Rightarrow> int" where
  "status_code s \<equiv> uint (status_u8 s)"

lemma status_code_inject: "status_code s = status_code t \<longleftrightarrow> s = t"
  by (metis status_roundtrip word_of_int_uint)

lemma web_transitions_codes: "web_allowed_transitions (status_code s) = map status_code (allowed_transitions s)"
  by (cases s) (simp_all add: web_allowed_transitions_def)

lemma web_can_transition: "can_transition (status_code s) (status_code t) = can_transition_to s t"
  by (auto simp: can_transition_def can_transition_to_def web_transitions_codes status_code_inject)

text \<open>
  The front end's matrix is the authoritative one: on the codes of two statuses it allows
  a change exactly when \<open>TicketStatus::can_transition_to\<close> does, it offers the same targets in
  the same order, agrees on the terminal statuses, and from a code that is no status it
  offers nothing.
\<close>

theorem web_matrix_mirrors_shared:
  "can_transition (status_code s) (status_code t) = can_transition_to s t
   \<and> web_allowed_transitions (status_code s) = map status_code (allowed_transitions s)
   \<and> web_is_terminal (status_code s) = is_terminal s
   \<and> (c \<notin> range status_code \<longrightarrow> web_allowed_transitions c = [])"
proof -
  have "web_is_terminal (status_code s) = is_terminal s"
    by (cases s) (simp_all add: web_is_terminal_def is_terminal_def)
  moreover note web_can_transition [of s t]
  moreover have "web_allowed_transitions c = [] \<or> c = status_code (status_from_u8 (word_of_int c))"
    by (simp add: web_allowed_transitions_def status_from_u8_def)
  ultimately show ?thesis using web_transitions_codes by (metis rangeI)
qed

theorem web_matrix_mirrors_shared_witness:
  "(9 :: int) \<notin> range status_code \<and> web_allowed_transitions 9 = []"
proof -
  have "(9 :: int) \<noteq> status_code s" for s by (cases s) simp_all
  then have h: "(9 :: int) \<notin> range status_code" by auto
  show ?thesis using web_matrix_mirrors_shared [of Open Open 9] h by blast
qed

definition keys_sorted :: "(int \<times> nat) list \<Rightarrow> bool" where
  "keys_sorted cs \<longleftrightarrow> sorted_wrt (<) (map fst cs)"

lemma bump_keys: "set (map fst (bump v cs)) = insert v (set (map fst cs))"
  by (induction v cs rule: bump.induct) auto

lemma bump_sorted: "keys_sorted cs \<Longrightarrow> keys_sorted (bump v cs)"
proof (induction v cs rule: bump.induct)
  case (1 v)
  then show ?case by (simp add: keys_sorted_def)
next
  case (2 v w n rest)
  then show ?case using bump_keys [of v rest] by (auto simp: keys_sorted_def)
qed

lemma bump_count: "keys_sorted cs \<Longrightarrow>
  map_of (bump v cs) x = (if x = v then Some (Suc (case map_of cs v of None \<Rightarrow> 0 | Some n \<Rightarrow> n)) else map_of cs x)"
proof (induction v cs rule: bump.induct)
  case (1 v)
  then show ?case by simp
next
  case (2 v w n rest)
  have "map_of rest v = None" if "v < w"
    using that 2 by (auto simp: keys_sorted_def map_of_eq_None_iff)
  with 2 show ?case by (auto simp: keys_sorted_def)
qed

lemma foldl_bump:
  "keys_sorted cs \<Longrightarrow>
   keys_sorted (foldl (\<lambda>counts v. bump v counts) cs vs) \<and>
   map_of (foldl (\<lambda>counts v. bump v counts) cs vs) x =
     (if count_list vs x = 0 then map_of cs x
      else Some (count_list vs x + (case map_of cs x of None \<Rightarrow> 0 | Some n \<Rightarrow> n)))"
proof (induction vs arbitrary: cs)
  case Nil
  then show ?case by simp
next
  case (Cons v vs)
  from Cons.prems have s: "keys_sorted (bump v cs)" by (rule bump_sorted)
  show ?case using Cons.IH [OF s] bump_count [OF Cons.prems, of v x]
    by (auto split: option.splits)
qed

text \<open>
  The tally lists each distinct value once, in ascending order, with the number of times
  it occurs.
\<close>

theorem tally_counts:
  "sorted_wrt (<) (map fst (tally vs)) \<and>
   map_of (tally vs) x = (if x \<in> set vs then Some (count_list vs x) else None)"
  using foldl_bump [of "[]" vs x]
  by (auto simp: keys_sorted_def tally_def count_list_0_iff)

end
