(* ===== verification/Custodian_Spec.thy ===== *)
theory Custodian_Spec
  imports Custodian_Run Web_Domain
begin

text \<open>
  What the users of the custodian see, over the deployment of \<open>Custodian_Props\<close>: the lock
  discipline of updates, the functional behaviour of each request through encryption, the
  database service and its storage layer, the invariants of every reachable state, and the
  front end's codes.
\<close>

subsection \<open>A deployment\<close>

definition sample_lib :: custodian_lib where
  "sample_lib = \<lparr>cl_parse_uuid = \<lambda>s. if s = [] then None else Some (of_nat (length s)),
     cl_uuid_text = \<lambda>u. show_nat (unat u),
     cl_to_timestamp = \<lambda>t. \<lparr>ts_seconds = of_int (dt_secs t), ts_nanos = of_nat (dt_nanos t)\<rparr>,
     cl_from_timestamp = \<lambda>s n. Some \<lparr>dt_secs = sint s, dt_nanos = unat n\<rparr>,
     cl_ticket_json = mk_codec ticket_pk, cl_body_json = mk_codec body_pk, cl_crypto = toy_crypto,
     cl_store_text = \<lambda>_. ''store'', cl_crypto_text = \<lambda>_. ''crypto'', cl_status_text = \<lambda>_. ''status''\<rparr>"

definition sample_db :: "(memdb, metrics) db_service" where
  "sample_db = one_node mem_db (\<lambda>_. ''storage'')"

definition sample_custodian :: "(memdb, metrics, memdb \<times> metrics) custodian" where
  "sample_custodian =
     \<lparr>cu_client_write = \<lambda>cmd (c, r). case lk_apply mem_locks cmd c of
          (Inr x, c') \<Rightarrow> (Inr x, (c', r)) | (Inl e, c') \<Rightarrow> (Inl ''storage'', (c', r)),
      cu_metrics = \<lambda>r. r, cu_db = Some (database_requests sample_db mem_db 0), cu_keypair = ([1], [2])\<rparr>"

lemma sample_deployed: "deployed sample_lib sample_custodian sample_db mem_db 0"
  by (simp add: deployed_def sample_custodian_def custodian_lib_ok_def sample_lib_def mk_codec_ok pickles
      toy_crypto_ok mem_db_ok sample_db_def one_node_applies)

lemma sample_lock_leader: "lock_leader mem_locks sample_custodian"
  by (auto simp: lock_leader_def sample_custodian_def split: prod.split sum.split)

interpretation sample: custodian_node "database_requests sample_db mem_db 0" "stored_rows mem_db" "stored_ok mem_db"
    "stored_room mem_db" sample_lib sample_custodian mem_locks
  by (intro custodian_node.intro deployed_over [OF sample_deployed] lock_service.intro mem_locks_ok sample_lock_leader)

lemma deployed_node:
  assumes "deployed L Q P F t" and "lock_env_ok E" and "lock_leader E Q"
  shows "custodian_node (database_requests P F t) (stored_rows F) (stored_ok F) (stored_room F) L Q E"
  by (intro custodian_node.intro deployed_over [OF assms(1)] lock_service.intro assms(2,3))

abbreviation sample_start :: "(memdb \<times> metrics) \<times> (memdb \<times> metrics)" where
  "sample_start \<equiv> ((RBT.empty, sample_metrics), (RBT.empty, sample_metrics))"

lemma sample_start_ok:
  "stored_ok mem_db (RBT.empty, sample_metrics)" "stored_room mem_db (RBT.empty, sample_metrics)"
  "all_sealed sample_lib sample_custodian (stored_rows mem_db (RBT.empty, sample_metrics))"
  by (simp_all add: served_empty all_sealed_def)

text \<open>The request that only closes a ticket.\<close>

definition close_request :: "u64 \<Rightarrow> string \<Rightarrow> update_ticket_request" where
  "close_request i user = \<lparr>up_ticket_id = i, up_title = None, up_project = None, up_symptom = None,
     up_priority = None, up_status = Some 255, up_next_action = None, up_resolution = None,
     up_assigned_to_uuid = None, up_updated_by_uuid = Some user, up_ebond = None, up_tracking_url = None,
     up_network_devices = []\<rparr>"

definition sample_create :: create_ticket_request where
  "sample_create = \<lparr>cr_title = ''down'', cr_project = ''p'', cr_account_uuid = ''a'', cr_symptom = 1,
     cr_priority = 1, cr_created_by_uuid = ''bb'', cr_customer_ticket_number = None,
     cr_isp_ticket_number = None, cr_other_ticket_number = None, cr_ebond = None, cr_tracking_url = None,
     cr_network_devices = []\<rparr>"

definition sample_rnd :: "bytes \<times> bytes" where
  "sample_rnd = ([3], replicate 12 5)"

subsection \<open>The lock discipline\<close>

lemma update_refused:
  assumes "lock_env_ok E" and "locks_inv E (view E c)"
    and "\<forall>s u. up_updated_by_uuid req = Some s \<longrightarrow> cl_parse_uuid L s = Some u \<longrightarrow>
       \<not> holds (locks_of E (view E c)) (up_ticket_id req) u now"
  shows "\<exists>e c'. cs_update_ticket L E Q now t rnd req ((c, r), b) = (Inl e, ((c', r), b)) \<and> view E c' = view E c
     \<and> (e = InvalidArgument ''updated_by_uuid is required'' \<or> e = InvalidArgument ''Invalid updated_by_uuid''
        \<or> (\<exists>m. e = PermissionDenied m))
     \<and> ((\<exists>s u. up_updated_by_uuid req = Some s \<and> cl_parse_uuid L s = Some u) \<longrightarrow> (\<exists>m. e = PermissionDenied m))"
proof (cases "\<exists>s u. up_updated_by_uuid req = Some s \<and> cl_parse_uuid L s = Some u")
  case True
  then obtain s u where u: "up_updated_by_uuid req = Some s" "cl_parse_uuid L s = Some u" by blast
  obtain m where "check_result now u (locks_of E (view E c) (up_ticket_id req)) = Inl (PermissionDenied m)"
    using check_result_denied assms(3) u by blast
  moreover obtain c' where "check_lock L E now (up_ticket_id req) u ((c, r), b) =
      (check_result now u (locks_of E (view E c) (up_ticket_id req)), ((c', r), b))" and "view E c' = view E c"
    using check_lock_run [OF assms(1,2), where L = L and now = now and i = "up_ticket_id req" and u = u
        and r = r and b = b] by blast
  ultimately show ?thesis
    by (intro exI [of _ "PermissionDenied m"] exI [of _ c'])
      (simp add: cs_update_ticket_def u thenA_def bindA_def)
next
  case False
  then have "cs_update_ticket L E Q now t rnd req ((c, r), b) = (Inl (InvalidArgument ''updated_by_uuid is required''), ((c, r), b))
      \<or> cs_update_ticket L E Q now t rnd req ((c, r), b) = (Inl (InvalidArgument ''Invalid updated_by_uuid''), ((c, r), b))"
    by (auto simp: cs_update_ticket_def throw_def split: option.split)
  with False show ?thesis by blast
qed

text \<open>An update is refused, and no ticket is touched, unless its author can be read from the
  request and holds the ticket's lock at the clock reading of the check: with no lock, an
  expired lock or another user's lock the answer is \<open>PermissionDenied\<close>, whatever the database
  would have said.
\<close>

theorem update_needs_lock:
  assumes "lock_env_ok E" and "locks_inv E (view E c)"
    and "\<forall>s u. up_updated_by_uuid req = Some s \<longrightarrow> cl_parse_uuid L s = Some u \<longrightarrow>
       \<not> holds (locks_of E (view E c)) (up_ticket_id req) u now"
  shows "\<exists>e c'. cs_update_ticket L E Q now t rnd req ((c, r), b) = (Inl e, ((c', r), b)) \<and> view E c' = view E c
     \<and> (e = InvalidArgument ''updated_by_uuid is required'' \<or> e = InvalidArgument ''Invalid updated_by_uuid''
        \<or> (\<exists>m. e = PermissionDenied m))
     \<and> ((\<exists>s u. up_updated_by_uuid req = Some s \<and> cl_parse_uuid L s = Some u) \<longrightarrow> (\<exists>m. e = PermissionDenied m))"
  by (rule update_refused [OF assms])

theorem update_needs_lock_witness:
  "\<exists>m s'. cs_update_ticket sample_lib mem_locks sample_custodian 0 epoch sample_rnd (close_request 4 ''me'') sample_start
     = (Inl (PermissionDenied m), s')"
proof -
  have h: "\<forall>s u. up_updated_by_uuid (close_request 4 ''me'') = Some s \<longrightarrow> cl_parse_uuid sample_lib s = Some u \<longrightarrow>
       \<not> holds (locks_of mem_locks (view mem_locks RBT.empty)) (up_ticket_id (close_request 4 ''me'')) u 0"
    unfolding mem_locks_empty(2) by (simp add: holds_def)
  have u: "\<exists>s u. up_updated_by_uuid (close_request 4 ''me'') = Some s \<and> cl_parse_uuid sample_lib s = Some u"
    by (simp add: close_request_def sample_lib_def)
  show ?thesis
    using update_needs_lock [OF mem_locks_ok mem_locks_empty(1) h, where Q = sample_custodian and t = epoch
        and rnd = sample_rnd and r = sample_metrics and b = "(RBT.empty, sample_metrics)"] u by blast
qed

text \<open>An acquisition granted at \<open>now\<close> with the default lifetime of 900 seconds lets its user,
  and nobody else, update the ticket until the lock expires; a refused one names the holder,
  another user whose lock has not expired. The database is not involved either way.
\<close>

theorem acquire_then_update:
  assumes env: "lock_env_ok E" "lock_leader E Q" and inv: "locks_inv E (view E c)"
    and u: "cl_parse_uuid L (lq_user_uuid req) = Some u"
    and fits: "sint now + 900 < 2 ^ 63" "sint now + 900 \<noteq> 0"
  shows "\<exists>resp c' r'. cs_acquire_lock L E Q now None req ((c, r), b) = (Inr resp, ((c', r'), b))
     \<and> locks_inv E (view E c')
     \<and> (if lm_success resp
        then \<forall>v at. holds (locks_of E (view E c')) (lq_ticket_id req) v at \<longleftrightarrow> v = u \<and> sint at < sint now + 900
        else \<exists>lock. locks_of E (view E c) (lq_ticket_id req) = Some lock \<and> lk_user_id lock \<noteq> u
          \<and> \<not> is_expired lock now \<and> lm_current_holder resp = Some (cl_uuid_text L (lk_user_id lock))
          \<and> locks_of E (view E c') = locks_of E (view E c))"
proof -
  have "lock_service E Q" by (intro lock_service.intro env)
  note run = lock_service.acquire_run [OF this inv u, where now = now and env = None and r = r and b = b]
  have ttl: "lock_ttl_secs None = 900" by (simp add: lock_ttl_secs_def)
  have "sint (now + 900) = sint now + 900"
    using fits sint_i64 [of now] unfolding sint_add_i64 by simp
  moreover have "now + 900 = 0 \<longleftrightarrow> sint (now + 900) = 0" by (simp only: signed_eq_0_iff)
  ultimately have expired: "is_expired (make_lock E i u now 900) at \<longleftrightarrow> sint now + 900 \<le> sint at" for i at
    using fits by (simp add: is_expired_def make_lock_def lock_expiry_def)
  have user: "lk_user_id (make_lock E i u now 900) = u" for i by (simp add: make_lock_def)
  let ?K = "locks_of E (view E c)" and ?i = "lq_ticket_id req"
  show ?thesis
  proof (cases "\<exists>lock. ?K ?i = Some lock \<and> lk_user_id lock \<noteq> u \<and> \<not> is_expired lock now")
    case True
    then obtain lock where lock: "?K ?i = Some lock" "lk_user_id lock \<noteq> u" "\<not> is_expired lock now" by blast
    then have "lock_step E (AcquireLock ?i u now (lock_ttl_secs None)) ?K
        = (lock_denied (locked_by_msg E ?i (lk_user_id lock)), ?K)" by simp
    then show ?thesis using run lock by (fastforce simp del: lock_step.simps simp: lock_denied_def)
  next
    case False
    then have "lock_step E (AcquireLock ?i u now (lock_ttl_secs None)) ?K
        = (lock_done, ?K(?i \<mapsto> make_lock E ?i u now 900))" by (auto simp: ttl split: option.split)
    then show ?thesis using run
      by (fastforce simp del: lock_step.simps simp: lock_done_def holds_def expired user)
  qed
qed

theorem acquire_then_update_witness:
  "\<exists>resp s'. cs_acquire_lock sample_lib mem_locks sample_custodian 60 None
      \<lparr>lq_ticket_id = 4, lq_user_uuid = ''me''\<rparr> sample_start = (Inr resp, s')
     \<and> (lm_success resp \<longrightarrow> holds (locks_of mem_locks (view mem_locks (fst (fst s')))) 4 2 959)"
proof -
  have u: "cl_parse_uuid sample_lib (lq_user_uuid \<lparr>lq_ticket_id = 4, lq_user_uuid = ''me''\<rparr>) = Some 2"
    by (simp add: sample_lib_def)
  show ?thesis
    using acquire_then_update [OF mem_locks_ok sample_lock_leader mem_locks_empty(1) u, where now = 60
        and r = sample_metrics and b = "(RBT.empty, sample_metrics)"] by fastforce
qed

text \<open>C36: the lock check reads the replica of the node that serves the request. Take the log in
  which \<open>u\<close> acquires a ticket, releases it and \<open>v\<close> acquires it. A node that has applied all of
  it accepts updates by \<open>v\<close> only; a node that has applied only the first entry still accepts
  updates by \<open>u\<close>, at any time, since neither lock expires: two users edit the ticket.
\<close>

theorem stale_replica_splits_lock:
  assumes "lock_env_ok E" and "locks_inv E (view E c1)" and "locks_inv E (view E c2)" and "u \<noteq> v"
    and "locks_of E (view E c1) = snd (lock_run E [AcquireLock i u at 0, ReleaseLock i u, AcquireLock i v at' 0] Map.empty)"
    and "locks_of E (view E c2) = snd (lock_run E [AcquireLock i u at 0] Map.empty)"
  shows "fst (check_lock L E now i v ((c1, r), b)) = Inr () \<and> fst (check_lock L E now i u ((c2, r'), b')) = Inr ()
     \<and> fst (check_lock L E now i u ((c1, r), b)) = Inl (PermissionDenied ''user does not hold lock'')"
proof -
  have i1: "locks_of E (view E c1) i = Some (make_lock E i v at' 0)"
    and i2: "locks_of E (view E c2) i = Some (make_lock E i u at 0)"
    using assms(5,6) by (simp_all add: make_lock_def)
  have "fst (check_lock L E now i w ((c1, r), b)) = check_result now w (locks_of E (view E c1) i)"
    and "fst (check_lock L E now i w ((c2, r'), b')) = check_result now w (locks_of E (view E c2) i)" for w
    using check_lock_run [OF assms(1,2), where L = L and now = now and i = i and u = w and r = r and b = b]
      check_lock_run [OF assms(1,3), where L = L and now = now and i = i and u = w and r = r' and b = b'] by auto
  then show ?thesis
    using assms(4) by (simp add: i1 i2 check_result_def make_lock_def is_expired_def lock_expiry_def)
qed

theorem stale_replica_splits_lock_witness:
  "\<exists>c1 c2 :: memdb. fst (check_lock sample_lib mem_locks 9 4 2 ((c1, ()), ())) = Inr ()
     \<and> fst (check_lock sample_lib mem_locks 9 4 1 ((c2, ()), ())) = Inr ()"
proof -
  obtain c1 where c1: "locks_inv mem_locks (view mem_locks c1)" "locks_of mem_locks (view mem_locks c1)
      = snd (lock_run mem_locks [AcquireLock 4 1 0 0, ReleaseLock 4 1, AcquireLock 4 2 5 0] Map.empty)"
    using sample.commands_reach [OF mem_locks_empty(1)] unfolding mem_locks_empty(2) by blast
  obtain c2 where c2: "locks_inv mem_locks (view mem_locks c2)" "locks_of mem_locks (view mem_locks c2)
      = snd (lock_run mem_locks [AcquireLock 4 1 0 0] Map.empty)"
    using sample.commands_reach [OF mem_locks_empty(1)] unfolding mem_locks_empty(2) by blast
  have "(1 :: uuid) \<noteq> 2" by simp
  from stale_replica_splits_lock [OF mem_locks_ok c1(1) c2(1) this c1(2) c2(2), where L = sample_lib and now = 9
      and r = "()" and b = "()" and r' = "()" and b' = "()"] show ?thesis by blast
qed

subsection \<open>Requests on tickets\<close>

lemma sample_encrypts: "\<exists>body. encrypt_ticket sample_lib sample_custodian sample_rnd t = Inr body"
  by (simp add: encrypt_ticket_def sample_lib_def sample_custodian_def mk_codec_def encrypt_with_public_key_def
      encrypt_with_public_key_and_algorithm_def toy_crypto_def encrypt_symmetric_def split: encryption_algorithm.split)

lemma sample_opened:
  "\<exists>i b row t. stored_ok mem_db b \<and> stored_rows mem_db b i = Some row \<and> \<not> sk_deleted row
     \<and> seals sample_lib sample_custodian i row t \<and> tk_status t = Open
     \<and> ticket_step sample_lib mem_locks sample_custodian (stored_room mem_db) 0 sample_start
         ((RBT.empty, sample_metrics), b)"
proof -
  let ?b = "(RBT.empty, sample_metrics) :: memdb \<times> metrics"
  obtain body where body: "encrypt_ticket sample_lib sample_custodian sample_rnd (new_ticket epoch sample_create 1 2) = Inr body"
    using sample_encrypts by blast
  have args: "cr_title sample_create \<noteq> []" "cl_parse_uuid sample_lib (cr_account_uuid sample_create) = Some 1"
    "cl_parse_uuid sample_lib (cr_created_by_uuid sample_create) = Some 2" "length (snd sample_rnd) = 12"
    by (simp_all add: sample_create_def sample_lib_def sample_rnd_def)
  from sample.create_run [OF sample_start_ok(1,2) args(1-3) body args(4), of 0 "(RBT.empty, sample_metrics)"]
  obtain i b where run: "cs_create_ticket sample_lib sample_custodian epoch 0 sample_rnd sample_create sample_start
      = (Inr (domain_to_proto sample_lib ((new_ticket epoch sample_create 1 2)\<lparr>tk_ticket_id := i\<rparr>)), ((RBT.empty, sample_metrics), b))"
    and b: "stored_ok mem_db b" "visible False (stored_rows mem_db b i) = stored_rows mem_db b i"
      "sealed_as sample_lib sample_custodian (stored_rows mem_db b) i ((new_ticket epoch sample_create 1 2)\<lparr>tk_ticket_id := i\<rparr>)"
    by blast
  from b(3) obtain row where row: "stored_rows mem_db b i = Some row"
    "seals sample_lib sample_custodian i row ((new_ticket epoch sample_create 1 2)\<lparr>tk_ticket_id := i\<rparr>)"
    by (auto simp: sealed_as_def)
  have "\<not> sk_deleted row" using b(2) row(1) by (auto simp: visible_def split: if_splits)
  moreover have "tk_status ((new_ticket epoch sample_create 1 2)\<lparr>tk_ticket_id := i\<rparr>) = Open"
    by (simp add: new_ticket_def ticket_new_def)
  ultimately show ?thesis
    using b(1) row step_create [where room = "stored_room mem_db", OF run sample_start_ok(2) args(4)] by blast
qed

lemma sample_locked:
  "\<exists>c. locks_inv mem_locks (view mem_locks c) \<and> holds (locks_of mem_locks (view mem_locks c)) i 2 60"
proof -
  obtain c where "locks_inv mem_locks (view mem_locks c)"
    "locks_of mem_locks (view mem_locks c) = snd (lock_run mem_locks [AcquireLock i 2 0 900] Map.empty)"
    using sample.commands_reach [OF mem_locks_empty(1)] unfolding mem_locks_empty(2) by blast
  then show ?thesis
    by (intro exI [of _ c]) (simp add: holds_def is_expired_def make_lock_def lock_expiry_def)
qed

text \<open>C5: creating a ticket. The answer, and every later read of the id it carries, is the new
  ticket: open, without a next action, and without the devices the request listed. The id was
  not in use, and every other ticket reads as before. The database stores one row more, under
  that id: the encryption of the ticket as its body, the index of the ticket in clear beside it,
  and no mark of a deletion.
\<close>

theorem create_ticket_spec:
  assumes dep: "deployed L Q P F tm" and ok: "stored_ok F b" "stored_room F b"
    and req: "cr_title req \<noteq> []" "cl_parse_uuid L (cr_account_uuid req) = Some acc"
      "cl_parse_uuid L (cr_created_by_uuid req) = Some u"
    and enc: "encrypt_ticket L Q rnd (new_ticket now req acc u) = Inr body" "length (snd rnd) = 12"
  shows "\<exists>i m b'. cs_create_ticket L Q now millis rnd req (n, b) = (Inr m, (n, b')) \<and> stored_ok F b'
     \<and> m = domain_to_proto L ((new_ticket now req acc u)\<lparr>tk_ticket_id := i\<rparr>)
     \<and> mg_ticket_id m = i \<and> mg_status m = 0 \<and> mg_next_action m = None \<and> mg_network_devices m = []
     \<and> stored_rows F b i = None
     \<and> stored_rows F b' = (stored_rows F b)(i \<mapsto> \<lparr>sk_body = body,
         sk_index = ticket_index_from_proto (Some (ticket_index L (new_ticket now req acc u))),
         sk_deleted = False, sk_deleted_at_unix = 0\<rparr>)
     \<and> fst (cs_get_ticket L Q i (n, b')) = Inr m
     \<and> (\<forall>j. j \<noteq> i \<longrightarrow> fst (cs_get_ticket L Q j (n, b')) = fst (cs_get_ticket L Q j (n, b)))"
proof -
  note over = deployed_over [OF dep]
  let ?t = "\<lambda>i. (new_ticket now req acc u)\<lparr>tk_ticket_id := i\<rparr>"
  obtain i b' where run: "cs_create_ticket L Q now millis rnd req (n, b) = (Inr (domain_to_proto L (?t i)), (n, b'))"
    and b': "stored_ok F b'" "stored_rows F b i = None" "\<forall>j. j \<noteq> i \<longrightarrow> stored_rows F b' j = stored_rows F b j"
      "sealed_as L Q (stored_rows F b') i (?t i)" "visible False (stored_rows F b' i) = stored_rows F b' i"
      "stored_rows F b' = (stored_rows F b)(i \<mapsto> \<lparr>sk_body = body,
         sk_index = ticket_index_from_proto (Some (ticket_index L (new_ticket now req acc u))),
         sk_deleted = False, sk_deleted_at_unix = 0\<rparr>)"
    using custodian_over.create_run [OF over ok req enc, of millis n] by blast
  note get = custodian_over.get_run [OF over]
  obtain row where row: "stored_rows F b' i = Some row" "decrypt_ticket L Q i (sk_body row) = Inr (?t i)"
    using b'(4) by (auto simp: sealed_as_def seals_def)
  have "fst (cs_get_ticket L Q i (n, b')) = Inr (domain_to_proto L (?t i))"
    using get [OF b'(1), of i n] b'(5) row by auto
  moreover have "fst (cs_get_ticket L Q j (n, b')) = fst (cs_get_ticket L Q j (n, b))" if "j \<noteq> i" for j
    using get [OF b'(1), of j n] get [OF ok(1), of j n] b'(3) that by auto
  moreover have "mg_ticket_id (domain_to_proto L (?t i)) = i" "mg_status (domain_to_proto L (?t i)) = 0"
    "mg_next_action (domain_to_proto L (?t i)) = None" "mg_network_devices (domain_to_proto L (?t i)) = []"
    by (simp_all add: domain_to_proto_def new_ticket_def ticket_new_def)
  ultimately show ?thesis using run b'(1,2,6)
    by (intro exI [of _ i] exI [of _ "domain_to_proto L (?t i)"] exI [of _ b'] conjI refl allI impI) assumption+
qed

theorem create_ticket_spec_witness:
  "\<exists>i m s'. cs_create_ticket sample_lib sample_custodian epoch 0 sample_rnd sample_create sample_start = (Inr m, s')
     \<and> fst (cs_get_ticket sample_lib sample_custodian i s') = Inr m"
proof -
  obtain body where body: "encrypt_ticket sample_lib sample_custodian sample_rnd (new_ticket epoch sample_create 1 2) = Inr body"
    using sample_encrypts by blast
  have args: "cr_title sample_create \<noteq> []" "cl_parse_uuid sample_lib (cr_account_uuid sample_create) = Some 1"
    "cl_parse_uuid sample_lib (cr_created_by_uuid sample_create) = Some 2" "length (snd sample_rnd) = 12"
    by (simp_all add: sample_create_def sample_lib_def sample_rnd_def)
  show ?thesis
    using create_ticket_spec [OF sample_deployed sample_start_ok(1,2) args(1-3) body args(4), of 0 "(RBT.empty, sample_metrics)"]
    by blast
qed

text \<open>C4: updating a ticket whose lock the author holds. The request's fields are applied to the
  decrypted ticket; a refusal of one of them leaves the ticket as it was. Otherwise the answer
  and every later read are the updated ticket, and no other ticket changes.
\<close>

theorem update_ticket_spec:
  assumes dep: "deployed L Q P F tm" and env: "lock_env_ok E" "locks_inv E (view E c)" and ok: "stored_ok F b"
    and row: "stored_rows F b (up_ticket_id req) = Some row" "\<not> sk_deleted row" "seals L Q (up_ticket_id req) row t0"
    and u: "up_updated_by_uuid req = Some s" "cl_parse_uuid L s = Some u"
    and held: "holds (locks_of E (view E c)) (up_ticket_id req) u now"
    and nonce: "length (snd rnd) = 12"
  shows "\<exists>ans c' b'. cs_update_ticket L E Q now t rnd req ((c, r), b) = (ans, ((c', r), b')) \<and> stored_ok F b'
     \<and> (\<forall>j. j \<noteq> up_ticket_id req \<longrightarrow> stored_rows F b' j = stored_rows F b j)
     \<and> (\<forall>e. apply_update L req u t t0 = Inl e \<longrightarrow> ans = Inl e \<and> stored_rows F b' = stored_rows F b)
     \<and> (\<forall>t1 body. apply_update L req u t t0 = Inr t1 \<longrightarrow> encrypt_ticket L Q rnd t1 = Inr body \<longrightarrow>
          ans = Inr (domain_to_proto L t1)
          \<and> fst (cs_get_ticket L Q (up_ticket_id req) ((c', r), b')) = Inr (domain_to_proto L t1))"
proof -
  note over = deployed_over [OF dep]
  let ?i = "up_ticket_id req"
  have "check_result now u (locks_of E (view E c) ?i) = Inr ()" using held by (simp only: check_result_holds)
  then obtain c' where chk: "check_lock L E now ?i u ((c, r), b) = (Inr (), ((c', r), b))"
    using check_lock_run [OF env, where L = L and now = now and i = ?i and u = u and r = r and b = b] by auto
  obtain b' where run: "cs_update_ticket L E Q now t rnd req ((c, r), b) =
       ((case apply_update L req u t t0 of Inl e \<Rightarrow> Inl e
         | Inr t1 \<Rightarrow> mapR (\<lambda>_. domain_to_proto L t1) (encrypt_ticket L Q rnd t1)), ((c', r), b'))"
    and b': "stored_ok F b'" and R: "stored_rows F b' = (case apply_update L req u t t0 of
           Inl e \<Rightarrow> stored_rows F b
         | Inr t1 \<Rightarrow> (case encrypt_ticket L Q rnd t1 of
             Inl e \<Rightarrow> stored_rows F b
           | Inr body \<Rightarrow> (stored_rows F b)(?i \<mapsto> row\<lparr>sk_body := body,
                sk_index := ticket_index_from_proto (Some (ticket_index L t1))\<rparr>)))"
    using custodian_over.update_run [OF over ok u chk row] by blast
  have "fst (cs_get_ticket L Q ?i ((c', r), b')) = Inr (domain_to_proto L t1)"
    if t1: "apply_update L req u t t0 = Inr t1" "encrypt_ticket L Q rnd t1 = Inr body" for t1 body
  proof -
    have "tk_ticket_id t1 = ?i"
      using apply_update_evolves [OF t1(1)] seals_id [OF row(3)] by (simp add: evolves_def)
    moreover have "decrypt_ticket L Q ?i body = Inr (t1\<lparr>tk_ticket_id := ?i\<rparr>)"
      using seal_open [OF custodian_over.lib [OF over] nonce t1(2)] .
    ultimately have "decrypt_ticket L Q ?i body = Inr t1" by simp
    then show ?thesis
      using custodian_over.get_run [OF over b', of ?i "(c', r)"] row(2) by (auto simp: R t1 visible_def)
  qed
  then show ?thesis using run b'
    by (intro exI [of _ c'] exI [of _ b'] exI conjI) (assumption | auto simp: R split: sum.split)+
qed

theorem update_ticket_spec_witness:
  "\<exists>i c b m s'. cs_update_ticket sample_lib mem_locks sample_custodian 60 epoch sample_rnd
        (close_request i ''me'') ((c, sample_metrics), b) = (Inr m, s') \<and> mg_status m = 255"
proof -
  obtain i row t and b :: "memdb \<times> metrics" where o: "stored_ok mem_db b" "stored_rows mem_db b i = Some row" "\<not> sk_deleted row"
    "seals sample_lib sample_custodian i row t" "tk_status t = Open" using sample_opened by blast
  obtain c where c: "locks_inv mem_locks (view mem_locks c)" "holds (locks_of mem_locks (view mem_locks c)) i 2 60"
    using sample_locked by blast
  let ?req = "close_request i ''me''"
  have up: "up_ticket_id ?req = i" by (simp add: close_request_def)
  have u: "up_updated_by_uuid ?req = Some ''me''" "cl_parse_uuid sample_lib ''me'' = Some 2" "length (snd sample_rnd) = 12"
    by (simp_all add: close_request_def sample_lib_def sample_rnd_def)
  have "\<exists>t1. apply_update sample_lib ?req 2 epoch t = Inr t1 \<and> tk_status t1 = Closed"
    using o(5) by (simp add: apply_update_def close_request_def Let_def u8_of_i32_def can_transition_to_def status_from_u8_def)
  then obtain t1 body where t1: "apply_update sample_lib ?req 2 epoch t = Inr t1" "tk_status t1 = Closed"
    "encrypt_ticket sample_lib sample_custodian sample_rnd t1 = Inr body"
    using sample_encrypts by blast
  note spec = update_ticket_spec [where req = ?req and t = epoch and r = sample_metrics, unfolded up,
      OF sample_deployed mem_locks_ok c(1) o(1-4) u(1,2) c(2) u(3)]
  then obtain ans s' where "cs_update_ticket sample_lib mem_locks sample_custodian 60 epoch sample_rnd ?req ((c, sample_metrics), b) = (ans, s')"
    "ans = Inr (domain_to_proto sample_lib t1)"
    using t1(1,3) by blast
  moreover have "mg_status (domain_to_proto sample_lib t1) = 255" by (simp add: domain_to_proto_def t1(2))
  ultimately show ?thesis by blast
qed

definition by_status :: "ticket_status \<Rightarrow> ticket_query_msg" where
  "by_status st = \<lparr>qm_status = Some (ucast (status_u8 st)), qm_assigned_to_uuid = None, qm_account_uuid = None,
     qm_project = None, qm_include_deleted = False, qm_limit = 0\<rparr>"

lemma matches_by_status:
  assumes "seals L Q i row t"
  shows "matches (query_from_proto (by_status st)) row \<longleftrightarrow> \<not> sk_deleted row \<and> tk_status t = st"
proof -
  have "ti_status (sk_index row) = status_u8 (tk_status t)" using assms by (simp add: seals_def)
  moreover have "status_u8 s1 = status_u8 s2 \<longleftrightarrow> s1 = s2" for s1 s2 by (metis status_roundtrip)
  ultimately show ?thesis by (auto simp: matches_def query_skips_def query_from_proto_def by_status_def)
qed

text \<open>A query answers with the decrypted tickets of exactly the rows that match it, each once
  and at most as many as its limit, and changes no ticket. Because every stored index is its
  ticket's own, a query by status lists the undeleted tickets that have that status.
\<close>

theorem custodian_query_spec:
  assumes dep: "deployed L Q P F tm" and ok: "stored_ok F b" and sealed: "all_sealed L Q (stored_rows F b)"
  shows "\<exists>msgs b'. cs_query_tickets L Q req (n, b) = (Inr (limited (qm_limit req) msgs), (n, b'))
     \<and> stored_rows F b' = stored_rows F b \<and> distinct (map mg_ticket_id msgs)
     \<and> set msgs = {domain_to_proto L t |i row t. stored_rows F b i = Some row \<and> seals L Q i row t
          \<and> matches (query_from_proto req) row}
     \<and> (\<forall>st. req = by_status st \<longrightarrow> set msgs = {domain_to_proto L t |i row t. stored_rows F b i = Some row
          \<and> seals L Q i row t \<and> \<not> sk_deleted row \<and> tk_status t = st})"
proof -
  obtain msgs b' where run: "cs_query_tickets L Q req (n, b) = (Inr (limited (qm_limit req) msgs), (n, b'))"
    "stored_rows F b' = stored_rows F b" "distinct (map mg_ticket_id msgs)"
    and msgs: "set msgs = {domain_to_proto L t |i row t. stored_rows F b i = Some row \<and> seals L Q i row t
          \<and> matches (query_from_proto req) row}"
    using custodian_over.query_run [OF deployed_over [OF dep] ok sealed, of req n] by blast
  have "set msgs = {domain_to_proto L t |i row t. stored_rows F b i = Some row
          \<and> seals L Q i row t \<and> \<not> sk_deleted row \<and> tk_status t = st}" if "req = by_status st" for st
    unfolding msgs that using matches_by_status by blast
  then show ?thesis using run msgs by blast
qed

theorem custodian_query_spec_witness:
  "\<exists>s'. cs_query_tickets sample_lib sample_custodian (by_status Closed) sample_start = (Inr [], s')"
proof -
  obtain msgs b' where "cs_query_tickets sample_lib sample_custodian (by_status Closed) sample_start
      = (Inr (limited (qm_limit (by_status Closed)) msgs), ((RBT.empty, sample_metrics), b'))" "set msgs = {}"
    using custodian_query_spec [OF sample_deployed sample_start_ok(1,3), of "by_status Closed" "(RBT.empty, sample_metrics)"]
    unfolding served_empty by auto
  then show ?thesis by (simp add: by_status_def)
qed

subsection \<open>Every reachable state\<close>

text \<open>C2: whatever sequence of requests the custodian serves, every stored body still decrypts to
  a ticket whose index is the stored one, and every ticket of the start state is still there:
  it kept its id, account, author and creation time, its status was changed only along the
  permitted transitions, and a ticket that was closed has kept its status.
\<close>

theorem reachable_tickets:
  assumes dep: "deployed L Q P F tm" and env: "lock_env_ok E" "lock_leader E Q"
    and run: "(\<lambda>s s'. \<exists>k. ticket_step L E Q (stored_room F) k s s')\<^sup>*\<^sup>* ((c, r), b) ((c', r'), b')"
    and start: "stored_ok F b" "all_sealed L Q (stored_rows F b)" "locks_inv E (view E c)"
  shows "stored_ok F b' \<and> all_sealed L Q (stored_rows F b') \<and> locks_inv E (view E c')
     \<and> (\<forall>i t. sealed_as L Q (stored_rows F b) i t \<longrightarrow> (\<exists>t'. sealed_as L Q (stored_rows F b') i t'
          \<and> can_transition_to\<^sup>*\<^sup>* (tk_status t) (tk_status t')
          \<and> (is_terminal (tk_status t) \<longrightarrow> tk_status t' = tk_status t)
          \<and> tk_ticket_id t' = tk_ticket_id t \<and> tk_account_uuid t' = tk_account_uuid t
          \<and> tk_created_by t' = tk_created_by t \<and> tk_created_at t' = tk_created_at t))"
proof -
  note node = deployed_node [OF dep env]
  have s0: "custodian_node.node_ok (stored_rows F) (stored_ok F) L Q E ((c, r), b)"
    using start by (simp add: custodian_node.node_ok_def [OF node])
  have steps: "custodian_node.node_steps (stored_room F) L Q E ((c, r), b) ((c', r'), b')"
    using run by (simp add: custodian_node.node_steps_def [OF node])
  have "custodian_node.node_ok (stored_rows F) (stored_ok F) L Q E ((c', r'), b')"
    by (rule custodian_node.reach_ok [OF node steps s0])
  moreover have "\<exists>t'. sealed_as L Q (stored_rows F b') i t' \<and> evolves\<^sup>*\<^sup>* t t'"
    if "sealed_as L Q (stored_rows F b) i t" for i t
    using custodian_node.reach_ticket [OF node steps s0] that by simp
  ultimately show ?thesis
    using evolves_chain terminal_reach by (fastforce simp: custodian_node.node_ok_def [OF node])
qed

theorem reachable_tickets_witness:
  "\<exists>b :: memdb \<times> metrics. (\<exists>i row. stored_rows mem_db b i = Some row)
     \<and> all_sealed sample_lib sample_custodian (stored_rows mem_db b)"
proof -
  obtain i row t and b :: "memdb \<times> metrics" where o: "stored_rows mem_db b i = Some row"
    "ticket_step sample_lib mem_locks sample_custodian (stored_room mem_db) 0 sample_start ((RBT.empty, sample_metrics), b)"
    using sample_opened by blast
  then have "(\<lambda>s s'. \<exists>k. ticket_step sample_lib mem_locks sample_custodian (stored_room mem_db) k s s')\<^sup>*\<^sup>*
      sample_start ((RBT.empty, sample_metrics), b)" by blast
  from reachable_tickets [OF sample_deployed mem_locks_ok sample_lock_leader this sample_start_ok(1,3) mem_locks_empty(1)]
  show ?thesis using o(1) by blast
qed

text \<open>C3: a single request changes an existing ticket only if the user it then names as its last
  editor held the ticket's lock, unexpired at the clock reading of the request.
\<close>

theorem changed_by_lock_holder:
  assumes dep: "deployed L Q P F tm" and env: "lock_env_ok E" "lock_leader E Q"
    and step: "ticket_step L E Q (stored_room F) k ((c, r), b) ((c', r'), b')"
    and start: "stored_ok F b" "all_sealed L Q (stored_rows F b)" "locks_inv E (view E c)"
    and changed: "stored_rows F b i = Some row" "stored_rows F b' i \<noteq> Some row"
  shows "\<exists>t'. sealed_as L Q (stored_rows F b') i t'
     \<and> holds (locks_of E (view E c)) i (tk_updated_by t') k"
proof -
  note node = deployed_node [OF dep env]
  have s0: "custodian_node.node_ok (stored_rows F) (stored_ok F) L Q E ((c, r), b)"
    using start by (simp add: custodian_node.node_ok_def [OF node])
  have "rows_step L Q (\<lambda>i u. holds (locks_of E (view E c)) i u k) (stored_rows F b) (stored_rows F b')"
    using custodian_node.step_frame [OF node step s0] by simp
  from rows_step_changed [OF this changed] show ?thesis .
qed

text \<open>Closing the sample ticket under a lock is such a change.\<close>

lemma sample_closing:
  "\<exists>i row c c' r' b0 b'. stored_ok mem_db (b0 :: memdb \<times> metrics)
     \<and> all_sealed sample_lib sample_custodian (stored_rows mem_db b0)
     \<and> locks_inv mem_locks (view mem_locks c)
     \<and> ticket_step sample_lib mem_locks sample_custodian (stored_room mem_db) 60
         ((c, sample_metrics), b0) ((c', r'), b')
     \<and> stored_rows mem_db b0 i = Some row \<and> stored_rows mem_db b' i \<noteq> Some row"
proof -
  obtain i row t and b :: "memdb \<times> metrics" where o: "stored_ok mem_db b" "stored_rows mem_db b i = Some row"
    "\<not> sk_deleted row" "seals sample_lib sample_custodian i row t" "tk_status t = Open"
    and opened: "ticket_step sample_lib mem_locks sample_custodian (stored_room mem_db) 0 sample_start ((RBT.empty, sample_metrics), b)"
    using sample_opened by blast
  obtain c where c: "locks_inv mem_locks (view mem_locks c)" "holds (locks_of mem_locks (view mem_locks c)) i 2 60"
    using sample_locked by blast
  have "sample.node_ok sample_start"
    using sample_start_ok mem_locks_empty(1) by (simp add: sample.node_ok_def)
  then have sealed: "all_sealed sample_lib sample_custodian (stored_rows mem_db b)"
    using sample.step_frame [OF opened] by (simp add: sample.node_ok_def)
  let ?req = "close_request i ''me''"
  have up: "up_ticket_id ?req = i" by (simp add: close_request_def)
  have u: "up_updated_by_uuid ?req = Some ''me''" "cl_parse_uuid sample_lib ''me'' = Some 2" "length (snd sample_rnd) = 12"
    by (simp_all add: close_request_def sample_lib_def sample_rnd_def)
  have "\<exists>t1. apply_update sample_lib ?req 2 epoch t = Inr t1 \<and> tk_status t1 = Closed"
    using o(5) by (simp add: apply_update_def close_request_def Let_def u8_of_i32_def can_transition_to_def status_from_u8_def)
  then obtain t1 body where t1: "apply_update sample_lib ?req 2 epoch t = Inr t1" "tk_status t1 = Closed"
    "encrypt_ticket sample_lib sample_custodian sample_rnd t1 = Inr body"
    using sample_encrypts by blast
  have "check_result 60 2 (locks_of mem_locks (view mem_locks c) i) = Inr ()"
    using c(2) by (simp only: check_result_holds)
  then obtain c' where chk: "check_lock sample_lib mem_locks 60 i 2 ((c, sample_metrics), b) = (Inr (), ((c', sample_metrics), b))"
    using check_lock_run [OF mem_locks_ok c(1), where L = sample_lib and now = 60 and i = i and u = 2
        and r = sample_metrics and b = b] by auto
  let ?row = "row\<lparr>sk_body := body, sk_index := ticket_index_from_proto (Some (ticket_index sample_lib t1))\<rparr>"
  obtain b' where run: "cs_update_ticket sample_lib mem_locks sample_custodian 60 epoch sample_rnd ?req ((c, sample_metrics), b)
      = (Inr (domain_to_proto sample_lib t1), ((c', sample_metrics), b'))"
    and R: "stored_rows mem_db b' = (stored_rows mem_db b)(i \<mapsto> ?row)"
    using sample.update_run [where req = ?req and ?t0.0 = t and now = epoch and rnd = sample_rnd, unfolded up,
        OF o(1) u(1,2) chk o(2-4)] t1(1,3) by auto
  have "ti_status (sk_index row) \<noteq> ti_status (sk_index ?row)"
    using o(4,5) t1(2) by (simp add: seals_def)
  then have "?row \<noteq> row" by metis
  then have "stored_rows mem_db b' i \<noteq> Some row" by (simp add: R)
  then show ?thesis
    using o(1,2) sealed c(1) step_update [where room = "stored_room mem_db", OF run u(3)] by blast
qed

theorem changed_by_lock_holder_witness:
  "\<exists>c i u. holds (locks_of mem_locks (view mem_locks c)) i u 60"
proof -
  obtain i row c c' r' and b b' :: "memdb \<times> metrics" where s: "stored_ok mem_db b"
    "all_sealed sample_lib sample_custodian (stored_rows mem_db b)" "locks_inv mem_locks (view mem_locks c)"
    "ticket_step sample_lib mem_locks sample_custodian (stored_room mem_db) 60 ((c, sample_metrics), b) ((c', r'), b')"
    "stored_rows mem_db b i = Some row" "stored_rows mem_db b' i \<noteq> Some row"
    using sample_closing by blast
  from changed_by_lock_holder [OF sample_deployed mem_locks_ok sample_lock_leader s(4,1,2,3,5,6)]
  show ?thesis by blast
qed

subsection \<open>Codes on the wire\<close>



text \<open>The enumerators of \<open>TicketStatus\<close> in the published interface, \<open>custodian.proto\<close>.\<close>

definition proto_status_name :: "int \<Rightarrow> string option" where
  "proto_status_name = map_of
     [(0, ''TICKET_STATUS_UNSPECIFIED''), (1, ''OPEN''), (2, ''AWAITING_CUSTOMER''), (3, ''AWAITING_ISP''),
      (4, ''AWAITING_PARTNER''), (5, ''SUPPORT_HOLD''), (6, ''HANDED_OFF''), (7, ''APPOINTMENT_SCHEDULED''),
      (8, ''EBOND_RECEIVED''), (9, ''VOICEMAIL_RECEIVED''), (254, ''AUTO_CLOSE''), (255, ''CLOSED'')]"

fun status_enumerator :: "ticket_status \<Rightarrow> string" where
  "status_enumerator Open = ''OPEN''"
| "status_enumerator AwaitingCustomer = ''AWAITING_CUSTOMER''"
| "status_enumerator AwaitingISP = ''AWAITING_ISP''"
| "status_enumerator AwaitingPartner = ''AWAITING_PARTNER''"
| "status_enumerator SupportHold = ''SUPPORT_HOLD''"
| "status_enumerator HandedOff = ''HANDED_OFF''"
| "status_enumerator AppointmentScheduled = ''APPOINTMENT_SCHEDULED''"
| "status_enumerator EbondReceived = ''EBOND_RECEIVED''"
| "status_enumerator VoicemailReceived = ''VOICEMAIL_RECEIVED''"
| "status_enumerator AutoClose = ''AUTO_CLOSE''"
| "status_enumerator Closed = ''CLOSED''"

text \<open>A client generated from the published interface misreads every status but the two
  terminal ones: the number the custodian sends is one less than the enumerator of that
  status, so an open ticket reads as unspecified and a ticket awaiting its customer as open.
\<close>

theorem published_status_is_shifted:
  "(proto_status_name (sint (mg_status (domain_to_proto L t))) = Some (status_enumerator (tk_status t))
     \<longleftrightarrow> is_terminal (tk_status t))
   \<and> proto_status_name (sint (mg_status (domain_to_proto L t)) + (if is_terminal (tk_status t) then 0 else 1))
     = Some (status_enumerator (tk_status t))"
  by (cases "tk_status t"; simp add: domain_to_proto_def proto_status_name_def is_terminal_def)+

subsection \<open>What an update leaves out\<close>

text \<open>The ebond, the tracking URL and the devices of an update request have no effect, the
  ticket's history does not record the change, and the rule that a closed ticket carries a
  resolution is not enforced: a request that only closes an open ticket succeeds, and the
  result fails \<open>validate\<close>.
\<close>

theorem update_gaps:
  "apply_update L (req\<lparr>up_ebond := e, up_tracking_url := url, up_network_devices := ds\<rparr>) u now t
     = apply_update L req u now t
   \<and> (apply_update L req u now t = Inr t' \<longrightarrow>
        tk_history t' = tk_history t \<and> tk_ebond t' = tk_ebond t \<and> tk_tracking_url t' = tk_tracking_url t
        \<and> tk_network_devices t' = tk_network_devices t)
   \<and> (tk_status t = Open \<and> tk_resolution t = None \<longrightarrow>
        (\<exists>t'. apply_update L (close_request i s) u now t = Inr t' \<and> tk_status t' = Closed
           \<and> validate t' = Inl (ValidationError ''Status Closed requires a resolution'')))"
proof (intro conjI impI)
  let ?r = "req\<lparr>up_ebond := e, up_tracking_url := url, up_network_devices := ds\<rparr>"
  have fields: "up_title ?r = up_title req" "up_project ?r = up_project req" "up_symptom ?r = up_symptom req"
    "up_priority ?r = up_priority req" "up_status ?r = up_status req" "up_next_action ?r = up_next_action req"
    "up_resolution ?r = up_resolution req" "up_assigned_to_uuid ?r = up_assigned_to_uuid req" by simp_all
  show "apply_update L ?r u now t = apply_update L req u now t"
    unfolding apply_update_def fields by (rule refl)
next
  assume "apply_update L req u now t = Inr t'"
  then show "tk_history t' = tk_history t" "tk_ebond t' = tk_ebond t" "tk_tracking_url t' = tk_tracking_url t"
    "tk_network_devices t' = tk_network_devices t"
    by (simp_all add: apply_update_keeps)
next
  assume "tk_status t = Open \<and> tk_resolution t = None"
  then show "\<exists>t'. apply_update L (close_request i s) u now t = Inr t' \<and> tk_status t' = Closed
      \<and> validate t' = Inl (ValidationError ''Status Closed requires a resolution'')"
    by (simp add: close_request_def apply_update_def Let_def u8_of_i32_def status_from_u8_def can_transition_to_def
        validate_def requires_resolution_def)
qed

theorem update_gaps_witness:
  "\<exists>t'. apply_update sample_lib (close_request 4 ''me'') 2 epoch (new_ticket epoch sample_create 1 2) = Inr t'
     \<and> validate t' = Inl (ValidationError ''Status Closed requires a resolution'')"
proof -
  have "tk_status (new_ticket epoch sample_create 1 2) = Open \<and> tk_resolution (new_ticket epoch sample_create 1 2) = None"
    by (simp add: new_ticket_def ticket_new_def)
  then show ?thesis
    using update_gaps [where L = sample_lib and i = 4 and s = "''me''" and u = 2 and now = epoch
        and t = "new_ticket epoch sample_create 1 2"] by blast
qed

text \<open>A next action survives the trip to a client and back in an update, as long as the
  timestamp conversions invert each other on its time; an absent message is no next action
  and an unknown schedule code means the end of the day.
\<close>

theorem next_action_roundtrip:
  assumes "\<And>at. a = FollowUp at \<or> a = Appointment at \<Longrightarrow> proto_to_dt L (cl_to_timestamp L at) = at"
  shows "(case map_next_action L a of Some kind \<Rightarrow> proto_to_next_action L kind | None \<Rightarrow> proto_to_next_action L None) = a
     \<and> (v \<notin> range auto_close_to_proto \<longrightarrow> proto_to_next_action L (Some (KindAutoClose v)) = AutoCloseAt EndOfDay)"
proof -
  have "proto_to_auto_close (auto_close_to_proto sch) = sch" for sch
    by (cases sch) (simp_all add: proto_to_auto_close_def)
  moreover have "proto_to_auto_close v = EndOfDay" if "v \<notin> range auto_close_to_proto"
    using that rangeI [of auto_close_to_proto Hours24] rangeI [of auto_close_to_proto Hours48]
      rangeI [of auto_close_to_proto Hours72] by (auto simp: proto_to_auto_close_def)
  ultimately show ?thesis using assms by (cases a) auto
qed

theorem next_action_roundtrip_witness:
  "proto_to_next_action sample_lib (the (map_next_action sample_lib (FollowUp \<lparr>dt_secs = 7, dt_nanos = 5\<rparr>)))
     = FollowUp \<lparr>dt_secs = 7, dt_nanos = 5\<rparr>"
proof -
  have "proto_to_dt sample_lib (cl_to_timestamp sample_lib at) = at"
    if "FollowUp \<lparr>dt_secs = 7, dt_nanos = 5\<rparr> = FollowUp at \<or> FollowUp \<lparr>dt_secs = 7, dt_nanos = 5\<rparr> = Appointment at" for at
    using that by (auto simp: proto_to_dt_def sample_lib_def Let_def)
  from next_action_roundtrip [where a = "FollowUp \<lparr>dt_secs = 7, dt_nanos = 5\<rparr>", OF this] show ?thesis by simp
qed

end
