(* ===== verification/Account_Props.thy ===== *)
theory Account_Props
  imports Auth_Server Admin_Server Ticket_Codec
begin

text \<open>
  The two account services over one database. \<open>accounts_of\<close> reads the trees as what they hold:
  profiles by id and logins by name. The locale \<open>account_store\<close> (a \<open>raw_db\<close> and a library whose
  sealed records open again) proves each handler as an operation on that state; \<open>deployed_accounts\<close>
  is the two services in front of the database service, an instance of it.
\<close>

subsection \<open>What the library promises\<close>

definition sealing_ok :: "'h account_lib \<Rightarrow> bytes \<times> bytes \<Rightarrow> bool" where
  "sealing_ok L keys \<longleftrightarrow> codec_ok (al_user_json L) \<and> codec_ok (al_auth_json L) \<and> codec_ok (al_body_json L)
     \<and> aead_ok (al_crypto L) \<and> key_ok (al_crypto L) keys"

definition uuid_text_ok :: "'h account_lib \<Rightarrow> bool" where
  "uuid_text_ok L \<longleftrightarrow> (\<forall>u. al_parse_uuid L (al_uuid_text L u) = Some u)"

text \<open>
  The primitives a write needs do not fail: hashing a password and encrypting under the public
  key. A handler may still be refused by its request.
\<close>

definition writes_ok :: "'h account_lib \<Rightarrow> bytes \<times> bytes \<Rightarrow> bool" where
  "writes_ok L keys \<longleftrightarrow> (\<forall>p salt. \<exists>t. al_hash_password L p salt = Inr t)
     \<and> (\<forall>coins nonce data. \<exists>ed. encrypt_with_public_key (al_crypto L) coins nonce data (fst keys) = Inr ed)"

text \<open>A password verifies against its own hash.\<close>

definition password_ok :: "'h account_lib \<Rightarrow> bool" where
  "password_ok L \<longleftrightarrow> (\<forall>p salt t. al_hash_password L p salt = Inr t \<longrightarrow>
     (\<exists>h. al_parse_hash L t = Inr h \<and> al_verify_password L p h))"

text \<open>
  A token decodes under its own secret until 60 seconds, the library's leeway, after its expiry.
\<close>

definition token_ok :: "'h account_lib \<Rightarrow> bool" where
  "token_ok L \<longleftrightarrow> (\<forall>secret c token now. al_jwt_encode L secret c = Inr token \<longrightarrow> 60 \<le> now \<longrightarrow>
     al_jwt_decode L secret now token = (if now - 60 \<le> uint (cm_exp c) then Some c else None))"

definition hours_ok :: "'h account_lib \<Rightarrow> bool" where
  "hours_ok L \<longleftrightarrow> (\<forall>t n t'. al_add_hours L t n = Some t' \<longrightarrow> dt_secs t' = dt_secs t + 3600 * n)"

subsection \<open>Sealed records\<close>

definition opens :: "'h account_lib \<Rightarrow> bytes \<times> bytes \<Rightarrow> 'a codec \<Rightarrow> bytes \<Rightarrow> 'a option" where
  "opens L keys json v = (case unseal L keys json [] [] v of Inr x \<Rightarrow> Some x | Inl _ \<Rightarrow> None)"

lemma unseal_opens: "unseal L keys json m1 m2 v = Inr x \<longleftrightarrow> opens L keys json v = Some x"
  by (auto simp: opens_def unseal_def map_errR_def split: sum.splits)

lemma unseal_fails: "opens L keys json v = None \<Longrightarrow> \<exists>m. unseal L keys json m1 m2 v = Inl (Internal m)"
  by (auto simp: opens_def unseal_def map_errR_def split: sum.splits)

lemma seal_failure:
  assumes "codec_ok json" and "seal_record L keys json rnd x = Inl e"
  shows "\<exists>m. e = Internal m" and "\<not> writes_ok L keys"
  using assms by (auto simp: seal_record_def map_errR_def codec_ok_def writes_ok_def split: sum.splits)
    (metis old.sum.distinct(1))+

lemma hash_failure:
  assumes "hash_new_password L salt pw = Inl e"
  shows "\<exists>m. e = Internal m" and "\<not> writes_ok L keys"
  using assms by (auto simp: hash_new_password_def map_errR_def writes_ok_def split: sum.splits)
    (metis old.sum.distinct(1))+

lemma sealed_opens:
  assumes "sealing_ok L keys" and "codec_ok json" and "seal_record L keys json rnd x = Inr ed"
    and "length (snd rnd) = 12"
  shows "\<exists>v. body_bytes L ed = Inr v \<and> opens L keys json v = Some x"
proof -
  have ok: "codec_ok (al_body_json L)" "aead_ok (al_crypto L)" "key_ok (al_crypto L) keys"
    using assms(1) by (simp_all add: sealing_ok_def)
  obtain plain where plain: "cd_ser json x = Inr plain" "cd_de json plain = Inr x"
    using assms(2) by (auto simp: codec_ok_def)
  then have "encrypt_with_public_key (al_crypto L) (fst rnd) (snd rnd) plain (fst keys) = Inr ed"
    using assms(3) by (auto simp: seal_record_def map_errR_def split: sum.splits)
  then have "decrypt_with_private_key (al_crypto L) ed (snd keys) = Inr plain"
    using public_key_roundtrip [OF ok(2,3) assms(4)] by blast
  moreover obtain v where "cd_ser (al_body_json L) ed = Inr v" "cd_de (al_body_json L) v = Inr ed"
    using ok(1) by (auto simp: codec_ok_def)
  ultimately show ?thesis using plain
    by (intro exI [of _ v]) (simp add: body_bytes_def opens_def unseal_def)
qed

lemma uuid_bytes_inject [simp]: "uuid_bytes u = uuid_bytes v \<longleftrightarrow> u = v"
proof -
  have "nat_be (uuid_bytes w) = unat w" for w
    using unsigned_less [of w, where ?'a = nat] by (simp add: uuid_bytes_def nat_be_be_nat)
  then show ?thesis by (metis word_unat_eq_iff)
qed

lemma auth_key_inject [simp]: "auth_key m = auth_key n \<longleftrightarrow> m = n"
  by (simp add: auth_key_def)

subsection \<open>The accounts in the trees\<close>

record accounts =
  ac_profiles :: "uuid \<rightharpoonup> user"
  ac_logins :: "string \<rightharpoonup> user_auth"

definition accounts_of :: "'h account_lib \<Rightarrow> bytes \<times> bytes \<Rightarrow> world \<Rightarrow> accounts" where
  "accounts_of L keys W =
     \<lparr>ac_profiles = \<lambda>i. Option.bind (W ''users'' (uuid_bytes i)) (opens L keys (al_user_json L)),
      ac_logins = \<lambda>n. Option.bind (W ''auth'' (auth_key n)) (opens L keys (al_auth_json L))\<rparr>"

text \<open>
  Every record opens, a profile is kept under its own id, and a login's profile exists and
  bears the login's name.
\<close>

definition accounts_inv :: "'h account_lib \<Rightarrow> bytes \<times> bytes \<Rightarrow> world \<Rightarrow> bool" where
  "accounts_inv L keys W \<longleftrightarrow>
     (\<forall>k v. W ''users'' k = Some v \<longrightarrow>
        (\<exists>i u. k = uuid_bytes i \<and> opens L keys (al_user_json L) v = Some u \<and> us_user_id u = i))
   \<and> (\<forall>n v. W ''auth'' (auth_key n) = Some v \<longrightarrow> opens L keys (al_auth_json L) v \<noteq> None)
   \<and> (\<forall>n a. ac_logins (accounts_of L keys W) n = Some a \<longrightarrow>
        (\<exists>p. ac_profiles (accounts_of L keys W) (ua_user_id a) = Some p \<and> us_username p = n))"

lemma accounts_put_user:
  "opens L keys (al_user_json L) v = Some u \<Longrightarrow>
     accounts_of L keys (wput W ''users'' (uuid_bytes i) v)
       = (accounts_of L keys W)\<lparr>ac_profiles := (ac_profiles (accounts_of L keys W))(i \<mapsto> u)\<rparr>"
  by (auto simp: accounts_of_def wput_apply fun_eq_iff)

lemma accounts_put_auth:
  "opens L keys (al_auth_json L) v = Some a \<Longrightarrow>
     accounts_of L keys (wput W ''auth'' (auth_key n) v)
       = (accounts_of L keys W)\<lparr>ac_logins := (ac_logins (accounts_of L keys W))(n \<mapsto> a)\<rparr>"
  by (auto simp: accounts_of_def wput_apply fun_eq_iff)

lemma accounts_empty [simp]:
  "accounts_of L keys (\<lambda>_. Map.empty) = \<lparr>ac_profiles = Map.empty, ac_logins = Map.empty\<rparr>"
  "accounts_inv L keys (\<lambda>_. Map.empty)"
  by (simp_all add: accounts_of_def accounts_inv_def)

text \<open>The writes of a profile and of a login keep the invariant when they keep the names.\<close>

lemma inv_put_user:
  assumes "accounts_inv L keys W" and "opens L keys (al_user_json L) v = Some u" and "us_user_id u = i"
    and "\<And>p. ac_profiles (accounts_of L keys W) i = Some p \<Longrightarrow> us_username p = us_username u"
  shows "accounts_inv L keys (wput W ''users'' (uuid_bytes i) v)"
  using assms(1,3,4) unfolding accounts_inv_def accounts_put_user [OF assms(2)]
  by (auto simp: wput_apply assms(2) split: if_splits) (metis option.inject)+

lemma inv_put_auth:
  assumes "accounts_inv L keys W" and "opens L keys (al_auth_json L) v = Some a"
    and "ac_profiles (accounts_of L keys W) (ua_user_id a) = Some p" and "us_username p = n"
  shows "accounts_inv L keys (wput W ''auth'' (auth_key n) v)"
  using assms(1,3,4) unfolding accounts_inv_def accounts_put_auth [OF assms(2)]
  by (auto simp: wput_apply assms(2))

lemma inv_login_profile:
  assumes "accounts_inv L keys W" and "ac_logins (accounts_of L keys W) n = Some a"
  obtains p where "ac_profiles (accounts_of L keys W) (ua_user_id a) = Some p" and "us_username p = n"
  using assms unfolding accounts_inv_def by blast

lemma inv_login_opens:
  "accounts_inv L keys W \<Longrightarrow> W ''auth'' (auth_key n) = Some v \<Longrightarrow>
     \<exists>a. opens L keys (al_auth_json L) v = Some a \<and> ac_logins (accounts_of L keys W) n = Some a"
  by (auto simp: accounts_inv_def accounts_of_def)

lemma inv_profile_opens:
  assumes "accounts_inv L keys W" and "W ''users'' (uuid_bytes i) = Some v"
  shows "\<exists>u. opens L keys (al_user_json L) v = Some u \<and> ac_profiles (accounts_of L keys W) i = Some u \<and> us_user_id u = i"
proof -
  from assms obtain j u where "uuid_bytes i = uuid_bytes j" "opens L keys (al_user_json L) v = Some u" "us_user_id u = j"
    unfolding accounts_inv_def by blast
  then show ?thesis using assms(2) by (simp add: accounts_of_def)
qed

subsection \<open>The handlers over the accounts\<close>

text \<open>What a login answers, from the accounts alone.\<close>

definition login_answer ::
  "'h account_lib \<Rightarrow> bytes \<Rightarrow> string option \<Rightarrow> (string + u64) \<Rightarrow> datetime \<Rightarrow> authenticate_request \<Rightarrow> accounts
   \<Rightarrow> status + authenticate_response" where
  "login_answer L secret mfa_env totp_clock now req s =
     (case ac_logins s (nq_username req) of
        None \<Rightarrow> Inr (rejected ''Invalid credentials'')
      | Some a \<Rightarrow> (case al_parse_hash L (ua_password_hash a) of
          Inl e \<Rightarrow> Inl (Internal (''Invalid password hash in DB: '' @ e))
        | Inr h \<Rightarrow>
            if \<not> al_verify_password L (utf8_bytes (nq_password req)) h
            then Inr (rejected ''Invalid credentials'')
            else (case check_mfa L mfa_env totp_clock a (nq_mfa_token req) of
                Inl e \<Rightarrow> Inl e
              | Inr (Some why) \<Rightarrow> Inr (rejected why)
              | Inr None \<Rightarrow> (case ac_profiles s (ua_user_id a) of
                  None \<Rightarrow> Inl (Internal ''User profile missing for valid auth'')
                | Some u \<Rightarrow> (case al_add_hours L now 24 of
                    None \<Rightarrow> Inl (Internal ''token expiry timestamp overflow'')
                  | Some expires \<Rightarrow> (case al_jwt_encode L secret (claims_of L u expires) of
                      Inl e \<Rightarrow> Inl (Internal (''Token generation failed: '' @ e))
                    | Inr token \<Rightarrow> Inr \<lparr>nr_success = True, nr_session_token = token, nr_error = [],
                                       nr_user = Some (user_info_of L u)\<rparr>))))))"

text \<open>The login record after a change of password: the second factor stays.\<close>

definition new_login :: "accounts \<Rightarrow> string \<Rightarrow> uuid \<Rightarrow> string \<Rightarrow> user_auth" where
  "new_login s n i t = (case ac_logins s n of
       Some a \<Rightarrow> a\<lparr>ua_user_id := i, ua_password_hash := t\<rparr> | None \<Rightarrow> new_auth i t)"

locale account_store = raw_db A cells
  for A :: "'b raw_api" and cells :: "'b \<Rightarrow> world" +
  fixes L :: "'h account_lib" and S :: "'b auth_service" and D :: "'b admin_service"
  assumes seals: "sealing_ok L (am_keys D)"
    and auth_side: "as_db S = A" "as_keys S = am_keys D"
    and admin_side: "am_db D = A"
begin

abbreviation accounts_in :: "world \<Rightarrow> accounts" where
  "accounts_in W \<equiv> accounts_of L (am_keys D) W"

abbreviation sound :: "world \<Rightarrow> bool" where
  "sound W \<equiv> accounts_inv L (am_keys D) W"

lemma codecs: "codec_ok (al_user_json L)" "codec_ok (al_auth_json L)"
  using seals by (simp_all add: sealing_ok_def)

lemma does_read_sealed:
  assumes "\<And>v. W c k = Some v \<Longrightarrow> opens L (am_keys D) json v \<noteq> None"
  shows "does cells
     (bindA (map_err f (ra_get A c k)) (\<lambda>inner. if \<not> gr_found inner then ret None
        else bindA (lift_res (unseal L (am_keys D) json m1 m2 (gr_value inner))) (\<lambda>x. ret (Some x))))
     W (Inr (Option.bind (W c k) (opens L (am_keys D) json))) W"
proof (rule does_bind [OF does_map_err_ok [OF get_law]], cases "W c k")
  case None
  then show "does cells (if \<not> gr_found (found_value (W c k)) then ret None
        else bindA (lift_res (unseal L (am_keys D) json m1 m2 (gr_value (found_value (W c k))))) (\<lambda>x. ret (Some x)))
     W (Inr (Option.bind (W c k) (opens L (am_keys D) json))) W"
    by (simp add: does_ret)
next
  case (Some v)
  with assms obtain x where "opens L (am_keys D) json v = Some x" by blast
  with Some show "does cells (if \<not> gr_found (found_value (W c k)) then ret None
        else bindA (lift_res (unseal L (am_keys D) json m1 m2 (gr_value (found_value (W c k))))) (\<lambda>x. ret (Some x)))
     W (Inr (Option.bind (W c k) (opens L (am_keys D) json))) W"
    by (simp add: does_ret unseal_opens [THEN iffD2])
qed

lemma does_login_record:
  assumes "sound W"
  shows "does cells (get_user_auth L S n) W (Inr (ac_logins (accounts_in W) n)) W"
proof -
  have "ac_logins (accounts_in W) n = Option.bind (W ''auth'' (auth_key n)) (opens L (am_keys D) (al_auth_json L))"
    by (simp add: accounts_of_def)
  then show ?thesis unfolding get_user_auth_def auth_side
    by (simp only:) (rule does_read_sealed, metis inv_login_opens [OF assms] option.distinct(1))
qed

lemma does_profile:
  assumes "sound W"
  shows "does cells (get_user_profile L S i) W (Inr (ac_profiles (accounts_in W) i)) W"
proof -
  have "ac_profiles (accounts_in W) i = Option.bind (W ''users'' (uuid_bytes i)) (opens L (am_keys D) (al_user_json L))"
    by (simp add: accounts_of_def)
  then show ?thesis unfolding get_user_profile_def auth_side
    by (simp only:) (rule does_read_sealed, metis inv_profile_opens [OF assms] option.distinct(1))
qed

lemma does_login:
  assumes "sound W"
  shows "does cells (au_authenticate L S mfa_env totp_clock now req) W
     (login_answer L (as_jwt_secret S) mfa_env totp_clock now req (accounts_in W)) W"
  unfolding au_authenticate_def
  by (rule does_bind [OF does_login_record [OF assms]])
    (auto simp: login_answer_def does_ret does_throw
      intro!: does_bind [OF does_profile [OF assms]] split: option.split sum.split)

lemma does_validate:
  assumes "sound W"
  shows "does cells (au_validate_session L S now_secs token) W
     (case al_jwt_decode L (as_jwt_secret S) now_secs token of
        None \<Rightarrow> Inr (invalid_session ''Invalid token'')
      | Some c \<Rightarrow> (case al_parse_uuid L (cm_sub c) of
          None \<Rightarrow> Inl (Internal ''Invalid user_id in token'')
        | Some i \<Rightarrow> (case ac_profiles (accounts_in W) i of
            None \<Rightarrow> Inr (invalid_session ''User not found'')
          | Some u \<Rightarrow> Inr \<lparr>vs_valid = True, vs_user = Some (user_info_of L u), vs_error = []\<rparr>))) W"
  unfolding au_validate_session_def
  by (auto simp: does_ret does_throw intro!: does_bind [OF does_profile [OF assms]] split: option.split)

lemma does_put_ok: "does cells (put_ok D c k v) W (Inr ()) (wput W c k v)"
  unfolding put_ok_def admin_side by (rule does_then [OF put_law does_ret])

lemma does_load:
  assumes "sound W"
  shows "does cells (load_user L D i) W
     (case al_parse_uuid L i of None \<Rightarrow> Inl (InvalidArgument ''invalid user id'')
      | Some u \<Rightarrow> (case ac_profiles (accounts_in W) u of
          None \<Rightarrow> Inl (NotFoundStatus ''User not found'') | Some p \<Rightarrow> Inr p)) W"
proof (cases "al_parse_uuid L i")
  case None
  then show ?thesis by (simp add: load_user_def user_key_def does_throw)
next
  case (Some u)
  have got: "does cells (ra_get A ''users'' (uuid_bytes u)) W (Inr (found_value (W ''users'' (uuid_bytes u)))) W"
    by (rule get_law)
  show ?thesis
  proof (cases "W ''users'' (uuid_bytes u)")
    case None
    then have "ac_profiles (accounts_in W) u = None" by (simp add: accounts_of_def)
    then show ?thesis using None Some
      by (simp add: load_user_def user_key_def admin_side) (rule does_bind [OF got], simp add: does_throw)
  next
    case val: (Some v)
    with inv_profile_opens [OF assms] obtain p where
      p: "opens L (am_keys D) (al_user_json L) v = Some p" "ac_profiles (accounts_in W) u = Some p" by blast
    then show ?thesis using val Some
      by (simp add: load_user_def user_key_def admin_side)
        (rule does_bind [OF got], simp add: decrypt_user_def unseal_opens [THEN iffD2, OF p(1)] does_lift)
  qed
qed

text \<open>A write either fails before it changes anything or leaves a record that opens.\<close>

lemma encrypted_user:
  assumes "length (snd rnd) = 12"
  shows "(\<exists>m. encrypt_user L D rnd u = Inl (Internal m)) \<and> \<not> writes_ok L (am_keys D)
     \<or> (\<exists>v. encrypt_user L D rnd u = Inr v \<and> opens L (am_keys D) (al_user_json L) v = Some u)"
proof (cases "seal_record L (am_keys D) (al_user_json L) rnd u")
  case (Inl e)
  then show ?thesis using seal_failure [OF codecs(1) Inl] by (auto simp: encrypt_user_def)
next
  case (Inr ed)
  then show ?thesis using sealed_opens [OF seals codecs(1) Inr assms] by (auto simp: encrypt_user_def)
qed

lemma does_store:
  assumes "length (snd rnd) = 12"
  shows "(\<exists>m. does cells (store_user L D rnd u) W (Inl (Internal m)) W) \<and> \<not> writes_ok L (am_keys D)
     \<or> (\<exists>v. opens L (am_keys D) (al_user_json L) v = Some u
        \<and> does cells (store_user L D rnd u) W (Inr ()) (wput W ''users'' (uuid_bytes (us_user_id u)) v))"
  using encrypted_user [OF assms, of u]
proof (elim disjE exE conjE)
  fix m assume "encrypt_user L D rnd u = Inl (Internal m)" "\<not> writes_ok L (am_keys D)"
  then show ?thesis by (intro disjI1 conjI exI [of _ m]) (simp_all add: store_user_def does_throw)
next
  fix v assume "encrypt_user L D rnd u = Inr v" "opens L (am_keys D) (al_user_json L) v = Some u"
  then show ?thesis by (intro disjI2 exI [of _ v]) (simp add: store_user_def does_put_ok)
qed

lemma prior_mfa_found:
  assumes "sound W"
  shows "\<exists>sec meth. prior_mfa L D (found_value (W ''auth'' (auth_key n))) = Inr (sec, meth)
     \<and> \<lparr>ua_user_id = i, ua_password_hash = t, ua_mfa_secret = sec, ua_mfa_method = meth\<rparr>
         = new_login (accounts_in W) n i t"
proof (cases "W ''auth'' (auth_key n)")
  case None
  then have "ac_logins (accounts_in W) n = None" by (simp add: accounts_of_def)
  with None show ?thesis by (simp add: prior_mfa_def new_login_def new_auth_def)
next
  case (Some v)
  with inv_login_opens [OF assms] obtain a where
    a: "opens L (am_keys D) (al_auth_json L) v = Some a" "ac_logins (accounts_in W) n = Some a" by blast
  with Some show ?thesis by (simp add: prior_mfa_def new_login_def unseal_opens [THEN iffD2, OF a(1)])
qed

lemma does_password:
  assumes "sound W" and "length (snd rnd) = 12"
  shows "(\<exists>m. does cells (update_password L D salt rnd n i pw) W (Inl (Internal m)) W) \<and> \<not> writes_ok L (am_keys D)
     \<or> (\<exists>t v. al_hash_password L (utf8_bytes pw) salt = Inr t
        \<and> opens L (am_keys D) (al_auth_json L) v = Some (new_login (accounts_in W) n i t)
        \<and> does cells (update_password L D salt rnd n i pw) W (Inr ()) (wput W ''auth'' (auth_key n) v))"
proof (cases "hash_new_password L salt pw")
  case (Inl e)
  then obtain m where "e = Internal m" using hash_failure(1) by blast
  with Inl show ?thesis
    by (intro disjI1 conjI hash_failure(2) [OF Inl] exI [of _ m])
      (simp only: update_password_def bindA_lift does_throw)
next
  case (Inr t)
  then have t: "al_hash_password L (utf8_bytes pw) salt = Inr t"
    by (auto simp: hash_new_password_def map_errR_def split: sum.splits)
  obtain sec meth where m: "prior_mfa L D (found_value (W ''auth'' (auth_key n))) = Inr (sec, meth)"
    "\<lparr>ua_user_id = i, ua_password_hash = t, ua_mfa_secret = sec, ua_mfa_method = meth\<rparr> = new_login (accounts_in W) n i t"
    using prior_mfa_found [OF assms(1)] by metis
  let ?seal = "seal_record L (am_keys D) (al_auth_json L) rnd (new_login (accounts_in W) n i t)"
  have got: "does cells (update_password L D salt rnd n i pw) W r W'"
    if "does cells (bindA (lift_res ?seal) (\<lambda>encrypted. bindA (lift_res (body_bytes L encrypted)) (put_ok D ''auth'' (auth_key n)))) W r W'"
    for r W'
    using that
    by (simp only: update_password_def Inr bindA_lift admin_side)
      (rule does_bind [OF get_law], simp add: m)
  show ?thesis
  proof (cases ?seal)
    case (Inl e)
    then obtain msg where "e = Internal msg" using seal_failure(1) [OF codecs(2)] by blast
    with Inl show ?thesis
      by (intro disjI1 conjI seal_failure(2) [OF codecs(2) Inl] exI [of _ msg] got) (simp add: does_throw)
  next
    case sealed: (Inr ed)
    obtain v where v: "body_bytes L ed = Inr v" "opens L (am_keys D) (al_auth_json L) v = Some (new_login (accounts_in W) n i t)"
      using sealed_opens [OF seals codecs(2) sealed assms(2)] by blast
    show ?thesis
      by (intro disjI2 exI [of _ t] exI [of _ v] conjI t v(2) got) (simp add: sealed v(1) does_put_ok)
  qed
qed

end

end
