(* ===== verification/Account_Run.thy ===== *)
theory Account_Run
  imports Account_Props
begin

text \<open>
  The administration handlers as operations on the accounts (\<open>account_store\<close>), the listing of
  the profiles, and the step relation of the two services with its invariants. A handler that
  answers an error has changed nothing, with one exception: an update that sets a password
  stores the login before the profile.
\<close>

subsection \<open>Operations\<close>

text \<open>What an update does to the logins.\<close>

definition password_change ::
  "'h account_lib \<Rightarrow> update_user_request \<Rightarrow> bytes \<Rightarrow> user \<Rightarrow> accounts \<Rightarrow> (string \<rightharpoonup> user_auth) \<Rightarrow> bool" where
  "password_change L req salt p s logins \<longleftrightarrow> (case eu_password req of
       None \<Rightarrow> logins = ac_logins s
     | Some pw \<Rightarrow> \<exists>t. al_hash_password L (utf8_bytes pw) salt = Inr t
         \<and> logins = (ac_logins s)(us_username p \<mapsto> new_login s (us_username p) (us_user_id p) t))"

lemma edited_keeps [simp]:
  "us_user_id (edited req now p) = us_user_id p" "us_username (edited req now p) = us_username p"
  "us_created_at (edited req now p) = us_created_at p" "us_mfa_enabled (edited req now p) = us_mfa_enabled p"
  "us_last_login (edited req now p) = us_last_login p"
  by (simp_all add: edited_def Let_def split: option.split)

lemma new_account_fields [simp]:
  "us_user_id (new_account req fresh t1 t2) = fresh" "us_username (new_account req fresh t1 t2) = nu_username req"
  "us_is_active (new_account req fresh t1 t2)" "us_role (new_account req fresh t1 t2) = map_role (nu_role req)"
  by (simp_all add: new_account_def)

lemma new_login_user [simp]: "ua_user_id (new_login s n i t) = i" "ua_password_hash (new_login s n i t) = t"
  by (simp_all add: new_login_def new_auth_def split: option.split)

context account_store
begin

lemma sound_profile_id: "sound W \<Longrightarrow> ac_profiles (accounts_in W) i = Some p \<Longrightarrow> us_user_id p = i"
  using inv_profile_opens [of L "am_keys D" W i] by (auto simp: accounts_of_def bind_eq_Some_conv)

lemma does_create:
  fixes req :: create_user_request and created updated :: datetime and fresh :: uuid and salt :: bytes
    and rnd_auth rnd_user :: "bytes \<times> bytes"
  assumes "sound W" and "ac_profiles (accounts_in W) fresh = None"
    and rnd: "length (snd rnd_auth) = 12" "length (snd rnd_user) = 12"
  defines "u \<equiv> new_account req fresh created updated"
  defines "run \<equiv> ad_create_user L D fresh salt rnd_auth rnd_user created updated req"
  shows "(\<exists>m. does cells run W (Inl (Internal m)) W) \<and> \<not> writes_ok L (am_keys D)
     \<or> (\<exists>t W1. al_hash_password L (utf8_bytes (nu_password req)) salt = Inr t \<and> sound W1
        \<and> accounts_in W1 = (accounts_in W)\<lparr>ac_profiles := (ac_profiles (accounts_in W))(fresh \<mapsto> u),
             ac_logins := (ac_logins (accounts_in W))(nu_username req \<mapsto> new_auth fresh t)\<rparr>
        \<and> does cells run W (Inr ((user_to_proto L u)\<lparr>um_role := nu_role req\<rparr>)) W1)"
proof (cases "hash_new_password L salt (nu_password req)")
  case (Inl e)
  then obtain m where "e = Internal m" using hash_failure(1) by blast
  with Inl show ?thesis unfolding run_def ad_create_user_def
    by (intro disjI1 conjI hash_failure(2) [OF Inl] exI [of _ m]) (simp add: does_throw)
next
  case (Inr t)
  then have t: "al_hash_password L (utf8_bytes (nu_password req)) salt = Inr t"
    by (auto simp: hash_new_password_def map_errR_def split: sum.splits)
  show ?thesis
  proof (cases "seal_record L (am_keys D) (al_auth_json L) rnd_auth (new_auth fresh t)")
    case (Inl e)
    then obtain m where "e = Internal m" using seal_failure(1) [OF codecs(2)] by blast
    with Inl Inr show ?thesis unfolding run_def ad_create_user_def
      by (intro disjI1 conjI seal_failure(2) [OF codecs(2) Inl] exI [of _ m]) (simp add: does_throw)
  next
    case sealed: (Inr ed)
    obtain va where va: "body_bytes L ed = Inr va" "opens L (am_keys D) (al_auth_json L) va = Some (new_auth fresh t)"
      using sealed_opens [OF seals codecs(2) sealed rnd(1)] by blast
    from encrypted_user [OF rnd(2), of u] consider
      m where "encrypt_user L D rnd_user u = Inl (Internal m)" "\<not> writes_ok L (am_keys D)"
    | vu where "encrypt_user L D rnd_user u = Inr vu" "opens L (am_keys D) (al_user_json L) vu = Some u"
      by blast
    then show ?thesis
    proof cases
      case (1 m)
      then show ?thesis unfolding run_def ad_create_user_def
        by (intro disjI1 conjI exI [of _ m]) (simp_all add: Inr sealed u_def [symmetric] does_throw)
    next
      case (2 vu)
      let ?W1 = "wput W ''users'' (uuid_bytes fresh) vu"
      let ?W2 = "wput ?W1 ''auth'' (auth_key (nu_username req)) va"
      have u: "us_user_id u = fresh" "us_username u = nu_username req" by (simp_all add: u_def)
      have s1: "sound ?W1" using inv_put_user [OF assms(1) 2(2) u(1)] assms(2) by simp
      have "sound ?W2"
        by (rule inv_put_auth [OF s1 va(2), of u]) (simp_all add: accounts_put_user [OF 2(2)] new_auth_def u)
      moreover have "accounts_in ?W2 = (accounts_in W)\<lparr>ac_profiles := (ac_profiles (accounts_in W))(fresh \<mapsto> u),
             ac_logins := (ac_logins (accounts_in W))(nu_username req \<mapsto> new_auth fresh t)\<rparr>"
        by (simp add: accounts_put_auth [OF va(2)] accounts_put_user [OF 2(2)])
      moreover have "does cells run W (Inr ((user_to_proto L u)\<lparr>um_role := nu_role req\<rparr>)) ?W2"
        unfolding run_def ad_create_user_def
        by (simp add: Inr sealed u_def [symmetric] 2(1) va(1))
          (rule does_then [OF does_put_ok does_then [OF does_put_ok]],
            simp add: user_to_proto_def u does_ret)
      ultimately show ?thesis using t by blast
    qed
  qed
qed

lemma does_store_profile:
  assumes "sound W" and "ac_profiles (accounts_in W) i = Some p" and "us_user_id q = i" "us_username q = us_username p"
    and "length (snd rnd) = 12"
  shows "(\<exists>m. does cells (store_user L D rnd q) W (Inl (Internal m)) W) \<and> \<not> writes_ok L (am_keys D)
     \<or> (\<exists>W1. does cells (store_user L D rnd q) W (Inr ()) W1 \<and> sound W1
        \<and> accounts_in W1 = (accounts_in W)\<lparr>ac_profiles := (ac_profiles (accounts_in W))(i \<mapsto> q)\<rparr>)"
proof -
  from does_store [OF assms(5), of q W] consider m where "does cells (store_user L D rnd q) W (Inl (Internal m)) W" "\<not> writes_ok L (am_keys D)"
    | v where "opens L (am_keys D) (al_user_json L) v = Some q"
      "does cells (store_user L D rnd q) W (Inr ()) (wput W ''users'' (uuid_bytes i) v)"
    using assms(3) by blast
  then show ?thesis
  proof cases
    case (2 v)
    moreover have "sound (wput W ''users'' (uuid_bytes i) v)"
      by (rule inv_put_user [OF assms(1) 2(1) assms(3)]) (use assms(2,4) in simp)
    ultimately show ?thesis using accounts_put_user [OF 2(1), of W i] by blast
  qed blast
qed

lemma does_delete_account:
  assumes "sound W" and "al_parse_uuid L k = Some i" and p: "ac_profiles (accounts_in W) i = Some p"
    and "length (snd rnd) = 12"
  shows "(\<exists>m. does cells (ad_delete_user L D now rnd k) W (Inl (Internal m)) W) \<and> \<not> writes_ok L (am_keys D)
     \<or> (\<exists>W1. does cells (ad_delete_user L D now rnd k) W (Inr True) W1 \<and> sound W1
        \<and> accounts_in W1 = (accounts_in W)\<lparr>ac_profiles := (ac_profiles (accounts_in W))
             (i \<mapsto> p\<lparr>us_is_active := False, us_updated_at := now\<rparr>)\<rparr>)"
proof -
  let ?q = "p\<lparr>us_is_active := False, us_updated_at := now\<rparr>"
  have load: "does cells (load_user L D k) W (Inr p) W" using does_load [OF assms(1), of k] assms(2,3) by simp
  from does_store_profile [OF assms(1) p, of ?q rnd] sound_profile_id [OF assms(1) p] assms(4)
  consider m where "does cells (store_user L D rnd ?q) W (Inl (Internal m)) W" "\<not> writes_ok L (am_keys D)"
    | W1 where "does cells (store_user L D rnd ?q) W (Inr ()) W1" "sound W1"
        "accounts_in W1 = (accounts_in W)\<lparr>ac_profiles := (ac_profiles (accounts_in W))(i \<mapsto> ?q)\<rparr>" by auto
  then show ?thesis
  proof cases
    case (1 m)
    then show ?thesis unfolding ad_delete_user_def Let_def thenA_def
      by (intro disjI1 conjI exI [of _ m] does_bind [OF load] does_bind_err)
  next
    case (2 W1)
    then show ?thesis unfolding ad_delete_user_def Let_def
      by (intro disjI2 exI [of _ W1] conjI does_bind [OF load] does_then [OF 2(1) does_ret])
  qed
qed

lemma does_login_step:
  fixes req :: update_user_request and salt :: bytes and rnd :: "bytes \<times> bytes" and i :: uuid and p :: user
  assumes "sound W" and p: "ac_profiles (accounts_in W) i = Some p" and "length (snd rnd) = 12"
  defines "run \<equiv> (case eu_password req of
       Some pw \<Rightarrow> update_password L D salt rnd (us_username p) i pw | None \<Rightarrow> ret ())"
  shows "(\<exists>m. does cells run W (Inl (Internal m)) W) \<and> \<not> writes_ok L (am_keys D)
     \<or> (\<exists>W1. does cells run W (Inr ()) W1 \<and> sound W1 \<and> ac_profiles (accounts_in W1) = ac_profiles (accounts_in W)
        \<and> password_change L req salt p (accounts_in W) (ac_logins (accounts_in W1)))"
proof (cases "eu_password req")
  case None
  then show ?thesis using assms(1) by (auto simp: run_def password_change_def intro!: does_ret)
next
  case (Some pw)
  note id = sound_profile_id [OF assms(1) p]
  from does_password [OF assms(1,3), of salt "us_username p" i pw] consider
    m where "does cells run W (Inl (Internal m)) W" "\<not> writes_ok L (am_keys D)"
  | t v where "al_hash_password L (utf8_bytes pw) salt = Inr t"
      "opens L (am_keys D) (al_auth_json L) v = Some (new_login (accounts_in W) (us_username p) i t)"
      "does cells run W (Inr ()) (wput W ''auth'' (auth_key (us_username p)) v)"
    by (auto simp: run_def Some)
  then show ?thesis
  proof cases
    case (2 t v)
    have "sound (wput W ''auth'' (auth_key (us_username p)) v)"
      by (rule inv_put_auth [OF assms(1) 2(2), of p]) (simp_all add: p)
    then show ?thesis using 2 Some id
      by (intro disjI2 exI [of _ "wput W ''auth'' (auth_key (us_username p)) v"])
        (simp add: accounts_put_auth [OF 2(2)] password_change_def)
  qed blast
qed

lemma does_update:
  assumes "sound W" and "al_parse_uuid L (eu_id req) = Some i" and p: "ac_profiles (accounts_in W) i = Some p"
    and rnd: "length (snd rnd_auth) = 12" "length (snd rnd_user) = 12"
  shows "\<exists>r W1. does cells (ad_update_user L D now salt rnd_auth rnd_user req) W r W1 \<and> sound W1
     \<and> (case r of
          Inr m \<Rightarrow> m = user_to_proto L (edited req now p)
            \<and> ac_profiles (accounts_in W1) = (ac_profiles (accounts_in W))(i \<mapsto> edited req now p)
            \<and> password_change L req salt p (accounts_in W) (ac_logins (accounts_in W1))
        | Inl e \<Rightarrow> (\<exists>m. e = Internal m) \<and> \<not> writes_ok L (am_keys D)
            \<and> ac_profiles (accounts_in W1) = ac_profiles (accounts_in W)
            \<and> (ac_logins (accounts_in W1) = ac_logins (accounts_in W)
               \<or> password_change L req salt p (accounts_in W) (ac_logins (accounts_in W1))))"
proof -
  have load: "does cells (load_user L D (eu_id req)) W (Inr p) W"
    using does_load [OF assms(1), of "eu_id req"] assms(2,3) by simp
  note id = sound_profile_id [OF assms(1) p]
  let ?q = "edited req now p"
  let ?pw = "case eu_password req of
       Some pw \<Rightarrow> update_password L D salt rnd_auth (us_username p) i pw | None \<Rightarrow> ret ()"
  have run: "does cells (ad_update_user L D now salt rnd_auth rnd_user req) W r W'"
    if "does cells (thenA ?pw (thenA (store_user L D rnd_user ?q) (ret (user_to_proto L ?q)))) W r W'" for r W'
    using that unfolding ad_update_user_def
    by (intro does_bind [OF load]) (simp add: id Let_def cong: option.case_cong)
  from does_login_step [OF assms(1) p rnd(1), where req = req and salt = salt] consider
    m where "does cells ?pw W (Inl (Internal m)) W" "\<not> writes_ok L (am_keys D)"
  | W1 where "does cells ?pw W (Inr ()) W1" "sound W1" "ac_profiles (accounts_in W1) = ac_profiles (accounts_in W)"
      "password_change L req salt p (accounts_in W) (ac_logins (accounts_in W1))" by blast
  then show ?thesis
  proof cases
    case (1 m)
    then have "does cells (ad_update_user L D now salt rnd_auth rnd_user req) W (Inl (Internal m)) W"
      by (intro run) (simp add: thenA_def does_bind_err)
    then show ?thesis using assms(1) 1(2) by (intro exI [of _ "Inl (Internal m)"] exI [of _ W]) simp
  next
    case (2 W1)
    have "ac_profiles (accounts_in W1) i = Some p" using p 2(3) by simp
    from does_store_profile [OF 2(2) this, of ?q rnd_user] id rnd(2)
    consider m where "does cells (store_user L D rnd_user ?q) W1 (Inl (Internal m)) W1" "\<not> writes_ok L (am_keys D)"
    | W2 where "does cells (store_user L D rnd_user ?q) W1 (Inr ()) W2" "sound W2"
        "accounts_in W2 = (accounts_in W1)\<lparr>ac_profiles := (ac_profiles (accounts_in W1))(i \<mapsto> ?q)\<rparr>" by auto
    then show ?thesis
    proof cases
      case (1 m)
      have "does cells (ad_update_user L D now salt rnd_auth rnd_user req) W (Inl (Internal m)) W1"
        by (rule run [OF does_then [OF 2(1)]]) (simp add: thenA_def does_bind_err [OF 1(1)])
      then show ?thesis using 2 1(2) by (intro exI [of _ "Inl (Internal m)"] exI [of _ W1]) simp
    next
      case (2 W2)
      have "does cells (ad_update_user L D now salt rnd_auth rnd_user req) W (Inr (user_to_proto L ?q)) W2"
        by (rule run [OF does_then [OF \<open>does cells ?pw W (Inr ()) W1\<close> does_then [OF 2(1) does_ret]]])
      then show ?thesis using 2 \<open>ac_profiles (accounts_in W1) = _\<close> \<open>password_change _ _ _ _ _ _\<close>
        by (intro exI [of _ "Inr (user_to_proto L ?q)"] exI [of _ W2]) simp
    qed
  qed
qed

lemma does_intrusion:
  "does cells (ad_record_intrusion L D ev) W (Inr True) (wput W ''audit'' (intrusion_key ev) (al_event_bytes L ev))"
  using put_law [of "''audit''" "intrusion_key ev" "al_event_bytes L ev" W]
  by (auto simp: does_def ad_record_intrusion_def admin_side split: prod.split sum.split)

end

text \<open>The rows of a sound world are the profiles, in the order of their ids.\<close>

lemma uuid_bytes_less: "uuid_bytes u < uuid_bytes v \<longleftrightarrow> u < v"
  using unsigned_less [of u, where ?'a = nat] unsigned_less [of v, where ?'a = nat]
  by (simp add: uuid_bytes_def be_nat_less word_less_nat_alt)

context account_store
begin

lemma listed_profiles:
  assumes "sound W" and "scan_of (W ''users'') xs"
  obtains ps where "readable_users L D xs = map (user_to_proto L) ps"
    and "sorted_wrt (<) (map us_user_id ps)" and "set ps = ran (ac_profiles (accounts_in W))"
proof -
  let ?open = "opens L (am_keys D) (al_user_json L)"
  let ?ps = "map (\<lambda>kv. the (?open (snd kv))) xs"
  have row: "W ''users'' k = Some v \<longleftrightarrow> (k, v) \<in> set xs" for k v
    using assms(2) map_of_eq_Some_iff [OF scan_of_distinct [OF assms(2)]] by (simp add: scan_of_def)
  have good: "?open (snd kv) = Some (the (?open (snd kv))) \<and> fst kv = uuid_bytes (us_user_id (the (?open (snd kv))))"
    if "kv \<in> set xs" for kv
  proof -
    have "W ''users'' (fst kv) = Some (snd kv)" using that row by simp
    then obtain i u where "fst kv = uuid_bytes i" "?open (snd kv) = Some u" "us_user_id u = i"
      using assms(1) unfolding accounts_inv_def by blast
    then show ?thesis by simp
  qed
  have "readable_users L D ys = map (\<lambda>kv. user_to_proto L (the (?open (snd kv)))) ys"
    if "set ys \<subseteq> set xs" for ys using that
  proof (induction ys)
    case (Cons kv ys)
    then have "decrypt_user L D (snd kv) = Inr (the (?open (snd kv)))"
      using good [of kv] by (simp add: decrypt_user_def unseal_opens)
    with Cons show ?case by (simp add: readable_users_def map_filter_simps)
  qed (simp add: readable_users_def map_filter_simps)
  then have "readable_users L D xs = map (user_to_proto L) ?ps" by simp
  moreover have "map fst xs = map uuid_bytes (map us_user_id ?ps)" using good by simp
  then have "sorted_wrt (<) (map uuid_bytes (map us_user_id ?ps))"
    using assms(2) by (simp only: scan_of_def)
  then have "sorted_wrt (<) (map us_user_id ?ps)" by (simp add: sorted_wrt_map uuid_bytes_less)
  moreover have "set ?ps = ran (ac_profiles (accounts_in W))"
  proof (intro set_eqI iffI)
    fix p assume "p \<in> set ?ps"
    then obtain kv where kv: "kv \<in> set xs" "p = the (?open (snd kv))" by auto
    have "W ''users'' (fst kv) = Some (snd kv)" using kv(1) row by simp
    with good [OF kv(1)] kv(2) have "W ''users'' (uuid_bytes (us_user_id p)) = Some (snd kv)" by simp
    with good [OF kv(1)] kv(2) show "p \<in> ran (ac_profiles (accounts_in W))"
      by (auto simp: ran_def accounts_of_def intro!: exI [of _ "us_user_id p"])
  next
    fix p assume "p \<in> ran (ac_profiles (accounts_in W))"
    then obtain i v where "W ''users'' (uuid_bytes i) = Some v" "?open v = Some p"
      by (auto simp: ran_def accounts_of_def bind_eq_Some_conv)
    then show "p \<in> set ?ps" using row by (force intro!: image_eqI [of _ _ "(uuid_bytes i, v)"])
  qed
  ultimately show ?thesis by (rule that)
qed

lemma does_list:
  assumes "sound W" and "scan_of (W ''users'') xs"
  shows "does cells (ad_list_users L D req) W
     (Inr \<lparr>pr_users = page_of req (sorted_users (readable_users L D xs)),
        pr_total_count = (if length (readable_users L D xs) < 2 ^ 32
          then of_nat (length (readable_users L D xs)) else - 1)\<rparr>) W"
proof -
  have "does cells (ra_list A ''users'' [] 0) W (Inr xs) W"
    using list_law [where W = W, OF assms(2), of "[]" 0] by simp
  then show ?thesis unfolding ad_list_users_def admin_side
    by (rule does_bind) (simp add: does_ret Let_def sorted_users_def)
qed

end

subsection \<open>Pages\<close>

lemma page_of_nat:
  assumes "0 < p" and "0 < unat s" and "p * unat s < 2 ^ 32"
  shows "page_of \<lparr>pg_page = of_nat p, pg_page_size = s\<rparr> xs = take (unat s) (drop ((p - 1) * unat s) xs)"
proof -
  have p: "p < 2 ^ 32" using assms by (metis One_nat_def Suc_leI le_less_trans mult.right_neutral mult_le_mono2)
  then have up: "unat (of_nat p :: u32) = p" by (simp add: unat_of_nat)
  have "1 \<le> (of_nat p :: u32)" using assms(1) p by (simp add: word_le_nat_alt up)
  then have mx: "max (of_nat p :: u32) 1 = of_nat p" by (simp add: max_def)
  have m1: "unat ((of_nat p :: u32) - 1) = p - 1"
    using \<open>1 \<le> (of_nat p :: u32)\<close> by (simp add: unat_sub up)
  have small: "(p - 1) * unat s < 2 ^ 32" using assms(3) by (meson diff_le_self le_less_trans mult_le_mono1)
  have "unat (sat_mul_u32 (of_nat p - 1) s) = (p - 1) * unat s"
    using small by (simp add: sat_mul_u32_def m1 unat_word_ariths)
  moreover have "s \<noteq> 0" using assms(2) by auto
  ultimately show ?thesis by (simp add: page_of_def mx Let_def)
qed

lemma pages_partition:
  assumes "0 < unat s" and "n * unat s < 2 ^ 32"
  shows "concat (map (\<lambda>p. page_of \<lparr>pg_page = of_nat p, pg_page_size = s\<rparr> xs) [1 ..< Suc n]) = take (n * unat s) xs"
  using assms(2)
proof (induction n)
  case (Suc n)
  then have "n * unat s < 2 ^ 32" by simp
  moreover have "take (Suc n * unat s) xs = take (n * unat s) xs @ take (unat s) (drop (n * unat s) xs)"
    by (metis add.commute mult_Suc take_add)
  ultimately show ?case using Suc page_of_nat [of "Suc n" s xs] assms(1) by simp
qed simp

end
