(* ===== verification/Account_Sample.thy ===== *)
theory Account_Sample
  imports Account_Run
begin

text \<open>
  The two account services deployed in front of the database service, the step relation of
  their requests, and a concrete deployment: a library in which passwords, codes and tokens are
  readable, over the in-memory store, for the witnesses.
\<close>

subsection \<open>The deployment\<close>

definition deployed_accounts ::
  "'h account_lib \<Rightarrow> ('d, 'z) dbstore_scheme \<Rightarrow> ('d, 'r) db_service \<Rightarrow> ('d \<times> 'r) auth_service
   \<Rightarrow> ('d \<times> 'r) admin_service \<Rightarrow> bool" where
  "deployed_accounts L E Q S D \<longleftrightarrow> db_env_ok E \<and> leader_applies E Q \<and> sealing_ok L (am_keys D)
     \<and> as_db S = raw_requests Q E \<and> as_keys S = am_keys D \<and> am_db D = raw_requests Q E"

abbreviation contents :: "('d, 'z) dbstore_scheme \<Rightarrow> 'd \<times> 'r \<Rightarrow> world" where
  "contents E b \<equiv> view E (fst b)"

lemma deployed_store:
  assumes "deployed_accounts L E Q S D"
  shows "account_store (raw_requests Q E) (contents E) L S D"
  using assms raw_over [of E Q] unfolding deployed_accounts_def
  by (simp add: account_store_def account_store_axioms_def)

text \<open>
  One request to either service. A new account's id is one no profile has, as a fresh random
  UUID is; every nonce has the 12 bytes of the cipher.
\<close>

inductive account_step ::
  "('b \<Rightarrow> world) \<Rightarrow> 'h account_lib \<Rightarrow> 'b auth_service \<Rightarrow> 'b admin_service \<Rightarrow> 'b \<Rightarrow> 'b \<Rightarrow> bool"
  for V L S D where
  create_step: "ac_profiles (accounts_of L (am_keys D) (V b)) fresh = None \<Longrightarrow> length (snd rnd_auth) = 12
     \<Longrightarrow> length (snd rnd_user) = 12
     \<Longrightarrow> account_step V L S D b (snd (ad_create_user L D fresh salt rnd_auth rnd_user created updated creq b))"
| update_step: "length (snd rnd_auth) = 12 \<Longrightarrow> length (snd rnd_user) = 12
     \<Longrightarrow> account_step V L S D b (snd (ad_update_user L D now salt rnd_auth rnd_user ureq b))"
| delete_step: "length (snd rnd) = 12 \<Longrightarrow> account_step V L S D b (snd (ad_delete_user L D now rnd i b))"
| get_step: "account_step V L S D b (snd (ad_get_user L D i b))"
| list_step: "account_step V L S D b (snd (ad_list_users L D lreq b))"
| report_step: "account_step V L S D b (snd (ad_record_intrusion L D ev b))"
| login_step: "account_step V L S D b (snd (au_authenticate L S mfa_env totp_clock now areq b))"
| validate_step: "account_step V L S D b (snd (au_validate_session L S now_secs token b))"

text \<open>What no request takes away: a profile keeps its id, its name and its creation time.\<close>

definition profiles_kept :: "accounts \<Rightarrow> accounts \<Rightarrow> bool" where
  "profiles_kept s s' \<longleftrightarrow> (\<forall>i p. ac_profiles s i = Some p \<longrightarrow>
     (\<exists>q. ac_profiles s' i = Some q \<and> us_username q = us_username p \<and> us_created_at q = us_created_at p))"

lemma profiles_kept_refl [simp]: "profiles_kept s s"
  by (simp add: profiles_kept_def)

lemma profiles_kept_trans: "profiles_kept s t \<Longrightarrow> profiles_kept t u \<Longrightarrow> profiles_kept s u"
  unfolding profiles_kept_def by metis

context account_store
begin

lemma reads_keep:
  assumes "sound W"
  shows "does cells (ad_get_user L D i) W (fst (ad_get_user L D i b)) W \<or> cells b \<noteq> W"
proof (cases "cells b = W")
  case True
  let ?r = "case al_parse_uuid L i of None \<Rightarrow> Inl (InvalidArgument ''invalid user id'')
      | Some u \<Rightarrow> (case ac_profiles (accounts_in W) u of
          None \<Rightarrow> Inl (NotFoundStatus ''User not found'') | Some p \<Rightarrow> Inr p)"
  have "does cells (ad_get_user L D i) W (mapR (user_to_proto L) ?r) W"
    unfolding ad_get_user_def using does_load [OF assms, of i]
    by (cases ?r) (auto intro: does_bind does_bind_err does_ret)
  then show ?thesis using True by (auto simp: does_def)
qed simp

text \<open>A change of a profile that is not there is refused.\<close>

lemma does_refuse:
  assumes "sound W" and "\<And>u. al_parse_uuid L i = Some u \<Longrightarrow> ac_profiles (accounts_in W) u = None"
  obtains e where "does cells (load_user L D i) W (Inl e) W"
  using does_load [OF assms(1), of i] assms(2) that by (cases "al_parse_uuid L i") auto

lemma step_sound:
  assumes "account_step cells L S D b b'" and "sound (cells b)"
  shows "sound (cells b') \<and> profiles_kept (accounts_in (cells b)) (accounts_in (cells b'))"
  using assms
proof (induction rule: account_step.induct)
  case (create_step b fresh rnd_auth rnd_user salt created updated creq)
  from does_create [OF create_step(4,1-3), where req = creq and salt = salt and created = created and updated = updated] create_step(1) show ?case
    by (elim disjE exE conjE) (auto dest!: doesD simp: profiles_kept_def create_step(4))
next
  case (update_step rnd_auth rnd_user b now salt ureq)
  show ?case
  proof (cases "\<exists>i p. al_parse_uuid L (eu_id ureq) = Some i \<and> ac_profiles (accounts_in (cells b)) i = Some p")
    case True
    then obtain i p where p: "al_parse_uuid L (eu_id ureq) = Some i" "ac_profiles (accounts_in (cells b)) i = Some p" by blast
    from does_update [OF update_step(3) p update_step(1,2), of now salt] obtain r W1 where
      run: "does cells (ad_update_user L D now salt rnd_auth rnd_user ureq) (cells b) r W1" "sound W1"
      and r: "case r of
          Inr m \<Rightarrow> m = user_to_proto L (edited ureq now p)
            \<and> ac_profiles (accounts_in W1) = (ac_profiles (accounts_in (cells b)))(i \<mapsto> edited ureq now p)
            \<and> password_change L ureq salt p (accounts_in (cells b)) (ac_logins (accounts_in W1))
        | Inl e \<Rightarrow> (\<exists>m. e = Internal m) \<and> \<not> writes_ok L (am_keys D) \<and> ac_profiles (accounts_in W1) = ac_profiles (accounts_in (cells b))
            \<and> (ac_logins (accounts_in W1) = ac_logins (accounts_in (cells b))
               \<or> password_change L ureq salt p (accounts_in (cells b)) (ac_logins (accounts_in W1)))" by blast
    have "ac_profiles (accounts_in W1) = ac_profiles (accounts_in (cells b))
        \<or> ac_profiles (accounts_in W1) = (ac_profiles (accounts_in (cells b)))(i \<mapsto> edited ureq now p)"
      using r by (cases r) simp_all
    then show ?thesis using doesD [OF run(1)] run(2) p(2) by (auto simp: profiles_kept_def)
  next
    case False
    then obtain e where "does cells (load_user L D (eu_id ureq)) (cells b) (Inl e) (cells b)"
      using does_refuse [OF update_step(3), of "eu_id ureq"] by fastforce
    then have "does cells (ad_update_user L D now salt rnd_auth rnd_user ureq) (cells b) (Inl e) (cells b)"
      unfolding ad_update_user_def by (rule does_bind_err)
    then show ?thesis using update_step(3) by (auto dest!: doesD)
  qed
next
  case (delete_step rnd b now i)
  show ?case
  proof (cases "\<exists>u p. al_parse_uuid L i = Some u \<and> ac_profiles (accounts_in (cells b)) u = Some p")
    case True
    then obtain u p where p: "al_parse_uuid L i = Some u" "ac_profiles (accounts_in (cells b)) u = Some p" by blast
    from does_delete_account [OF delete_step(2) p delete_step(1), of now] p(2) delete_step(2) show ?thesis
      by (elim disjE exE conjE) (auto dest!: doesD simp: profiles_kept_def)
  next
    case False
    then obtain e where "does cells (load_user L D i) (cells b) (Inl e) (cells b)"
      using does_refuse [OF delete_step(2), of i] by fastforce
    then have "does cells (ad_delete_user L D now rnd i) (cells b) (Inl e) (cells b)"
      unfolding ad_delete_user_def by (rule does_bind_err)
    then show ?thesis using delete_step(2) by (auto dest!: doesD)
  qed
next
  case (get_step b i)
  then show ?case using reads_keep [OF get_step, of i b] by (auto dest!: doesD)
next
  case (list_step b lreq)
  obtain xs where "scan_of (cells b ''users'') xs" using scanned by blast
  from does_list [OF list_step this, of lreq] list_step show ?case by (auto dest!: doesD)
next
  case (report_step b ev)
  let ?W = "wput (cells b) ''audit'' (intrusion_key ev) (al_event_bytes L ev)"
  have "accounts_in ?W = accounts_in (cells b)" "sound ?W"
    using report_step by (auto simp: accounts_of_def accounts_inv_def)
  then show ?case using does_intrusion [of ev "cells b"] by (auto dest!: doesD)
next
  case (login_step b mfa_env totp_clock now areq)
  then show ?case using does_login [OF login_step, of mfa_env totp_clock now areq] by (auto dest!: doesD)
next
  case (validate_step b now_secs token)
  then show ?case using does_validate [OF validate_step, of now_secs token] by (auto dest!: doesD)
qed

lemma reach_sound:
  assumes "(account_step cells L S D)\<^sup>*\<^sup>* b b'" and "sound (cells b)"
  shows "sound (cells b') \<and> profiles_kept (accounts_in (cells b)) (accounts_in (cells b'))"
  using assms by (induction rule: rtranclp_induct) (auto dest: step_sound profiles_kept_trans)

end

end
