(* ===== verification/Account_Spec.thy ===== *)
theory Account_Spec
  imports Account_Sample
begin

text \<open>
  What the users of the two account services see, over their deployment in front of the
  database service: who can log in and for how long a session lasts, what each change of an
  account does, and where the code falls short of it.
\<close>

subsection \<open>A deployment\<close>

fun method_u8 :: "auth_method \<Rightarrow> u8" where
  "method_u8 Password = 0"
| "method_u8 WebAuthn = 1"
| "method_u8 U2F = 2"
| "method_u8 TOTP = 3"
| "method_u8 ActiveDirectory = 4"

definition method_of :: "u8 \<Rightarrow> auth_method" where
  "method_of n = (if n = 0 then Password else if n = 1 then WebAuthn else if n = 2 then U2F
     else if n = 3 then TOTP else ActiveDirectory)"

lemma method_of_u8 [simp]: "method_of (method_u8 m) = m"
  by (cases m) (simp_all add: method_of_def)

definition role_of_u8 :: "u8 \<Rightarrow> role" where
  "role_of_u8 n = map_role (ucast n)"

lemma role_of_u8_u8 [simp]: "role_of_u8 (role_u8 r) = r"
  by (cases r) (simp_all add: role_of_u8_def map_role_def)

definition auth_pk :: "user_auth pickle" where
  "auth_pk = map_pk (\<lambda>a. (ua_user_id a, ua_password_hash a, ua_mfa_secret a, ua_mfa_method a))
     (\<lambda>(a, b, c, d). \<lparr>ua_user_id = a, ua_password_hash = b, ua_mfa_secret = c, ua_mfa_method = d\<rparr>)
     (pair_pk uuid_pk (pair_pk string_pk (pair_pk (option_pk string_pk) (option_pk (enum_pk method_u8 method_of)))))"

lemma auth_pk_ok [pickles]: "pickle_ok auth_pk"
  unfolding auth_pk_def by (rule map_pk_ok) (simp_all add: pickles enum_pk_ok)

definition user_pk :: "user pickle" where
  "user_pk = map_pk (\<lambda>u. (us_user_id u, us_username u, us_display_name u, us_email u, us_role u, us_is_active u,
       us_mfa_enabled u, us_last_login u, us_created_at u, us_updated_at u))
     (\<lambda>(a, b, c, d, e, f, g, h, i, j). \<lparr>us_user_id = a, us_username = b, us_display_name = c, us_email = d,
       us_role = e, us_is_active = f, us_mfa_enabled = g, us_last_login = h, us_created_at = i, us_updated_at = j\<rparr>)
     (pair_pk uuid_pk (pair_pk string_pk (pair_pk string_pk (pair_pk string_pk (pair_pk (enum_pk role_u8 role_of_u8)
       (pair_pk bool_pk (pair_pk bool_pk (pair_pk (option_pk datetime_pk) (pair_pk datetime_pk datetime_pk)))))))))"

lemma user_pk_ok [pickles]: "pickle_ok user_pk"
  unfolding user_pk_def by (rule map_pk_ok) (simp_all add: pickles enum_pk_ok)

definition claims_pk :: "claims pickle" where
  "claims_pk = map_pk (\<lambda>c. (cm_sub c, cm_exp c, cm_role c)) (\<lambda>(a, b, c). \<lparr>cm_sub = a, cm_exp = b, cm_role = c\<rparr>)
     (pair_pk string_pk (pair_pk u64_pk string_pk))"

lemma claims_pk_ok [pickles]: "pickle_ok claims_pk"
  unfolding claims_pk_def by (rule map_pk_ok) (simp_all add: pickles)

lemma utf8_of_utf8 [simp]: "utf8_bytes (of_utf8_bytes bs) = bs"
proof -
  have "of_nat (unat b mod 256) = b" for b :: u8
    using unsigned_less [of b, where ?'a = nat] by simp
  then show ?thesis by (induction bs) (simp_all add: utf8_bytes_def of_utf8_bytes_def)
qed

definition open_token :: "string \<Rightarrow> claims option" where
  "open_token t = (case cd_de (mk_codec claims_pk) (utf8_bytes t) of Inr c \<Rightarrow> Some c | Inl _ \<Rightarrow> None)"

definition sample_accounts :: "string account_lib" where
  "sample_accounts =
     \<lparr>al_parse_uuid = \<lambda>s. Some (of_nat (length s)), al_uuid_text = \<lambda>u. replicate (unat u) CHR ''x'',
      al_hash_password = \<lambda>p salt. Inr (CHR ''$'' # of_utf8_bytes p),
      al_parse_hash = \<lambda>t. if take 1 t = ''$'' then Inr (drop 1 t) else Inl ''not a hash'',
      al_verify_password = \<lambda>p h. of_utf8_bytes p = h,
      al_totp_secret = \<lambda>s. Inr (utf8_bytes s), al_totp_check = \<lambda>key t code. utf8_bytes code = key,
      al_jwt_encode = \<lambda>secret c. Inr (of_utf8_bytes (enc (mk_codec claims_pk) c)),
      al_jwt_decode = \<lambda>secret now t. (case open_token t of
          Some c \<Rightarrow> if now - 60 \<le> uint (cm_exp c) then Some c else None | None \<Rightarrow> None),
      al_add_hours = \<lambda>t n. Some (t\<lparr>dt_secs := dt_secs t + 3600 * n\<rparr>),
      al_to_timestamp = \<lambda>t. \<lparr>ts_seconds = of_int (dt_secs t), ts_nanos = of_nat (dt_nanos t)\<rparr>,
      al_user_json = mk_codec user_pk, al_auth_json = mk_codec auth_pk, al_body_json = mk_codec body_pk,
      al_event_bytes = \<lambda>ev. utf8_bytes (iv_request_method ev), al_crypto = toy_crypto,
      al_json_text = \<lambda>_. ''json'', al_crypto_text = \<lambda>_. ''crypto'', al_status_text = \<lambda>_. ''status''\<rparr>"

lemma sample_accounts_laws:
  "sealing_ok sample_accounts ([1], [2])" "uuid_text_ok sample_accounts" "password_ok sample_accounts"
  "token_ok sample_accounts" "hours_ok sample_accounts"
proof -
  show "sealing_ok sample_accounts ([1], [2])"
    by (simp add: sealing_ok_def sample_accounts_def mk_codec_ok pickles toy_crypto_ok)
  show "uuid_text_ok sample_accounts" "password_ok sample_accounts" "hours_ok sample_accounts"
    by (simp_all add: uuid_text_ok_def password_ok_def hours_ok_def sample_accounts_def)
  have "open_token (of_utf8_bytes (enc (mk_codec claims_pk) c)) = Some c" for c
    using codec_okD [OF mk_codec_ok [OF claims_pk_ok], of c] by (simp add: open_token_def)
  then show "token_ok sample_accounts" by (simp add: token_ok_def sample_accounts_def)
qed

definition sample_creq :: create_user_request where
  "sample_creq = \<lparr>nu_username = ''ann'', nu_password = ''pw'', nu_email = ''a@e'', nu_display_name = ''Ann'', nu_role = 3\<rparr>"

lemma sample_calls [simp]:
  "al_parse_uuid sample_accounts s = Some (of_nat (length s))"
  "al_hash_password sample_accounts p salt = Inr (CHR ''$'' # of_utf8_bytes p)"
  "al_parse_hash sample_accounts t = (if take 1 t = ''$'' then Inr (drop 1 t) else Inl ''not a hash'')"
  "al_verify_password sample_accounts p h \<longleftrightarrow> of_utf8_bytes p = h"
  "al_jwt_encode sample_accounts secret c = Inr (of_utf8_bytes (enc (mk_codec claims_pk) c))"
  "al_add_hours sample_accounts d n = Some (d\<lparr>dt_secs := dt_secs d + 3600 * n\<rparr>)"
  "al_event_bytes sample_accounts ev = utf8_bytes (iv_request_method ev)"
  by (simp_all add: sample_accounts_def)

lemma sample_creq_fields [simp]:
  "nu_username sample_creq = ''ann''" "nu_password sample_creq = ''pw''" "nu_role sample_creq = 3"
  by (simp_all add: sample_creq_def)

definition sample_server :: "(memdb, metrics) db_service" where
  "sample_server = one_node mem_db (\<lambda>_. ''storage'')"

definition sample_auth :: "(memdb \<times> metrics) auth_service" where
  "sample_auth = \<lparr>as_db = raw_requests sample_server mem_db, as_jwt_secret = [7], as_keys = ([1], [2])\<rparr>"

definition sample_admin :: "(memdb \<times> metrics) admin_service" where
  "sample_admin = \<lparr>am_db = raw_requests sample_server mem_db, am_keys = ([1], [2])\<rparr>"

lemma sample_accounts_deployed: "deployed_accounts sample_accounts mem_db sample_server sample_auth sample_admin"
  using sample_accounts_laws(1)
  by (simp add: deployed_accounts_def sample_auth_def sample_admin_def mem_db_ok sample_server_def one_node_applies)

interpretation sample_store: account_store "raw_requests sample_server mem_db" "contents mem_db" sample_accounts
    sample_auth sample_admin
  by (rule deployed_store [OF sample_accounts_deployed])

abbreviation sample_begin :: "memdb \<times> metrics" where
  "sample_begin \<equiv> (RBT.empty, sample_metrics)"

lemma sample_begin_empty [simp]: "contents mem_db sample_begin = (\<lambda>_. Map.empty)"
  by (simp add: fun_eq_iff)

lemma sample_writes_ok: "writes_ok sample_accounts ([1], [2])"
  by (auto simp: writes_ok_def sample_accounts_def encrypt_with_public_key_def
      encrypt_with_public_key_and_algorithm_def encrypt_symmetric_def toy_crypto_def)

abbreviation accounts_at ::
  "'h account_lib \<Rightarrow> ('d, 'z) dbstore_scheme \<Rightarrow> ('d \<times> 'r) admin_service \<Rightarrow> 'd \<times> 'r \<Rightarrow> accounts" where
  "accounts_at L E D b \<equiv> accounts_of L (am_keys D) (contents E b)"

abbreviation sound_at ::
  "'h account_lib \<Rightarrow> ('d, 'z) dbstore_scheme \<Rightarrow> ('d \<times> 'r) admin_service \<Rightarrow> 'd \<times> 'r \<Rightarrow> bool" where
  "sound_at L E D b \<equiv> accounts_inv L (am_keys D) (contents E b)"

abbreviation sample_ann :: user where
  "sample_ann \<equiv> new_account sample_creq 5 epoch epoch"

abbreviation sample_nonce :: "bytes \<times> bytes" where
  "sample_nonce \<equiv> ([3], replicate 12 5)"

text \<open>The store after the first account was created.\<close>

lemma sample_created:
  obtains b1 where "ad_create_user sample_accounts sample_admin 5 [1] sample_nonce sample_nonce epoch epoch sample_creq sample_begin
      = (Inr ((user_to_proto sample_accounts sample_ann)\<lparr>um_role := 3\<rparr>), b1)"
    and "sound_at sample_accounts mem_db sample_admin b1"
    and "accounts_at sample_accounts mem_db sample_admin b1
      = \<lparr>ac_profiles = [5 \<mapsto> sample_ann], ac_logins = [''ann'' \<mapsto> new_auth 5 ''$pw'']\<rparr>"
proof -
  have "\<not> (\<exists>m. does (contents mem_db) (ad_create_user sample_accounts sample_admin 5 [1] sample_nonce sample_nonce
      epoch epoch sample_creq) (\<lambda>_. Map.empty) (Inl (Internal m)) (\<lambda>_. Map.empty) \<and> \<not> writes_ok sample_accounts (am_keys sample_admin))"
    using sample_writes_ok by (simp add: sample_admin_def)
  with sample_store.does_create [where W = "\<lambda>_. Map.empty" and fresh = 5 and rnd_auth = sample_nonce and rnd_user = sample_nonce
      and req = sample_creq and salt = "[1]" and created = epoch and updated = epoch]
  obtain t W1 where "al_hash_password sample_accounts (utf8_bytes (nu_password sample_creq)) [1] = Inr t"
    "accounts_inv sample_accounts (am_keys sample_admin) W1"
    "accounts_of sample_accounts (am_keys sample_admin) W1 =
       \<lparr>ac_profiles = [5 \<mapsto> sample_ann], ac_logins = [nu_username sample_creq \<mapsto> new_auth 5 t]\<rparr>"
    "does (contents mem_db) (ad_create_user sample_accounts sample_admin 5 [1] sample_nonce sample_nonce epoch epoch sample_creq)
       (\<lambda>_. Map.empty) (Inr ((user_to_proto sample_accounts sample_ann)\<lparr>um_role := nu_role sample_creq\<rparr>)) W1"
    by auto
  then show ?thesis
    by (elim does_runE [where V = "contents mem_db" and d = sample_begin, unfolded sample_begin_empty])
      (rule that, auto)
qed

subsection \<open>Logging in\<close>

text \<open>The second factor of a login: none enrolled, switched off, or a code that checks.\<close>

definition mfa_passes :: "'h account_lib \<Rightarrow> string option \<Rightarrow> (string + u64) \<Rightarrow> user_auth \<Rightarrow> string \<Rightarrow> bool" where
  "mfa_passes L mfa_env totp_clock a code \<longleftrightarrow> (case ua_mfa_secret a of
       None \<Rightarrow> True
     | Some secret \<Rightarrow> mfa_env = Some ''1'' \<or> (trim code \<noteq> [] \<and> (\<exists>key t. al_totp_secret L secret = Inr key
         \<and> totp_clock = Inr t \<and> al_totp_check L key t (trim code))))"

lemma check_mfa_passes: "check_mfa L mfa_env totp_clock a code = Inr None \<longleftrightarrow> mfa_passes L mfa_env totp_clock a code"
  by (auto simp: check_mfa_def mfa_passes_def verify_totp_def mapR_def split: option.split sum.splits if_splits)

lemma login_answer_success:
  "login_answer L secret mfa_env totp_clock now req s = Inr r \<and> nr_success r \<longleftrightarrow>
     (\<exists>a h p e token. ac_logins s (nq_username req) = Some a \<and> al_parse_hash L (ua_password_hash a) = Inr h
        \<and> al_verify_password L (utf8_bytes (nq_password req)) h \<and> mfa_passes L mfa_env totp_clock a (nq_mfa_token req)
        \<and> ac_profiles s (ua_user_id a) = Some p \<and> al_add_hours L now 24 = Some e
        \<and> al_jwt_encode L secret (claims_of L p e) = Inr token
        \<and> r = \<lparr>nr_success = True, nr_session_token = token, nr_error = [], nr_user = Some (user_info_of L p)\<rparr>)"
  unfolding check_mfa_passes [symmetric]
  by (auto simp: login_answer_def rejected_def split: option.splits sum.splits if_splits)

text \<open>
C23: a login succeeds exactly when the name has a login record whose hash the password verifies
  against, its second factor passes (none enrolled, the audited switch \<open>MFA_DISABLED=1\<close>, or a
  non-blank code that checks at the clock's time) and a token can be issued. The answer then
  carries the token of the account's profile, which bears the name. Logging in changes nothing.
\<close>

theorem login_spec:
  assumes "deployed_accounts L E Q S D" and "sound_at L E D b"
  shows "\<exists>res b'. au_authenticate L S mfa_env totp_clock now req b = (res, b') \<and> contents E b' = contents E b
     \<and> (\<forall>token info. (\<exists>r. res = Inr r \<and> nr_success r \<and> nr_session_token r = token \<and> nr_user r = Some info) \<longleftrightarrow>
        (\<exists>a h p e. ac_logins (accounts_at L E D b) (nq_username req) = Some a
          \<and> al_parse_hash L (ua_password_hash a) = Inr h \<and> al_verify_password L (utf8_bytes (nq_password req)) h
          \<and> mfa_passes L mfa_env totp_clock a (nq_mfa_token req)
          \<and> ac_profiles (accounts_at L E D b) (ua_user_id a) = Some p \<and> us_username p = nq_username req
          \<and> al_add_hours L now 24 = Some e \<and> al_jwt_encode L (as_jwt_secret S) (claims_of L p e) = Inr token
          \<and> info = user_info_of L p))"
proof -
  let ?r = "login_answer L (as_jwt_secret S) mfa_env totp_clock now req (accounts_at L E D b)"
  obtain b' where b': "au_authenticate L S mfa_env totp_clock now req b = (?r, b')" "contents E b' = contents E b"
    by (rule does_runE [OF account_store.does_login [OF deployed_store [OF assms(1)] assms(2)]])
  have name: "us_username p = n" if "ac_logins (accounts_at L E D b) n = Some a"
    "ac_profiles (accounts_at L E D b) (ua_user_id a) = Some p" for n a p
    using inv_login_profile [OF assms(2) that(1)] that(2) by auto
  have split: "(\<exists>r. ?r = Inr r \<and> nr_success r \<and> P r) \<longleftrightarrow> (\<exists>r. (?r = Inr r \<and> nr_success r) \<and> P r)" for P by blast
  show ?thesis
    by (rule exI [of _ ?r], rule exI [of _ b'], intro conjI b' allI, unfold split login_answer_success)
      (auto dest: name)
qed

theorem login_spec_witness:
  "\<exists>b r b'. au_authenticate sample_accounts sample_auth None (Inr 0) epoch
     \<lparr>nq_username = ''ann'', nq_password = ''pw'', nq_mfa_token = []\<rparr> b = (Inr r, b') \<and> nr_success r"
proof -
  obtain b1 where b1: "sound_at sample_accounts mem_db sample_admin b1" "accounts_at sample_accounts mem_db sample_admin b1
      = \<lparr>ac_profiles = [5 \<mapsto> sample_ann], ac_logins = [''ann'' \<mapsto> new_auth 5 ''$pw'']\<rparr>"
    by (rule sample_created)
  let ?req = "\<lparr>nq_username = ''ann'', nq_password = ''pw'', nq_mfa_token = []\<rparr>"
  let ?e = "epoch\<lparr>dt_secs := dt_secs epoch + 3600 * 24\<rparr>"
  let ?token = "of_utf8_bytes (enc (mk_codec claims_pk) (claims_of sample_accounts sample_ann ?e))"
  from login_spec [OF sample_accounts_deployed b1(1), where mfa_env = None and totp_clock = "Inr 0" and now = epoch
      and req = ?req]
  show ?thesis
  proof (elim exE conjE, goal_cases)
    case (1 res b')
    have "\<exists>r. res = Inr r \<and> nr_success r \<and> nr_session_token r = ?token
        \<and> nr_user r = Some (user_info_of sample_accounts sample_ann)"
      unfolding 1(3) [rule_format] b1(2)
      by (intro exI [of _ "new_auth 5 ''$pw''"] exI [of _ "''pw''"] exI [of _ sample_ann] exI [of _ ?e] conjI)
        (simp_all add: new_auth_def mfa_passes_def)
    with 1(1) show ?case by blast
  qed
qed

subsection \<open>Accounts over time\<close>

text \<open>
C24: whatever requests the two services serve, starting from an empty database, every login
  record belongs to a stored profile of that name, no profile is ever removed, renamed or given
  another creation time, and so a login with the right password never fails for want of a
  profile.
\<close>

theorem reachable_accounts:
  assumes "deployed_accounts L E Q S D" and "(account_step (contents E) L S D)\<^sup>*\<^sup>* b b'"
    and "sound_at L E D b"
  shows "sound_at L E D b' \<and> profiles_kept (accounts_at L E D b) (accounts_at L E D b')
     \<and> (\<forall>n a. ac_logins (accounts_at L E D b') n = Some a \<longrightarrow>
          (\<exists>p. ac_profiles (accounts_at L E D b') (ua_user_id a) = Some p \<and> us_username p = n))
     \<and> fst (au_authenticate L S mfa_env totp_clock now req b') \<noteq> Inl (Internal ''User profile missing for valid auth'')"
proof -
  note store = deployed_store [OF assms(1)]
  have kept: "sound_at L E D b'" "profiles_kept (accounts_at L E D b) (accounts_at L E D b')"
    using account_store.reach_sound [OF store assms(2,3)] by auto
  note login = inv_login_profile [OF kept(1)]
  have "fst (au_authenticate L S mfa_env totp_clock now req b')
      = login_answer L (as_jwt_secret S) mfa_env totp_clock now req (accounts_at L E D b')"
    using doesD [OF account_store.does_login [OF store kept(1)]] by blast
  moreover have "\<dots> \<noteq> Inl (Internal ''User profile missing for valid auth'')"
    by (auto simp: login_answer_def check_mfa_def verify_totp_def mapR_def elim!: login
        split: option.splits sum.splits if_splits)
  ultimately show ?thesis using kept login by metis
qed

theorem reachable_accounts_witness:
  "\<exists>b p. (account_step (contents mem_db) sample_accounts sample_auth sample_admin)\<^sup>*\<^sup>* sample_begin b
     \<and> sound_at sample_accounts mem_db sample_admin b
     \<and> ac_profiles (accounts_at sample_accounts mem_db sample_admin b) 5 = Some p"
proof -
  obtain b1 where b1: "ad_create_user sample_accounts sample_admin 5 [1] sample_nonce sample_nonce epoch epoch sample_creq sample_begin
      = (Inr ((user_to_proto sample_accounts sample_ann)\<lparr>um_role := 3\<rparr>), b1)"
    "accounts_at sample_accounts mem_db sample_admin b1
      = \<lparr>ac_profiles = [5 \<mapsto> sample_ann], ac_logins = [''ann'' \<mapsto> new_auth 5 ''$pw'']\<rparr>"
    by (rule sample_created)
  have "account_step (contents mem_db) sample_accounts sample_auth sample_admin sample_begin
      (snd (ad_create_user sample_accounts sample_admin 5 [1] sample_nonce sample_nonce epoch epoch sample_creq sample_begin))"
    by (rule create_step) simp_all
  then have step: "(account_step (contents mem_db) sample_accounts sample_auth sample_admin)\<^sup>*\<^sup>* sample_begin b1"
    using b1(1) by simp
  have "sound_at sample_accounts mem_db sample_admin sample_begin" by simp
  from reachable_accounts [OF sample_accounts_deployed step this]
  have "sound_at sample_accounts mem_db sample_admin b1" by blast
  moreover have "ac_profiles (accounts_at sample_accounts mem_db sample_admin b1) 5 = Some sample_ann" by (simp add: b1(2))
  ultimately show ?thesis using step by blast
qed

lemma expiry_secs_small: "0 \<le> dt_secs e \<Longrightarrow> dt_secs e < 2 ^ 63 \<Longrightarrow> uint (expiry_secs e) = dt_secs e"
  by (simp add: expiry_secs_def unix_secs_def signed_of_int unsigned_of_int signed_take_bit_int_eq_self take_bit_int_eq_self)

lemma created_account:
  assumes "deployed_accounts L E Q S D" and "sound_at L E D b" and "writes_ok L (am_keys D)"
    and "ac_profiles (accounts_at L E D b) fresh = None" and "length (snd rnd_auth) = 12" "length (snd rnd_user) = 12"
  obtains t b1 where "al_hash_password L (utf8_bytes (nu_password creq)) salt = Inr t" and "sound_at L E D b1"
    and "ad_create_user L D fresh salt rnd_auth rnd_user created updated creq b
      = (Inr ((user_to_proto L (new_account creq fresh created updated))\<lparr>um_role := nu_role creq\<rparr>), b1)"
    and "accounts_at L E D b1 = (accounts_at L E D b)
      \<lparr>ac_profiles := (ac_profiles (accounts_at L E D b))(fresh \<mapsto> new_account creq fresh created updated),
       ac_logins := (ac_logins (accounts_at L E D b))(nu_username creq \<mapsto> new_auth fresh t)\<rparr>"
  using account_store.does_create [OF deployed_store [OF assms(1)] assms(2,4-6), where req = creq and salt = salt
      and created = created and updated = updated] assms(3) by (auto elim!: does_runE)

text \<open>
C25: an account the administrator creates can log in with its password at once, without a code,
  and is answered with its own profile and the role of the request. The token validates for that
  profile until 60 seconds after the 24 hours are over and not later; logging out in between
  changes neither.
\<close>

theorem create_then_login:
  assumes "deployed_accounts L E Q S D" and "sound_at L E D b"
    and laws: "writes_ok L (am_keys D)" "uuid_text_ok L" "password_ok L" "token_ok L" "hours_ok L"
    and fresh: "ac_profiles (accounts_at L E D b) fresh = None"
    and rnd: "length (snd rnd_auth) = 12" "length (snd rnd_user) = 12"
    and issues: "al_add_hours L now 24 = Some e" "al_jwt_encode L (as_jwt_secret S)
        (claims_of L (new_account creq fresh created updated) e) = Inr token"
    and clock: "0 \<le> dt_secs now" "dt_secs now < 2 ^ 62"
  shows "\<exists>m b1 b2 b3. ad_create_user L D fresh salt rnd_auth rnd_user created updated creq b = (Inr m, b1)
     \<and> au_authenticate L S mfa_env totp_clock now
         \<lparr>nq_username = nu_username creq, nq_password = nu_password creq, nq_mfa_token = code\<rparr> b1
         = (Inr \<lparr>nr_success = True, nr_session_token = token, nr_error = [],
              nr_user = Some (user_info_of L (new_account creq fresh created updated))\<rparr>, b2)
     \<and> au_logout token b2 = (Inr \<lparr>lo_success = True, lo_error = []\<rparr>, b3)
     \<and> (\<forall>at. 60 \<le> at \<longrightarrow> fst (au_validate_session L S at token b3) =
         Inr (if at \<le> dt_secs now + 24 * 3600 + 60
              then \<lparr>vs_valid = True, vs_user = Some (user_info_of L (new_account creq fresh created updated)), vs_error = []\<rparr>
              else invalid_session ''Invalid token''))"
proof -
  note store = deployed_store [OF assms(1)]
  let ?u = "new_account creq fresh created updated" and ?s = "as_jwt_secret S"
  obtain t b1 where t: "al_hash_password L (utf8_bytes (nu_password creq)) salt = Inr t" and s1: "sound_at L E D b1"
    and run: "ad_create_user L D fresh salt rnd_auth rnd_user created updated creq b
      = (Inr ((user_to_proto L ?u)\<lparr>um_role := nu_role creq\<rparr>), b1)"
    and acc: "accounts_at L E D b1 = (accounts_at L E D b)
      \<lparr>ac_profiles := (ac_profiles (accounts_at L E D b))(fresh \<mapsto> ?u),
       ac_logins := (ac_logins (accounts_at L E D b))(nu_username creq \<mapsto> new_auth fresh t)\<rparr>"
    by (rule created_account [OF assms(1,2) laws(1) fresh rnd])
  obtain h where h: "al_parse_hash L t = Inr h" "al_verify_password L (utf8_bytes (nu_password creq)) h"
    using laws(3) t unfolding password_ok_def by blast
  let ?req = "\<lparr>nq_username = nu_username creq, nq_password = nu_password creq, nq_mfa_token = code\<rparr>"
  let ?ans = "\<lparr>nr_success = True, nr_session_token = token, nr_error = [], nr_user = Some (user_info_of L ?u)\<rparr>"
  have "login_answer L ?s mfa_env totp_clock now ?req (accounts_at L E D b1) = Inr ?ans"
    by (simp add: login_answer_def acc new_auth_def h check_mfa_def issues)
  then obtain b2 where b2: "au_authenticate L S mfa_env totp_clock now ?req b1 = (Inr ?ans, b2)"
    "contents E b2 = contents E b1"
    using account_store.does_login [OF store s1, of mfa_env totp_clock now ?req] by (auto elim!: does_runE)
  have out: "au_logout token b2 = (Inr \<lparr>lo_success = True, lo_error = []\<rparr>, b2)" by (simp add: au_logout_def ret_def)
  have "dt_secs e = dt_secs now + 24 * 3600" using laws(5) issues(1) by (auto simp: hours_ok_def)
  moreover from this clock have "uint (expiry_secs e) = dt_secs e" by (intro expiry_secs_small) simp_all
  ultimately have dec: "al_jwt_decode L ?s at token =
      (if at \<le> dt_secs now + 24 * 3600 + 60 then Some (claims_of L ?u e) else None)" if "60 \<le> at" for at
    using laws(4) issues(2) that by (simp add: token_ok_def claims_of_def)
  have prof: "ac_profiles (accounts_at L E D b2) fresh = Some ?u" using acc b2(2) by simp
  have id: "al_parse_uuid L (al_uuid_text L fresh) = Some fresh" using laws(2) by (simp add: uuid_text_ok_def)
  have "sound_at L E D b2" using s1 b2(2) by simp
  from doesD [OF account_store.does_validate [OF store this]]
  have "fst (au_validate_session L S at token b2) =
      Inr (if at \<le> dt_secs now + 24 * 3600 + 60
           then \<lparr>vs_valid = True, vs_user = Some (user_info_of L ?u), vs_error = []\<rparr>
           else invalid_session ''Invalid token'')" if "60 \<le> at" for at
    using dec [OF that] prof id by (simp add: claims_of_def)
  with run b2(1) out show ?thesis by blast
qed

theorem create_then_login_witness:
  "\<exists>m b1 r b2. ad_create_user sample_accounts sample_admin 5 [1] sample_nonce sample_nonce epoch epoch sample_creq sample_begin = (Inr m, b1)
     \<and> au_authenticate sample_accounts sample_auth None (Inr 0) epoch
         \<lparr>nq_username = ''ann'', nq_password = ''pw'', nq_mfa_token = []\<rparr> b1 = (Inr r, b2) \<and> nr_success r
     \<and> fst (au_validate_session sample_accounts sample_auth 100000 (nr_session_token r) b2) = Inr (invalid_session ''Invalid token'')"
proof -
  have laws: "writes_ok sample_accounts (am_keys sample_admin)" using sample_writes_ok by (simp add: sample_admin_def)
  have rnd: "length (snd sample_nonce) = 12" by simp
  have clock: "0 \<le> dt_secs epoch" "dt_secs epoch < 2 ^ 62" by (simp_all add: epoch_def)
  let ?e = "epoch\<lparr>dt_secs := 86400\<rparr>"
  let ?token = "of_utf8_bytes (enc (mk_codec claims_pk) (claims_of sample_accounts sample_ann ?e))"
  have issues: "al_add_hours sample_accounts epoch 24 = Some ?e"
    "al_jwt_encode sample_accounts (as_jwt_secret sample_auth) (claims_of sample_accounts sample_ann ?e) = Inr ?token"
    by (simp_all add: epoch_def)
  have "sound_at sample_accounts mem_db sample_admin sample_begin"
    "ac_profiles (accounts_at sample_accounts mem_db sample_admin sample_begin) 5 = None" by simp_all
  from create_then_login [OF sample_accounts_deployed this(1) laws sample_accounts_laws(2-5) this(2) rnd rnd issues clock,
      where salt = "[1]" and mfa_env = None
        and totp_clock = "Inr 0" and code = "[]"]
  show ?thesis
  proof (elim exE conjE, goal_cases)
    case (1 m b1 b2 b3)
    then have "b3 = b2" by (simp add: au_logout_def ret_def)
    moreover have "dt_secs epoch = 0" by (simp add: epoch_def)
    ultimately have late: "fst (au_validate_session sample_accounts sample_auth 100000 ?token b2) = Inr (invalid_session ''Invalid token'')"
      using 1(4) [rule_format, of 100000] by simp
    show ?case
      by (intro exI conjI, rule 1(1), rule 1(2) [unfolded sample_creq_fields], simp, use late in simp)
  qed
qed

text \<open>
C27: deactivating an account does not lock it out. After the administrator deleted an account the
  profile is inactive and has no permission for any role, but a login that succeeded before
  succeeds again with the same token, and the tokens issued to it still validate until they
  expire: neither handler reads the flag.
\<close>

theorem inactive_account_keeps_access:
  assumes "deployed_accounts L E Q S D" and "sound_at L E D b" and laws: "writes_ok L (am_keys D)" "uuid_text_ok L"
    and login: "ac_logins (accounts_at L E D b) (nq_username req) = Some a" "al_parse_uuid L k = Some (ua_user_id a)"
    and before: "fst (au_authenticate L S mfa_env totp_clock now req b) = Inr r" "nr_success r"
    and "length (snd rnd) = 12"
  shows "\<exists>b1 p. ad_delete_user L D t rnd k b = (Inr True, b1)
     \<and> ac_profiles (accounts_at L E D b1) (ua_user_id a) = Some p \<and> (\<forall>role. \<not> has_permission p role)
     \<and> fst (au_authenticate L S mfa_env totp_clock now req b1) = Inr r
     \<and> (\<forall>at c. al_jwt_decode L (as_jwt_secret S) at (nr_session_token r) = Some c \<longrightarrow> cm_sub c = al_uuid_text L (ua_user_id a)
          \<longrightarrow> (\<exists>v. fst (au_validate_session L S at (nr_session_token r) b1) = Inr v \<and> vs_valid v))"
proof -
  note store = deployed_store [OF assms(1)]
  let ?s = "as_jwt_secret S"
  have "login_answer L ?s mfa_env totp_clock now req (accounts_at L E D b) = Inr r"
    using before(1) doesD [OF account_store.does_login [OF store assms(2), of mfa_env totp_clock now req]] by simp
  then obtain h p e token where ok: "al_parse_hash L (ua_password_hash a) = Inr h"
      "al_verify_password L (utf8_bytes (nq_password req)) h" "mfa_passes L mfa_env totp_clock a (nq_mfa_token req)"
      "ac_profiles (accounts_at L E D b) (ua_user_id a) = Some p" "al_add_hours L now 24 = Some e"
      "al_jwt_encode L ?s (claims_of L p e) = Inr token"
      "r = \<lparr>nr_success = True, nr_session_token = token, nr_error = [], nr_user = Some (user_info_of L p)\<rparr>"
    using login_answer_success [of L ?s mfa_env totp_clock now req "accounts_at L E D b" r] before(2) login(1) by auto
  let ?q = "p\<lparr>us_is_active := False, us_updated_at := t\<rparr>"
  obtain b1 where b1: "ad_delete_user L D t rnd k b = (Inr True, b1)" "sound_at L E D b1"
    "accounts_at L E D b1 = (accounts_at L E D b)
       \<lparr>ac_profiles := (ac_profiles (accounts_at L E D b))(ua_user_id a \<mapsto> ?q)\<rparr>"
    using account_store.does_delete_account [OF store assms(2) login(2) ok(4) assms(9), of t] laws(1) by (auto elim!: does_runE)
  have same: "claims_of L ?q e = claims_of L p e" "user_info_of L ?q = user_info_of L p"
    by (simp_all add: claims_of_def user_info_of_def)
  have "login_answer L ?s mfa_env totp_clock now req (accounts_at L E D b1) = Inr r"
    using login(1) ok by (simp add: login_answer_def b1(3) check_mfa_passes [THEN iffD2] same)
  then have again: "fst (au_authenticate L S mfa_env totp_clock now req b1) = Inr r"
    using doesD [OF account_store.does_login [OF store b1(2), of mfa_env totp_clock now req]] by simp
  have prof: "ac_profiles (accounts_at L E D b1) (ua_user_id a) = Some ?q" by (simp add: b1(3))
  have "\<exists>v. fst (au_validate_session L S at (nr_session_token r) b1) = Inr v \<and> vs_valid v"
    if "al_jwt_decode L ?s at (nr_session_token r) = Some c" "cm_sub c = al_uuid_text L (ua_user_id a)" for at c
    using doesD [OF account_store.does_validate [OF store b1(2), of at "nr_session_token r"]] that prof laws(2)
    by (simp add: uuid_text_ok_def)
  with b1(1) again prof show ?thesis by (auto simp: has_permission_def)
qed

theorem inactive_account_keeps_access_witness:
  "\<exists>b b1 p r. ad_delete_user sample_accounts sample_admin epoch sample_nonce ''xxxxx'' b = (Inr True, b1)
     \<and> ac_profiles (accounts_at sample_accounts mem_db sample_admin b1) 5 = Some p \<and> \<not> has_permission p ReadOnly
     \<and> fst (au_authenticate sample_accounts sample_auth None (Inr 0) epoch
         \<lparr>nq_username = ''ann'', nq_password = ''pw'', nq_mfa_token = []\<rparr> b1) = Inr r \<and> nr_success r"
proof -
  obtain b1 where b1: "sound_at sample_accounts mem_db sample_admin b1" "accounts_at sample_accounts mem_db sample_admin b1
      = \<lparr>ac_profiles = [5 \<mapsto> sample_ann], ac_logins = [''ann'' \<mapsto> new_auth 5 ''$pw'']\<rparr>"
    by (rule sample_created)
  let ?req = "\<lparr>nq_username = ''ann'', nq_password = ''pw'', nq_mfa_token = []\<rparr>"
  have laws: "writes_ok sample_accounts (am_keys sample_admin)" using sample_writes_ok by (simp add: sample_admin_def)
  have login: "ac_logins (accounts_at sample_accounts mem_db sample_admin b1) (nq_username ?req) = Some (new_auth 5 ''$pw'')"
    "al_parse_uuid sample_accounts ''xxxxx'' = Some (ua_user_id (new_auth 5 ''$pw''))"
    unfolding b1(2) by (simp_all add: new_auth_def)
  have "\<exists>r. fst (au_authenticate sample_accounts sample_auth None (Inr 0) epoch ?req b1) = Inr r \<and> nr_success r"
    unfolding doesD [OF sample_store.does_login [OF b1(1)], THEN conjunct1] b1(2)
    by (simp add: login_answer_def new_auth_def check_mfa_def)
  then obtain r where "fst (au_authenticate sample_accounts sample_auth None (Inr 0) epoch ?req b1) = Inr r" "nr_success r"
    by blast
  note run = inactive_account_keeps_access [OF sample_accounts_deployed b1(1) laws sample_accounts_laws(2) login this,
      of sample_nonce epoch]
  have "length (snd sample_nonce) = 12" by simp
  from run [OF this] \<open>nr_success r\<close> show ?thesis by (simp only: new_auth_def user_auth.simps) blast
qed

text \<open>
User names are not checked to be new. Creating an account under a name that is taken gives
  the name to the new account: its password and no second factor now decide the name's logins,
  while the first profile stays, bears the same name, and no login reaches it any more.
\<close>

theorem create_user_takes_name:
  assumes "deployed_accounts L E Q S D" and "sound_at L E D b" and "writes_ok L (am_keys D)"
    and taken: "ac_logins (accounts_at L E D b) (nu_username creq) = Some a"
    and fresh: "ac_profiles (accounts_at L E D b) fresh = None"
    and rnd: "length (snd rnd_auth) = 12" "length (snd rnd_user) = 12"
  shows "\<exists>m b1 p q a'. ad_create_user L D fresh salt rnd_auth rnd_user created updated creq b = (Inr m, b1)
     \<and> ac_profiles (accounts_at L E D b1) (ua_user_id a) = Some p \<and> us_username p = nu_username creq
     \<and> ac_profiles (accounts_at L E D b1) fresh = Some q \<and> us_username q = nu_username creq \<and> fresh \<noteq> ua_user_id a
     \<and> ac_logins (accounts_at L E D b1) (nu_username creq) = Some a' \<and> ua_user_id a' = fresh \<and> ua_mfa_secret a' = None
     \<and> (\<forall>n c. ac_logins (accounts_at L E D b1) n = Some c \<longrightarrow> ua_user_id c \<noteq> ua_user_id a)"
proof -
  obtain p where p: "ac_profiles (accounts_at L E D b) (ua_user_id a) = Some p" "us_username p = nu_username creq"
    by (rule inv_login_profile [OF assms(2) taken])
  obtain t b1 where b1: "sound_at L E D b1"
    "ad_create_user L D fresh salt rnd_auth rnd_user created updated creq b
      = (Inr ((user_to_proto L (new_account creq fresh created updated))\<lparr>um_role := nu_role creq\<rparr>), b1)"
    and acc: "accounts_at L E D b1 = (accounts_at L E D b)
      \<lparr>ac_profiles := (ac_profiles (accounts_at L E D b))(fresh \<mapsto> new_account creq fresh created updated),
       ac_logins := (ac_logins (accounts_at L E D b))(nu_username creq \<mapsto> new_auth fresh t)\<rparr>"
    by (rule created_account [OF assms(1-3) fresh rnd])
  have ne: "fresh \<noteq> ua_user_id a" using fresh p(1) by auto
  have "ua_user_id c \<noteq> ua_user_id a" if c: "ac_logins (accounts_at L E D b1) n = Some c" for n c
  proof
    assume eq: "ua_user_id c = ua_user_id a"
    obtain q where "ac_profiles (accounts_at L E D b1) (ua_user_id c) = Some q" "us_username q = n"
      by (rule inv_login_profile [OF b1(1) c])
    then have "n = nu_username creq" using eq p ne by (simp add: acc)
    then show False using c eq ne by (auto simp: acc new_auth_def)
  qed
  with b1(2) p ne show ?thesis by (simp add: acc new_auth_def)
qed

theorem create_user_takes_name_witness:
  "\<exists>b b1 m a. ad_create_user sample_accounts sample_admin 6 [1] sample_nonce sample_nonce epoch epoch sample_creq b = (Inr m, b1)
     \<and> ac_logins (accounts_at sample_accounts mem_db sample_admin b) ''ann'' = Some (new_auth 5 ''$pw'')
     \<and> ac_logins (accounts_at sample_accounts mem_db sample_admin b1) ''ann'' = Some a \<and> ua_user_id a = 6"
proof -
  obtain b1 where b1: "sound_at sample_accounts mem_db sample_admin b1" "accounts_at sample_accounts mem_db sample_admin b1
      = \<lparr>ac_profiles = [5 \<mapsto> sample_ann], ac_logins = [''ann'' \<mapsto> new_auth 5 ''$pw'']\<rparr>"
    by (rule sample_created)
  have laws: "writes_ok sample_accounts (am_keys sample_admin)" using sample_writes_ok by (simp add: sample_admin_def)
  have old: "ac_logins (accounts_at sample_accounts mem_db sample_admin b1) (nu_username sample_creq) = Some (new_auth 5 ''$pw'')"
    "ac_profiles (accounts_at sample_accounts mem_db sample_admin b1) 6 = None" unfolding b1(2) by simp_all
  have rnd: "length (snd sample_nonce) = 12" by simp
  from create_user_takes_name [OF sample_accounts_deployed b1(1) laws old rnd rnd, of "[1]" epoch epoch] old(1)
  show ?thesis unfolding sample_creq_fields by blast
qed

lemma password_change_effect:
  assumes "password_change L req salt p s logins" and "password_ok L"
  shows "case eu_password req of
      None \<Rightarrow> logins = ac_logins s
    | Some pw \<Rightarrow> (\<exists>a' h. logins = (ac_logins s)(us_username p \<mapsto> a') \<and> ua_user_id a' = us_user_id p
        \<and> al_parse_hash L (ua_password_hash a') = Inr h \<and> al_verify_password L (utf8_bytes pw) h
        \<and> (\<forall>a. ac_logins s (us_username p) = Some a \<longrightarrow>
             ua_mfa_secret a' = ua_mfa_secret a \<and> ua_mfa_method a' = ua_mfa_method a))"
proof (cases "eu_password req")
  case None
  then show ?thesis using assms(1) by (simp add: password_change_def)
next
  case (Some w)
  let ?a = "new_login s (us_username p) (us_user_id p)"
  from Some assms(1) obtain t where t: "al_hash_password L (utf8_bytes w) salt = Inr t"
    "logins = (ac_logins s)(us_username p \<mapsto> ?a t)" by (auto simp: password_change_def)
  then obtain h where "al_parse_hash L t = Inr h" "al_verify_password L (utf8_bytes w) h"
    using assms(2) unfolding password_ok_def by blast
  moreover have "\<forall>a. ac_logins s (us_username p) = Some a \<longrightarrow>
      ua_mfa_secret (?a t) = ua_mfa_secret a \<and> ua_mfa_method (?a t) = ua_mfa_method a"
    by (simp add: new_login_def)
  ultimately show ?thesis using t(2) Some by (simp only: option.case) (intro exI conjI, simp_all)
qed

lemma updated_account:
  assumes "deployed_accounts L E Q S D" and "sound_at L E D b" and laws: "writes_ok L (am_keys D)" "password_ok L"
    and i: "al_parse_uuid L (eu_id req) = Some i" and p: "ac_profiles (accounts_at L E D b) i = Some p"
    and rnd: "length (snd rnd_auth) = 12" "length (snd rnd_user) = 12"
  shows "\<exists>b1. ad_update_user L D now salt rnd_auth rnd_user req b = (Inr (user_to_proto L (edited req now p)), b1)
     \<and> sound_at L E D b1
     \<and> ac_profiles (accounts_at L E D b1) = (ac_profiles (accounts_at L E D b))(i \<mapsto> edited req now p)
     \<and> password_change L req salt p (accounts_at L E D b) (ac_logins (accounts_at L E D b1))"
proof -
  note store = deployed_store [OF assms(1)]
  let ?q = "edited req now p"
  obtain r W1 where run: "does (contents E) (ad_update_user L D now salt rnd_auth rnd_user req) (contents E b) r W1"
    and W1: "accounts_inv L (am_keys D) W1" and r: "case r of
          Inr m \<Rightarrow> m = user_to_proto L ?q
            \<and> ac_profiles (accounts_of L (am_keys D) W1) = (ac_profiles (accounts_at L E D b))(i \<mapsto> ?q)
            \<and> password_change L req salt p (accounts_at L E D b) (ac_logins (accounts_of L (am_keys D) W1))
        | Inl e \<Rightarrow> (\<exists>m. e = Internal m) \<and> \<not> writes_ok L (am_keys D)
            \<and> ac_profiles (accounts_of L (am_keys D) W1) = ac_profiles (accounts_at L E D b)
            \<and> (ac_logins (accounts_of L (am_keys D) W1) = ac_logins (accounts_at L E D b)
               \<or> password_change L req salt p (accounts_at L E D b) (ac_logins (accounts_of L (am_keys D) W1)))"
    using account_store.does_update [OF store assms(2) i p rnd, of now salt] by blast
  from r laws(1) have r: "r = Inr (user_to_proto L ?q)"
    and acc: "ac_profiles (accounts_of L (am_keys D) W1) = (ac_profiles (accounts_at L E D b))(i \<mapsto> ?q)"
    and pw: "password_change L req salt p (accounts_at L E D b) (ac_logins (accounts_of L (am_keys D) W1))"
    by (auto split: sum.splits)
  obtain b1 where b1: "ad_update_user L D now salt rnd_auth rnd_user req b = (r, b1)" "contents E b1 = W1"
    by (rule does_runE [OF run])
  then show ?thesis using W1 acc pw r by auto
qed

text \<open>
C26: an update of an existing account changes the fields that the request gives and the update
  time, and nothing else of the profile; the other profiles and logins stay. A new password
  verifies against the new hash, and the second factor that was enrolled stays enrolled.
\<close>

theorem update_user_spec:
  assumes "deployed_accounts L E Q S D" and "sound_at L E D b" and laws: "writes_ok L (am_keys D)" "password_ok L"
    and i: "al_parse_uuid L (eu_id req) = Some i" and p: "ac_profiles (accounts_at L E D b) i = Some p"
    and rnd: "length (snd rnd_auth) = 12" "length (snd rnd_user) = 12"
  shows "\<exists>b1 q. ad_update_user L D now salt rnd_auth rnd_user req b = (Inr (user_to_proto L q), b1) \<and> sound_at L E D b1
     \<and> ac_profiles (accounts_at L E D b1) = (ac_profiles (accounts_at L E D b))(i \<mapsto> q)
     \<and> q = p\<lparr>us_email := (case eu_email req of Some x \<Rightarrow> x | None \<Rightarrow> us_email p),
          us_display_name := (case eu_display_name req of Some x \<Rightarrow> x | None \<Rightarrow> us_display_name p),
          us_role := (case eu_role req of Some x \<Rightarrow> map_role x | None \<Rightarrow> us_role p),
          us_is_active := (case eu_active req of Some x \<Rightarrow> x | None \<Rightarrow> us_is_active p), us_updated_at := now\<rparr>
     \<and> (case eu_password req of
          None \<Rightarrow> ac_logins (accounts_at L E D b1) = ac_logins (accounts_at L E D b)
        | Some pw \<Rightarrow> (\<exists>a' h. ac_logins (accounts_at L E D b1) = (ac_logins (accounts_at L E D b))(us_username p \<mapsto> a')
            \<and> ua_user_id a' = i \<and> al_parse_hash L (ua_password_hash a') = Inr h \<and> al_verify_password L (utf8_bytes pw) h
            \<and> (\<forall>a. ac_logins (accounts_at L E D b) (us_username p) = Some a \<longrightarrow>
                 ua_mfa_secret a' = ua_mfa_secret a \<and> ua_mfa_method a' = ua_mfa_method a)))"
proof -
  note store = deployed_store [OF assms(1)]
  let ?q = "edited req now p"
  obtain b1 where b1: "ad_update_user L D now salt rnd_auth rnd_user req b = (Inr (user_to_proto L ?q), b1)" "sound_at L E D b1"
      "ac_profiles (accounts_at L E D b1) = (ac_profiles (accounts_at L E D b))(i \<mapsto> ?q)"
    and pw: "password_change L req salt p (accounts_at L E D b) (ac_logins (accounts_at L E D b1))"
    using updated_account [OF assms, of now salt] by blast
  have id: "us_user_id p = i" by (rule account_store.sound_profile_id [OF store assms(2) p])
  have q: "?q = p\<lparr>us_email := (case eu_email req of Some x \<Rightarrow> x | None \<Rightarrow> us_email p),
          us_display_name := (case eu_display_name req of Some x \<Rightarrow> x | None \<Rightarrow> us_display_name p),
          us_role := (case eu_role req of Some x \<Rightarrow> map_role x | None \<Rightarrow> us_role p),
          us_is_active := (case eu_active req of Some x \<Rightarrow> x | None \<Rightarrow> us_is_active p), us_updated_at := now\<rparr>"
    by (simp add: edited_def Let_def split: option.split)
  note effect = password_change_effect [OF pw laws(2), unfolded id]
  show ?thesis
    by (intro exI [of _ b1] exI [of _ ?q] conjI q effect) (use b1 in simp_all)
qed

theorem update_user_spec_witness:
  "\<exists>b b1 q. ad_update_user sample_accounts sample_admin epoch [1] sample_nonce sample_nonce
       \<lparr>eu_id = ''xxxxx'', eu_email = None, eu_display_name = None, eu_role = Some 1, eu_active = None,
        eu_password = Some ''new''\<rparr> b = (Inr (user_to_proto sample_accounts q), b1)
     \<and> us_role q = Manager \<and> us_username q = ''ann''"
proof -
  obtain b1 where b1: "sound_at sample_accounts mem_db sample_admin b1" "accounts_at sample_accounts mem_db sample_admin b1
      = \<lparr>ac_profiles = [5 \<mapsto> sample_ann], ac_logins = [''ann'' \<mapsto> new_auth 5 ''$pw'']\<rparr>"
    by (rule sample_created)
  let ?req = "\<lparr>eu_id = ''xxxxx'', eu_email = None, eu_display_name = None, eu_role = Some 1, eu_active = None,
        eu_password = Some ''new''\<rparr>"
  have laws: "writes_ok sample_accounts (am_keys sample_admin)" using sample_writes_ok by (simp add: sample_admin_def)
  have p: "al_parse_uuid sample_accounts (eu_id ?req) = Some 5"
    "ac_profiles (accounts_at sample_accounts mem_db sample_admin b1) 5 = Some sample_ann" unfolding b1(2) by simp_all
  have rnd: "length (snd sample_nonce) = 12" by simp
  from update_user_spec [OF sample_accounts_deployed b1(1) laws sample_accounts_laws(3) p rnd rnd, of epoch "[1]"]
  show ?thesis
  proof (elim exE conjE, goal_cases)
    case (1 b2 q)
    have "us_role q = Manager" "us_username q = ''ann''" unfolding 1(4) by (simp_all add: map_role_def)
    with 1(1) show ?case by blast
  qed
qed

subsection \<open>Listing and reports\<close>

text \<open>
The listing shows every account once, ordered by name and, among equal names, by id. The
  pages of any size cut that list into consecutive pieces: together they are the whole list,
  without gap or repetition. Page 0 is the first page and page size 0 means 50.
\<close>

theorem list_users_pages:
  assumes "deployed_accounts L E Q S D" and "sound_at L E D b"
  shows "\<exists>ps us. sorted_wrt (<) (map us_user_id ps) \<and> set ps = ran (ac_profiles (accounts_at L E D b))
     \<and> us = sort_key um_username (map (user_to_proto L) ps)
     \<and> (\<forall>req. \<exists>b'. contents E b' = contents E b \<and> ad_list_users L D req b =
          (Inr \<lparr>pr_users = page_of req us, pr_total_count = (if length us < 2 ^ 32 then of_nat (length us) else - 1)\<rparr>, b'))
     \<and> (\<forall>s n. 0 < unat s \<longrightarrow> length us \<le> n * unat s \<longrightarrow> n * unat s < 2 ^ 32 \<longrightarrow>
          concat (map (\<lambda>p. page_of \<lparr>pg_page = of_nat p, pg_page_size = s\<rparr> us) [1 ..< Suc n]) = us)
     \<and> (\<forall>p s. page_of \<lparr>pg_page = 0, pg_page_size = s\<rparr> us = page_of \<lparr>pg_page = 1, pg_page_size = s\<rparr> us
          \<and> page_of \<lparr>pg_page = p, pg_page_size = 0\<rparr> us = page_of \<lparr>pg_page = p, pg_page_size = 50\<rparr> us)"
proof -
  note store = deployed_store [OF assms(1)]
  obtain xs where xs: "scan_of (contents E b ''users'') xs"
    using raw_db.scanned [OF account_store.axioms(1) [OF store]] by blast
  obtain ps where ps: "readable_users L D xs = map (user_to_proto L) ps"
    "sorted_wrt (<) (map us_user_id ps)" "set ps = ran (ac_profiles (accounts_at L E D b))"
    by (rule account_store.listed_profiles [OF store assms(2) xs])
  let ?us = "sort_key um_username (map (user_to_proto L) ps)"
  have "\<exists>b'. contents E b' = contents E b \<and> ad_list_users L D req b =
      (Inr \<lparr>pr_users = page_of req ?us, pr_total_count = (if length ?us < 2 ^ 32 then of_nat (length ?us) else - 1)\<rparr>, b')" for req
    using account_store.does_list [OF store assms(2) xs, of req] by (auto simp: ps(1) sorted_users_def elim!: does_runE)
  moreover have "concat (map (\<lambda>p. page_of \<lparr>pg_page = of_nat p, pg_page_size = s\<rparr> ?us) [1 ..< Suc n]) = ?us"
    if "0 < unat s" "length ?us \<le> n * unat s" "n * unat s < 2 ^ 32" for s n
    using pages_partition [OF that(1,3), of ?us] that(2) by simp
  moreover have "page_of \<lparr>pg_page = 0, pg_page_size = s\<rparr> ?us = page_of \<lparr>pg_page = 1, pg_page_size = s\<rparr> ?us
      \<and> page_of \<lparr>pg_page = p, pg_page_size = 0\<rparr> ?us = page_of \<lparr>pg_page = p, pg_page_size = 50\<rparr> ?us" for p s
    by (simp add: page_of_def Let_def max_def)
  ultimately show ?thesis using ps(2,3) by (intro exI [of _ ps] exI [of _ ?us] conjI allI impI) blast+
qed

theorem list_users_pages_witness:
  "\<exists>b b' r. ad_list_users sample_accounts sample_admin \<lparr>pg_page = 1, pg_page_size = 10\<rparr> b = (Inr r, b')
     \<and> pr_total_count r = 1 \<and> map um_username (pr_users r) = [''ann'']"
proof -
  obtain b1 where b1: "sound_at sample_accounts mem_db sample_admin b1" "accounts_at sample_accounts mem_db sample_admin b1
      = \<lparr>ac_profiles = [5 \<mapsto> sample_ann], ac_logins = [''ann'' \<mapsto> new_auth 5 ''$pw'']\<rparr>"
    by (rule sample_created)
  from list_users_pages [OF sample_accounts_deployed b1(1)] show ?thesis
  proof (elim exE conjE, goal_cases)
    case (1 ps us)
    have "distinct ps" using 1(1) by (simp add: distinct_map strict_sorted_iff)
    moreover have set_ps: "set ps = {sample_ann}" using 1(2) unfolding b1(2) by simp
    ultimately have "length ps = 1" by (metis distinct_card is_singletonI is_singleton_altdef)
    then obtain p where "ps = [p]" by (auto simp: length_Suc_conv)
    with set_ps have "ps = [sample_ann]" by simp
    then have us: "us = [user_to_proto sample_accounts sample_ann]" using 1(3) by simp
    obtain b' where run: "ad_list_users sample_accounts sample_admin \<lparr>pg_page = 1, pg_page_size = 10\<rparr> b1 =
        (Inr \<lparr>pr_users = page_of \<lparr>pg_page = 1, pg_page_size = 10\<rparr> us,
          pr_total_count = (if length us < 2 ^ 32 then of_nat (length us) else - 1)\<rparr>, b')" using 1(4) by blast
    have page: "page_of \<lparr>pg_page = 1, pg_page_size = 10\<rparr> us = us"
      by (simp add: us page_of_def sat_mul_u32_def)
    show ?case by (intro exI conjI, rule run) (use page in \<open>simp_all add: us user_to_proto_def\<close>)
  qed
qed

text \<open>
The intrusion log is not append-only. A report is answered as recorded, but its key is the
  second, the source address and the endpoint, so a later report that agrees in these replaces
  the earlier one; since an address may contain the separator, reports that differ in both
  address and endpoint can share a key too.
\<close>

theorem intrusion_reports_collide:
  assumes "deployed_accounts L E Q S D"
    and "iv_timestamp_unix ev' = iv_timestamp_unix ev"
    and "iv_source_ip ev' @ '':'' @ iv_endpoint_accessed ev' = iv_source_ip ev @ '':'' @ iv_endpoint_accessed ev"
  shows "\<exists>b1 b2. ad_record_intrusion L D ev b = (Inr True, b1) \<and> ad_record_intrusion L D ev' b1 = (Inr True, b2)
     \<and> contents E b2 ''audit'' = (contents E b ''audit'')(intrusion_key ev \<mapsto> al_event_bytes L ev')
     \<and> (\<forall>c. c \<noteq> ''audit'' \<longrightarrow> contents E b2 c = contents E b c)"
proof -
  note store = deployed_store [OF assms(1)]
  have key: "intrusion_key ev' = intrusion_key ev" using assms(2,3) by (simp add: intrusion_key_def)
  obtain b1 where b1: "ad_record_intrusion L D ev b = (Inr True, b1)"
    "contents E b1 = wput (contents E b) ''audit'' (intrusion_key ev) (al_event_bytes L ev)"
    by (rule does_runE [OF account_store.does_intrusion [OF store]])
  obtain b2 where "ad_record_intrusion L D ev' b1 = (Inr True, b2)"
    "contents E b2 = wput (contents E b1) ''audit'' (intrusion_key ev') (al_event_bytes L ev')"
    by (rule does_runE [OF account_store.does_intrusion [OF store]])
  with b1 show ?thesis by (intro exI [of _ b1] exI [of _ b2]) (simp add: key)
qed

theorem intrusion_reports_collide_witness:
  "let ev = (\<lambda>ip ep. \<lparr>iv_timestamp_unix = 7, iv_source_ip = ip, iv_endpoint_accessed = ep, iv_request_method = ep,
         iv_user_agent = None, iv_request_body = None, iv_tls_fingerprint = None\<rparr>)
   in \<exists>b1 b2. ad_record_intrusion sample_accounts sample_admin (ev ''::1'' ''x'') sample_begin = (Inr True, b1)
     \<and> ad_record_intrusion sample_accounts sample_admin (ev '':'' ''1:x'') b1 = (Inr True, b2)
     \<and> dom (contents mem_db b2 ''audit'') = {intrusion_key (ev ''::1'' ''x'')}"
proof -
  let ?ev = "\<lambda>ip ep. \<lparr>iv_timestamp_unix = 7, iv_source_ip = ip, iv_endpoint_accessed = ep, iv_request_method = ep,
         iv_user_agent = None, iv_request_body = None, iv_tls_fingerprint = None\<rparr>"
  from intrusion_reports_collide [OF sample_accounts_deployed, of "?ev '':'' ''1:x''" "?ev ''::1'' ''x''" sample_begin]
  show ?thesis unfolding Let_def sample_begin_empty by (simp, elim exE conjE) (intro exI conjI, assumption+, simp)
qed

subsection \<open>Trimming\<close>

lemma strip_left_spec:
  "\<exists>ps. set ps \<subseteq> set ws \<and> s = concat ps @ strip_left ws s
     \<and> (\<forall>w \<in> set ws. w \<noteq> [] \<longrightarrow> take (length w) (strip_left ws s) \<noteq> w)"
proof (induction ws s rule: strip_left.induct)
  case (1 ws s)
  show ?case
  proof (cases "List.find (\<lambda>w. w \<noteq> [] \<and> take (length w) s = w) ws")
    case None
    then have "strip_left ws s = s" by (simp add: strip_left.simps [of ws s])
    with None show ?thesis by (intro exI [of _ "[]"]) (auto simp: find_None_iff)
  next
    case (Some w)
    then have w: "w \<in> set ws" "take (length w) s = w" by (auto simp: find_Some_iff)
    from "1.IH" [OF Some] obtain ps where "set ps \<subseteq> set ws" "drop (length w) s = concat ps @ strip_left ws (drop (length w) s)"
      "\<forall>v \<in> set ws. v \<noteq> [] \<longrightarrow> take (length v) (strip_left ws (drop (length w) s)) \<noteq> v" by blast
    moreover have "s = w @ drop (length w) s" using w(2) by (metis append_take_drop_id)
    moreover have "strip_left ws s = strip_left ws (drop (length w) s)" using Some by (simp add: strip_left.simps [of ws s])
    ultimately show ?thesis using w(1) by (intro exI [of _ "w # ps"]) auto
  qed
qed

text \<open>
Trimming a code takes white space off both ends and nothing else: the input is the trimmed
  text between two runs of white-space characters, and the trimmed text neither begins nor ends
  with one.
\<close>

theorem trim_spec:
  "\<exists>ps qs. set ps \<subseteq> set white_space \<and> set qs \<subseteq> set white_space \<and> s = concat ps @ trim s @ concat qs
     \<and> (\<forall>w x. w \<in> set white_space \<longrightarrow> trim s \<noteq> x @ w \<and> trim s \<noteq> w @ x)"
proof -
  let ?l = "strip_left white_space s"
  have ne: "[] \<notin> set white_space" by (auto simp: white_space_def)
  obtain ps where ps: "set ps \<subseteq> set white_space" "s = concat ps @ ?l"
    "\<forall>w \<in> set white_space. w \<noteq> [] \<longrightarrow> take (length w) ?l \<noteq> w" using strip_left_spec by blast
  obtain rs where rs: "set rs \<subseteq> set (map rev white_space)" "rev ?l = concat rs @ rev (trim s)"
    "\<forall>w \<in> set (map rev white_space). w \<noteq> [] \<longrightarrow> take (length w) (rev (trim s)) \<noteq> w"
    using strip_left_spec [of "map rev white_space" "rev ?l"] by (auto simp: trim_def)
  have "?l = trim s @ concat (rev (map rev rs))"
    using arg_cong [OF rs(2), of rev] by (simp add: rev_concat rev_map)
  moreover have "set (rev (map rev rs)) \<subseteq> set white_space" using rs(1) by fastforce
  moreover have "trim s \<noteq> x @ w" if "w \<in> set white_space" for w x
  proof
    assume eq: "trim s = x @ w"
    have "rev w \<in> set (map rev white_space)" "rev w \<noteq> []" using that ne by auto
    with rs(3) have "take (length (rev w)) (rev (trim s)) \<noteq> rev w" by blast
    then show False by (simp add: eq)
  qed
  moreover have "trim s \<noteq> w @ x" if "w \<in> set white_space" for w x
    using ps(3) that ne calculation(1) by fastforce
  ultimately show ?thesis using ps(1,2) by (intro exI [of _ ps] exI [of _ "rev (map rev rs)"]) auto
qed

theorem trim_spec_witness:
  "trim ('' 12'' @ [CHR 0x0A]) = ''12'' \<and> (\<forall>x. trim '' 12'' \<noteq> '' '' @ x)"
proof
  show "trim ('' 12'' @ [CHR 0x0A]) = ''12''" by code_simp
  have "'' '' \<in> set white_space" by (simp add: white_space_def)
  with trim_spec [of "'' 12''"] show "\<forall>x. trim '' 12'' \<noteq> '' '' @ x" by blast
qed

end
