(* ===== verification/Gateway_System.thy ===== *)
theory Gateway_System
  imports Gateway_Routes Custodian_Spec Account_Spec
begin

text \<open>
  The whole system behind the gateway: the authentication, administration and custodian services
  over one database. Each service keeps its records in trees of its own, so the invariants of
  one survive the requests to the others; \<open>gateway_step\<close> is one HTTP request to the system.
\<close>

subsection \<open>Handlers that write to some trees only\<close>

named_theorems confined_intro \<open>operations that write to a given set of trees only\<close>

definition confined :: "('s \<Rightarrow> world) \<Rightarrow> string set \<Rightarrow> ('s, 'e, 'a) eff \<Rightarrow> bool" where
  "confined V X m \<longleftrightarrow> (\<forall>s t. t \<notin> X \<longrightarrow> V (snd (m s)) t = V s t)"

lemma confined_pure [confined_intro]:
  "confined V X (ret x)" "confined V X (throw e)" "confined V X (lift_res r)"
  by (simp_all add: confined_def act_defs)

lemma confined_bind [confined_intro]:
  "confined V X m \<Longrightarrow> (\<And>x. confined V X (f x)) \<Longrightarrow> confined V X (bindA m f)"
proof (unfold confined_def, intro allI impI)
  fix s t
  assume m: "\<forall>s t. t \<notin> X \<longrightarrow> V (snd (m s)) t = V s t" and t: "t \<notin> X"
    and f: "\<And>x. \<forall>s t. t \<notin> X \<longrightarrow> V (snd (f x s)) t = V s t"
  obtain r s' where run: "m s = (r, s')" by (cases "m s")
  have "V s' t = V s t" using m [rule_format, OF t, of s] by (simp add: run)
  then show "V (snd (bindA m f s)) t = V s t"
    using f t by (cases r) (simp_all add: bindA_def run)
qed

lemma confined_then [confined_intro]: "confined V X m \<Longrightarrow> confined V X k \<Longrightarrow> confined V X (thenA m k)"
  unfolding thenA_def by (rule confined_bind)

lemma confined_map_err [confined_intro]: "confined V X m \<Longrightarrow> confined V X (map_err f m)"
  by (simp add: confined_def map_err_def case_prod_beta split: sum.split)

lemma confined_case [confined_intro]:
  "(a = None \<Longrightarrow> confined V X m) \<Longrightarrow> (\<And>x. a = Some x \<Longrightarrow> confined V X (f x))
     \<Longrightarrow> confined V X (case a of None \<Rightarrow> m | Some x \<Rightarrow> f x)"
  "(\<And>e. s = Inl e \<Longrightarrow> confined V X (g e)) \<Longrightarrow> (\<And>x. s = Inr x \<Longrightarrow> confined V X (h x))
     \<Longrightarrow> confined V X (case s of Inl e \<Rightarrow> g e | Inr x \<Rightarrow> h x)"
  "(\<And>x y. p = (x, y) \<Longrightarrow> confined V X (k x y)) \<Longrightarrow> confined V X (case p of (x, y) \<Rightarrow> k x y)"
  "(b \<Longrightarrow> confined V X m) \<Longrightarrow> (\<not> b \<Longrightarrow> confined V X m') \<Longrightarrow> confined V X (if b then m else m')"
  by (auto split: option.split sum.split prod.split)

definition account_trees :: "string set" where
  "account_trees = {''users'', ''auth'', ''audit''}"

context raw_db
begin

lemma put_confined [confined_intro]: "c \<in> X \<Longrightarrow> confined cells X (ra_put A c k v)"
proof (unfold confined_def, intro allI impI)
  fix s t
  assume "c \<in> X" "t \<notin> X"
  then have "t \<noteq> c" by blast
  then show "cells (snd (ra_put A c k v s)) t = cells s t"
    using put_law [of c k v "cells s"] by (auto simp: does_def)
qed

lemma get_confined [confined_intro]: "confined cells X (ra_get A c k)"
  using get_law [of c k] by (auto simp: confined_def does_def)

lemma list_confined [confined_intro]: "confined cells X (ra_list A c p n)"
proof -
  have "cells (snd (ra_list A c p n s)) = cells s" for s
    using scanned [of s c] list_law [of "cells s" c] by (auto simp: does_def)
  then show ?thesis by (simp add: confined_def)
qed

end

context account_store
begin

lemma account_handlers_confined:
  "confined cells account_trees (ad_create_user L D fresh salt rnd_auth rnd_user created updated creq)"
  "confined cells account_trees (ad_get_user L D i)"
  "confined cells account_trees (ad_list_users L D lreq)"
  "confined cells account_trees (ad_update_user L D now salt rnd_auth rnd_user ureq)"
  "confined cells account_trees (ad_delete_user L D now rnd i)"
  "confined cells account_trees (au_authenticate L S mfa_env totp_clock now areq)"
  "confined cells account_trees (au_validate_session L S now_secs token)"
proof -
  have put: "confined cells account_trees (put_ok D c k v)" if "c \<in> {''users'', ''auth''}" for c k v
    unfolding put_ok_def admin_side by (intro confined_intro) (use that in \<open>auto simp: account_trees_def\<close>)
  note users = put [of "''users''", simplified] and auth = put [of "''auth''", simplified]
  have load: "confined cells account_trees (load_user L D k)" for k
    unfolding load_user_def admin_side by (intro confined_intro)
  have store: "confined cells account_trees (store_user L D r u)" for r u
    unfolding store_user_def by (intro confined_intro users)
  have pass: "confined cells account_trees (update_password L D salt r n u p)" for r n u p
    unfolding update_password_def admin_side by (intro confined_intro auth)
  have login: "confined cells account_trees (get_user_auth L S n)" for n
    unfolding get_user_auth_def auth_side by (intro confined_intro)
  have profile: "confined cells account_trees (get_user_profile L S u)" for u
    unfolding get_user_profile_def auth_side by (intro confined_intro)
  show "confined cells account_trees (ad_create_user L D fresh salt rnd_auth rnd_user created updated creq)"
    unfolding ad_create_user_def Let_def by (intro confined_intro users auth)
  show "confined cells account_trees (ad_get_user L D i)"
    unfolding ad_get_user_def by (intro confined_intro load)
  show "confined cells account_trees (ad_list_users L D lreq)"
    unfolding ad_list_users_def admin_side Let_def by (intro confined_intro)
  show "confined cells account_trees (ad_update_user L D now salt rnd_auth rnd_user ureq)"
    unfolding ad_update_user_def Let_def by (intro confined_intro load store pass)
  show "confined cells account_trees (ad_delete_user L D now rnd i)"
    unfolding ad_delete_user_def Let_def by (intro confined_intro load store)
  show "confined cells account_trees (au_authenticate L S mfa_env totp_clock now areq)"
    unfolding au_authenticate_def by (intro confined_intro login profile)
  show "confined cells account_trees (au_validate_session L S now_secs token)"
    unfolding au_validate_session_def by (intro confined_intro profile)
qed

end

text \<open>The two sides of the database.\<close>

lemma account_trees_other: "t \<in> account_trees \<Longrightarrow> t \<notin> ticket_side"
  by (auto simp: account_trees_def ticket_side_def trees_defs)

lemma accounts_others: "accounts_of L keys (others W) = accounts_of L keys W"
  "accounts_inv L keys (others W) \<longleftrightarrow> accounts_inv L keys W"
proof -
  have t: "others W ''users'' = W ''users''" "others W ''auth'' = W ''auth''"
    using account_trees_other [of "''users''"] account_trees_other [of "''auth''"]
    by (simp_all add: others_def account_trees_def)
  then show eq: "accounts_of L keys (others W) = accounts_of L keys W" by (simp add: accounts_of_def)
  show "accounts_inv L keys (others W) \<longleftrightarrow> accounts_inv L keys W"
    unfolding accounts_inv_def eq t ..
qed

lemma accounts_frame:
  assumes "others W' = others W"
  shows "accounts_of L keys W' = accounts_of L keys W" "accounts_inv L keys W' \<longleftrightarrow> accounts_inv L keys W"
  using accounts_others [of L keys W] accounts_others [of L keys W'] assms by simp_all

lemma ticket_side_frame:
  assumes "\<And>t. t \<in> ticket_side \<Longrightarrow> W' t = W t"
  shows "sp_tickets (db_abs E W') = sp_tickets (db_abs E W)" "sp_last_id (db_abs E W') = sp_last_id (db_abs E W)"
    and "db_part E (\<lambda>_. True) W' \<longleftrightarrow> db_part E (\<lambda>_. True) W"
proof -
  have t: "W' TREE_TICKETS = W TREE_TICKETS" "W' TREE_SEQ = W TREE_SEQ"
    using assms by (simp_all add: ticket_side_def)
  show abs: "sp_tickets (db_abs E W') = sp_tickets (db_abs E W)"
    unfolding abs_ticket by (simp add: table_rows_cong [where W' = W' and W = W] t)
  show last: "sp_last_id (db_abs E W') = sp_last_id (db_abs E W)"
    unfolding abs_last by (simp add: seq_value_def t)
  have side: "tickets_inv E V'" if inv: "tickets_inv E V" and eq: "\<And>t. t \<in> ticket_side \<Longrightarrow> V' t = V t" for V V'
  proof -
    have "V' t = V t" if "t \<in> insert TREE_TICKETS ticket_trees" for t
      by (rule eq) (use that in \<open>auto simp: ticket_side_def\<close>)
    then show ?thesis using inv unfolding tickets_inv_def by (blast intro: tickets.table_inv_frame)
  qed
  have "tickets_inv E W' \<longleftrightarrow> tickets_inv E W"
    by (rule iffI) (erule side, simp add: assms)+
  then show "db_part E (\<lambda>_. True) W' \<longleftrightarrow> db_part E (\<lambda>_. True) W"
    by (simp add: db_part_def ids_fresh_def abs last)
qed

lemma stored_confined:
  assumes "confined (contents F) account_trees m"
  shows "stored_ok F (snd (m b)) \<longleftrightarrow> stored_ok F b" "stored_rows F (snd (m b)) = stored_rows F b"
    "stored_room F (snd (m b)) \<longleftrightarrow> stored_room F b"
proof -
  have eq: "contents F (snd (m b)) t = contents F b t" if "t \<in> ticket_side" for t
    using assms account_trees_other [of t] that unfolding confined_def by metis
  note frame = ticket_side_frame [where W' = "contents F (snd (m b))" and W = "contents F b" and E = F, OF eq]
  show "stored_ok F (snd (m b)) \<longleftrightarrow> stored_ok F b"
    "stored_rows F (snd (m b)) = stored_rows F b" "stored_room F (snd (m b)) \<longleftrightarrow> stored_room F b"
    by (simp_all add: stored_defs frame)
qed

subsection \<open>The deployed backends\<close>

text \<open>
  What the services draw and read while they serve one request: the clocks, the random values
  and the environment. \<open>dw_rnd\<close> and \<open>dw_rnd2\<close> are the coins and nonces of the encryptions.
\<close>

record draws =
  dw_now :: datetime
  dw_later :: datetime
  dw_unix :: i64
  dw_millis :: i64
  dw_secs :: int
  dw_totp_clock :: "string + u64"
  dw_uuid :: uuid
  dw_salt :: bytes
  dw_rnd :: "bytes \<times> bytes"
  dw_rnd2 :: "bytes \<times> bytes"
  dw_mfa_env :: "string option"
  dw_ttl_env :: "string option"

record ('h, 'c, 'r, 'b) system =
  ys_accounts :: "'h account_lib"
  ys_auth :: "'b auth_service"
  ys_admin :: "'b admin_service"
  ys_lib :: custodian_lib
  ys_custodian :: "('c, 'r, 'b) custodian"

definition system_backends ::
  "('h, 'c, 'r, 'b) system \<Rightarrow> ('c, 'z) lockstore_scheme \<Rightarrow> draws \<Rightarrow> ('ch, ('c \<times> 'r) \<times> 'b) backends" where
  "system_backends Y E w =
     \<lparr>bk_authenticate = \<lambda>_ req. on_db (au_authenticate (ys_accounts Y) (ys_auth Y) (dw_mfa_env w) (dw_totp_clock w) (dw_now w) req),
      bk_validate_session = \<lambda>_ token. on_db (au_validate_session (ys_accounts Y) (ys_auth Y) (dw_secs w) token),
      bk_create_user = \<lambda>_ req. on_db (bindA (ad_create_user (ys_accounts Y) (ys_admin Y) (dw_uuid w) (dw_salt w)
         (dw_rnd w) (dw_rnd2 w) (dw_now w) (dw_later w) req) (\<lambda>m. ret (Some m))),
      bk_get_user = \<lambda>_ i. on_db (bindA (ad_get_user (ys_accounts Y) (ys_admin Y) i) (\<lambda>m. ret (Some m))),
      bk_list_users = \<lambda>_ req. on_db (ad_list_users (ys_accounts Y) (ys_admin Y) req),
      bk_update_user = \<lambda>_ req. on_db (bindA (ad_update_user (ys_accounts Y) (ys_admin Y) (dw_now w) (dw_salt w)
         (dw_rnd w) (dw_rnd2 w) req) (\<lambda>m. ret (Some m))),
      bk_delete_user = \<lambda>_ i. on_db (ad_delete_user (ys_accounts Y) (ys_admin Y) (dw_now w) (dw_rnd w) i),
      bk_create_ticket = \<lambda>_ req. cs_create_ticket (ys_lib Y) (ys_custodian Y) (dw_now w) (dw_millis w) (dw_rnd w) req,
      bk_acquire_lock = \<lambda>_ req. cs_acquire_lock (ys_lib Y) E (ys_custodian Y) (dw_unix w) (dw_ttl_env w) req,
      bk_release_lock = \<lambda>_ req. cs_release_lock (ys_lib Y) (ys_custodian Y) req,
      bk_update_ticket = \<lambda>_ req. cs_update_ticket (ys_lib Y) E (ys_custodian Y) (dw_unix w) (dw_now w) (dw_rnd w) req,
      bk_get_ticket = \<lambda>_ i. cs_get_ticket (ys_lib Y) (ys_custodian Y) i,
      bk_query_tickets = \<lambda>_ req. bindA (cs_query_tickets (ys_lib Y) (ys_custodian Y) req) (\<lambda>ts. ret (map Inr ts)),
      bk_cluster_status = \<lambda>_. cs_cluster_status (ys_custodian Y)\<rparr>"

lemma system_calls:
  "bk_authenticate (system_backends Y E w) ch r1 = on_db (au_authenticate (ys_accounts Y) (ys_auth Y) (dw_mfa_env w) (dw_totp_clock w) (dw_now w) r1)"
  "bk_validate_session (system_backends Y E w) ch token = on_db (au_validate_session (ys_accounts Y) (ys_auth Y) (dw_secs w) token)"
  "bk_create_user (system_backends Y E w) ch r2 = on_db (bindA (ad_create_user (ys_accounts Y) (ys_admin Y) (dw_uuid w) (dw_salt w) (dw_rnd w) (dw_rnd2 w) (dw_now w) (dw_later w) r2) (\<lambda>m. ret (Some m)))"
  "bk_get_user (system_backends Y E w) ch i = on_db (bindA (ad_get_user (ys_accounts Y) (ys_admin Y) i) (\<lambda>m. ret (Some m)))"
  "bk_list_users (system_backends Y E w) ch r3 = on_db (ad_list_users (ys_accounts Y) (ys_admin Y) r3)"
  "bk_update_user (system_backends Y E w) ch r4 = on_db (bindA (ad_update_user (ys_accounts Y) (ys_admin Y) (dw_now w) (dw_salt w) (dw_rnd w) (dw_rnd2 w) r4) (\<lambda>m. ret (Some m)))"
  "bk_delete_user (system_backends Y E w) ch i = on_db (ad_delete_user (ys_accounts Y) (ys_admin Y) (dw_now w) (dw_rnd w) i)"
  "bk_create_ticket (system_backends Y E w) ch r5 = cs_create_ticket (ys_lib Y) (ys_custodian Y) (dw_now w) (dw_millis w) (dw_rnd w) r5"
  "bk_acquire_lock (system_backends Y E w) ch r6 = cs_acquire_lock (ys_lib Y) E (ys_custodian Y) (dw_unix w) (dw_ttl_env w) r6"
  "bk_release_lock (system_backends Y E w) ch r6 = cs_release_lock (ys_lib Y) (ys_custodian Y) r6"
  "bk_update_ticket (system_backends Y E w) ch r7 = cs_update_ticket (ys_lib Y) E (ys_custodian Y) (dw_unix w) (dw_now w) (dw_rnd w) r7"
  "bk_get_ticket (system_backends Y E w) ch j = cs_get_ticket (ys_lib Y) (ys_custodian Y) j"
  "bk_query_tickets (system_backends Y E w) ch r8 = bindA (cs_query_tickets (ys_lib Y) (ys_custodian Y) r8) (\<lambda>ts. ret (map Inr ts))"
  "bk_cluster_status (system_backends Y E w) ch = cs_cluster_status (ys_custodian Y)"
  by (simp_all add: system_backends_def)

definition deployed_system ::
  "('h, 'c, 'r, 'd \<times> 's) system \<Rightarrow> ('c, 'z) lockstore_scheme \<Rightarrow> ('d, 's) db_service \<Rightarrow> ('d, 'y) dbstore_scheme
   \<Rightarrow> i64 \<Rightarrow> bool" where
  "deployed_system Y E P F t \<longleftrightarrow> deployed_accounts (ys_accounts Y) F P (ys_auth Y) (ys_admin Y)
     \<and> deployed (ys_lib Y) (ys_custodian Y) P F t \<and> lock_env_ok E \<and> lock_leader E (ys_custodian Y)
     \<and> al_parse_uuid (ys_accounts Y) = cl_parse_uuid (ys_lib Y)
     \<and> al_uuid_text (ys_accounts Y) = cl_uuid_text (ys_lib Y)"

text \<open>
  The draws of a request: fresh ids and nonces of the cipher's length. \<open>stored_room\<close> says that the
  counter of ticket ids is not exhausted.
\<close>

definition draws_ok :: "('h, 'c, 'r, 'd \<times> 's) system \<Rightarrow> ('d, 'y) dbstore_scheme \<Rightarrow> draws \<Rightarrow> 'd \<times> 's \<Rightarrow> bool" where
  "draws_ok Y F w b \<longleftrightarrow> ac_profiles (accounts_at (ys_accounts Y) F (ys_admin Y) b) (dw_uuid w) = None
     \<and> length (snd (dw_rnd w)) = 12 \<and> length (snd (dw_rnd2 w)) = 12 \<and> stored_room F b"

definition system_inv ::
  "('h, 'c, 'r, 'd \<times> 's) system \<Rightarrow> ('c, 'z) lockstore_scheme \<Rightarrow> ('d, 'y) dbstore_scheme
   \<Rightarrow> ('c \<times> 'r) \<times> ('d \<times> 's) \<Rightarrow> bool" where
  "system_inv Y E F s \<longleftrightarrow> sound_at (ys_accounts Y) F (ys_admin Y) (snd s) \<and> stored_ok F (snd s)
     \<and> all_sealed (ys_lib Y) (ys_custodian Y) (stored_rows F (snd s)) \<and> locks_inv E (view E (fst (fst s)))"

text \<open>What the requests to the gateway leave of the system: \<open>held\<close> are the locks of the state before.\<close>

definition system_kept ::
  "('h, 'c, 'r, 'd \<times> 's) system \<Rightarrow> ('c, 'z) lockstore_scheme \<Rightarrow> ('d, 'y) dbstore_scheme
   \<Rightarrow> ('c \<times> 'r) \<times> ('d \<times> 's) \<Rightarrow> ('c \<times> 'r) \<times> ('d \<times> 's) \<Rightarrow> bool" where
  "system_kept Y E F s s' \<longleftrightarrow> system_inv Y E F s' \<and> view E (fst (fst s')) = view E (fst (fst s))
     \<and> profiles_kept (accounts_at (ys_accounts Y) F (ys_admin Y) (snd s)) (accounts_at (ys_accounts Y) F (ys_admin Y) (snd s'))
     \<and> (rows_step (ys_lib Y) (ys_custodian Y) (\<lambda>i u. \<exists>k. holds (locks_of E (view E (fst (fst s)))) i u k))\<^sup>*\<^sup>*
          (stored_rows F (snd s)) (stored_rows F (snd s'))"

lemma system_kept_refl: "system_inv Y E F s \<Longrightarrow> system_kept Y E F s s"
  by (simp add: system_kept_def)

lemma system_kept_trans: "system_kept Y E F s s' \<Longrightarrow> system_kept Y E F s' s'' \<Longrightarrow> system_kept Y E F s s''"
  unfolding system_kept_def by (auto dest: profiles_kept_trans)

text \<open>A request to an account service.\<close>

lemma account_request:
  assumes dep: "deployed_system Y E P F t" and inv: "system_inv Y E F (n, b)"
    and step: "account_step (contents F) (ys_accounts Y) (ys_auth Y) (ys_admin Y) b (snd (m b))"
    and conf: "confined (contents F) account_trees m"
  shows "system_kept Y E F (n, b) (n, snd (m b))"
proof -
  have store: "account_store (raw_requests P F) (contents F) (ys_accounts Y) (ys_auth Y) (ys_admin Y)"
    using dep by (intro deployed_store) (simp add: deployed_system_def)
  have "sound_at (ys_accounts Y) F (ys_admin Y) b" using inv by (simp add: system_inv_def)
  from account_store.step_sound [OF store step this] stored_confined [OF conf, of b] inv
  show ?thesis by (simp add: system_kept_def system_inv_def)
qed

text \<open>A request to the custodian keeps the account records.\<close>

lemma ticket_request:
  assumes inv: "system_inv Y E F ((c, r), b)"
    and ok: "stored_with F (\<lambda>X. X = others (contents F b)) b'" and locks: "view E c' = view E c"
    and rows: "rows_step (ys_lib Y) (ys_custodian Y) (\<lambda>i u. \<exists>k. holds (locks_of E (view E c)) i u k)
       (stored_rows F b) (stored_rows F b')"
  shows "system_kept Y E F ((c, r), b) ((c', r'), b')"
proof -
  have "others (contents F b') = others (contents F b)" "stored_ok F b'"
    using ok by (simp_all add: stored_with_def db_part_def)
  note frame = accounts_frame [OF this(1)] this(2)
  have "all_sealed (ys_lib Y) (ys_custodian Y) (stored_rows F b)" using inv by (simp add: system_inv_def)
  then have "all_sealed (ys_lib Y) (ys_custodian Y) (stored_rows F b')" by (rule rows_step_sealed [OF rows])
  moreover have "(rows_step (ys_lib Y) (ys_custodian Y) (\<lambda>i u. \<exists>k. holds (locks_of E (view E c)) i u k))\<^sup>*\<^sup>*
     (stored_rows F b) (stored_rows F b')" using rows by (simp add: r_into_rtranclp)
  ultimately show ?thesis using inv locks by (simp add: system_kept_def system_inv_def frame)
qed

subsection \<open>Every request a handler sends\<close>

lemma rows_step_mono: "rows_step L Q may R R' \<Longrightarrow> (\<And>i u. may i u \<Longrightarrow> may' i u) \<Longrightarrow> rows_step L Q may' R R'"
  by (induction rule: rows_step.induct) (auto intro: rows_step.intros)

lemma on_db_state: "snd (on_db m (n, b)) = (n, snd (m b))"
  by (simp add: on_db_def split: prod.split)

lemma snd_bind_pure: "(\<And>x s. snd (f x s) = s) \<Longrightarrow> snd (bindA m f s) = snd (m s)"
  by (simp add: bindA_def split: prod.split sum.split)

lemma snd_map_err: "snd (map_err f m s) = snd (m s)"
  by (simp add: map_err_def split: prod.split sum.split)

lemma snd_pure: "snd (ret x s) = s" "snd (throw e s) = s" "snd (lift_res r s) = s"
  by (simp_all add: act_defs)

lemmas snd_rest = on_db_state snd_bind_pure snd_map_err snd_pure

lemma account_requests_keep:
  assumes dep: "deployed_system Y E P F t" and inv: "system_inv Y E F (n, b)" and w: "draws_ok Y F w b"
  shows "system_kept Y E F (n, b) (n, snd (au_authenticate (ys_accounts Y) (ys_auth Y) e tc now areq b))"
    and "system_kept Y E F (n, b) (n, snd (au_validate_session (ys_accounts Y) (ys_auth Y) secs token b))"
    and "system_kept Y E F (n, b) (n, snd (ad_get_user (ys_accounts Y) (ys_admin Y) i b))"
    and "system_kept Y E F (n, b) (n, snd (ad_list_users (ys_accounts Y) (ys_admin Y) lreq b))"
    and "system_kept Y E F (n, b) (n, snd (ad_create_user (ys_accounts Y) (ys_admin Y) (dw_uuid w) salt
       (dw_rnd w) (dw_rnd2 w) now later creq b))"
    and "system_kept Y E F (n, b) (n, snd (ad_update_user (ys_accounts Y) (ys_admin Y) now salt (dw_rnd w) (dw_rnd2 w) ureq b))"
    and "system_kept Y E F (n, b) (n, snd (ad_delete_user (ys_accounts Y) (ys_admin Y) now (dw_rnd w) i b))"
proof -
  have "account_store (raw_requests P F) (contents F) (ys_accounts Y) (ys_auth Y) (ys_admin Y)"
    using dep by (intro deployed_store) (simp add: deployed_system_def)
  note conf = account_store.account_handlers_confined [OF this]
  note keep = account_request [OF dep inv]
  have draws: "ac_profiles (accounts_at (ys_accounts Y) F (ys_admin Y) b) (dw_uuid w) = None"
    "length (snd (dw_rnd w)) = 12" "length (snd (dw_rnd2 w)) = 12"
    using w by (simp_all add: draws_ok_def)
  show "system_kept Y E F (n, b) (n, snd (au_authenticate (ys_accounts Y) (ys_auth Y) e tc now areq b))"
    by (rule keep [OF login_step conf(6)])
  show "system_kept Y E F (n, b) (n, snd (au_validate_session (ys_accounts Y) (ys_auth Y) secs token b))"
    by (rule keep [OF validate_step conf(7)])
  show "system_kept Y E F (n, b) (n, snd (ad_get_user (ys_accounts Y) (ys_admin Y) i b))"
    by (rule keep [OF get_step conf(2)])
  show "system_kept Y E F (n, b) (n, snd (ad_list_users (ys_accounts Y) (ys_admin Y) lreq b))"
    by (rule keep [OF list_step conf(3)])
  show "system_kept Y E F (n, b) (n, snd (ad_create_user (ys_accounts Y) (ys_admin Y) (dw_uuid w) salt
       (dw_rnd w) (dw_rnd2 w) now later creq b))"
    by (rule keep [OF create_step [where V = "contents F" and b = b and fresh = "dw_uuid w", OF draws] conf(1)])
  show "system_kept Y E F (n, b) (n, snd (ad_update_user (ys_accounts Y) (ys_admin Y) now salt (dw_rnd w) (dw_rnd2 w) ureq b))"
    by (rule keep [OF update_step [where V = "contents F", OF draws(2,3)] conf(4)])
  show "system_kept Y E F (n, b) (n, snd (ad_delete_user (ys_accounts Y) (ys_admin Y) now (dw_rnd w) i b))"
    by (rule keep [OF delete_step [where V = "contents F", OF draws(2)] conf(5)])
qed

lemma ticket_requests_keep:
  assumes dep: "deployed_system Y E P F t" and inv: "system_inv Y E F s" and w: "draws_ok Y F w (snd s)"
  shows "system_kept Y E F s (snd (cs_create_ticket (ys_lib Y) (ys_custodian Y) now millis (dw_rnd w) creq s))"
    and "system_kept Y E F s (snd (cs_get_ticket (ys_lib Y) (ys_custodian Y) i s))"
    and "system_kept Y E F s (snd (cs_query_tickets (ys_lib Y) (ys_custodian Y) q s))"
    and "system_kept Y E F s (snd (cs_update_ticket (ys_lib Y) E (ys_custodian Y) k now (dw_rnd w) ureq s))"
    and "system_kept Y E F s (snd (cs_cluster_status (ys_custodian Y) s))"
proof -
  obtain c r b where s: "s = ((c, r), b)" by (metis prod.collapse)
  let ?K = "\<lambda>X. X = others (contents F b)" and ?L = "ys_lib Y" and ?Q = "ys_custodian Y"
  let ?may = "\<lambda>i u. \<exists>k. holds (locks_of E (view E c)) i u k"
  have d: "deployed ?L ?Q P F t" "lock_env_ok E" using dep by (simp_all add: deployed_system_def)
  note over = deployed_over [OF d(1), where K = ?K]
  have ok: "stored_with F ?K b" and sealed: "all_sealed ?L ?Q (stored_rows F b)" and locks: "locks_inv E (view E c)"
    using inv by (simp_all add: system_inv_def s stored_with_def db_part_def)
  have nonce: "length (snd (dw_rnd w)) = 12" and room: "stored_room F b" using w by (simp_all add: draws_ok_def s)
  note keep = ticket_request [OF inv [unfolded s]]
  obtain x b' where run: "cs_create_ticket ?L ?Q now millis (dw_rnd w) creq ((c, r), b) = (x, ((c, r), b'))"
    "stored_with F ?K b'" "rows_step ?L ?Q ?may (stored_rows F b) (stored_rows F b')"
    using custodian_over.create_frame [OF over ok room nonce, of now millis creq "(c, r)" ?may] by blast
  show "system_kept Y E F s (snd (cs_create_ticket ?L ?Q now millis (dw_rnd w) creq s))"
    unfolding s run(1) snd_conv by (rule keep [OF run(2) refl run(3)])
  obtain x b' where run: "cs_get_ticket ?L ?Q i ((c, r), b) = (x, ((c, r), b'))"
    "stored_with F ?K b'" "stored_rows F b' = stored_rows F b"
    using custodian_over.get_frame [OF over ok, of i "(c, r)"] by blast
  show "system_kept Y E F s (snd (cs_get_ticket ?L ?Q i s))"
    unfolding s run(1) snd_conv by (rule keep [OF run(2) refl]) (simp add: run(3) rows_same)
  obtain x b' where run: "cs_query_tickets ?L ?Q q ((c, r), b) = (x, ((c, r), b'))"
    "stored_with F ?K b'" "stored_rows F b' = stored_rows F b"
    using custodian_over.query_frame [OF over ok sealed, of q "(c, r)"] by blast
  show "system_kept Y E F s (snd (cs_query_tickets ?L ?Q q s))"
    unfolding s run(1) snd_conv by (rule keep [OF run(2) refl]) (simp add: run(3) rows_same)
  obtain x c' b' where run: "cs_update_ticket ?L E ?Q k now (dw_rnd w) ureq ((c, r), b) = (x, ((c', r), b'))"
    "stored_with F ?K b'" "view E c' = view E c"
    "rows_step ?L ?Q (\<lambda>i u. holds (locks_of E (view E c)) i u k) (stored_rows F b) (stored_rows F b')"
    using custodian_over.update_frame [OF over ok sealed nonce d(2) locks, of k now ureq r] by blast
  show "system_kept Y E F s (snd (cs_update_ticket ?L E ?Q k now (dw_rnd w) ureq s))"
    unfolding s run(1) snd_conv by (rule keep [OF run(2,3) rows_step_mono [OF run(4)]]) blast
  have "snd (cs_cluster_status ?Q s) = s" by (simp add: s cs_cluster_status_def Let_def)
  then show "system_kept Y E F s (snd (cs_cluster_status ?Q s))" using inv by (simp add: system_kept_refl)
qed

end
