(* ===== verification/Gateway_Run.thy ===== *)
theory Gateway_Run
  imports Gateway_System
begin

text \<open>
  HTTP requests to the deployed system as a step relation, what every request keeps, and how a
  single request runs.
\<close>

subsection \<open>One request\<close>

lemma respond_state: "snd (respond m g) = snd (m g)"
  by (simp add: respond_def split: prod.split sum.split)

lemma extracted_state: "(\<And>v. Q (snd (k v g))) \<Longrightarrow> Q g \<Longrightarrow> Q (snd (with_extracted x k g))"
  by (simp add: with_extracted_def split: sum.split)

lemma middleware_state:
  "(\<And>c. Q (snd (nxt c g))) \<Longrightarrow> Q g \<Longrightarrow> Q (snd (auth_middleware G secret now req nxt g))"
  by (simp add: auth_middleware_def bare_def split: option.split)

lemma user_or_404_state: "snd (user_or_404 x s) = s"
  by (simp add: user_or_404_def snd_pure split: option.split)

text \<open>A handler changes the state as the one request it sends does.\<close>

lemmas rest_defs = rest_login_def rest_create_user_def rest_list_users_def rest_get_user_def rest_update_user_def
  rest_delete_user_def rest_create_ticket_def rest_get_ticket_def rest_list_tickets_def rest_update_ticket_def

lemmas client_defs = cc_create_ticket_def cc_update_ticket_def cc_get_ticket_def cc_query_tickets_def
  cc_cluster_status_def ac_authenticate_def ac_health_def dc_create_user_def dc_get_user_def dc_list_users_def
  dc_update_user_def dc_delete_user_def

lemma handler_state:
  assumes dep: "deployed_system Y E P F t" and inv: "system_inv Y E F s" and w: "draws_ok Y F w (snd s)"
  defines "B \<equiv> system_backends Y E w"
  shows "system_kept Y E F s (snd (rest_login B c lreq s))"
    and "system_kept Y E F s (snd (rest_create_user B c creq s))"
    and "system_kept Y E F s (snd (rest_list_users B c lp s))"
    and "system_kept Y E F s (snd (rest_get_user B c i s))"
    and "system_kept Y E F s (snd (rest_update_user B c i uc s))"
    and "system_kept Y E F s (snd (rest_delete_user B c i s))"
    and "system_kept Y E F s (snd (rest_create_ticket G B c cl nb s))"
    and "system_kept Y E F s (snd (rest_get_ticket G B c j s))"
    and "system_kept Y E F s (snd (rest_list_tickets G B c lt s))"
    and "system_kept Y E F s (snd (rest_update_ticket G B c j cl tc s))"
    and "system_kept Y E F s (snd (rest_health B c s))"
proof -
  obtain n b where s: "s = (n, b)" by (cases s)
  note acc = account_requests_keep [OF dep inv [unfolded s] w [unfolded s snd_conv]]
  note tic = ticket_requests_keep [OF dep inv w]
  show "system_kept Y E F s (snd (rest_login B c lreq s))"
    unfolding rest_login_def client_defs B_def system_backends_def backends.simps s
    by (subst snd_bind_pure; simp add: snd_rest acc)
  show "system_kept Y E F s (snd (rest_create_user B c creq s))"
    unfolding rest_create_user_def client_defs B_def system_backends_def backends.simps s thenA_def
    by (subst snd_bind_pure; simp add: snd_rest acc)
  show "system_kept Y E F s (snd (rest_list_users B c lp s))"
    unfolding rest_list_users_def client_defs B_def system_backends_def backends.simps s
    by (subst snd_bind_pure; simp add: snd_rest acc)
  show "system_kept Y E F s (snd (rest_get_user B c i s))"
    unfolding rest_get_user_def client_defs B_def system_backends_def backends.simps s
    by (subst snd_bind_pure; simp add: snd_rest acc user_or_404_state)
  show "system_kept Y E F s (snd (rest_update_user B c i uc s))"
    unfolding rest_update_user_def client_defs B_def system_backends_def backends.simps s
    by (subst snd_bind_pure; simp add: snd_rest acc user_or_404_state)
  show "system_kept Y E F s (snd (rest_delete_user B c i s))"
    unfolding rest_delete_user_def client_defs B_def system_backends_def backends.simps s thenA_def
    by (subst snd_bind_pure; simp add: snd_rest acc)
  show "system_kept Y E F s (snd (rest_create_ticket G B c cl nb s))"
    unfolding rest_create_ticket_def client_defs B_def system_backends_def backends.simps
    by (subst snd_bind_pure; simp add: snd_rest tic)
  show "system_kept Y E F s (snd (rest_get_ticket G B c j s))"
    unfolding rest_get_ticket_def client_defs B_def system_backends_def backends.simps
    by (subst snd_bind_pure; simp add: snd_rest tic)
  show "system_kept Y E F s (snd (rest_list_tickets G B c lt s))"
    unfolding rest_list_tickets_def client_defs B_def system_backends_def backends.simps
    by (subst snd_bind_pure; simp add: snd_rest tic)
  show "system_kept Y E F s (snd (rest_update_ticket G B c j cl tc s))"
    unfolding rest_update_ticket_def client_defs B_def system_backends_def backends.simps
    by (subst snd_bind_pure; simp add: snd_rest tic)
  have probes: "snd (rest_health B c s) = snd (cc_cluster_status B c (snd (ac_health B c s)))"
    by (simp add: rest_health_def probe_def Let_def split: prod.split sum.split)
  have same: "snd (cc_cluster_status B c s') = s'" for s'
    by (cases s') (auto simp: client_defs B_def system_backends_def cs_cluster_status_def Let_def)
  have "snd (ac_health B c s) = (n, snd (au_validate_session (ys_accounts Y) (ys_auth Y) (dw_secs w) [] b))"
    by (simp add: ac_health_def thenA_def snd_rest B_def system_backends_def s)
  then show "system_kept Y E F s (snd (rest_health B c s))"
    unfolding probes same by (simp add: s acc)
qed

lemma rest_app_state:
  "snd (rest_app G B st now req g) = (case route_of (hq_method req) (hq_path req) of
     None \<Rightarrow> g | Some r \<Rightarrow> snd (run_route G B st now req r g))"
  by (simp add: rest_app_def case_prod_beta split: option.split)

lemma app_state:
  assumes "deployed_system Y E P F t" and "system_inv Y E F s" and "draws_ok Y F w (snd s)"
  shows "system_kept Y E F s (snd (rest_app G (system_backends Y E w) st now req s))"
proof (cases "route_of (hq_method req) (hq_path req)")
  case None
  then show ?thesis using assms(2) by (simp add: rest_app_state system_kept_refl)
next
  case (Some r)
  note keep = handler_state [OF assms]
  have "system_kept Y E F s (snd (run_route G (system_backends Y E w) st now req r s))"
    by (cases r) (auto simp: run_route_def respond_state keep system_kept_refl [OF assms(2)]
        intro!: extracted_state [where Q = "system_kept Y E F s"] middleware_state [where Q = "system_kept Y E F s"])
  then show ?thesis using Some by (simp add: rest_app_state)
qed

inductive gateway_step ::
  "web_lib \<Rightarrow> ('h, 'c, 'r, 'd \<times> 's) system \<Rightarrow> ('c, 'z) lockstore_scheme \<Rightarrow> ('d, 'y) dbstore_scheme \<Rightarrow> 'ch app_state
   \<Rightarrow> ('c \<times> 'r) \<times> ('d \<times> 's) \<Rightarrow> ('c \<times> 'r) \<times> ('d \<times> 's) \<Rightarrow> bool"
  for G Y E F st where
  request: "draws_ok Y F w (snd s) \<Longrightarrow> rest_app G (system_backends Y E w) st now req s = (resp, s')
     \<Longrightarrow> gateway_step G Y E F st s s'"

inductive_cases gateway_stepE: "gateway_step G Y E F st s s'"

lemma reach_kept:
  assumes "(gateway_step G Y E F st)\<^sup>*\<^sup>* s s'" and dep: "deployed_system Y E P F t" and "system_inv Y E F s"
  shows "system_kept Y E F s s'"
  using assms(1)
proof (induction rule: rtranclp_induct)
  case base
  show ?case by (rule system_kept_refl [OF assms(3)])
next
  case (step s1 s2)
  have inv: "system_inv Y E F s1" using step.IH by (simp add: system_kept_def)
  from step.hyps(2) have "system_kept Y E F s1 s2"
    by (rule gateway_stepE) (metis app_state [OF dep inv] snd_conv)
  then show ?case by (rule system_kept_trans [OF step.IH])
qed

text \<open>A ticket whose lock nobody has stays as it is.\<close>

lemma rows_unlocked:
  assumes "(rows_step L Q may)\<^sup>*\<^sup>* R R'" and "R i = Some row" and "\<And>u. \<not> may i u"
  shows "R' i = Some row"
  using assms(1)
proof (induction rule: rtranclp_induct)
  case (step R1 R2)
  then show ?case using rows_step_changed [OF step.hyps(2)] assms(3) by blast
qed (rule assms(2))

text \<open>A ticket changes by edits, each by someone who may change it.\<close>

definition edited_by :: "(uuid \<Rightarrow> bool) \<Rightarrow> ticket \<Rightarrow> ticket \<Rightarrow> bool" where
  "edited_by who t t' \<longleftrightarrow> evolves t t' \<and> who (tk_updated_by t')"

lemma edited_evolves: "(edited_by who)\<^sup>*\<^sup>* t t' \<Longrightarrow> evolves\<^sup>*\<^sup>* t t'"
  by (rule mono_rtranclp [rule_format]) (auto simp: edited_by_def)

lemma rows_steps_ticket:
  assumes "(rows_step L Q may)\<^sup>*\<^sup>* R R'" and "sealed_as L Q R i t"
  shows "\<exists>t'. sealed_as L Q R' i t' \<and> (edited_by (may i))\<^sup>*\<^sup>* t t'"
  using assms(1)
proof (induction rule: rtranclp_induct)
  case (step R1 R2)
  then obtain t1 where t1: "sealed_as L Q R1 i t1" "(edited_by (may i))\<^sup>*\<^sup>* t t1" by blast
  from rows_step_ticket [OF step.hyps(2) t1(1)] t1(2) show ?case
    unfolding edited_by_def [symmetric] by (meson rtranclp.rtrancl_into_rtrancl)
qed (use assms(2) in blast)

end
