(* ===== verification/Gateway_Spec.thy ===== *)
theory Gateway_Spec
  imports Gateway_Run
begin

text \<open>
  What a client of the REST interface can rely on, over any backends and over the deployed
  system: the token check, the mapping of errors, the invariants every sequence of requests
  keeps, the path from a login to a ticket, and where the interface gives more or less than it
  should.
\<close>

subsection \<open>A deployment\<close>

definition sample_web :: web_lib where
  "sample_web =
     \<lparr>wl_header_text = \<lambda>bs. Some (of_utf8_bytes bs), wl_jwt_decode = al_jwt_decode sample_accounts,
      wl_status_text = \<lambda>_. ''status'',
      wl_login = \<lambda>_. Inr \<lparr>lr_username = ''ann'', lr_password = ''pw'', lr_mfa_token = None\<rparr>,
      wl_create_user = \<lambda>_. Inr (sample_creq\<lparr>nu_role := 0\<rparr>),
      wl_list_users = \<lambda>_. Inr \<lparr>lu_page = None, lu_page_size = None\<rparr>,
      wl_update_user = \<lambda>_. Inr \<lparr>uc_email = None, uc_display_name = None, uc_role = Some 0, uc_active = None,
         uc_password = None\<rparr>,
      wl_create_ticket = \<lambda>_. Inr \<lparr>nb_title = ''down'', nb_project = ''p'', nb_account_uuid = ''a'', nb_symptom = 1,
         nb_priority = 1\<rparr>,
      wl_list_tickets = \<lambda>_. Inr \<lparr>lt_status = None, lt_assignee = None, lt_account = None, lt_project = None,
         lt_include_deleted = None, lt_limit = None\<rparr>,
      wl_update_ticket = \<lambda>_. Inr \<lparr>tc_title = Some ''up'', tc_project = None, tc_priority = None, tc_status = None,
         tc_next_action = None\<rparr>,
      wl_path_text = Inr, wl_path_u64 = \<lambda>s. Inr (of_nat (length s)),
      wl_unrouted = \<lambda>_. \<lparr>hp_status = 404, hp_body = NoBody\<rparr>\<rparr>"

definition sample_system :: "(string, memdb, metrics, memdb \<times> metrics) system" where
  "sample_system =
     \<lparr>ys_accounts = sample_accounts, ys_auth = sample_auth, ys_admin = sample_admin,
      ys_lib = sample_lib\<lparr>cl_parse_uuid := al_parse_uuid sample_accounts, cl_uuid_text := al_uuid_text sample_accounts\<rparr>,
      ys_custodian = sample_custodian\<rparr>"

lemma sample_system_fields [simp]:
  "ys_accounts sample_system = sample_accounts" "ys_auth sample_system = sample_auth"
  "ys_admin sample_system = sample_admin" "ys_custodian sample_system = sample_custodian"
  by (simp_all add: sample_system_def)

definition sample_app :: "unit app_state" where
  "sample_app = \<lparr>ap_clients = \<lparr>gc_auth = (), gc_admin = (), gc_custodian = ()\<rparr>, ap_jwt_secret = [7]\<rparr>"

definition sample_draws :: draws where
  "sample_draws =
     \<lparr>dw_now = epoch, dw_later = epoch, dw_unix = 0, dw_millis = 0, dw_secs = 0, dw_totp_clock = Inr 0, dw_uuid = 5,
      dw_salt = [1], dw_rnd = sample_nonce, dw_rnd2 = sample_nonce, dw_mfa_env = None, dw_ttl_env = None\<rparr>"

definition sample_request :: "http_method \<Rightarrow> string \<Rightarrow> string option \<Rightarrow> http_request" where
  "sample_request m path token =
     \<lparr>hq_method = m, hq_path = path, hq_query = [],
      hq_authorization = map_option (\<lambda>t. utf8_bytes (''Bearer '' @ t)) token, hq_body = []\<rparr>"

lemma sample_request_fields [simp]:
  "hq_method (sample_request m path token) = m" "hq_path (sample_request m path token) = path"
  by (simp_all add: sample_request_def)

lemma sample_system_deployed: "deployed_system sample_system mem_locks sample_server mem_db 0"
proof -
  have "sample_db = sample_server" by (simp add: sample_db_def sample_server_def)
  then have "deployed (ys_lib sample_system) sample_custodian sample_server mem_db 0"
    using sample_deployed by (simp add: deployed_def custodian_lib_ok_def sample_system_def)
  then show ?thesis
    using sample_accounts_deployed sample_lock_leader mem_locks_ok
    by (simp add: deployed_system_def) (simp add: sample_system_def)
qed

lemma sample_system_start: "system_inv sample_system mem_locks mem_db sample_start"
  using sample_start_ok mem_locks_empty(1) by (simp add: system_inv_def all_sealed_def served_empty)

lemma sample_draws_start: "draws_ok sample_system mem_db sample_draws sample_begin"
  using sample_start_ok(2) by (simp add: draws_ok_def sample_draws_def)

abbreviation sample_backends :: "(unit, (memdb \<times> metrics) \<times> memdb \<times> metrics) backends" where
  "sample_backends \<equiv> system_backends sample_system mem_locks sample_draws"

definition sample_token :: "claims \<Rightarrow> string" where
  "sample_token c = of_utf8_bytes (enc (mk_codec claims_pk) c)"

lemma sample_ys_lib [simp]:
  "cl_ticket_json (ys_lib sample_system) = cl_ticket_json sample_lib"
  "cl_body_json (ys_lib sample_system) = cl_body_json sample_lib"
  "cl_crypto (ys_lib sample_system) = cl_crypto sample_lib"
  "cl_store_text (ys_lib sample_system) = cl_store_text sample_lib"
  "cl_crypto_text (ys_lib sample_system) = cl_crypto_text sample_lib"
  "cl_parse_uuid (ys_lib sample_system) txt = Some (of_nat (length txt))"
  "cl_uuid_text (ys_lib sample_system) u = replicate (unat u) CHR ''x''"
  by (simp_all add: sample_system_def sample_accounts_def)

lemma sample_seals: "\<exists>body. encrypt_ticket (ys_lib sample_system) sample_custodian sample_nonce tk = Inr body"
  using sample_encrypts [of tk] unfolding encrypt_ticket_def sample_ys_lib sample_rnd_def .

lemma sample_decode:
  assumes "60 \<le> now" and "now \<le> uint (cm_exp cl) + 60"
  shows "al_jwt_decode sample_accounts secret now (sample_token cl) = Some cl"
proof -
  have "al_jwt_encode sample_accounts secret cl = Inr (sample_token cl)" by (simp add: sample_token_def)
  from sample_accounts_laws(4) [unfolded token_ok_def, rule_format, OF this assms(1)] assms(2)
  show ?thesis by simp
qed

definition sample_claims :: claims where
  "sample_claims = \<lparr>cm_sub = ''xxxxx'', cm_exp = 1000, cm_role = ''ReadOnly''\<rparr>"

text \<open>The state after a ticket was created.\<close>

lemma sample_with_ticket:
  obtains b i row where "system_inv sample_system mem_locks mem_db ((RBT.empty, sample_metrics), b)"
    and "stored_rows mem_db b i = Some row" and "\<not> sk_deleted row"
    and "seals (ys_lib sample_system) sample_custodian i row ((new_ticket epoch sample_create 1 2)\<lparr>tk_ticket_id := i\<rparr>)"
proof -
  let ?L = "ys_lib sample_system" and ?n = "(RBT.empty, sample_metrics) :: memdb \<times> metrics"
  obtain body where body: "encrypt_ticket ?L sample_custodian sample_nonce (new_ticket epoch sample_create 1 2) = Inr body"
    using sample_seals by blast
  have args: "cr_title sample_create \<noteq> []" "cl_parse_uuid ?L (cr_account_uuid sample_create) = Some 1"
    "cl_parse_uuid ?L (cr_created_by_uuid sample_create) = Some 2" "length (snd sample_nonce) = 12"
    by (simp_all add: sample_create_def)
  have "deployed ?L sample_custodian sample_server mem_db 0"
    using sample_system_deployed by (simp add: deployed_system_def)
  note over = deployed_over [OF this, where K = "\<lambda>_. True"]
  obtain i b' where run: "cs_create_ticket ?L sample_custodian epoch 0 sample_nonce sample_create (?n, sample_begin)
       = (Inr (domain_to_proto ?L ((new_ticket epoch sample_create 1 2)\<lparr>tk_ticket_id := i\<rparr>)), (?n, b'))"
    and row: "sealed_as ?L sample_custodian (stored_rows mem_db b') i ((new_ticket epoch sample_create 1 2)\<lparr>tk_ticket_id := i\<rparr>)"
    and vis: "visible False (stored_rows mem_db b' i) = stored_rows mem_db b' i"
    using custodian_over.create_run [OF over sample_start_ok(1,2) args(1-3) body args(4), of 0 ?n] by blast
  have "system_kept sample_system mem_locks mem_db sample_start
      (snd (cs_create_ticket ?L (ys_custodian sample_system) epoch 0 (dw_rnd sample_draws) sample_create sample_start))"
    by (rule ticket_requests_keep [OF sample_system_deployed sample_system_start])
      (use sample_draws_start in simp)
  then have "system_inv sample_system mem_locks mem_db (?n, b')"
    using run by (simp add: system_kept_def sample_draws_def)
  moreover obtain row where row: "stored_rows mem_db b' i = Some row"
    "seals ?L sample_custodian i row ((new_ticket epoch sample_create 1 2)\<lparr>tk_ticket_id := i\<rparr>)"
    using row unfolding sealed_as_def by blast
  moreover have "\<not> sk_deleted row" using vis row(1) by (auto simp: visible_def split: if_splits)
  ultimately show ?thesis using that by blast
qed

subsection \<open>The token check\<close>

text \<open>The claims of the request's bearer token, when it has a valid one.\<close>

definition bearer_claims :: "web_lib \<Rightarrow> 'ch app_state \<Rightarrow> int \<Rightarrow> http_request \<Rightarrow> claims option" where
  "bearer_claims G st now req =
     (case Option.bind (hq_authorization req) (wl_header_text G) of
        None \<Rightarrow> None
      | Some h \<Rightarrow> if take 7 h = ''Bearer '' then wl_jwt_decode G (ap_jwt_secret st) now (drop 7 h) else None)"

definition head_only :: "http_request \<Rightarrow> http_response \<times> 'g \<Rightarrow> http_response \<times> 'g" where
  "head_only req = (\<lambda>(resp, g). (if hq_method req = HEAD then resp\<lparr>hp_body := NoBody\<rparr> else resp, g))"

lemma middleware_claims:
  "auth_middleware G (ap_jwt_secret st) now req nxt =
     (case bearer_claims G st now req of None \<Rightarrow> bare HTTP_UNAUTHORIZED | Some c \<Rightarrow> nxt c)"
  by (simp add: auth_middleware_def bearer_claims_def split: option.split)

lemma rest_app_routed:
  "route_of (hq_method req) (hq_path req) = Some r \<Longrightarrow>
     rest_app G B st now req g = head_only req (run_route G B st now req r g)"
  by (simp add: rest_app_def head_only_def split: prod.split)

lemma run_protected:
  "protected r \<Longrightarrow> run_route G B st now req r =
     (case bearer_claims G st now req of
        None \<Rightarrow> bare HTTP_UNAUTHORIZED | Some c \<Rightarrow> api_route G B (ap_clients st) req r c)"
  unfolding middleware_claims [symmetric] by (cases r) (simp_all add: run_route_def)

lemma rest_app_token:
  assumes "route_of (hq_method req) (hq_path req) = Some r" and "protected r"
    and "bearer_claims G st now req = Some c"
  shows "rest_app G B st now req g = head_only req (api_route G B (ap_clients st) req r c g)"
  using assms by (simp add: rest_app_routed run_protected)

text \<open>
C8: the routes behind the token check are exactly those other than the health probe, the login
  and the creation of an account. Without a bearer token that decodes under the gateway's secret
  such a request is answered 401 with an empty body and no backend is called. With one the answer
  and the effect are those of the route's handler (a HEAD request keeps the status and loses the
  body), and of the claims only the subject has a part in it, neither the role nor the expiry: the
  handler is the same for all claims with one subject, and, but for the creation and the change of
  a ticket, for all claims.
\<close>

theorem token_check:
  assumes "route_of (hq_method req) (hq_path req) = Some r"
  shows "(protected r \<longleftrightarrow> r \<notin> {RHealth, RLogin, RCreateUser})
     \<and> (protected r \<and> bearer_claims G st now req = None \<longrightarrow>
          rest_app G B st now req g = (\<lparr>hp_status = HTTP_UNAUTHORIZED, hp_body = NoBody\<rparr>, g))
     \<and> (protected r \<and> bearer_claims G st now req = Some cl \<longrightarrow>
          rest_app G B st now req g =
            (let (resp, g') = api_route G B (ap_clients st) req r cl g
             in (if hq_method req = HEAD then resp\<lparr>hp_body := NoBody\<rparr> else resp, g')))
     \<and> (cm_sub claims = cm_sub claims' \<longrightarrow> api_route G B c req r claims = api_route G B c req r claims')
     \<and> ((\<nexists>i. r = RCreateTicket \<or> r = RUpdateTicket i) \<longrightarrow>
          api_route G B c req r claims = api_route G B c req r claims')"
proof (intro conjI)
  show "protected r \<longleftrightarrow> r \<notin> {RHealth, RLogin, RCreateUser}" by (cases r) simp_all
  show "protected r \<and> bearer_claims G st now req = None \<longrightarrow>
       rest_app G B st now req g = (\<lparr>hp_status = HTTP_UNAUTHORIZED, hp_body = NoBody\<rparr>, g)"
    using assms by (auto simp: rest_app_routed run_protected bare_def head_only_def)
  show "protected r \<and> bearer_claims G st now req = Some cl \<longrightarrow>
       rest_app G B st now req g =
         (let (resp, g') = api_route G B (ap_clients st) req r cl g
          in (if hq_method req = HEAD then resp\<lparr>hp_body := NoBody\<rparr> else resp, g'))"
    using assms by (auto simp: rest_app_routed run_protected head_only_def split: prod.split)
  show "cm_sub claims = cm_sub claims' \<longrightarrow> api_route G B c req r claims = api_route G B c req r claims'"
    by (cases r) (simp_all add: rest_create_ticket_def rest_update_ticket_def)
  show "(\<nexists>i. r = RCreateTicket \<or> r = RUpdateTicket i) \<longrightarrow> api_route G B c req r claims = api_route G B c req r claims'"
    by (cases r) simp_all
qed

lemma split_on_plain: "sep \<notin> set s \<Longrightarrow> split_on sep s = [s]"
  by (induction s) auto

text \<open>A parameter of a path is its last segment.\<close>

lemma route_of_ticket:
  assumes "CHR ''/'' \<notin> set seg" and "seg \<noteq> []"
  shows "route_of GET (''/api/tickets/'' @ seg) = Some (RGetTicket seg)"
    and "route_of PUT (''/api/tickets/'' @ seg) = Some (RUpdateTicket seg)"
    and "route_of PUT (''/api/admin/users/'' @ seg) = Some (RUpdateUser seg)"
  using assms by (simp_all add: route_of_def split_on_plain is_get_def)

lemma route_of_fixed:
  "route_of POST ''/auth/login'' = Some RLogin" "route_of POST ''/api/tickets'' = Some RCreateTicket"
  "route_of POST ''/api/admin/users'' = Some RCreateUser" "route_of GET ''/api/tickets'' = Some RListTickets"
  by (simp_all add: route_of_def is_get_def)

lemma sample_bearer:
  assumes "60 \<le> now" and "now \<le> uint (cm_exp cl) + 60"
  shows "bearer_claims sample_web sample_app now (sample_request m p (Some (sample_token cl))) = Some cl"
  using sample_decode [OF assms]
  by (simp add: bearer_claims_def sample_request_def sample_web_def sample_app_def)

theorem token_check_witness:
  "rest_app sample_web sample_backends sample_app 100 (sample_request PUT ''/api/tickets/7'' None) sample_start
     = (\<lparr>hp_status = 401, hp_body = NoBody\<rparr>, sample_start)
   \<and> rest_app sample_web sample_backends sample_app 100
       (sample_request PUT ''/api/tickets/7'' (Some (sample_token sample_claims))) sample_start
     = api_route sample_web sample_backends (ap_clients sample_app)
         (sample_request PUT ''/api/tickets/7'' (Some (sample_token sample_claims))) (RUpdateTicket ''7'') sample_claims sample_start"
proof
  let ?bare = "sample_request PUT ''/api/tickets/7'' None"
  let ?req = "sample_request PUT ''/api/tickets/7'' (Some (sample_token sample_claims))"
  have route: "route_of (hq_method ?bare) (hq_path ?bare) = Some (RUpdateTicket ''7'')"
    by (simp add: route_of_def is_get_def sample_request_def)
  have none: "bearer_claims sample_web sample_app 100 ?bare = None"
    by (simp add: bearer_claims_def sample_request_def)
  show "rest_app sample_web sample_backends sample_app 100 ?bare sample_start
      = (\<lparr>hp_status = 401, hp_body = NoBody\<rparr>, sample_start)"
    by (rule mp [OF conjunct1 [OF conjunct2 [OF token_check [OF route]]]]) (simp add: none)
  have "route_of (hq_method ?req) (hq_path ?req) = Some (RUpdateTicket ''7'')" and put: "hq_method ?req \<noteq> HEAD"
    by (simp_all add: route_of_def is_get_def sample_request_def)
  from conjunct1 [OF conjunct2 [OF conjunct2 [OF token_check [OF this(1)]]]]
  have "protected (RUpdateTicket ''7'') \<and> bearer_claims sample_web sample_app 100 ?req = Some sample_claims \<longrightarrow>
      rest_app sample_web sample_backends sample_app 100 ?req sample_start
      = (let (resp, g') = api_route sample_web sample_backends (ap_clients sample_app) ?req (RUpdateTicket ''7'') sample_claims sample_start
         in (if hq_method ?req = HEAD then resp\<lparr>hp_body := NoBody\<rparr> else resp, g'))" .
  moreover have "bearer_claims sample_web sample_app 100 ?req = Some sample_claims"
    by (rule sample_bearer) (simp_all add: sample_claims_def)
  ultimately show "rest_app sample_web sample_backends sample_app 100 ?req sample_start
      = api_route sample_web sample_backends (ap_clients sample_app) ?req (RUpdateTicket ''7'') sample_claims sample_start"
    using put by simp
qed

subsection \<open>Errors and health\<close>

text \<open>
  The call a route's handler makes, with the arguments the request gives, fails with \<open>e\<close>. A query
  of tickets fails at once or with the first item of its stream that fails.
\<close>

fun call_fails ::
  "web_lib \<Rightarrow> ('ch, 'g) backends \<Rightarrow> 'ch clients \<Rightarrow> http_request \<Rightarrow> route \<Rightarrow> claims \<Rightarrow> status \<Rightarrow> 'g \<Rightarrow> 'g \<Rightarrow> bool" where
  "call_fails G B c req RHealth cl e g g' \<longleftrightarrow> False"
| "call_fails G B c req RLogin cl e g g' \<longleftrightarrow> (\<exists>p. wl_login G req = Inr p
     \<and> bk_authenticate B (gc_auth c) \<lparr>nq_username = lr_username p, nq_password = lr_password p,
          nq_mfa_token = (case lr_mfa_token p of Some t \<Rightarrow> t | None \<Rightarrow> [])\<rparr> g = (Inl e, g'))"
| "call_fails G B c req RCreateUser cl e g g' \<longleftrightarrow> (\<exists>p. wl_create_user G req = Inr p
     \<and> bk_create_user B (gc_admin c) p g = (Inl e, g'))"
| "call_fails G B c req RListUsers cl e g g' \<longleftrightarrow> (\<exists>p. wl_list_users G req = Inr p
     \<and> bk_list_users B (gc_admin c) \<lparr>pg_page = (case lu_page p of Some n \<Rightarrow> n | None \<Rightarrow> 0),
          pg_page_size = (case lu_page_size p of Some n \<Rightarrow> n | None \<Rightarrow> 0)\<rparr> g = (Inl e, g'))"
| "call_fails G B c req (RGetUser seg) cl e g g' \<longleftrightarrow> (\<exists>i. wl_path_text G seg = Inr i
     \<and> bk_get_user B (gc_admin c) i g = (Inl e, g'))"
| "call_fails G B c req (RUpdateUser seg) cl e g g' \<longleftrightarrow> (\<exists>i p. wl_path_text G seg = Inr i \<and> wl_update_user G req = Inr p
     \<and> bk_update_user B (gc_admin c) \<lparr>eu_id = i, eu_email = uc_email p, eu_display_name = uc_display_name p,
          eu_role = uc_role p, eu_active = uc_active p, eu_password = uc_password p\<rparr> g = (Inl e, g'))"
| "call_fails G B c req (RDeleteUser seg) cl e g g' \<longleftrightarrow> (\<exists>i. wl_path_text G seg = Inr i
     \<and> bk_delete_user B (gc_admin c) i g = (Inl e, g'))"
| "call_fails G B c req RCreateTicket cl e g g' \<longleftrightarrow> (\<exists>p. wl_create_ticket G req = Inr p
     \<and> bk_create_ticket B (gc_custodian c) \<lparr>cr_title = nb_title p, cr_project = nb_project p,
          cr_account_uuid = nb_account_uuid p, cr_symptom = nb_symptom p, cr_priority = nb_priority p,
          cr_created_by_uuid = cm_sub cl, cr_customer_ticket_number = None, cr_isp_ticket_number = None,
          cr_other_ticket_number = None, cr_ebond = None, cr_tracking_url = None, cr_network_devices = []\<rparr> g = (Inl e, g'))"
| "call_fails G B c req RListTickets cl e g g' \<longleftrightarrow> (\<exists>p x. wl_list_tickets G req = Inr p
     \<and> bk_query_tickets B (gc_custodian c) \<lparr>qm_status = lt_status p, qm_assigned_to_uuid = lt_assignee p,
          qm_account_uuid = lt_account p, qm_project = lt_project p,
          qm_include_deleted = (case lt_include_deleted p of Some b \<Rightarrow> b | None \<Rightarrow> False),
          qm_limit = (case lt_limit p of Some n \<Rightarrow> n | None \<Rightarrow> 0)\<rparr> g = (x, g')
     \<and> (x = Inl e \<or> (\<exists>ts rest. x = Inr (map Inr ts @ Inl e # rest))))"
| "call_fails G B c req (RGetTicket seg) cl e g g' \<longleftrightarrow> (\<exists>i. wl_path_u64 G seg = Inr i
     \<and> bk_get_ticket B (gc_custodian c) i g = (Inl e, g'))"
| "call_fails G B c req (RUpdateTicket seg) cl e g g' \<longleftrightarrow> (\<exists>i p. wl_path_u64 G seg = Inr i \<and> wl_update_ticket G req = Inr p
     \<and> bk_update_ticket B (gc_custodian c) \<lparr>up_ticket_id = i, up_title = tc_title p, up_project = tc_project p,
          up_symptom = None, up_priority = tc_priority p, up_status = tc_status p,
          up_next_action = map_option to_proto_next_action (tc_next_action p),
          up_resolution = None, up_assigned_to_uuid = None, up_updated_by_uuid = Some (cm_sub cl),
          up_ebond = None, up_tracking_url = None, up_network_devices = []\<rparr> g = (Inl e, g'))"

fun ticket_route :: "route \<Rightarrow> bool" where
  "ticket_route RCreateTicket = True"
| "ticket_route RListTickets = True"
| "ticket_route (RGetTicket seg) = True"
| "ticket_route (RUpdateTicket seg) = True"
| "ticket_route _ = False"

lemma collect_first_error: "collect_res (map Inr xs @ Inl e # rest) = Inl e"
  by (induction xs) simp_all

definition failed_answer :: "web_lib \<Rightarrow> route \<Rightarrow> status \<Rightarrow> 'g reply" where
  "failed_answer G r e g = (error_response (if ticket_route r
      then (if \<exists>seg. r = RGetTicket seg then api_not_found (wl_status_text G e) else api_internal (wl_status_text G e))
      else api_error_of e), g)"

lemma respond_failed: "m g = (Inl e, g') \<Longrightarrow> respond (bindA (map_err f m) k) g = (error_response (f e), g')"
  "m g = (Inl e, g') \<Longrightarrow> respond (thenA (map_err f m) n) g = (error_response (f e), g')"
  by (simp_all add: respond_def thenA_def bindA_def map_err_def)

lemma query_failed:
  "bk_query_tickets B (gc_custodian c) q g = (Inl e, g') \<Longrightarrow> cc_query_tickets B c q g = (Inl e, g')"
  "bk_query_tickets B (gc_custodian c) q g = (Inr (map Inr ts @ Inl e # rest), g') \<Longrightarrow> cc_query_tickets B c q g = (Inl e, g')"
  by (simp_all add: cc_query_tickets_def bindA_def lift_res_def throw_def collect_first_error)

lemma failed_api_route:
  assumes "call_fails G B c req r cl e g g'" and "protected r"
  shows "api_route G B c req r cl g = failed_answer G r e g'"
  using assms
  by (cases r) (auto simp: failed_answer_def with_extracted_def rest_defs cc_create_ticket_def cc_get_ticket_def
      cc_update_ticket_def dc_list_users_def dc_get_user_def dc_update_user_def dc_delete_user_def
      intro!: respond_failed intro: query_failed)

lemma failed_open_route:
  assumes "call_fails G B (ap_clients st) req r cl e g g'" and "\<not> protected r"
  shows "run_route G B st now req r g = failed_answer G r e g'"
  using assms
  by (cases r) (auto simp: run_route_def failed_answer_def with_extracted_def rest_defs ac_authenticate_def
      dc_create_user_def intro!: respond_failed)

text \<open>
C13: what a client sees of a backend's failure. On the account routes the status reaches the
  client with its message, under an HTTP status and a code of its own kind. The ticket routes drop
  it: whatever the custodian answered, a missing lock or a refused status included, creating,
  listing and changing tickets answer 500 \<open>internal\<close>, and reading a ticket answers 404
  \<open>not_found\<close> even when the custodian cannot be reached. The state is the one the failed call
  left: nothing is tried again. This holds of every route, of whatever backends, and of the
  request as the routing table, the token check and the extractors took it apart; the answer to a
  HEAD request keeps the status and loses the body.
\<close>

theorem error_answers:
  assumes route: "route_of (hq_method req) (hq_path req) = Some r"
    and token: "protected r \<longrightarrow> bearer_claims G st now req = Some cl"
    and fails: "call_fails G B (ap_clients st) req r cl e g g'"
  shows "rest_app G B st now req g = head_only req
     (if ticket_route r
      then (if \<exists>seg. r = RGetTicket seg
            then \<lparr>hp_status = 404, hp_body = ErrorBody ''not_found'' (wl_status_text G e)\<rparr>
            else \<lparr>hp_status = 500, hp_body = ErrorBody ''internal'' (wl_status_text G e)\<rparr>)
      else (case e of
          InvalidArgument m \<Rightarrow> \<lparr>hp_status = 400, hp_body = ErrorBody ''invalid_argument'' m\<rparr>
        | Unauthenticated m \<Rightarrow> \<lparr>hp_status = 401, hp_body = ErrorBody ''unauthenticated'' m\<rparr>
        | PermissionDenied m \<Rightarrow> \<lparr>hp_status = 403, hp_body = ErrorBody ''permission_denied'' m\<rparr>
        | NotFoundStatus m \<Rightarrow> \<lparr>hp_status = 404, hp_body = ErrorBody ''not_found'' m\<rparr>
        | Unavailable m \<Rightarrow> \<lparr>hp_status = 503, hp_body = ErrorBody ''unavailable'' m\<rparr>
        | Internal m \<Rightarrow> \<lparr>hp_status = 500, hp_body = ErrorBody ''internal'' m\<rparr>
        | FailedPrecondition m \<Rightarrow> \<lparr>hp_status = 500, hp_body = ErrorBody ''internal'' m\<rparr>
        | UnimplementedStatus m \<Rightarrow> \<lparr>hp_status = 500, hp_body = ErrorBody ''internal'' m\<rparr>), g')"
proof -
  have err: "error_response (api_error_of e) = (case e of
          InvalidArgument m \<Rightarrow> \<lparr>hp_status = 400, hp_body = ErrorBody ''invalid_argument'' m\<rparr>
        | Unauthenticated m \<Rightarrow> \<lparr>hp_status = 401, hp_body = ErrorBody ''unauthenticated'' m\<rparr>
        | PermissionDenied m \<Rightarrow> \<lparr>hp_status = 403, hp_body = ErrorBody ''permission_denied'' m\<rparr>
        | NotFoundStatus m \<Rightarrow> \<lparr>hp_status = 404, hp_body = ErrorBody ''not_found'' m\<rparr>
        | Unavailable m \<Rightarrow> \<lparr>hp_status = 503, hp_body = ErrorBody ''unavailable'' m\<rparr>
        | Internal m \<Rightarrow> \<lparr>hp_status = 500, hp_body = ErrorBody ''internal'' m\<rparr>
        | FailedPrecondition m \<Rightarrow> \<lparr>hp_status = 500, hp_body = ErrorBody ''internal'' m\<rparr>
        | UnimplementedStatus m \<Rightarrow> \<lparr>hp_status = 500, hp_body = ErrorBody ''internal'' m\<rparr>)"
    by (cases e) (simp_all add: error_response_def api_error_new_def)
  have "run_route G B st now req r g = failed_answer G r e g'"
  proof (cases "protected r")
    case True
    then show ?thesis using token failed_api_route [OF fails] by (simp add: run_protected)
  qed (rule failed_open_route [OF fails])
  then show ?thesis
    unfolding rest_app_routed [OF route] failed_answer_def err [symmetric]
    by (simp add: error_response_def api_internal_def api_not_found_def api_error_new_def)
qed

theorem error_answers_witness:
  "fst (rest_app sample_web sample_backends sample_app 100
       (sample_request GET ''/api/tickets/7'' (Some (sample_token sample_claims))) sample_start)
     = \<lparr>hp_status = 404, hp_body = ErrorBody ''not_found'' (wl_status_text sample_web (NotFoundStatus ''ticket not found''))\<rparr>"
proof -
  let ?req = "sample_request GET ''/api/tickets/7'' (Some (sample_token sample_claims))"
  have route: "route_of (hq_method ?req) (hq_path ?req) = Some (RGetTicket ''7'')"
    by (simp add: route_of_def is_get_def sample_request_def)
  have token: "protected (RGetTicket ''7'') \<longrightarrow> bearer_claims sample_web sample_app 100 ?req = Some sample_claims"
    using sample_bearer [of 100 sample_claims] by (simp add: sample_claims_def)
  have "deployed (ys_lib sample_system) sample_custodian sample_server mem_db 0"
    using sample_system_deployed by (simp add: deployed_system_def)
  note over = deployed_over [OF this, where K = "\<lambda>_. True"]
  have "visible False (stored_rows mem_db sample_begin 1) = None" by (simp add: visible_def served_empty)
  moreover obtain b' where "cs_get_ticket (ys_lib sample_system) sample_custodian 1 sample_start =
      (case visible False (stored_rows mem_db sample_begin 1) of
         None \<Rightarrow> Inl (NotFoundStatus ''ticket not found'')
       | Some row \<Rightarrow> mapR (domain_to_proto (ys_lib sample_system))
           (decrypt_ticket (ys_lib sample_system) sample_custodian 1 (sk_body row)), (RBT.empty, sample_metrics), b')"
    using custodian_over.get_run [OF over sample_start_ok(1), of 1 "(RBT.empty, sample_metrics)"] by blast
  ultimately have "\<exists>g'. call_fails sample_web sample_backends (ap_clients sample_app) ?req (RGetTicket ''7'') sample_claims
      (NotFoundStatus ''ticket not found'') sample_start g'"
    by (simp add: system_backends_def sample_web_def)
  then obtain g' where "call_fails sample_web sample_backends (ap_clients sample_app) ?req (RGetTicket ''7'') sample_claims
      (NotFoundStatus ''ticket not found'') sample_start g'" by blast
  from error_answers [OF route token this] show ?thesis by (simp add: head_only_def sample_request_def)
qed

text \<open>
The health answer is 200 and \<open>ok\<close> exactly when both probes were answered, whatever they
  said, and 503 otherwise; it names the two backends it probes, and the administration service is
  not one of them.
\<close>

theorem health_answer:
  shows "\<exists>st body a k g'. respond (rest_health B c) g = (\<lparr>hp_status = st, hp_body = HealthBody body [''auth'' \<mapsto> a, ''custodian'' \<mapsto> k]\<rparr>, g')
     \<and> (st = 200 \<longleftrightarrow> \<not> isl (fst (bk_validate_session B (gc_auth c) [] g))
          \<and> \<not> isl (fst (bk_cluster_status B (gc_custodian c) (snd (bk_validate_session B (gc_auth c) [] g)))))
     \<and> (st = 200 \<or> st = 503) \<and> (st = 200 \<longleftrightarrow> body = ''ok'') \<and> (a = ''up'' \<or> a = ''down'')
     \<and> (st = 200 \<longleftrightarrow> a = ''up'' \<and> k = ''up'')"
  by (auto simp: rest_health_def probe_def respond_def client_defs thenA_def bindA_def ret_def Let_def up_down_def
      split: prod.split sum.split)

subsection \<open>Every sequence of requests\<close>



text \<open>
C10: the REST interface cannot change a ticket. It has no request for a lock, and the custodian
  refuses a change whose author holds none: so a ticket whose lock is free stays as it is under
  every sequence of requests, and the request to change it is answered 500 \<open>internal\<close> for every
  user, every token and every body.
\<close>

theorem unlocked_ticket_frozen:
  assumes dep: "deployed_system Y E P F t" and inv: "system_inv Y E F s" and steps: "(gateway_step G Y E F st)\<^sup>*\<^sup>* s s'"
    and free: "locks_of E (view E (fst (fst s))) i = None" and row: "stored_rows F (snd s) i = Some row"
    and route: "hq_method req = PUT" "route_of PUT (hq_path req) = Some (RUpdateTicket seg)"
    and args: "bearer_claims G st now req = Some cl" "wl_path_u64 G seg = Inr i" "wl_update_ticket G req = Inr tc"
  shows "stored_rows F (snd s') i = Some row
     \<and> (\<exists>m. fst (rest_app G (system_backends Y E w) st now req s')
            = \<lparr>hp_status = 500, hp_body = ErrorBody ''internal'' (wl_status_text G m)\<rparr>)"
proof
  note kept = reach_kept [OF steps dep inv]
  let ?may = "\<lambda>i u. \<exists>k. holds (locks_of E (view E (fst (fst s)))) i u k"
  have "(rows_step (ys_lib Y) (ys_custodian Y) ?may)\<^sup>*\<^sup>* (stored_rows F (snd s)) (stored_rows F (snd s'))"
    using kept by (simp add: system_kept_def)
  then show "stored_rows F (snd s') i = Some row"
    by (rule rows_unlocked [where R = "stored_rows F (snd s)" and i = i and row = row])
      (simp_all add: holds_def free row)
  obtain c r b where s': "s' = ((c, r), b)" by (metis prod.collapse)
  have "locks_inv E (view E (fst (fst s')))" and "view E (fst (fst s')) = view E (fst (fst s))"
    using kept unfolding system_kept_def system_inv_def by blast+
  then have locks: "locks_inv E (view E c)" and same: "view E c = view E (fst (fst s))" unfolding s' fst_conv by simp_all
  let ?upd = "\<lparr>up_ticket_id = i, up_title = tc_title tc, up_project = tc_project tc,
          up_symptom = None, up_priority = tc_priority tc, up_status = tc_status tc,
          up_next_action = map_option to_proto_next_action (tc_next_action tc),
          up_resolution = None, up_assigned_to_uuid = None, up_updated_by_uuid = Some (cm_sub cl),
          up_ebond = None, up_tracking_url = None, up_network_devices = []\<rparr>"
  have none: "\<forall>s u. up_updated_by_uuid ?upd = Some s \<longrightarrow> cl_parse_uuid (ys_lib Y) s = Some u \<longrightarrow>
       \<not> holds (locks_of E (view E c)) (up_ticket_id ?upd) u (dw_unix w)"
    using free by (simp add: holds_def same)
  have "lock_env_ok E" using dep by (simp add: deployed_system_def)
  from update_refused [OF this locks none, where Q = "ys_custodian Y" and t = "dw_now w" and rnd = "dw_rnd w" and r = r and b = b]
  obtain e c' where
    "cs_update_ticket (ys_lib Y) E (ys_custodian Y) (dw_unix w) (dw_now w) (dw_rnd w) ?upd ((c, r), b) = (Inl e, ((c', r), b))"
    by blast
  then have "respond (rest_update_ticket G (system_backends Y E w) (ap_clients st) i cl tc) s'
      = (\<lparr>hp_status = 500, hp_body = ErrorBody ''internal'' (wl_status_text G e)\<rparr>, ((c', r), b))"
    by (simp add: respond_def rest_update_ticket_def client_defs system_backends_def map_err_def bindA_def s'
        error_response_def api_internal_def api_error_new_def)
  moreover have "rest_app G (system_backends Y E w) st now req s'
      = respond (rest_update_ticket G (system_backends Y E w) (ap_clients st) i cl tc) s'"
    using route args by (simp add: rest_app_token head_only_def with_extracted_def split: prod.split)
  ultimately show "\<exists>m. fst (rest_app G (system_backends Y E w) st now req s')
            = \<lparr>hp_status = 500, hp_body = ErrorBody ''internal'' (wl_status_text G m)\<rparr>" by auto
qed

theorem unlocked_ticket_frozen_witness:
  "\<exists>s i row m. stored_rows mem_db (snd s) i = Some row
     \<and> fst (rest_app sample_web sample_backends sample_app 100
          (sample_request PUT (''/api/tickets/'' @ replicate (unat i) CHR ''1'') (Some (sample_token sample_claims))) s)
       = \<lparr>hp_status = 500, hp_body = ErrorBody ''internal'' m\<rparr>"
proof -
  obtain b i row where b: "system_inv sample_system mem_locks mem_db ((RBT.empty, sample_metrics), b)"
    "stored_rows mem_db b i = Some row" by (rule sample_with_ticket) blast
  let ?s = "((RBT.empty, sample_metrics), b) :: (memdb \<times> metrics) \<times> memdb \<times> metrics"
  have "stored_rows mem_db b 0 = None" using b(1) by (simp add: system_inv_def stored_with_def)
  then have "i \<noteq> 0" using b(2) by auto
  then have "unat i \<noteq> 0" by (simp add: unat_eq_0)
  then have seg: "CHR ''/'' \<notin> set (replicate (unat i) CHR ''1'')" "replicate (unat i) CHR ''1'' \<noteq> []" by auto
  let ?req = "sample_request PUT (''/api/tickets/'' @ replicate (unat i) CHR ''1'') (Some (sample_token sample_claims))"
  have free: "locks_of mem_locks (view mem_locks (fst (fst ?s))) i = None" unfolding fst_conv mem_locks_empty(2) by simp
  have row: "stored_rows mem_db (snd ?s) i = Some row" using b(2) by simp
  have route: "hq_method ?req = PUT" "route_of PUT (hq_path ?req) = Some (RUpdateTicket (replicate (unat i) CHR ''1''))"
    using route_of_ticket(2) [OF seg] by simp_all
  have args: "bearer_claims sample_web sample_app 100 ?req = Some sample_claims"
    "wl_path_u64 sample_web (replicate (unat i) CHR ''1'') = Inr i"
    "wl_update_ticket sample_web ?req = Inr \<lparr>tc_title = Some ''up'', tc_project = None, tc_priority = None,
       tc_status = None, tc_next_action = None\<rparr>"
    by (simp_all add: sample_bearer sample_claims_def) (simp_all add: sample_web_def)
  from unlocked_ticket_frozen [OF sample_system_deployed b(1) rtranclp.rtrancl_refl free row route args, of sample_draws] row
  show ?thesis by blast
qed

end
