(* ===== verification/Gateway_Flows.thy ===== *)
theory Gateway_Flows
  imports Gateway_Spec
begin

text \<open>
  Requests that build on one another, through the gateway, the services and the database: from a
  login to a ticket, from nothing to an administrator's account, from any account to the
  administrator's role, and a scheduled action from the client's form to the client's form.
\<close>

subsection \<open>Single requests\<close>

lemma same_contents:
  assumes "contents F b1 = contents F b"
  shows "stored_rows F b1 = stored_rows F b" "stored_with F K b1 \<longleftrightarrow> stored_with F K b" "stored_room F b1 \<longleftrightarrow> stored_room F b"
    and "system_inv Y E F (n, b1) \<longleftrightarrow> system_inv Y E F (n, b)"
  using assms by (simp_all add: stored_defs system_inv_def)

definition login_request_of :: "login_request \<Rightarrow> authenticate_request" where
  "login_request_of lr = \<lparr>nq_username = lr_username lr, nq_password = lr_password lr,
     nq_mfa_token = (case lr_mfa_token lr of Some t \<Rightarrow> t | None \<Rightarrow> [])\<rparr>"

lemma login_run:
  assumes dep: "deployed_system Y E P F t" and inv: "system_inv Y E F (n, b)"
    and req: "hq_method req = POST" "hq_path req = ''/auth/login''" "wl_login G req = Inr lr"
  obtains b1 where "contents F b1 = contents F b"
    and "rest_app G (system_backends Y E w) st now req (n, b) =
      ((case login_answer (ys_accounts Y) (as_jwt_secret (ys_auth Y)) (dw_mfa_env w) (dw_totp_clock w) (dw_now w)
           (login_request_of lr) (accounts_at (ys_accounts Y) F (ys_admin Y) b) of
         Inl e \<Rightarrow> error_response (api_error_of e)
       | Inr r \<Rightarrow> if nr_success r then ok_json (TokenBody (nr_session_token r))
           else error_response (api_unauthorized (nr_error r))), (n, b1))"
proof -
  have store: "account_store (raw_requests P F) (contents F) (ys_accounts Y) (ys_auth Y) (ys_admin Y)"
    using dep by (intro deployed_store) (simp add: deployed_system_def)
  have "sound_at (ys_accounts Y) F (ys_admin Y) b" using inv by (simp add: system_inv_def)
  from account_store.does_login [OF store this, of "dw_mfa_env w" "dw_totp_clock w" "dw_now w" "login_request_of lr"]
  obtain b1 where run: "au_authenticate (ys_accounts Y) (ys_auth Y) (dw_mfa_env w) (dw_totp_clock w) (dw_now w)
      (login_request_of lr) b = (login_answer (ys_accounts Y) (as_jwt_secret (ys_auth Y)) (dw_mfa_env w)
         (dw_totp_clock w) (dw_now w) (login_request_of lr) (accounts_at (ys_accounts Y) F (ys_admin Y) b), b1)"
    and b1: "contents F b1 = contents F b" by (rule does_runE) auto
  have route: "route_of (hq_method req) (hq_path req) = Some RLogin" using req route_of_fixed by simp
  have "respond (rest_login (system_backends Y E w) (ap_clients st) lr) (n, b) =
      ((case login_answer (ys_accounts Y) (as_jwt_secret (ys_auth Y)) (dw_mfa_env w) (dw_totp_clock w) (dw_now w)
           (login_request_of lr) (accounts_at (ys_accounts Y) F (ys_admin Y) b) of
         Inl e \<Rightarrow> error_response (api_error_of e)
       | Inr r \<Rightarrow> if nr_success r then ok_json (TokenBody (nr_session_token r))
           else error_response (api_unauthorized (nr_error r))), (n, b1))"
    using run unfolding rest_login_def client_defs login_request_of_def [symmetric]
    by (simp add: system_calls respond_def bindA_def map_err_def on_db_def ret_def throw_def split: sum.split)
  then show ?thesis using that [OF b1] route req
    by (simp add: rest_app_routed run_route_def with_extracted_def head_only_def)
qed

lemma posted_user_run:
  assumes dep: "deployed_system Y E P F t" and inv: "system_inv Y E F (n, b)" and w: "draws_ok Y F w b"
    and laws: "writes_ok (ys_accounts Y) (am_keys (ys_admin Y))"
    and req: "hq_method req = POST" "hq_path req = ''/api/admin/users''" "wl_create_user G req = Inr creq"
  obtains b1 tx where "rest_app G (system_backends Y E w) st now req (n, b) = (\<lparr>hp_status = 201, hp_body = NoBody\<rparr>, (n, b1))"
    and "al_hash_password (ys_accounts Y) (utf8_bytes (nu_password creq)) (dw_salt w) = Inr tx"
    and "system_inv Y E F (n, b1)" and "stored_room F b1 \<longleftrightarrow> stored_room F b"
    and "accounts_at (ys_accounts Y) F (ys_admin Y) b1 = (accounts_at (ys_accounts Y) F (ys_admin Y) b)
      \<lparr>ac_profiles := (ac_profiles (accounts_at (ys_accounts Y) F (ys_admin Y) b))
           (dw_uuid w \<mapsto> new_account creq (dw_uuid w) (dw_now w) (dw_later w)),
       ac_logins := (ac_logins (accounts_at (ys_accounts Y) F (ys_admin Y) b))(nu_username creq \<mapsto> new_auth (dw_uuid w) tx)\<rparr>"
proof -
  have dacc: "deployed_accounts (ys_accounts Y) F P (ys_auth Y) (ys_admin Y)" using dep by (simp add: deployed_system_def)
  have sound: "sound_at (ys_accounts Y) F (ys_admin Y) b" using inv by (simp add: system_inv_def)
  have draws: "ac_profiles (accounts_at (ys_accounts Y) F (ys_admin Y) b) (dw_uuid w) = None"
    "length (snd (dw_rnd w)) = 12" "length (snd (dw_rnd2 w)) = 12" using w by (simp_all add: draws_ok_def)
  obtain tx b1 where tx: "al_hash_password (ys_accounts Y) (utf8_bytes (nu_password creq)) (dw_salt w) = Inr tx"
    and run: "ad_create_user (ys_accounts Y) (ys_admin Y) (dw_uuid w) (dw_salt w) (dw_rnd w) (dw_rnd2 w) (dw_now w) (dw_later w) creq b
      = (Inr ((user_to_proto (ys_accounts Y) (new_account creq (dw_uuid w) (dw_now w) (dw_later w)))\<lparr>um_role := nu_role creq\<rparr>), b1)"
    and acc: "accounts_at (ys_accounts Y) F (ys_admin Y) b1 = (accounts_at (ys_accounts Y) F (ys_admin Y) b)
      \<lparr>ac_profiles := (ac_profiles (accounts_at (ys_accounts Y) F (ys_admin Y) b))
           (dw_uuid w \<mapsto> new_account creq (dw_uuid w) (dw_now w) (dw_later w)),
       ac_logins := (ac_logins (accounts_at (ys_accounts Y) F (ys_admin Y) b))(nu_username creq \<mapsto> new_auth (dw_uuid w) tx)\<rparr>"
    by (rule created_account [OF dacc sound laws draws])
  have "respond (rest_create_user (system_backends Y E w) (ap_clients st) creq) (n, b) =
      (\<lparr>hp_status = 201, hp_body = NoBody\<rparr>, (n, b1))"
    using run unfolding rest_create_user_def client_defs
    by (simp add: system_calls respond_def thenA_def bindA_def map_err_def on_db_def ret_def)
  then have app: "rest_app G (system_backends Y E w) st now req (n, b) = (\<lparr>hp_status = 201, hp_body = NoBody\<rparr>, (n, b1))"
    using req route_of_fixed by (simp add: rest_app_routed run_route_def with_extracted_def head_only_def)
  have "system_kept Y E F (n, b) (n, b1)"
    using app_state [OF dep inv, of w G st now req] w app by simp
  then have inv1: "system_inv Y E F (n, b1)" by (simp add: system_kept_def)
  have store: "account_store (raw_requests P F) (contents F) (ys_accounts Y) (ys_auth Y) (ys_admin Y)"
    by (rule deployed_store [OF dacc])
  have conf: "confined (contents F) account_trees (ad_create_user (ys_accounts Y) (ys_admin Y) (dw_uuid w) (dw_salt w)
      (dw_rnd w) (dw_rnd2 w) (dw_now w) (dw_later w) creq)"
    by (rule account_store.account_handlers_confined(1) [OF store])
  have "stored_room F b1 \<longleftrightarrow> stored_room F b"
    using stored_confined(3) [OF conf, of b] run by simp
  from that [OF app tx inv1 this acc] show ?thesis .
qed

lemma token_subject:
  assumes "al_jwt_encode L secret c = Inr token" and "token_ok L" and "60 \<le> now" and "now \<le> uint (cm_exp c) + 60"
  shows "al_jwt_decode L secret now token = Some c"
  using assms(2) [unfolded token_ok_def, rule_format, OF assms(1,3)] assms(4) by simp

text \<open>A login that was answered with a token: whose it is, and for how long it is accepted.\<close>

lemma login_token:
  assumes dep: "deployed_system Y E P F t" and inv: "system_inv Y E F (n, b)"
    and secret: "ap_jwt_secret st = as_jwt_secret (ys_auth Y)" "wl_jwt_decode G = al_jwt_decode (ys_accounts Y)"
    and laws: "token_ok (ys_accounts Y)" "hours_ok (ys_accounts Y)"
    and req: "hq_method req = POST" "hq_path req = ''/auth/login''" "wl_login G req = Inr lr"
    and run: "rest_app G (system_backends Y E w) st now req (n, b) = (\<lparr>hp_status = 200, hp_body = TokenBody token\<rparr>, s1)"
    and clock: "0 \<le> dt_secs (dw_now w)" "dt_secs (dw_now w) < 2 ^ 62"
  obtains b1 a p c where "s1 = (n, b1)" and "contents F b1 = contents F b"
    and "ac_logins (accounts_at (ys_accounts Y) F (ys_admin Y) b) (lr_username lr) = Some a"
    and "ac_profiles (accounts_at (ys_accounts Y) F (ys_admin Y) b) (ua_user_id a) = Some p"
    and "us_username p = lr_username lr" and "cm_sub c = al_uuid_text (ys_accounts Y) (ua_user_id a)"
    and "\<forall>at r2. Option.bind (hq_authorization r2) (wl_header_text G) = Some (''Bearer '' @ token) \<longrightarrow> 60 \<le> at
       \<longrightarrow> at \<le> dt_secs (dw_now w) + 24 * 3600 + 60 \<longrightarrow> bearer_claims G st at r2 = Some c"
proof -
  let ?L = "ys_accounts Y" and ?s = "as_jwt_secret (ys_auth Y)"
  have store: "account_store (raw_requests P F) (contents F) ?L (ys_auth Y) (ys_admin Y)"
    using dep by (intro deployed_store) (simp add: deployed_system_def)
  have sound: "sound_at ?L F (ys_admin Y) b" using inv by (simp add: system_inv_def)
  let ?ans = "login_answer ?L ?s (dw_mfa_env w) (dw_totp_clock w) (dw_now w) (login_request_of lr) (accounts_at ?L F (ys_admin Y) b)"
  obtain b1 where b1: "contents F b1 = contents F b" and out: "rest_app G (system_backends Y E w) st now req (n, b) =
      ((case ?ans of Inl e \<Rightarrow> error_response (api_error_of e)
       | Inr r \<Rightarrow> if nr_success r then ok_json (TokenBody (nr_session_token r))
           else error_response (api_unauthorized (nr_error r))), (n, b1))"
    by (rule login_run [OF dep inv req])
  have "\<exists>r. ?ans = Inr r \<and> nr_success r \<and> nr_session_token r = token"
    using out run by (auto simp: error_response_def ok_json_def split: sum.splits if_splits)
  then obtain r where r: "?ans = Inr r \<and> nr_success r" "nr_session_token r = token" by blast
  obtain a p e where a: "ac_logins (accounts_at ?L F (ys_admin Y) b) (nq_username (login_request_of lr)) = Some a"
    "ac_profiles (accounts_at ?L F (ys_admin Y) b) (ua_user_id a) = Some p" "al_add_hours ?L (dw_now w) 24 = Some e"
    "al_jwt_encode ?L ?s (claims_of ?L p e) = Inr token"
    using r(1) [unfolded login_answer_success] r(2) by auto
  have name: "nq_username (login_request_of lr) = lr_username lr" by (simp add: login_request_of_def)
  obtain p' where "ac_profiles (accounts_at ?L F (ys_admin Y) b) (ua_user_id a) = Some p'" "us_username p' = lr_username lr"
    using inv_login_profile [OF sound a(1)] name by metis
  then have user: "us_username p = lr_username lr" using a(2) by simp
  have id: "us_user_id p = ua_user_id a" by (rule account_store.sound_profile_id [OF store sound a(2)])
  have "dt_secs e = dt_secs (dw_now w) + 24 * 3600" using laws(2) a(3) by (auto simp: hours_ok_def)
  moreover from this clock have "uint (expiry_secs e) = dt_secs e" by (intro expiry_secs_small) simp_all
  ultimately have exp: "uint (cm_exp (claims_of ?L p e)) = dt_secs (dw_now w) + 24 * 3600" by (simp add: claims_of_def)
  have "bearer_claims G st at r2 = Some (claims_of ?L p e)"
    if "Option.bind (hq_authorization r2) (wl_header_text G) = Some (''Bearer '' @ token)" "60 \<le> at"
      "at \<le> dt_secs (dw_now w) + 24 * 3600 + 60" for at r2
    using token_subject [OF a(4) laws(1) that(2)] that exp by (simp add: bearer_claims_def secret)
  moreover have "cm_sub (claims_of ?L p e) = al_uuid_text ?L (ua_user_id a)" by (simp add: claims_of_def id)
  moreover have "s1 = (n, b1)" using out run by simp
  ultimately show ?thesis using that b1 a(1,2) name user by simp
qed

text \<open>The ticket the gateway asks for.\<close>

definition ticket_request_of :: "new_ticket_body \<Rightarrow> claims \<Rightarrow> create_ticket_request" where
  "ticket_request_of nb c =
     \<lparr>cr_title = nb_title nb, cr_project = nb_project nb, cr_account_uuid = nb_account_uuid nb,
      cr_symptom = nb_symptom nb, cr_priority = nb_priority nb, cr_created_by_uuid = cm_sub c,
      cr_customer_ticket_number = None, cr_isp_ticket_number = None, cr_other_ticket_number = None,
      cr_ebond = None, cr_tracking_url = None, cr_network_devices = []\<rparr>"

lemma posted_ticket_run:
  assumes dep: "deployed_system Y E P F t" and ok: "stored_ok F b" "stored_room F b"
    and req: "hq_method req = POST" "hq_path req = ''/api/tickets''" "wl_create_ticket G req = Inr nb"
    and token: "bearer_claims G st now req = Some c" "cl_parse_uuid (ys_lib Y) (cm_sub c) = Some u"
    and body: "nb_title nb \<noteq> []" "cl_parse_uuid (ys_lib Y) (nb_account_uuid nb) = Some acc"
    and seal: "\<forall>tk. \<exists>body. encrypt_ticket (ys_lib Y) (ys_custodian Y) (dw_rnd w) tk = Inr body" "length (snd (dw_rnd w)) = 12"
  obtains i b' where "rest_app G (system_backends Y E w) st now req (n, b) = (\<lparr>hp_status = 201,
       hp_body = TicketBody (api_ticket_of (domain_to_proto (ys_lib Y)
          ((new_ticket (dw_now w) (ticket_request_of nb c) acc u)\<lparr>tk_ticket_id := i\<rparr>)))\<rparr>, (n, b'))"
    and "stored_ok F b'" and "stored_rows F b i = None"
    and "sealed_as (ys_lib Y) (ys_custodian Y) (stored_rows F b') i
       ((new_ticket (dw_now w) (ticket_request_of nb c) acc u)\<lparr>tk_ticket_id := i\<rparr>)"
    and "visible False (stored_rows F b' i) = stored_rows F b' i"
proof -
  have "deployed (ys_lib Y) (ys_custodian Y) P F t" using dep by (simp add: deployed_system_def)
  note over = deployed_over [OF this, where K = "\<lambda>_. True"]
  have args: "cr_title (ticket_request_of nb c) \<noteq> []" "cl_parse_uuid (ys_lib Y) (cr_account_uuid (ticket_request_of nb c)) = Some acc"
    "cl_parse_uuid (ys_lib Y) (cr_created_by_uuid (ticket_request_of nb c)) = Some u"
    using body token(2) by (simp_all add: ticket_request_of_def)
  obtain body where "encrypt_ticket (ys_lib Y) (ys_custodian Y) (dw_rnd w)
      (new_ticket (dw_now w) (ticket_request_of nb c) acc u) = Inr body" using seal(1) by blast
  from custodian_over.create_run [OF over ok args this seal(2), of "dw_millis w" n]
  obtain i b' where run: "cs_create_ticket (ys_lib Y) (ys_custodian Y) (dw_now w) (dw_millis w) (dw_rnd w) (ticket_request_of nb c) (n, b)
      = (Inr (domain_to_proto (ys_lib Y) ((new_ticket (dw_now w) (ticket_request_of nb c) acc u)\<lparr>tk_ticket_id := i\<rparr>)), (n, b'))"
    and rest: "stored_ok F b'" "stored_rows F b i = None" "sealed_as (ys_lib Y) (ys_custodian Y) (stored_rows F b') i
       ((new_ticket (dw_now w) (ticket_request_of nb c) acc u)\<lparr>tk_ticket_id := i\<rparr>)"
      "visible False (stored_rows F b' i) = stored_rows F b' i" by blast
  have "rest_app G (system_backends Y E w) st now req (n, b)
      = head_only req (respond (rest_create_ticket G (system_backends Y E w) (ap_clients st) c nb) (n, b))"
    using req token(1) route_of_fixed by (simp add: rest_app_token [where r = RCreateTicket and c = c] with_extracted_def)
  also have "\<dots> = (\<lparr>hp_status = 201, hp_body = TicketBody (api_ticket_of (domain_to_proto (ys_lib Y)
          ((new_ticket (dw_now w) (ticket_request_of nb c) acc u)\<lparr>tk_ticket_id := i\<rparr>)))\<rparr>, (n, b'))"
    using run req(1) unfolding rest_create_ticket_def client_defs ticket_request_of_def [symmetric]
    by (simp add: system_calls respond_def bindA_def map_err_def ret_def head_only_def)
  finally show ?thesis using rest that by blast
qed

lemma shown_ticket_run:
  assumes dep: "deployed_system Y E P F t" and ok: "stored_ok F b"
    and row: "sealed_as (ys_lib Y) (ys_custodian Y) (stored_rows F b) i tk" "visible False (stored_rows F b i) = stored_rows F b i"
    and req: "hq_method req = GET" "route_of GET (hq_path req) = Some (RGetTicket seg)" "wl_path_u64 G seg = Inr i"
    and token: "bearer_claims G st now req = Some c"
  shows "fst (rest_app G (system_backends Y E w) st now req (n, b))
     = \<lparr>hp_status = 200, hp_body = TicketBody (api_ticket_of (domain_to_proto (ys_lib Y) tk))\<rparr>"
proof -
  have "deployed (ys_lib Y) (ys_custodian Y) P F t" using dep by (simp add: deployed_system_def)
  note over = deployed_over [OF this, where K = "\<lambda>_. True"]
  obtain r where r: "stored_rows F b i = Some r" "decrypt_ticket (ys_lib Y) (ys_custodian Y) i (sk_body r) = Inr tk"
    using row(1) by (auto simp: sealed_as_def seals_def)
  then obtain b' where "cs_get_ticket (ys_lib Y) (ys_custodian Y) i (n, b) = (Inr (domain_to_proto (ys_lib Y) tk), (n, b'))"
    using custodian_over.get_run [OF over ok, of i n] row(2) by auto
  then have "respond (rest_get_ticket G (system_backends Y E w) (ap_clients st) i) (n, b)
      = (\<lparr>hp_status = 200, hp_body = TicketBody (api_ticket_of (domain_to_proto (ys_lib Y) tk))\<rparr>, (n, b'))"
    unfolding rest_get_ticket_def client_defs
    by (simp add: system_calls respond_def bindA_def map_err_def ret_def ok_json_def)
  then show ?thesis using req token
    by (simp add: rest_app_token [where r = "RGetTicket seg" and c = c] with_extracted_def head_only_def)
qed

subsection \<open>From a login to a ticket\<close>

text \<open>
C6: a client that logs in can open a ticket and read it back. The token of a successful login is
  accepted for the 24 hours it lasts; the ticket that is posted with it is answered 201 with a
  fresh id, the title that was sent, open and without a next action; what is stored under the id
  is a ticket created by the account that logged in, whatever the request says; and reading the id
  with any valid token answers the same ticket.
\<close>

theorem login_then_ticket:
  assumes dep: "deployed_system Y E P F t" and inv: "system_inv Y E F s"
    and secret: "ap_jwt_secret st = as_jwt_secret (ys_auth Y)" "wl_jwt_decode G = al_jwt_decode (ys_accounts Y)"
    and laws: "uuid_text_ok (ys_accounts Y)" "token_ok (ys_accounts Y)" "hours_ok (ys_accounts Y)"
    and r1: "hq_method r1 = POST" "hq_path r1 = ''/auth/login''" "wl_login G r1 = Inr lr"
    and run: "rest_app G (system_backends Y E w1) st n1 r1 s = (\<lparr>hp_status = 200, hp_body = TokenBody token\<rparr>, s1)"
    and clock: "0 \<le> dt_secs (dw_now w1)" "dt_secs (dw_now w1) < 2 ^ 62" "60 \<le> n2" "n2 \<le> dt_secs (dw_now w1) + 24 * 3600 + 60"
    and r2: "hq_method r2 = POST" "hq_path r2 = ''/api/tickets''" "wl_create_ticket G r2 = Inr nb"
      "Option.bind (hq_authorization r2) (wl_header_text G) = Some (''Bearer '' @ token)"
    and body: "nb_title nb \<noteq> []" "cl_parse_uuid (ys_lib Y) (nb_account_uuid nb) = Some acc"
    and seal: "\<forall>tk. \<exists>body. encrypt_ticket (ys_lib Y) (ys_custodian Y) (dw_rnd w2) tk = Inr body" "length (snd (dw_rnd w2)) = 12"
    and room: "stored_room F (snd s)"
  shows "\<exists>a p i m tk s2. ac_logins (accounts_at (ys_accounts Y) F (ys_admin Y) (snd s)) (lr_username lr) = Some a
     \<and> ac_profiles (accounts_at (ys_accounts Y) F (ys_admin Y) (snd s)) (ua_user_id a) = Some p \<and> us_username p = lr_username lr
     \<and> rest_app G (system_backends Y E w2) st n2 r2 s1 = (\<lparr>hp_status = 201, hp_body = TicketBody m\<rparr>, s2)
     \<and> at_ticket_id m = i \<and> at_title m = nb_title nb \<and> at_status m = 0 \<and> at_next_action m = None
     \<and> stored_rows F (snd s) i = None \<and> sealed_as (ys_lib Y) (ys_custodian Y) (stored_rows F (snd s2)) i tk
     \<and> tk_created_by tk = ua_user_id a
     \<and> (\<forall>w3 n3 r3 seg cl. hq_method r3 = GET \<longrightarrow> route_of GET (hq_path r3) = Some (RGetTicket seg) \<longrightarrow> wl_path_u64 G seg = Inr i
          \<longrightarrow> bearer_claims G st n3 r3 = Some cl \<longrightarrow>
          fst (rest_app G (system_backends Y E w3) st n3 r3 s2) = \<lparr>hp_status = 200, hp_body = TicketBody m\<rparr>)"
proof -
  obtain n b where s: "s = (n, b)" by (cases s)
  obtain b1 a p c where log: "s1 = (n, b1)" "contents F b1 = contents F b"
      "ac_logins (accounts_at (ys_accounts Y) F (ys_admin Y) b) (lr_username lr) = Some a"
      "ac_profiles (accounts_at (ys_accounts Y) F (ys_admin Y) b) (ua_user_id a) = Some p" "us_username p = lr_username lr"
    and sub: "cm_sub c = al_uuid_text (ys_accounts Y) (ua_user_id a)"
    and valid: "\<forall>at r2. Option.bind (hq_authorization r2) (wl_header_text G) = Some (''Bearer '' @ token) \<longrightarrow> 60 \<le> at
       \<longrightarrow> at \<le> dt_secs (dw_now w1) + 24 * 3600 + 60 \<longrightarrow> bearer_claims G st at r2 = Some c"
    by (rule login_token [OF dep inv [unfolded s] secret laws(2,3) r1 run [unfolded s] clock(1,2)])
  have "al_parse_uuid (ys_accounts Y) (cm_sub c) = Some (ua_user_id a)" using laws(1) sub by (simp add: uuid_text_ok_def)
  then have u: "cl_parse_uuid (ys_lib Y) (cm_sub c) = Some (ua_user_id a)" using dep by (simp add: deployed_system_def)
  have ok: "stored_ok F b1" "stored_room F b1" "stored_rows F b1 = stored_rows F b"
    using inv room by (simp_all add: same_contents [OF log(2)] system_inv_def s)
  obtain i b' where out: "rest_app G (system_backends Y E w2) st n2 r2 (n, b1) = (\<lparr>hp_status = 201,
       hp_body = TicketBody (api_ticket_of (domain_to_proto (ys_lib Y)
          ((new_ticket (dw_now w2) (ticket_request_of nb c) acc (ua_user_id a))\<lparr>tk_ticket_id := i\<rparr>)))\<rparr>, (n, b'))"
    and b': "stored_ok F b'" "stored_rows F b1 i = None"
      "sealed_as (ys_lib Y) (ys_custodian Y) (stored_rows F b') i
         ((new_ticket (dw_now w2) (ticket_request_of nb c) acc (ua_user_id a))\<lparr>tk_ticket_id := i\<rparr>)"
      "visible False (stored_rows F b' i) = stored_rows F b' i"
    by (rule posted_ticket_run [OF dep ok(1,2) r2(1-3) valid [rule_format, OF r2(4) clock(3,4)] u body seal])
  let ?tk = "(new_ticket (dw_now w2) (ticket_request_of nb c) acc (ua_user_id a))\<lparr>tk_ticket_id := i\<rparr>"
  let ?m = "api_ticket_of (domain_to_proto (ys_lib Y) ?tk)"
  have m: "at_ticket_id ?m = i" "at_title ?m = nb_title nb" "at_status ?m = 0" "at_next_action ?m = None"
    "tk_created_by ?tk = ua_user_id a"
    by (simp_all add: api_ticket_of_def domain_to_proto_def new_ticket_def ticket_new_def ticket_request_of_def)
  have "fst (rest_app G (system_backends Y E w3) st n3 r3 (n, b')) = \<lparr>hp_status = 200, hp_body = TicketBody ?m\<rparr>"
    if "hq_method r3 = GET" "route_of GET (hq_path r3) = Some (RGetTicket seg)" "wl_path_u64 G seg = Inr i"
      "bearer_claims G st n3 r3 = Some cl" for w3 n3 r3 seg cl
    by (rule shown_ticket_run [OF dep b'(1,3,4) that])
  with log out b' ok(3) m show ?thesis unfolding s
    by (intro exI [of _ a] exI [of _ p] exI [of _ i] exI [of _ ?m] exI [of _ ?tk] exI [of _ "(n, b')"]) simp
qed

text \<open>A state of the sample system with one account, and its login.\<close>

lemma sample_account:
  obtains b where "system_inv sample_system mem_locks mem_db (sample_begin, b)" and "stored_room mem_db b"
    and "accounts_at sample_accounts mem_db sample_admin b = \<lparr>ac_profiles = [5 \<mapsto> new_account (sample_creq\<lparr>nu_role := 0\<rparr>) 5 epoch epoch],
       ac_logins = [''ann'' \<mapsto> new_auth 5 ''$pw'']\<rparr>"
proof -
  have req: "hq_method (sample_request POST ''/api/admin/users'' None) = POST"
    "hq_path (sample_request POST ''/api/admin/users'' None) = ''/api/admin/users''"
    "wl_create_user sample_web (sample_request POST ''/api/admin/users'' None) = Inr (sample_creq\<lparr>nu_role := 0\<rparr>)"
    by (simp_all add: sample_web_def)
  have laws: "writes_ok (ys_accounts sample_system) (am_keys (ys_admin sample_system))"
    using sample_writes_ok by (simp add: sample_admin_def)
  obtain b1 tx where "al_hash_password (ys_accounts sample_system) (utf8_bytes (nu_password (sample_creq\<lparr>nu_role := 0\<rparr>)))
      (dw_salt sample_draws) = Inr tx"
    "system_inv sample_system mem_locks mem_db (sample_begin, b1)" "stored_room mem_db b1 \<longleftrightarrow> stored_room mem_db sample_begin"
    "accounts_at (ys_accounts sample_system) mem_db (ys_admin sample_system) b1 =
       (accounts_at (ys_accounts sample_system) mem_db (ys_admin sample_system) sample_begin)
      \<lparr>ac_profiles := (ac_profiles (accounts_at (ys_accounts sample_system) mem_db (ys_admin sample_system) sample_begin))
           (dw_uuid sample_draws \<mapsto> new_account (sample_creq\<lparr>nu_role := 0\<rparr>) (dw_uuid sample_draws) (dw_now sample_draws) (dw_later sample_draws)),
       ac_logins := (ac_logins (accounts_at (ys_accounts sample_system) mem_db (ys_admin sample_system) sample_begin))
           (nu_username (sample_creq\<lparr>nu_role := 0\<rparr>) \<mapsto> new_auth (dw_uuid sample_draws) tx)\<rparr>"
    by (rule posted_user_run [OF sample_system_deployed sample_system_start sample_draws_start laws req,
          where st = sample_app and now = 0])
  then show ?thesis using that [of b1] sample_start_ok(2) by (simp add: sample_draws_def sample_creq_def)
qed

lemma sample_login:
  assumes "system_inv sample_system mem_locks mem_db (sample_begin, b)"
    and "accounts_at sample_accounts mem_db sample_admin b = \<lparr>ac_profiles = [5 \<mapsto> p], ac_logins = [''ann'' \<mapsto> new_auth 5 ''$pw'']\<rparr>"
  obtains token s1 where "rest_app sample_web sample_backends sample_app 0 (sample_request POST ''/auth/login'' None) (sample_begin, b)
      = (\<lparr>hp_status = 200, hp_body = TokenBody token\<rparr>, s1)"
proof -
  have req: "hq_method (sample_request POST ''/auth/login'' None) = POST"
    "hq_path (sample_request POST ''/auth/login'' None) = ''/auth/login''"
    "wl_login sample_web (sample_request POST ''/auth/login'' None) = Inr \<lparr>lr_username = ''ann'', lr_password = ''pw'', lr_mfa_token = None\<rparr>"
    by (simp_all add: sample_web_def)
  have "\<exists>r. login_answer sample_accounts (as_jwt_secret sample_auth) (dw_mfa_env sample_draws) (dw_totp_clock sample_draws)
      (dw_now sample_draws) (login_request_of \<lparr>lr_username = ''ann'', lr_password = ''pw'', lr_mfa_token = None\<rparr>)
      (accounts_at sample_accounts mem_db sample_admin b) = Inr r \<and> nr_success r"
    unfolding assms(2) by (simp add: login_answer_def login_request_of_def new_auth_def check_mfa_def)
  then obtain r where r: "login_answer (ys_accounts sample_system) (as_jwt_secret (ys_auth sample_system)) (dw_mfa_env sample_draws)
      (dw_totp_clock sample_draws) (dw_now sample_draws)
      (login_request_of \<lparr>lr_username = ''ann'', lr_password = ''pw'', lr_mfa_token = None\<rparr>)
      (accounts_at (ys_accounts sample_system) mem_db (ys_admin sample_system) b) = Inr r" "nr_success r" by auto
  show ?thesis
    by (rule login_run [OF sample_system_deployed assms(1) req, where w = sample_draws and st = sample_app and now = 0])
      (use r that in \<open>simp add: ok_json_def\<close>)
qed

theorem login_then_ticket_witness:
  "\<exists>s token s1 m s2. rest_app sample_web sample_backends sample_app 0 (sample_request POST ''/auth/login'' None) s
       = (\<lparr>hp_status = 200, hp_body = TokenBody token\<rparr>, s1)
     \<and> rest_app sample_web sample_backends sample_app 60 (sample_request POST ''/api/tickets'' (Some token)) s1
       = (\<lparr>hp_status = 201, hp_body = TicketBody m\<rparr>, s2) \<and> at_title m = ''down''"
proof -
  obtain b where b: "system_inv sample_system mem_locks mem_db (sample_begin, b)" "stored_room mem_db b"
    "accounts_at sample_accounts mem_db sample_admin b = \<lparr>ac_profiles = [5 \<mapsto> new_account (sample_creq\<lparr>nu_role := 0\<rparr>) 5 epoch epoch],
       ac_logins = [''ann'' \<mapsto> new_auth 5 ''$pw'']\<rparr>" by (rule sample_account)
  obtain token s1 where log: "rest_app sample_web sample_backends sample_app 0 (sample_request POST ''/auth/login'' None) (sample_begin, b)
      = (\<lparr>hp_status = 200, hp_body = TokenBody token\<rparr>, s1)" by (rule sample_login [OF b(1,3)])
  let ?nb = "\<lparr>nb_title = ''down'', nb_project = ''p'', nb_account_uuid = ''a'', nb_symptom = 1, nb_priority = 1\<rparr>"
  let ?r1 = "sample_request POST ''/auth/login'' None" and ?r2 = "sample_request POST ''/api/tickets'' (Some token)"
  have secret: "ap_jwt_secret sample_app = as_jwt_secret (ys_auth sample_system)"
    "wl_jwt_decode sample_web = al_jwt_decode (ys_accounts sample_system)"
    by (simp_all add: sample_app_def sample_auth_def sample_web_def)
  have laws: "uuid_text_ok (ys_accounts sample_system)" "token_ok (ys_accounts sample_system)" "hours_ok (ys_accounts sample_system)"
    using sample_accounts_laws by simp_all
  have r1: "hq_method ?r1 = POST" "hq_path ?r1 = ''/auth/login''"
    "wl_login sample_web ?r1 = Inr \<lparr>lr_username = ''ann'', lr_password = ''pw'', lr_mfa_token = None\<rparr>"
    by (simp_all add: sample_web_def)
  have r2: "hq_method ?r2 = POST" "hq_path ?r2 = ''/api/tickets''" "wl_create_ticket sample_web ?r2 = Inr ?nb"
    "Option.bind (hq_authorization ?r2) (wl_header_text sample_web) = Some (''Bearer '' @ token)"
    by (simp_all add: sample_web_def) (simp add: sample_request_def)
  have clock: "0 \<le> dt_secs (dw_now sample_draws)" "dt_secs (dw_now sample_draws) < 2 ^ 62" "60 \<le> (60 :: int)"
    "60 \<le> dt_secs (dw_now sample_draws) + 24 * 3600 + 60"
    by (simp_all add: sample_draws_def epoch_def)
  have body: "nb_title ?nb \<noteq> []" "cl_parse_uuid (ys_lib sample_system) (nb_account_uuid ?nb) = Some 1" by simp_all
  have seal: "\<forall>tk. \<exists>body. encrypt_ticket (ys_lib sample_system) (ys_custodian sample_system) (dw_rnd sample_draws) tk = Inr body"
    "length (snd (dw_rnd sample_draws)) = 12" "stored_room mem_db (snd (sample_begin, b))"
    using sample_seals b(2) by (simp_all add: sample_draws_def)
  from login_then_ticket [OF sample_system_deployed b(1) secret laws r1 log clock r2 body seal]
  show ?thesis using log by (elim exE conjE) (intro exI conjI, assumption+, simp)
qed

subsection \<open>Who may manage accounts\<close>

text \<open>
C11: creating an account needs no token, at any time and not only for the first one. Whoever sends
  a request with role 0 and any username, one that exists included, is answered 201 and from then
  on owns that name: a login with the password that was sent is answered with a token that carries
  the administrator's role and is accepted by every protected route for as long as it lasts.
\<close>

theorem anonymous_admin:
  assumes dep: "deployed_system Y E P F t" and inv: "system_inv Y E F s" and w: "draws_ok Y F w1 (snd s)"
    and secret: "ap_jwt_secret st = as_jwt_secret (ys_auth Y)" "wl_jwt_decode G = al_jwt_decode (ys_accounts Y)"
    and laws: "writes_ok (ys_accounts Y) (am_keys (ys_admin Y))" "password_ok (ys_accounts Y)" "token_ok (ys_accounts Y)" "hours_ok (ys_accounts Y)"
    and r1: "hq_method r1 = POST" "hq_path r1 = ''/api/admin/users''" "hq_authorization r1 = None"
      "wl_create_user G r1 = Inr creq" "nu_role creq = 0"
    and r2: "hq_method r2 = POST" "hq_path r2 = ''/auth/login''" "wl_login G r2 = Inr lr"
      "lr_username lr = nu_username creq" "lr_password lr = nu_password creq"
    and issues: "al_add_hours (ys_accounts Y) (dw_now w2) 24 = Some e" "al_jwt_encode (ys_accounts Y) (as_jwt_secret (ys_auth Y))
       (claims_of (ys_accounts Y) (new_account creq (dw_uuid w1) (dw_now w1) (dw_later w1)) e) = Inr token"
    and clock: "0 \<le> dt_secs (dw_now w2)" "dt_secs (dw_now w2) < 2 ^ 62"
  shows "\<exists>s1 a p. rest_app G (system_backends Y E w1) st n1 r1 s = (\<lparr>hp_status = 201, hp_body = NoBody\<rparr>, s1)
     \<and> ac_logins (accounts_at (ys_accounts Y) F (ys_admin Y) (snd s1)) (nu_username creq) = Some a
     \<and> ac_profiles (accounts_at (ys_accounts Y) F (ys_admin Y) (snd s1)) (ua_user_id a) = Some p \<and> us_role p = Admin
     \<and> fst (rest_app G (system_backends Y E w2) st n2 r2 s1) = \<lparr>hp_status = 200, hp_body = TokenBody token\<rparr>
     \<and> (\<forall>at r3. Option.bind (hq_authorization r3) (wl_header_text G) = Some (''Bearer '' @ token) \<longrightarrow> 60 \<le> at
          \<longrightarrow> at \<le> dt_secs (dw_now w2) + 24 * 3600 + 60 \<longrightarrow>
          (\<exists>c. bearer_claims G st at r3 = Some c \<and> cm_role c = ''Admin''))"
proof -
  obtain n b where s: "s = (n, b)" by (cases s)
  let ?L = "ys_accounts Y" and ?p = "new_account creq (dw_uuid w1) (dw_now w1) (dw_later w1)"
  obtain b1 tx where run: "rest_app G (system_backends Y E w1) st n1 r1 (n, b) = (\<lparr>hp_status = 201, hp_body = NoBody\<rparr>, (n, b1))"
    and tx: "al_hash_password ?L (utf8_bytes (nu_password creq)) (dw_salt w1) = Inr tx" and inv1: "system_inv Y E F (n, b1)"
    and acc: "accounts_at ?L F (ys_admin Y) b1 = (accounts_at ?L F (ys_admin Y) b)
      \<lparr>ac_profiles := (ac_profiles (accounts_at ?L F (ys_admin Y) b))(dw_uuid w1 \<mapsto> ?p),
       ac_logins := (ac_logins (accounts_at ?L F (ys_admin Y) b))(nu_username creq \<mapsto> new_auth (dw_uuid w1) tx)\<rparr>"
    by (rule posted_user_run [OF dep inv [unfolded s] w [unfolded s snd_conv] laws(1) r1(1,2,4)])
  obtain h where h: "al_parse_hash ?L tx = Inr h" "al_verify_password ?L (utf8_bytes (nu_password creq)) h"
    using laws(2) tx unfolding password_ok_def by blast
  have ans: "login_answer ?L (as_jwt_secret (ys_auth Y)) (dw_mfa_env w2) (dw_totp_clock w2) (dw_now w2)
      (login_request_of lr) (accounts_at ?L F (ys_admin Y) b1)
      = Inr \<lparr>nr_success = True, nr_session_token = token, nr_error = [], nr_user = Some (user_info_of ?L ?p)\<rparr>"
    by (simp add: login_answer_def login_request_of_def r2(4,5) acc new_auth_def h check_mfa_def issues)
  obtain b2 where log: "rest_app G (system_backends Y E w2) st n2 r2 (n, b1)
      = (\<lparr>hp_status = 200, hp_body = TokenBody token\<rparr>, (n, b2))"
    by (rule login_run [OF dep inv1 r2(1-3), where w = w2 and st = st and now = n2]) (simp add: ans ok_json_def)
  have "dt_secs e = dt_secs (dw_now w2) + 24 * 3600" using laws(4) issues(1) by (auto simp: hours_ok_def)
  moreover from this clock have "uint (expiry_secs e) = dt_secs e" by (intro expiry_secs_small) simp_all
  ultimately have exp: "uint (cm_exp (claims_of ?L ?p e)) = dt_secs (dw_now w2) + 24 * 3600" by (simp add: claims_of_def)
  have role: "us_role ?p = Admin" by (simp add: new_account_def map_role_def r1(5))
  have "bearer_claims G st at r3 = Some (claims_of ?L ?p e) \<and> cm_role (claims_of ?L ?p e) = ''Admin''"
    if "Option.bind (hq_authorization r3) (wl_header_text G) = Some (''Bearer '' @ token)" "60 \<le> at"
      "at \<le> dt_secs (dw_now w2) + 24 * 3600 + 60" for at r3
    using token_subject [OF issues(2) laws(3) that(2)] that exp role by (simp add: bearer_claims_def secret claims_of_def)
  with run log role show ?thesis unfolding s
    by (intro exI [of _ "(n, b1)"] exI [of _ "new_auth (dw_uuid w1) tx"] exI [of _ ?p]) (simp add: acc new_auth_def)
qed

theorem anonymous_admin_witness:
  "\<exists>s1 token. rest_app sample_web sample_backends sample_app 0 (sample_request POST ''/api/admin/users'' None) sample_start
       = (\<lparr>hp_status = 201, hp_body = NoBody\<rparr>, s1)
     \<and> fst (rest_app sample_web sample_backends sample_app 0 (sample_request POST ''/auth/login'' None) s1)
       = \<lparr>hp_status = 200, hp_body = TokenBody token\<rparr>"
proof -
  let ?r1 = "sample_request POST ''/api/admin/users'' None" and ?r2 = "sample_request POST ''/auth/login'' None"
  let ?creq = "sample_creq\<lparr>nu_role := 0\<rparr>" and ?e = "epoch\<lparr>dt_secs := 86400\<rparr>"
  have secret: "ap_jwt_secret sample_app = as_jwt_secret (ys_auth sample_system)"
    "wl_jwt_decode sample_web = al_jwt_decode (ys_accounts sample_system)"
    by (simp_all add: sample_app_def sample_auth_def sample_web_def)
  have laws: "writes_ok (ys_accounts sample_system) (am_keys (ys_admin sample_system))" "password_ok (ys_accounts sample_system)"
    "token_ok (ys_accounts sample_system)" "hours_ok (ys_accounts sample_system)"
    using sample_writes_ok sample_accounts_laws by (simp_all add: sample_admin_def)
  have w: "draws_ok sample_system mem_db sample_draws (snd sample_start)" using sample_draws_start by simp
  have r1: "hq_method ?r1 = POST" "hq_path ?r1 = ''/api/admin/users''" "hq_authorization ?r1 = None"
    "wl_create_user sample_web ?r1 = Inr ?creq" "nu_role ?creq = 0"
    by (simp_all add: sample_web_def) (simp add: sample_request_def)
  have r2: "hq_method ?r2 = POST" "hq_path ?r2 = ''/auth/login''"
    "wl_login sample_web ?r2 = Inr \<lparr>lr_username = ''ann'', lr_password = ''pw'', lr_mfa_token = None\<rparr>"
    "lr_username \<lparr>lr_username = ''ann'', lr_password = ''pw'', lr_mfa_token = None\<rparr> = nu_username ?creq"
    "lr_password \<lparr>lr_username = ''ann'', lr_password = ''pw'', lr_mfa_token = None\<rparr> = nu_password ?creq"
    by (simp_all add: sample_web_def sample_creq_def)
  have issues: "al_add_hours (ys_accounts sample_system) (dw_now sample_draws) 24 = Some ?e"
    "al_jwt_encode (ys_accounts sample_system) (as_jwt_secret (ys_auth sample_system)) (claims_of (ys_accounts sample_system)
       (new_account ?creq (dw_uuid sample_draws) (dw_now sample_draws) (dw_later sample_draws)) ?e)
     = Inr (of_utf8_bytes (enc (mk_codec claims_pk) (claims_of (ys_accounts sample_system)
       (new_account ?creq (dw_uuid sample_draws) (dw_now sample_draws) (dw_later sample_draws)) ?e)))"
    by (simp_all add: sample_draws_def epoch_def)
  have clock: "0 \<le> dt_secs (dw_now sample_draws)" "dt_secs (dw_now sample_draws) < 2 ^ 62"
    by (simp_all add: sample_draws_def epoch_def)
  from anonymous_admin [OF sample_system_deployed sample_system_start w secret laws r1 r2 issues clock]
  show ?thesis by blast
qed

text \<open>
C12: any valid token can make any account an administrator. The route that changes an account
  looks at neither the token's role nor whose account it is: a request with role 0 for an existing
  account, the caller's own included, is answered 200 with the account in its new role, and the
  stored profile is the administrator's from then on.
\<close>

theorem any_token_promotes:
  assumes dep: "deployed_system Y E P F t" and inv: "system_inv Y E F s"
    and laws: "writes_ok (ys_accounts Y) (am_keys (ys_admin Y))" "password_ok (ys_accounts Y)"
    and req: "hq_method req = PUT" "route_of PUT (hq_path req) = Some (RUpdateUser seg)" "wl_path_text G seg = Inr k"
      "wl_update_user G req = Inr uc" "uc_role uc = Some 0"
    and token: "bearer_claims G st now req = Some c"
    and account: "al_parse_uuid (ys_accounts Y) k = Some i"
      "ac_profiles (accounts_at (ys_accounts Y) F (ys_admin Y) (snd s)) i = Some p"
    and rnd: "length (snd (dw_rnd w)) = 12" "length (snd (dw_rnd2 w)) = 12"
  shows "\<exists>u s1 q. rest_app G (system_backends Y E w) st now req s = (\<lparr>hp_status = 200, hp_body = UserBody u\<rparr>, s1)
     \<and> pu_role u = 0 \<and> pu_username u = us_username p
     \<and> ac_profiles (accounts_at (ys_accounts Y) F (ys_admin Y) (snd s1))
         = (ac_profiles (accounts_at (ys_accounts Y) F (ys_admin Y) (snd s)))(i \<mapsto> q) \<and> us_role q = Admin"
proof -
  obtain n b where s: "s = (n, b)" by (cases s)
  let ?req = "\<lparr>eu_id = k, eu_email = uc_email uc, eu_display_name = uc_display_name uc, eu_role = uc_role uc,
     eu_active = uc_active uc, eu_password = uc_password uc\<rparr>"
  have dacc: "deployed_accounts (ys_accounts Y) F P (ys_auth Y) (ys_admin Y)" using dep by (simp add: deployed_system_def)
  have sound: "sound_at (ys_accounts Y) F (ys_admin Y) b" using inv by (simp add: system_inv_def s)
  have "al_parse_uuid (ys_accounts Y) (eu_id ?req) = Some i" using account(1) by simp
  from updated_account [OF dacc sound laws this account(2) [unfolded s snd_conv] rnd, of "dw_now w" "dw_salt w"]
  obtain b1 where run: "ad_update_user (ys_accounts Y) (ys_admin Y) (dw_now w) (dw_salt w) (dw_rnd w) (dw_rnd2 w) ?req b
      = (Inr (user_to_proto (ys_accounts Y) (edited ?req (dw_now w) p)), b1)"
    and prof: "ac_profiles (accounts_at (ys_accounts Y) F (ys_admin Y) b1)
      = (ac_profiles (accounts_at (ys_accounts Y) F (ys_admin Y) b))(i \<mapsto> edited ?req (dw_now w) p)" by blast
  have role: "us_role (edited ?req (dw_now w) p) = Admin" "us_username (edited ?req (dw_now w) p) = us_username p"
    by (auto simp: edited_def Let_def req(5) map_role_def split: option.split)
  have "respond (rest_update_user (system_backends Y E w) (ap_clients st) k uc) (n, b)
      = (\<lparr>hp_status = 200, hp_body = UserBody (api_user_of (user_to_proto (ys_accounts Y) (edited ?req (dw_now w) p)))\<rparr>, (n, b1))"
    using run unfolding rest_update_user_def client_defs
    by (simp add: system_calls respond_def bindA_def map_err_def on_db_def ret_def user_or_404_def ok_json_def)
  then have "rest_app G (system_backends Y E w) st now req (n, b)
      = (\<lparr>hp_status = 200, hp_body = UserBody (api_user_of (user_to_proto (ys_accounts Y) (edited ?req (dw_now w) p)))\<rparr>, (n, b1))"
    using req token by (simp add: rest_app_token [where r = "RUpdateUser seg" and c = c] with_extracted_def head_only_def)
  with prof role show ?thesis unfolding s
    by (intro exI [of _ "api_user_of (user_to_proto (ys_accounts Y) (edited ?req (dw_now w) p))"] exI [of _ "(n, b1)"]
        exI [of _ "edited ?req (dw_now w) p"]) (simp add: api_user_of_def user_to_proto_def)
qed

theorem any_token_promotes_witness:
  "\<exists>s u s1. rest_app sample_web sample_backends sample_app 100
       (sample_request PUT ''/api/admin/users/xxxxx'' (Some (sample_token sample_claims))) s
     = (\<lparr>hp_status = 200, hp_body = UserBody u\<rparr>, s1) \<and> pu_role u = 0 \<and> cm_role sample_claims = ''ReadOnly''"
proof -
  obtain b where b: "system_inv sample_system mem_locks mem_db (sample_begin, b)" "stored_room mem_db b"
    "accounts_at sample_accounts mem_db sample_admin b = \<lparr>ac_profiles = [5 \<mapsto> new_account (sample_creq\<lparr>nu_role := 0\<rparr>) 5 epoch epoch],
       ac_logins = [''ann'' \<mapsto> new_auth 5 ''$pw'']\<rparr>" by (rule sample_account)
  let ?r = "sample_request PUT ''/api/admin/users/xxxxx'' (Some (sample_token sample_claims))"
  let ?uc = "\<lparr>uc_email = None, uc_display_name = None, uc_role = Some 0, uc_active = None, uc_password = None\<rparr>"
  have laws: "writes_ok (ys_accounts sample_system) (am_keys (ys_admin sample_system))" "password_ok (ys_accounts sample_system)"
    using sample_writes_ok sample_accounts_laws by (simp_all add: sample_admin_def)
  have req: "hq_method ?r = PUT" "route_of PUT (hq_path ?r) = Some (RUpdateUser ''xxxxx'')"
    "wl_path_text sample_web ''xxxxx'' = Inr ''xxxxx''" "wl_update_user sample_web ?r = Inr ?uc" "uc_role ?uc = Some 0"
    by (simp_all add: route_of_def is_get_def sample_web_def)
  have token: "bearer_claims sample_web sample_app 100 ?r = Some sample_claims"
    by (simp add: sample_bearer sample_claims_def)
  have account: "al_parse_uuid (ys_accounts sample_system) ''xxxxx'' = Some 5"
    "ac_profiles (accounts_at (ys_accounts sample_system) mem_db (ys_admin sample_system) (snd (sample_begin, b))) 5
       = Some (new_account (sample_creq\<lparr>nu_role := 0\<rparr>) 5 epoch epoch)"
    using b(3) by simp_all
  have rnd: "length (snd (dw_rnd sample_draws)) = 12" "length (snd (dw_rnd2 sample_draws)) = 12"
    by (simp_all add: sample_draws_def)
  have "cm_role sample_claims = ''ReadOnly''" by (simp add: sample_claims_def)
  with any_token_promotes [OF sample_system_deployed b(1) laws req token account rnd] show ?thesis by blast
qed

subsection \<open>Scheduled actions\<close>

text \<open>The change the gateway asks for, and a change that is made.\<close>

definition update_request_of :: "u64 \<Rightarrow> ticket_changes \<Rightarrow> claims \<Rightarrow> update_ticket_request" where
  "update_request_of i ch c =
     \<lparr>up_ticket_id = i, up_title = tc_title ch, up_project = tc_project ch,
      up_symptom = None, up_priority = tc_priority ch, up_status = tc_status ch,
      up_next_action = map_option to_proto_next_action (tc_next_action ch),
      up_resolution = None, up_assigned_to_uuid = None, up_updated_by_uuid = Some (cm_sub c),
      up_ebond = None, up_tracking_url = None, up_network_devices = []\<rparr>"

lemma put_ticket_run:
  assumes dep: "deployed_system Y E P F t" and inv: "system_inv Y E F ((l, r), b)"
    and row: "stored_rows F b i = Some row" "\<not> sk_deleted row" "seals (ys_lib Y) (ys_custodian Y) i row tk"
    and held: "holds (locks_of E (view E l)) i u (dw_unix w)"
    and req: "hq_method req = PUT" "route_of PUT (hq_path req) = Some (RUpdateTicket seg)" "wl_path_u64 G seg = Inr i"
      "wl_update_ticket G req = Inr ch"
    and token: "bearer_claims G st now req = Some c" "cl_parse_uuid (ys_lib Y) (cm_sub c) = Some u"
    and new: "apply_update (ys_lib Y) (update_request_of i ch c) u (dw_now w) tk = Inr tk'"
    and seal: "encrypt_ticket (ys_lib Y) (ys_custodian Y) (dw_rnd w) tk' = Inr body" "length (snd (dw_rnd w)) = 12"
  obtains n b' where "rest_app G (system_backends Y E w) st now req ((l, r), b) =
      (\<lparr>hp_status = 200, hp_body = TicketBody (api_ticket_of (domain_to_proto (ys_lib Y) tk'))\<rparr>, (n, b'))"
    and "stored_ok F b'" and "sealed_as (ys_lib Y) (ys_custodian Y) (stored_rows F b') i tk'"
    and "visible False (stored_rows F b' i) = stored_rows F b' i"
proof -
  let ?L = "ys_lib Y" and ?Q = "ys_custodian Y" and ?up = "update_request_of i ch c"
  have "deployed ?L ?Q P F t" and env: "lock_env_ok E" using dep by (simp_all add: deployed_system_def)
  note over = deployed_over [OF this(1), where K = "\<lambda>_. True"]
  have ok: "stored_ok F b" and locks: "locks_inv E (view E l)" using inv by (simp_all add: system_inv_def)
  have up: "up_ticket_id ?up = i" "up_updated_by_uuid ?up = Some (cm_sub c)" by (simp_all add: update_request_of_def)
  have "check_result (dw_unix w) u (locks_of E (view E l) i) = Inr ()" using held by (simp only: check_result_holds)
  then obtain l' where chk: "check_lock ?L E (dw_unix w) i u ((l, r), b) = (Inr (), ((l', r), b))"
    using check_lock_run [OF env locks, where L = ?L and now = "dw_unix w" and i = i and u = u and r = r and b = b] by auto
  note upd = custodian_over.update_run [OF over ok up(2) token(2), unfolded up(1), OF chk row,
      where now = "dw_now w" and rnd = "dw_rnd w", unfolded new seal(1) sum.case]
  from upd obtain b' where run: "cs_update_ticket ?L E ?Q (dw_unix w) (dw_now w) (dw_rnd w) ?up ((l, r), b)
      = (Inr (domain_to_proto ?L tk'), ((l', r), b'))"
    and b': "stored_ok F b'" "stored_rows F b' = (stored_rows F b)(i \<mapsto> row\<lparr>sk_body := body,
        sk_index := ticket_index_from_proto (Some (ticket_index ?L tk'))\<rparr>)"
    by auto
  have "tk_ticket_id tk' = i" using apply_update_evolves [OF new] seals_id [OF row(3)] by (simp add: evolves_def)
  moreover have "decrypt_ticket ?L ?Q i body = Inr (tk'\<lparr>tk_ticket_id := i\<rparr>)"
    by (rule seal_open [OF custodian_over.lib [OF over] seal(2,1)])
  ultimately have "decrypt_ticket ?L ?Q i body = Inr tk'" by simp
  then have stored: "sealed_as ?L ?Q (stored_rows F b') i tk'" "visible False (stored_rows F b' i) = stored_rows F b' i"
    using row(2) by (simp_all add: sealed_as_def seals_def b'(2) visible_def)
  have "respond (rest_update_ticket G (system_backends Y E w) (ap_clients st) i c ch) ((l, r), b)
      = (\<lparr>hp_status = 200, hp_body = TicketBody (api_ticket_of (domain_to_proto ?L tk'))\<rparr>, ((l', r), b'))"
    using run unfolding rest_update_ticket_def client_defs update_request_of_def [symmetric]
    by (simp add: system_calls respond_def bindA_def map_err_def ret_def ok_json_def)
  then have "rest_app G (system_backends Y E w) st now req ((l, r), b)
      = (\<lparr>hp_status = 200, hp_body = TicketBody (api_ticket_of (domain_to_proto ?L tk'))\<rparr>, ((l', r), b'))"
    using req token(1) by (simp add: rest_app_token [where r = "RUpdateTicket seg" and c = c] with_extracted_def head_only_def)
  from that [OF this b'(1) stored] show ?thesis .
qed

text \<open>Chrono reads whole seconds within its range; the others it has no time for.\<close>

definition seconds_ok :: "custodian_lib \<Rightarrow> bool" where
  "seconds_ok L \<longleftrightarrow> (\<forall>s t. cl_from_timestamp L s 0 = Some t \<longrightarrow> ts_seconds (cl_to_timestamp L t) = s)
     \<and> ts_seconds (cl_to_timestamp L epoch) = 0"

lemma seconds_shown:
  "seconds_ok L \<Longrightarrow> ts_seconds (cl_to_timestamp L (proto_to_dt L \<lparr>ts_seconds = t, ts_nanos = 0\<rparr>))
     = (if cl_from_timestamp L t 0 = None then 0 else t)"
  by (auto simp: seconds_ok_def proto_to_dt_def split: option.split)

text \<open>What the form shows of a next action that is none of the ordinary ones.\<close>

lemma action_conversions:
  assumes "seconds_ok L"
  shows "Option.bind (map_next_action L (proto_to_next_action L (to_proto_next_action input))) api_map_next_action =
    (case input of
       InputNone \<Rightarrow> None
     | InputFollowUp t \<Rightarrow> Some (ApiFollowUp (if cl_from_timestamp L t 0 = None then 0 else t))
     | InputAppointment t \<Rightarrow> Some (ApiAppointment (if cl_from_timestamp L t 0 = None then 0 else t))
     | InputAutoClose name \<Rightarrow> Some (ApiAutoClose
         (if name \<in> {''hours_24'', ''hours_48'', ''hours_72''} then name else ''end_of_day'')))"
proof (cases input)
  case (InputAutoClose name)
  consider "name = ''hours_24''" | "name = ''hours_48''" | "name = ''hours_72''"
    | "name \<notin> {''hours_24'', ''hours_48'', ''hours_72''}" by blast
  then show ?thesis
    by cases (simp_all add: InputAutoClose to_proto_next_action_def proto_to_auto_close_def api_map_next_action_def)
qed (simp_all add: to_proto_next_action_def api_map_next_action_def seconds_shown [OF assms])

lemma applied_action:
  assumes "\<forall>x. tc_status ch = Some x \<longrightarrow> can_transition_to (tk_status tk) (status_from_u8 (u8_of_i32 x))"
    and "tc_next_action ch = Some input"
  obtains tk' where "apply_update L (update_request_of i ch c) u now tk = Inr tk'"
    and "tk_next_action tk' = proto_to_next_action L (to_proto_next_action input)"
    and "tk_ticket_id tk' = tk_ticket_id tk"
proof -
  have "\<exists>tk'. apply_update L (update_request_of i ch c) u now tk = Inr tk'
      \<and> tk_next_action tk' = proto_to_next_action L (to_proto_next_action input) \<and> tk_ticket_id tk' = tk_ticket_id tk"
    using assms by (simp add: apply_update_def update_request_of_def Let_def split: option.split)
  then show ?thesis using that by blast
qed

text \<open>
C14: scheduling a ticket's next action. When the owner of a token holds the ticket's lock and sends
  a change with a next action (and no status the ticket's own does not lead to), the gateway
  answers 200 with the ticket, and so does every later read of it. The action both show is the one
  that was sent, clearing it included, with two exceptions, which are answered with success too: a
  schedule that is none of the four names becomes the end of the day, and a time chrono cannot
  represent becomes the first second of 1970.
\<close>

theorem scheduled_action_shown:
  assumes dep: "deployed_system Y E P F t" and inv: "system_inv Y E F s" and secs: "seconds_ok (ys_lib Y)"
    and row: "stored_rows F (snd s) i = Some row" "\<not> sk_deleted row" "seals (ys_lib Y) (ys_custodian Y) i row tk"
    and held: "holds (locks_of E (view E (fst (fst s)))) i u (dw_unix w)"
    and req: "hq_method req = PUT" "route_of PUT (hq_path req) = Some (RUpdateTicket seg)" "wl_path_u64 G seg = Inr i"
      "wl_update_ticket G req = Inr ch" "tc_next_action ch = Some input"
      "\<forall>x. tc_status ch = Some x \<longrightarrow> can_transition_to (tk_status tk) (status_from_u8 (u8_of_i32 x))"
    and token: "bearer_claims G st now req = Some c" "cl_parse_uuid (ys_lib Y) (cm_sub c) = Some u"
    and seal: "\<forall>tk. \<exists>body. encrypt_ticket (ys_lib Y) (ys_custodian Y) (dw_rnd w) tk = Inr body" "length (snd (dw_rnd w)) = 12"
  shows "\<exists>m s1. rest_app G (system_backends Y E w) st now req s = (\<lparr>hp_status = 200, hp_body = TicketBody m\<rparr>, s1)
     \<and> at_ticket_id m = i
     \<and> at_next_action m = (case input of
           InputNone \<Rightarrow> None
         | InputFollowUp x \<Rightarrow> Some (ApiFollowUp (if cl_from_timestamp (ys_lib Y) x 0 = None then 0 else x))
         | InputAppointment x \<Rightarrow> Some (ApiAppointment (if cl_from_timestamp (ys_lib Y) x 0 = None then 0 else x))
         | InputAutoClose name \<Rightarrow> Some (ApiAutoClose
             (if name \<in> {''hours_24'', ''hours_48'', ''hours_72''} then name else ''end_of_day'')))
     \<and> (\<forall>w3 n3 r3 seg3 cl3. hq_method r3 = GET \<longrightarrow> route_of GET (hq_path r3) = Some (RGetTicket seg3)
          \<longrightarrow> wl_path_u64 G seg3 = Inr i \<longrightarrow> bearer_claims G st n3 r3 = Some cl3 \<longrightarrow>
          fst (rest_app G (system_backends Y E w3) st n3 r3 s1) = \<lparr>hp_status = 200, hp_body = TicketBody m\<rparr>)"
proof -
  obtain l r b where s: "s = ((l, r), b)" by (metis prod.collapse)
  obtain tk' where tk': "apply_update (ys_lib Y) (update_request_of i ch c) u (dw_now w) tk = Inr tk'"
    "tk_next_action tk' = proto_to_next_action (ys_lib Y) (to_proto_next_action input)" "tk_ticket_id tk' = tk_ticket_id tk"
    by (rule applied_action [OF req(6,5)])
  obtain body where "encrypt_ticket (ys_lib Y) (ys_custodian Y) (dw_rnd w) tk' = Inr body" using seal(1) by blast
  then obtain n b' where run: "rest_app G (system_backends Y E w) st now req ((l, r), b) =
      (\<lparr>hp_status = 200, hp_body = TicketBody (api_ticket_of (domain_to_proto (ys_lib Y) tk'))\<rparr>, (n, b'))"
    and b': "stored_ok F b'" "sealed_as (ys_lib Y) (ys_custodian Y) (stored_rows F b') i tk'"
      "visible False (stored_rows F b' i) = stored_rows F b' i"
    using put_ticket_run [OF dep inv [unfolded s] row [unfolded s snd_conv] held [unfolded s fst_conv] req(1-4) token
        tk'(1) _ seal(2)] by metis
  have shown: "at_ticket_id (api_ticket_of (domain_to_proto (ys_lib Y) tk')) = i"
    using tk'(3) seals_id [OF row(3)] by (simp add: api_ticket_of_def domain_to_proto_def)
  have action: "at_next_action (api_ticket_of (domain_to_proto (ys_lib Y) tk'))
      = Option.bind (map_next_action (ys_lib Y) (proto_to_next_action (ys_lib Y) (to_proto_next_action input))) api_map_next_action"
    by (simp add: api_ticket_of_def domain_to_proto_def tk'(2))
  note read = shown_ticket_run [OF dep b']
  show ?thesis unfolding s
    by (intro exI conjI, rule run, rule shown, simp only: action action_conversions [OF secs], intro allI impI, rule read)
qed

theorem scheduled_action_shown_witness:
  "\<exists>G s p m s1. rest_app G (system_backends sample_system mem_locks (sample_draws\<lparr>dw_unix := 60\<rparr>)) sample_app 100
       (sample_request PUT p (Some (sample_token (sample_claims\<lparr>cm_sub := ''me''\<rparr>)))) s
       = (\<lparr>hp_status = 200, hp_body = TicketBody m\<rparr>, s1)
     \<and> tc_next_action (projr (wl_update_ticket G (sample_request PUT p None))) = Some (InputAutoClose ''tomorrow'')
     \<and> at_next_action m = Some (ApiAutoClose ''end_of_day'')
     \<and> fst (rest_app G sample_backends sample_app 100 (sample_request GET p (Some (sample_token sample_claims))) s1)
       = \<lparr>hp_status = 200, hp_body = TicketBody m\<rparr>"
proof -
  obtain b i row where b: "system_inv sample_system mem_locks mem_db ((RBT.empty, sample_metrics), b)"
    "stored_rows mem_db b i = Some row" "\<not> sk_deleted row"
    "seals (ys_lib sample_system) sample_custodian i row ((new_ticket epoch sample_create 1 2)\<lparr>tk_ticket_id := i\<rparr>)"
    by (rule sample_with_ticket)
  obtain l where l: "locks_inv mem_locks (view mem_locks l)" "holds (locks_of mem_locks (view mem_locks l)) i 2 60"
    using sample_locked by blast
  let ?s = "((l, sample_metrics), b) :: (memdb \<times> metrics) \<times> memdb \<times> metrics"
  let ?ch = "\<lparr>tc_title = None, tc_project = None, tc_priority = None, tc_status = None,
      tc_next_action = Some (InputAutoClose ''tomorrow'')\<rparr>"
  let ?G = "sample_web\<lparr>wl_update_ticket := \<lambda>_. Inr ?ch\<rparr>" and ?seg = "replicate (unat i) CHR ''1''"
  let ?c = "sample_claims\<lparr>cm_sub := ''me''\<rparr>" and ?w = "sample_draws\<lparr>dw_unix := 60\<rparr>"
  let ?p = "''/api/tickets/'' @ ?seg" and ?r = "sample_request PUT (''/api/tickets/'' @ ?seg) (Some (sample_token ?c))"
  have inv: "system_inv sample_system mem_locks mem_db ?s" using b(1) l(1) by (simp add: system_inv_def)
  have "stored_rows mem_db b 0 = None" using b(1) by (simp add: system_inv_def stored_with_def)
  then have "i \<noteq> 0" using b(2) by auto
  then have "unat i \<noteq> 0" by (simp add: unat_eq_0)
  then have seg: "CHR ''/'' \<notin> set ?seg" "?seg \<noteq> []" by auto
  have path: "wl_path_u64 ?G ?seg = Inr i" by (simp add: sample_web_def)
  have same: "bearer_claims ?G = bearer_claims sample_web" by (simp add: bearer_claims_def fun_eq_iff split: option.split)
  have secs: "seconds_ok (ys_lib sample_system)" by (simp add: seconds_ok_def sample_system_def sample_lib_def epoch_def)
  have row: "stored_rows mem_db (snd ?s) i = Some row" "\<not> sk_deleted row"
    "seals (ys_lib sample_system) (ys_custodian sample_system) i row ((new_ticket epoch sample_create 1 2)\<lparr>tk_ticket_id := i\<rparr>)"
    using b by (simp_all add: sample_system_def)
  have held: "holds (locks_of mem_locks (view mem_locks (fst (fst ?s)))) i 2 (dw_unix ?w)"
    using l(2) by simp
  have req: "hq_method ?r = PUT" "route_of PUT (hq_path ?r) = Some (RUpdateTicket ?seg)" "wl_path_u64 ?G ?seg = Inr i"
    "wl_update_ticket ?G ?r = Inr ?ch" "tc_next_action ?ch = Some (InputAutoClose ''tomorrow'')"
    "\<forall>x. tc_status ?ch = Some x \<longrightarrow> can_transition_to (tk_status ((new_ticket epoch sample_create 1 2)\<lparr>tk_ticket_id := i\<rparr>))
        (status_from_u8 (u8_of_i32 x))"
    using route_of_ticket(2) [OF seg] path by simp_all
  have token: "bearer_claims ?G sample_app 100 ?r = Some ?c" "cl_parse_uuid (ys_lib sample_system) (cm_sub ?c) = Some 2"
    unfolding same by (rule sample_bearer; simp add: sample_claims_def) simp
  have seal: "\<forall>tk. \<exists>body. encrypt_ticket (ys_lib sample_system) (ys_custodian sample_system) (dw_rnd ?w) tk = Inr body"
    "length (snd (dw_rnd ?w)) = 12"
    using sample_seals by (simp_all add: sample_draws_def)
  let ?r3 = "sample_request GET ?p (Some (sample_token sample_claims))"
  have get: "hq_method ?r3 = GET" "route_of GET (hq_path ?r3) = Some (RGetTicket ?seg)"
    "bearer_claims ?G sample_app 100 ?r3 = Some sample_claims"
    using route_of_ticket(1) [OF seg] unfolding same by (simp_all add: sample_bearer sample_claims_def)
  from scheduled_action_shown [OF sample_system_deployed inv secs row held req token seal]
  obtain m s1 where "rest_app ?G (system_backends sample_system mem_locks ?w) sample_app 100 ?r ?s = (\<lparr>hp_status = 200, hp_body = TicketBody m\<rparr>, s1)"
    and "at_next_action m = Some (ApiAutoClose ''end_of_day'')"
    and "fst (rest_app ?G sample_backends sample_app 100 ?r3 s1) = \<lparr>hp_status = 200, hp_body = TicketBody m\<rparr>"
    using get path by auto
  then show ?thesis by (intro exI [of _ ?G] exI [of _ ?s] exI [of _ ?p] exI [of _ m] exI [of _ s1]) simp
qed

end
