(* ===== verification/Gateway_Types.thy ===== *)
theory Gateway_Types
  imports Gateway_Spec
begin

text \<open>
  The type of an answer of the gateway: which body goes with which status on each route, the
  envelope of the errors, and what else can be answered.
\<close>

fun answer_type :: "route \<Rightarrow> http_response \<Rightarrow> bool" where
  "answer_type RHealth r \<longleftrightarrow> (\<exists>up. r = \<lparr>hp_status = HTTP_OK, hp_body = HealthBody ''ok'' up\<rparr>)
     \<or> (\<exists>up. r = \<lparr>hp_status = HTTP_UNAVAILABLE, hp_body = HealthBody ''degraded'' up\<rparr>)"
| "answer_type RLogin r \<longleftrightarrow> (\<exists>t. r = ok_json (TokenBody t))"
| "answer_type RCreateUser r \<longleftrightarrow> r = \<lparr>hp_status = HTTP_CREATED, hp_body = NoBody\<rparr>"
| "answer_type RCreateTicket r \<longleftrightarrow> (\<exists>t. r = \<lparr>hp_status = HTTP_CREATED, hp_body = TicketBody t\<rparr>)"
| "answer_type RListTickets r \<longleftrightarrow> (\<exists>ts. r = ok_json (TicketsBody ts))"
| "answer_type (RGetTicket seg) r \<longleftrightarrow> (\<exists>t. r = ok_json (TicketBody t))"
| "answer_type (RUpdateTicket seg) r \<longleftrightarrow> (\<exists>t. r = ok_json (TicketBody t))"
| "answer_type RListUsers r \<longleftrightarrow> (\<exists>us n. r = ok_json (UsersBody us n))"
| "answer_type (RGetUser seg) r \<longleftrightarrow> (\<exists>u. r = ok_json (UserBody u))"
| "answer_type (RUpdateUser seg) r \<longleftrightarrow> (\<exists>u. r = ok_json (UserBody u))"
| "answer_type (RDeleteUser seg) r \<longleftrightarrow> r = \<lparr>hp_status = HTTP_NO_CONTENT, hp_body = NoBody\<rparr>"

definition ENVELOPES :: "(status_code \<times> string) list" where
  "ENVELOPES = [(HTTP_BAD_REQUEST, ''invalid_argument''), (HTTP_UNAUTHORIZED, ''unauthenticated''),
     (HTTP_FORBIDDEN, ''permission_denied''), (HTTP_NOT_FOUND, ''not_found''), (HTTP_INTERNAL, ''internal''),
     (HTTP_UNAVAILABLE, ''unavailable'')]"

definition error_type :: "http_response \<Rightarrow> bool" where
  "error_type r \<longleftrightarrow> (\<exists>code message. (hp_status r, code) \<in> set ENVELOPES \<and> hp_body r = ErrorBody code message)"

text \<open>What an extractor of the route answers in place of the handler.\<close>

fun rejections :: "web_lib \<Rightarrow> http_request \<Rightarrow> route \<Rightarrow> http_response set" where
  "rejections G req RHealth = {}"
| "rejections G req RLogin = {r. wl_login G req = Inl r}"
| "rejections G req RCreateUser = {r. wl_create_user G req = Inl r}"
| "rejections G req RCreateTicket = {r. wl_create_ticket G req = Inl r}"
| "rejections G req RListTickets = {r. wl_list_tickets G req = Inl r}"
| "rejections G req (RGetTicket seg) = {r. wl_path_u64 G seg = Inl r}"
| "rejections G req (RUpdateTicket seg) = {r. wl_path_u64 G seg = Inl r} \<union> {r. wl_update_ticket G req = Inl r}"
| "rejections G req RListUsers = {r. wl_list_users G req = Inl r}"
| "rejections G req (RGetUser seg) = {r. wl_path_text G seg = Inl r}"
| "rejections G req (RUpdateUser seg) = {r. wl_path_text G seg = Inl r} \<union> {r. wl_update_user G req = Inl r}"
| "rejections G req (RDeleteUser seg) = {r. wl_path_text G seg = Inl r}"

subsection \<open>Typing the handlers\<close>

definition envelope_ok :: "api_error \<Rightarrow> bool" where
  "envelope_ok e \<longleftrightarrow> (ae_status e, ae_code e) \<in> set ENVELOPES"

definition endpoint_typed :: "(http_response \<Rightarrow> bool) \<Rightarrow> 'g endpoint \<Rightarrow> bool" where
  "endpoint_typed P m \<longleftrightarrow> (\<forall>g. case fst (m g) of Inl e \<Rightarrow> envelope_ok e | Inr r \<Rightarrow> P r)"

named_theorems typed \<open>answers of the parts of a handler\<close>

lemma envelopes [typed]:
  "envelope_ok (api_error_of e)" "envelope_ok (api_internal m)" "envelope_ok (api_not_found m)"
  "envelope_ok (api_unauthorized m)"
  by (cases e) (simp_all add: envelope_ok_def ENVELOPES_def api_error_new_def api_internal_def api_not_found_def
      api_unauthorized_def)

lemma typed_ret [typed]: "P r \<Longrightarrow> endpoint_typed P (ret r)"
  by (simp add: endpoint_typed_def ret_def)

lemma typed_throw [typed]: "envelope_ok e \<Longrightarrow> endpoint_typed P (throw e)"
  by (simp add: endpoint_typed_def throw_def)

lemma typed_bind [typed]:
  "(\<And>e. envelope_ok (f e)) \<Longrightarrow> (\<And>x. endpoint_typed P (k x)) \<Longrightarrow> endpoint_typed P (bindA (map_err f m) k)"
  by (auto simp: endpoint_typed_def bindA_def map_err_def split: prod.splits sum.splits)

lemma typed_then [typed]:
  "(\<And>e. envelope_ok (f e)) \<Longrightarrow> endpoint_typed P k \<Longrightarrow> endpoint_typed P (thenA (map_err f m) k)"
  unfolding thenA_def by (rule typed_bind)

lemma typed_user [typed]: "endpoint_typed (answer_type (RGetUser seg)) (user_or_404 found)"
  by (cases found) (auto simp: user_or_404_def intro!: typed)

lemma same_type: "answer_type (RUpdateUser seg) = answer_type (RGetUser seg)"
  by (rule ext) simp

lemma handlers_typed:
  "endpoint_typed (answer_type RHealth) (rest_health B c)"
  "endpoint_typed (answer_type RLogin) (rest_login B c login)"
  "endpoint_typed (answer_type RCreateUser) (rest_create_user B c user)"
  "endpoint_typed (answer_type RCreateTicket) (rest_create_ticket G B c claims body)"
  "endpoint_typed (answer_type RListTickets) (rest_list_tickets G B c params)"
  "endpoint_typed (answer_type (RGetTicket seg)) (rest_get_ticket G B c i)"
  "endpoint_typed (answer_type (RUpdateTicket seg)) (rest_update_ticket G B c i claims changes)"
  "endpoint_typed (answer_type RListUsers) (rest_list_users B c pages)"
  "endpoint_typed (answer_type (RGetUser seg)) (rest_get_user B c name)"
  "endpoint_typed (answer_type (RUpdateUser seg)) (rest_update_user B c name edits)"
  "endpoint_typed (answer_type (RDeleteUser seg)) (rest_delete_user B c name)"
proof -
  show "endpoint_typed (answer_type RHealth) (rest_health B c)"
    by (auto simp: endpoint_typed_def rest_health_def Let_def split: prod.split)
  show "endpoint_typed (answer_type (RUpdateUser seg)) (rest_update_user B c name edits)"
    unfolding rest_update_user_def same_type by (intro typed)
qed (auto simp: rest_login_def rest_create_user_def rest_create_ticket_def rest_list_tickets_def rest_get_ticket_def
    rest_update_ticket_def rest_list_users_def rest_get_user_def rest_delete_user_def intro!: typed exI)

definition routed :: "web_lib \<Rightarrow> http_request \<Rightarrow> route \<Rightarrow> http_response \<Rightarrow> bool" where
  "routed G req r resp \<longleftrightarrow> answer_type r resp \<or> error_type resp \<or> resp \<in> rejections G req r"

lemma routed_respond: "endpoint_typed (answer_type r) m \<Longrightarrow> routed G req r (fst (respond m g))"
  by (auto simp: endpoint_typed_def respond_def error_type_def envelope_ok_def error_response_def routed_def
      split: prod.split sum.split dest!: spec [of _ g])

lemma routed_extracted:
  assumes "\<And>v. routed G req r (fst (k v g))" and "\<And>x'. x = Inl x' \<Longrightarrow> x' \<in> rejections G req r"
  shows "routed G req r (fst (with_extracted x k g))"
  using assms by (cases x) (simp_all add: with_extracted_def routed_def)

lemma api_route_typed: "protected r \<Longrightarrow> routed G req r (fst (api_route G B c req r claims g))"
proof (cases r)
  case (RUpdateTicket seg)
  then show ?thesis
    by (simp only: api_route.simps) (intro routed_extracted routed_respond handlers_typed; simp)
next
  case (RUpdateUser seg)
  then show ?thesis
    by (simp only: api_route.simps) (intro routed_extracted routed_respond handlers_typed; simp)
qed (simp_all only: api_route.simps protected.simps simp_thms, (intro routed_extracted routed_respond handlers_typed; simp)+)

lemma middleware_answer:
  "fst (auth_middleware G secret now req nxt g) = \<lparr>hp_status = HTTP_UNAUTHORIZED, hp_body = NoBody\<rparr>
     \<or> (\<exists>claims. fst (auth_middleware G secret now req nxt g) = fst (nxt claims g))"
  by (auto simp: auth_middleware_def bare_def split: option.split)

lemma open_route_typed:
  "\<not> protected r \<Longrightarrow> routed G req r (fst (run_route G B st now req r g))"
proof (cases r)
  case RHealth
  then show ?thesis by (simp only: run_route_def route.case) (intro routed_respond handlers_typed)
next
  case RLogin
  then show ?thesis
    by (simp only: run_route_def route.case) (intro routed_extracted routed_respond handlers_typed; simp)
next
  case RCreateUser
  then show ?thesis
    by (simp only: run_route_def route.case) (intro routed_extracted routed_respond handlers_typed; simp)
qed simp_all

lemma answer_cases:
  assumes "route_of (hq_method req) (hq_path req) = Some r" and "hq_method req \<noteq> HEAD"
    and "rest_app G B st now req g = (resp, g')"
  shows "answer_type r resp \<or> error_type resp \<or> resp \<in> rejections G req r
     \<or> (protected r \<and> resp = \<lparr>hp_status = HTTP_UNAUTHORIZED, hp_body = NoBody\<rparr>)"
    and "(\<forall>x \<in> rejections G req r. 300 \<le> hp_status x) \<Longrightarrow> hp_status resp < 300 \<longleftrightarrow>
       answer_type r resp \<and> hp_status resp \<noteq> HTTP_UNAVAILABLE"
proof -
  have resp: "resp = fst (run_route G B st now req r g)"
    using assms by (auto simp: rest_app_def split: prod.splits)
  show typed: "answer_type r resp \<or> error_type resp \<or> resp \<in> rejections G req r
     \<or> (protected r \<and> resp = \<lparr>hp_status = HTTP_UNAUTHORIZED, hp_body = NoBody\<rparr>)"
  proof (cases "protected r")
    case True
    then have "run_route G B st now req r = auth_middleware G (ap_jwt_secret st) now req (api_route G B (ap_clients st) req r)"
      by (cases r) (simp_all add: run_route_def)
    with middleware_answer [of G "ap_jwt_secret st" now req "api_route G B (ap_clients st) req r" g] resp True
    consider "resp = \<lparr>hp_status = HTTP_UNAUTHORIZED, hp_body = NoBody\<rparr>"
      | claims where "resp = fst (api_route G B (ap_clients st) req r claims g)" by metis
    then show ?thesis
    proof cases
      case 2
      with api_route_typed [OF True, of G req B "ap_clients st" claims g] show ?thesis unfolding routed_def by blast
    qed (simp add: True)
  next
    case False
    from open_route_typed [OF this, of G req B st now g] show ?thesis unfolding resp routed_def by blast
  qed
  have errors: "error_type x \<Longrightarrow> 400 \<le> hp_status x" for x by (auto simp: error_type_def ENVELOPES_def)
  have answers: "answer_type r x \<Longrightarrow> hp_status x < 300 \<or> hp_status x = HTTP_UNAVAILABLE" for x
    by (cases r) (auto simp: ok_json_def)
  show "hp_status resp < 300 \<longleftrightarrow> answer_type r resp \<and> hp_status resp \<noteq> HTTP_UNAVAILABLE"
    if "\<forall>x \<in> rejections G req r. 300 \<le> hp_status x"
    using typed errors [of resp] answers [of resp] that by (cases resp) fastforce
qed

text \<open>C9: the answer to a routed request other than HEAD (which is answered without a body) has the
  type of its route: the success status of the route with
  the body of that route and no other, or an error of the six kinds in the envelope, its code the
  one that belongs to its status, or the rejection of one of the route's extractors, or, on a
  protected route, the bare refusal of the token check. So where the rejections are not successes
  a client may read the body by the status alone: success means the body of the route.
\<close>

theorem answers_typed:
  assumes "route_of (hq_method req) (hq_path req) = Some r" and "hq_method req \<noteq> HEAD"
    and "rest_app G B st now req g = (resp, g')"
  shows "(answer_type r resp \<or> error_type resp \<or> resp \<in> rejections G req r
       \<or> (protected r \<and> resp = \<lparr>hp_status = HTTP_UNAUTHORIZED, hp_body = NoBody\<rparr>))
     \<and> ((\<forall>x \<in> rejections G req r. 300 \<le> hp_status x) \<longrightarrow>
          (hp_status resp < 300 \<longleftrightarrow> answer_type r resp \<and> hp_status resp \<noteq> HTTP_UNAVAILABLE))"
  using answer_cases [OF assms] by blast

theorem answers_typed_witness:
  "\<exists>resp g'. rest_app sample_web sample_backends sample_app 0 (sample_request GET ''/health'' None) sample_start = (resp, g')
     \<and> hp_status resp \<in> {HTTP_OK, HTTP_UNAVAILABLE, HTTP_BAD_REQUEST, HTTP_UNAUTHORIZED, HTTP_FORBIDDEN, HTTP_NOT_FOUND, HTTP_INTERNAL}"
proof -
  let ?req = "sample_request GET ''/health'' None"
  obtain resp g' where run: "rest_app sample_web sample_backends sample_app 0 ?req sample_start = (resp, g')"
    by (meson surj_pair)
  have "route_of (hq_method ?req) (hq_path ?req) = Some RHealth" "hq_method ?req \<noteq> HEAD"
    by (simp_all add: sample_request_def route_of_def is_get_def)
  from answers_typed [OF this run] have "hp_status resp \<in> {HTTP_OK, HTTP_UNAVAILABLE, HTTP_BAD_REQUEST,
      HTTP_UNAUTHORIZED, HTTP_FORBIDDEN, HTTP_NOT_FOUND, HTTP_INTERNAL}"
    by (auto simp: error_type_def ENVELOPES_def)
  with run show ?thesis by blast
qed

end
