(* ===== verification/Discovery_Props.thy ===== *)
theory Discovery_Props
  imports Service_Registry
begin

text \<open>
  Where the gateway sends its requests: how an endpoint is chosen at start-up, what a reload of
  \<open>services.toml\<close> makes of a changed endpoint, and what happens when the new address cannot be
  dialled.
\<close>

subsection \<open>The choice of an endpoint\<close>

definition non_blank :: "string option \<Rightarrow> string option" where
  "non_blank raw = (case raw of Some v \<Rightarrow> if trim v = [] then None else Some v | None \<Rightarrow> None)"

definition first_of :: "'a option list \<Rightarrow> 'a \<Rightarrow> 'a" where
  "first_of xs dflt = (case List.map_filter id xs of x # _ \<Rightarrow> x | [] \<Rightarrow> dflt)"

lemma resolve_precedence:
  "resolve_with reg override_value service dflt = first_of [non_blank override_value, reg service] dflt"
  by (auto simp: resolve_with_def first_of_def non_blank_def registry_get_def List.map_filter_def
      split: option.split)

text \<open>
An endpoint is the service's environment variable, unless it is unset or blank, then the
  entry of the registry, then the built-in default, each service for itself; the addresses are
  the same whether the registry is empty or could not be loaded, as long as no variable is set
  to blanks. A blank variable is ignored by the registry and taken as an address without it.
\<close>

theorem endpoint_precedence:
  "startup_backend env (Some reg) =
     \<lparr>ba_auth = first_of [non_blank (env ''AUTH_ADDR''), reg ''auth''] ''http://auth:8082'',
      ba_admin = first_of [non_blank (env ''ADMIN_ADDR''), reg ''admin''] ''http://admin:8083'',
      ba_custodian = first_of [non_blank (env ''CUSTODIAN_ADDR''), reg ''custodian''] ''http://custodian-leader:8081''\<rparr>
   \<and> startup_backend env None =
     \<lparr>ba_auth = first_of [env ''AUTH_ADDR''] ''http://auth:8082'',
      ba_admin = first_of [env ''ADMIN_ADDR''] ''http://admin:8083'',
      ba_custodian = first_of [env ''CUSTODIAN_ADDR''] ''http://custodian-leader:8081''\<rparr>
   \<and> (startup_backend env (Some Map.empty) = startup_backend env None \<longleftrightarrow>
        (\<forall>x \<in> {''AUTH_ADDR'', ''ADMIN_ADDR'', ''CUSTODIAN_ADDR''}. non_blank (env x) = env x))"
proof (intro conjI)
  have blank: "trim ''http://auth:8082'' \<noteq> []" "trim ''http://admin:8083'' \<noteq> []" "trim ''http://custodian-leader:8081'' \<noteq> []"
    by code_simp+
  have same: "first_of [non_blank raw, None] dflt = first_of [raw] dflt \<longleftrightarrow> non_blank raw = raw"
    if "trim dflt \<noteq> []" for raw dflt
    using that by (auto simp: first_of_def non_blank_def List.map_filter_def split: option.split)
  show with_reg: "startup_backend env (Some reg) =
     \<lparr>ba_auth = first_of [non_blank (env ''AUTH_ADDR''), reg ''auth''] ''http://auth:8082'',
      ba_admin = first_of [non_blank (env ''ADMIN_ADDR''), reg ''admin''] ''http://admin:8083'',
      ba_custodian = first_of [non_blank (env ''CUSTODIAN_ADDR''), reg ''custodian''] ''http://custodian-leader:8081''\<rparr>" for reg
    by (simp add: startup_backend_def from_env_registry_def from_registry_def resolve_precedence
        DEFAULT_AUTH_def DEFAULT_ADMIN_def DEFAULT_CUSTODIAN_def)
  show without: "startup_backend env None =
     \<lparr>ba_auth = first_of [env ''AUTH_ADDR''] ''http://auth:8082'',
      ba_admin = first_of [env ''ADMIN_ADDR''] ''http://admin:8083'',
      ba_custodian = first_of [env ''CUSTODIAN_ADDR''] ''http://custodian-leader:8081''\<rparr>"
    by (simp add: startup_backend_def resolve_backend_addrs_def env_or_default_def first_of_def List.map_filter_def
        split: option.split)
  show "startup_backend env (Some Map.empty) = startup_backend env None \<longleftrightarrow>
        (\<forall>x \<in> {''AUTH_ADDR'', ''ADMIN_ADDR'', ''CUSTODIAN_ADDR''}. non_blank (env x) = env x)"
    unfolding with_reg without by (simp add: same blank)
qed

subsection \<open>The reload\<close>

text \<open>Each client holds a channel to the endpoint that is on record.\<close>

definition in_sync :: "(string \<Rightarrow> string + 'ch) \<Rightarrow> backend_addrs \<times> 'ch clients \<Rightarrow> bool" where
  "in_sync dial s \<longleftrightarrow> dial (ba_auth (fst s)) = Inr (gc_auth (snd s)) \<and> dial (ba_admin (fst s)) = Inr (gc_admin (snd s))
     \<and> dial (ba_custodian (fst s)) = Inr (gc_custodian (snd s))"

lemma connect_all_sync: "connect_all dial backend = Inr c \<Longrightarrow> in_sync dial (backend, c)"
  by (auto simp: connect_all_def in_sync_def split: sum.splits)

lemmas reconnect_defs = reconnect_auth_def reconnect_admin_def reconnect_custodian_def

text \<open>A client is redirected when its endpoint changed and the new one can be dialled.\<close>

definition redirected :: "(string \<Rightarrow> string + 'ch) \<Rightarrow> string \<Rightarrow> string \<Rightarrow> 'ch \<Rightarrow> 'ch" where
  "redirected dial current nxt ch = (if current = nxt then ch else case dial nxt of Inl e \<Rightarrow> ch | Inr ch' \<Rightarrow> ch')"

lemma apply_changes_clients:
  "snd (apply_changes dial current nxt c) =
     \<lparr>gc_auth = redirected dial (ba_auth current) (ba_auth nxt) (gc_auth c),
      gc_admin = redirected dial (ba_admin current) (ba_admin nxt) (gc_admin c),
      gc_custodian = redirected dial (ba_custodian current) (ba_custodian nxt) (gc_custodian c)\<rparr>"
  by (simp add: apply_changes_def apply_change_def reconnect_defs redirected_def split: sum.split)

lemma apply_changes_named:
  "fst (apply_changes dial current nxt c) = filter (\<lambda>x. x \<in>
     (if ba_auth current \<noteq> ba_auth nxt \<and> \<not> isl (dial (ba_auth nxt)) then {''auth''} else {}) \<union>
     (if ba_admin current \<noteq> ba_admin nxt \<and> \<not> isl (dial (ba_admin nxt)) then {''admin''} else {}) \<union>
     (if ba_custodian current \<noteq> ba_custodian nxt \<and> \<not> isl (dial (ba_custodian nxt)) then {''custodian''} else {}))
     [''auth'', ''admin'', ''custodian'']"
  by (simp add: apply_changes_def apply_change_def reconnect_defs split: sum.split)

lemma redirected_same [simp]: "redirected dial a a ch = ch"
  by (simp add: redirected_def)

lemma reload_once_eq:
  "reload_once dial env parse_toml path read_file (current, c) =
     (case registry_load read_file parse_toml path of
        Inl e \<Rightarrow> (current, c)
      | Inr reg \<Rightarrow> (from_env_registry env reg, snd (apply_changes dial current (from_env_registry env reg) c)))"
  by (auto simp: reload_once_def Let_def apply_changes_clients case_prod_beta split: sum.split)

text \<open>The endpoints on record: those of the last file that could be read.\<close>

definition file_addrs ::
  "(string \<Rightarrow> string option) \<Rightarrow> (string \<Rightarrow> string + registry) \<Rightarrow> string \<Rightarrow> (string \<Rightarrow> string + string) list
   \<Rightarrow> backend_addrs \<Rightarrow> backend_addrs" where
  "file_addrs env parse_toml path reads start =
     (case List.map_filter (\<lambda>r. case registry_load r parse_toml path of Inl e \<Rightarrow> None | Inr reg \<Rightarrow> Some (from_env_registry env reg))
         (rev reads) of [] \<Rightarrow> start | a # _ \<Rightarrow> a)"

lemma reload_ticks_append:
  "reload_ticks dial env parse_toml path (xs @ ys) s =
     reload_ticks dial env parse_toml path ys (reload_ticks dial env parse_toml path xs s)"
  by (induction xs arbitrary: s) simp_all

lemma reload_once_fst:
  "fst (reload_once dial env parse_toml path read_file s) =
     (case registry_load read_file parse_toml path of Inl e \<Rightarrow> fst s | Inr reg \<Rightarrow> from_env_registry env reg)"
  by (cases s) (simp add: reload_once_eq split: sum.split)

lemma reload_ticks_fst:
  "fst (reload_ticks dial env parse_toml path reads s) = file_addrs env parse_toml path reads (fst s)"
  by (induction reads rule: rev_induct)
    (auto simp: file_addrs_def reload_ticks_append reload_once_fst map_filter_simps split: sum.split)

lemma reload_once_sync:
  assumes "in_sync dial s" and "\<forall>a. \<not> isl (dial a)"
  shows "in_sync dial (reload_once dial env parse_toml path read_file s)"
proof (cases s)
  case (Pair current c)
  have "redirected dial a b ch = projr (dial b)" if "dial a = Inr ch" for a b ch
    using assms(2) [rule_format, of b] that by (auto simp: redirected_def split: sum.split)
  then show ?thesis using assms unfolding Pair
    by (auto simp: reload_once_eq in_sync_def apply_changes_clients split: sum.split)
qed

text \<open>
When every address can be dialled, the clients follow the file: after any number of ticks
  each client holds the channel of the endpoint on record, and the endpoints on record are those
  of the last version of the file that could be read and parsed; a version that cannot leaves
  everything as it is. A client whose endpoint did not change keeps its channel even when nothing
  can be dialled.
\<close>

theorem reload_tracks_file:
  fixes reads path parse_toml env
  assumes "connect_all dial backend = Inr c" and "\<forall>a. \<not> isl (dial a)"
  defines "s' \<equiv> reload_ticks dial env parse_toml path reads (backend, c)"
  shows "in_sync dial s' \<and> fst s' = file_addrs env parse_toml path reads backend
     \<and> (registry_load r parse_toml path = Inl e \<longrightarrow> reload_once dial env parse_toml path r s' = s')
     \<and> (registry_load r parse_toml path = Inr reg \<longrightarrow> ba_auth (from_env_registry env reg) = ba_auth (fst s') \<longrightarrow>
          gc_auth (snd (reload_once any_dial env parse_toml path r s')) = gc_auth (snd s'))"
proof (intro conjI impI)
  have "in_sync dial (reload_ticks dial env parse_toml path reads s)" if "in_sync dial s" for s
    using that by (induction reads arbitrary: s) (simp_all add: reload_once_sync assms(2))
  then show "in_sync dial s'" unfolding s'_def using connect_all_sync [OF assms(1)] by blast
  show "fst s' = file_addrs env parse_toml path reads backend" by (simp add: s'_def reload_ticks_fst)
  obtain current c' where s': "s' = (current, c')" by (cases s')
  show "reload_once dial env parse_toml path r s' = s'" if "registry_load r parse_toml path = Inl e"
    using that by (simp add: s' reload_once_eq)
  show "gc_auth (snd (reload_once any_dial env parse_toml path r s')) = gc_auth (snd s')"
    if "registry_load r parse_toml path = Inr reg" "ba_auth (from_env_registry env reg) = ba_auth (fst s')"
    using that by (simp add: s' reload_once_eq apply_changes_clients redirected_def)
qed

definition sample_env :: "string \<Rightarrow> string option" where "sample_env = (\<lambda>_. None)"

definition sample_toml :: "string \<Rightarrow> string + registry" where
  "sample_toml txt = (if txt = [] then Inl ''eof'' else Inr [''auth'' \<mapsto> txt])"

theorem reload_tracks_file_witness:
  "in_sync Inr (reload_ticks Inr sample_env sample_toml ''services.toml'' [\<lambda>_. Inr ''http://a'', \<lambda>_. Inr []]
     (startup_backend sample_env None,
      \<lparr>gc_auth = ''http://auth:8082'', gc_admin = ''http://admin:8083'', gc_custodian = ''http://custodian-leader:8081''\<rparr>))
   \<and> ba_auth (file_addrs sample_env sample_toml ''services.toml'' [\<lambda>_. Inr ''http://a'', \<lambda>_. Inr []] (startup_backend sample_env None)) = ''http://a''"
proof
  have "connect_all Inr (startup_backend sample_env None) = Inr
      \<lparr>gc_auth = ''http://auth:8082'', gc_admin = ''http://admin:8083'', gc_custodian = ''http://custodian-leader:8081''\<rparr>"
    by (simp add: connect_all_def startup_backend_def resolve_backend_addrs_def env_or_default_def sample_env_def)
  note start = reload_tracks_file [OF this, THEN conjunct1]
  show "in_sync Inr (reload_ticks Inr sample_env sample_toml ''services.toml''
      [\<lambda>_. Inr ''http://a'', \<lambda>_. Inr []] (startup_backend sample_env None,
      \<lparr>gc_auth = ''http://auth:8082'', gc_admin = ''http://admin:8083'', gc_custodian = ''http://custodian-leader:8081''\<rparr>))"
    by (rule start) simp
  show "ba_auth (file_addrs sample_env sample_toml ''services.toml'' [\<lambda>_. Inr ''http://a'', \<lambda>_. Inr []] (startup_backend sample_env None)) = ''http://a''"
    by (simp add: file_addrs_def map_filter_simps registry_load_def from_toml_str_def sample_toml_def sample_env_def
        from_env_registry_def from_registry_def resolve_precedence first_of_def non_blank_def)
qed

text \<open>
C15: a new address that cannot be dialled is recorded as the one in use all the same. The old
  channel stays, as the comment says, but the next ticks compare the file with the record, so as
  long as the file stays as it is nothing is dialled again, even once the address could be, and
  the log names nothing.
\<close>

theorem failed_reconnect_sticks:
  fixes c
  assumes "registry_load read_file parse_toml path = Inr reg"
    and "ba_auth (from_env_registry env reg) \<noteq> ba_auth current" and "dial (ba_auth (from_env_registry env reg)) = Inl e"
  defines "s1 \<equiv> reload_once dial env parse_toml path read_file (current, c)"
  shows "ba_auth (fst s1) = ba_auth (from_env_registry env reg) \<and> gc_auth (snd s1) = gc_auth c
     \<and> ''auth'' \<notin> set (fst (apply_changes dial current (from_env_registry env reg) c))
     \<and> (\<forall>dial' n. reload_ticks dial' env parse_toml path (replicate n read_file) s1 = s1)"
proof (intro conjI allI)
  have s1: "s1 = (from_env_registry env reg, snd (apply_changes dial current (from_env_registry env reg) c))"
    by (simp add: s1_def reload_once_eq assms(1))
  show "ba_auth (fst s1) = ba_auth (from_env_registry env reg)" by (simp add: s1)
  show "gc_auth (snd s1) = gc_auth c" by (simp add: s1 apply_changes_clients redirected_def assms(2,3))
  show "''auth'' \<notin> set (fst (apply_changes dial current (from_env_registry env reg) c))"
    by (simp add: apply_changes_named assms(3))
  have "reload_once dial' env parse_toml path read_file s1 = s1" for dial'
    by (simp add: s1 reload_once_eq assms(1) apply_changes_clients)
  then show "reload_ticks dial' env parse_toml path (replicate n read_file) s1 = s1" for dial' n
    by (induction n) simp_all
qed

theorem failed_reconnect_sticks_witness:
  "\<exists>s1. reload_once (\<lambda>_. Inl ''refused'') sample_env sample_toml ''services.toml'' (\<lambda>_. Inr ''http://a'')
         (startup_backend sample_env None, \<lparr>gc_auth = (1::nat), gc_admin = 2, gc_custodian = 3\<rparr>) = s1
     \<and> ba_auth (fst s1) = ''http://a'' \<and> gc_auth (snd s1) = 1
     \<and> reload_ticks (\<lambda>_. Inr 9) sample_env sample_toml ''services.toml'' (replicate 5 (\<lambda>_. Inr ''http://a'')) s1 = s1"
proof -
  have reg: "registry_load (\<lambda>_. Inr ''http://a'') sample_toml ''services.toml'' = Inr [''auth'' \<mapsto> ''http://a'']"
    by (simp add: registry_load_def from_toml_str_def sample_toml_def)
  have addr: "ba_auth (from_env_registry sample_env [''auth'' \<mapsto> ''http://a'']) = ''http://a''"
    by (simp add: sample_env_def from_env_registry_def from_registry_def resolve_precedence first_of_def non_blank_def
        map_filter_simps)
  have "ba_auth (from_env_registry sample_env [''auth'' \<mapsto> ''http://a'']) \<noteq> ba_auth (startup_backend sample_env None)"
    unfolding addr by (simp add: startup_backend_def resolve_backend_addrs_def env_or_default_def sample_env_def)
  from failed_reconnect_sticks [OF reg this, of "\<lambda>_. Inl ''refused''" "''refused''"
      "\<lparr>gc_auth = (1::nat), gc_admin = 2, gc_custodian = 3\<rparr>"] addr
  show ?thesis by simp
qed

end
