(* ===== verification/Config_Text.thy ===== *)
theory Config_Text
  imports Auth_Server
begin

text \<open>
  Text of configuration values and request parameters: \<open>u64::from_str\<close> against the decimal text
  of a number, splitting against joining, and trimming text that needs none.
\<close>

subsection \<open>Numbers\<close>

text \<open>An optional plus sign, then decimal digits; empty, signed otherwise and out of range are errors.\<close>

definition parse_u64 :: "string \<Rightarrow> u64 option" where
  "parse_u64 s =
     (let digits = (case s of c # cs \<Rightarrow> if c = CHR ''+'' then cs else s | [] \<Rightarrow> [])
      in if digits = [] then None
         else case parse_digits digits 0 of
             None \<Rightarrow> None
           | Some n \<Rightarrow> if n < 2 ^ 64 then Some (of_nat n) else None)"

definition decimal_digit :: "char \<Rightarrow> bool" where
  "decimal_digit c \<longleftrightarrow> 48 \<le> (of_char c :: nat) \<and> (of_char c :: nat) \<le> 57"

lemma parse_digits_append:
  "parse_digits (s @ t) a = Option.bind (parse_digits s a) (parse_digits t)"
  by (induction s arbitrary: a) auto

lemma parse_digits_show [simp]: "parse_digits (show_nat n) 0 = Some n"
proof (induction n rule: show_nat.induct)
  case (1 n)
  show ?case
    by (cases "n < 10") (simp_all add: show_nat.simps [of n] parse_digits_append 1)
qed

lemma show_nat_digits: "c \<in> set (show_nat n) \<Longrightarrow> decimal_digit c"
proof (induction n rule: show_nat.induct)
  case (1 n)
  then show ?case
    by (cases "n < 10") (auto simp: show_nat.simps [of n] decimal_digit_def)
qed

lemma show_nat_nonempty [simp]: "show_nat n \<noteq> []"
  by (simp add: show_nat.simps [of n])

lemma show_nat_inject [simp]: "show_nat m = show_nat n \<longleftrightarrow> m = n"
  by (metis option.inject parse_digits_show)

lemma decimal_digit_simps [simp]:
  "\<not> decimal_digit CHR '':''" "\<not> decimal_digit CHR '',''" "\<not> decimal_digit CHR ''+''" "\<not> decimal_digit CHR ''_''"
  "\<not> decimal_digit CHR ''&''" "\<not> decimal_digit CHR ''=''"
  by (simp_all add: decimal_digit_def)

lemma show_nat_no_char: "\<not> decimal_digit c \<Longrightarrow> c \<notin> set (show_nat n)"
  using show_nat_digits by blast

lemma parse_u64_show [simp]: "parse_u64 (show_u64 n) = Some n"
proof -
  obtain c cs where c: "show_nat (unat n) = c # cs" by (cases "show_nat (unat n)") auto
  then have "c \<noteq> CHR ''+''" using show_nat_no_char [of "CHR ''+''" "unat n"] by auto
  moreover have "unat n < 2 ^ 64" by (rule order_less_le_trans [OF unsigned_less]) simp
  ultimately show ?thesis using parse_digits_show [of "unat n"]
    by (simp add: parse_u64_def show_u64_def c)
qed

text \<open>A name and a number, separated by a character the number cannot contain.\<close>

lemma numbered_inject:
  assumes "\<not> decimal_digit sep" and "a @ sep # show_nat m = b @ sep # show_nat n"
  shows "m = n" and "a = b"
proof -
  have "sep \<notin> set (show_nat m)" "sep \<notin> set (show_nat n)" using assms(1) by (simp_all add: show_nat_no_char)
  then have "takeWhile (\<lambda>c. c \<noteq> sep) (rev (a @ sep # show_nat m)) = rev (show_nat m)"
    "takeWhile (\<lambda>c. c \<noteq> sep) (rev (b @ sep # show_nat n)) = rev (show_nat n)"
    by (simp_all, (subst takeWhile_append2; auto)+)
  then show "m = n" using assms(2) by simp
  then show "a = b" using assms(2) by simp
qed

subsection \<open>Splitting\<close>

lemma split_on_append: "sep \<notin> set x \<Longrightarrow> split_on sep (x @ sep # y) = x # split_on sep y"
  by (induction x) (auto split: list.splits)

lemma split_on_none: "sep \<notin> set x \<Longrightarrow> split_on sep x = [x]"
  by (induction x) auto

lemma split_join:
  "xs \<noteq> [] \<Longrightarrow> \<forall>x \<in> set xs. sep \<notin> set x \<Longrightarrow> split_on sep (join_with [sep] xs) = xs"
  by (induction "[sep]" xs rule: join_with.induct) (simp_all add: split_on_none split_on_append)

subsection \<open>Trimming\<close>

text \<open>Text that neither begins nor ends with white space.\<close>

definition no_space_before :: "string \<Rightarrow> bool" where
  "no_space_before s \<longleftrightarrow> list_all (\<lambda>w. take (length w) s \<noteq> w) white_space"

definition no_space_after :: "string \<Rightarrow> bool" where
  "no_space_after s \<longleftrightarrow> list_all (\<lambda>w. take (length w) (rev s) \<noteq> rev w) white_space"

lemma strip_left_none: "list_all (\<lambda>w. take (length w) s \<noteq> w) ws \<Longrightarrow> strip_left ws s = s"
  by (auto simp: strip_left.simps [of ws s] find_Some_iff list_all_iff split: option.split)

lemma trim_clean: "no_space_before s \<Longrightarrow> no_space_after s \<Longrightarrow> trim s = s"
  by (simp add: trim_def no_space_before_def no_space_after_def strip_left_none list_all_iff)

text \<open>No white-space character contains one of the ASCII characters that are not white space.\<close>

definition printable :: "char \<Rightarrow> bool" where
  "printable c \<longleftrightarrow> 0x21 \<le> (of_char c :: nat) \<and> (of_char c :: nat) \<le> 0x7E"

lemma white_space_unprintable: "w \<in> set white_space \<Longrightarrow> c \<in> set w \<Longrightarrow> \<not> printable c"
proof -
  have "list_all (list_all (\<lambda>c. \<not> printable c)) white_space" by code_simp
  then show "w \<in> set white_space \<Longrightarrow> c \<in> set w \<Longrightarrow> \<not> printable c" by (auto simp: list_all_iff)
qed

lemma white_space_nonempty: "w \<in> set white_space \<Longrightarrow> w \<noteq> []"
  by (auto simp: white_space_def)

lemma no_space_before_printable:
  assumes "printable c"
  shows "no_space_before (c # s)"
  unfolding no_space_before_def list_all_iff
proof
  fix w assume w: "w \<in> set white_space"
  obtain d w' where "w = d # w'" using white_space_nonempty [OF w] by (metis neq_Nil_conv)
  then show "take (length w) (c # s) \<noteq> w" using white_space_unprintable [OF w, of d] assms by auto
qed

lemma no_space_after_snoc:
  assumes "printable c"
  shows "no_space_after (s @ [c])"
  unfolding no_space_after_def list_all_iff
proof
  fix w assume w: "w \<in> set white_space"
  then obtain w' d where d: "w = w' @ [d]" using white_space_nonempty [OF w] by (metis rev_exhaust)
  then have "d \<noteq> c" using white_space_unprintable [OF w, of d] assms by auto
  with d show "take (length w) (rev (s @ [c])) \<noteq> rev w" by simp
qed

lemma no_space_after_append:
  assumes "printable c" and "no_space_after t"
  shows "no_space_after (s @ c # t)"
  unfolding no_space_after_def list_all_iff
proof
  fix w assume w: "w \<in> set white_space"
  show "take (length w) (rev (s @ c # t)) \<noteq> rev w"
  proof (cases "length w \<le> length t")
    case True
    then show ?thesis using assms(2) w by (simp add: no_space_after_def list_all_iff)
  next
    case False
    then have "c \<in> set (take (length w) (rev (s @ c # t)))" by (simp add: take_Cons')
    moreover have "c \<notin> set (rev w)" using white_space_unprintable [OF w] assms(1) by auto
    ultimately show ?thesis by metis
  qed
qed

lemma decimal_digit_printable: "decimal_digit c \<Longrightarrow> printable c"
  by (simp add: decimal_digit_def printable_def)

end
