(* ===== verification/Cluster_Start.thy ===== *)
theory Cluster_Start
  imports Config_Text Raft_Network
begin

text \<open>
  How a node of the database or of the custodian finds its peers and founds the cluster:
  \<open>parse_peer_configs\<close>, \<open>should_initialize_cluster\<close>, \<open>build_network_factory_and_peers\<close> and
  \<open>initialize_cluster_if_leader\<close> of \<open>db/src/main.rs\<close>, and their copies in \<open>custodian/src/main.rs\<close>,
  which differ in the names of the types only.
\<close>

record peer_config =
  pc_node_id :: u64
  pc_address :: string

text \<open>One turn of the loop over the entries of \<open>RAFT_PEERS\<close>: \<open>None\<close> is \<open>continue\<close>.\<close>

definition peer_of_entry :: "string \<Rightarrow> peer_config option" where
  "peer_of_entry peer_config =
     (let parts = split_on (CHR '':'') (trim peer_config) in
      if length parts < 2 then None
      else let peer_id = (case parse_u64 (parts ! 0) of Some n \<Rightarrow> n | None \<Rightarrow> 0) in
        if peer_id = 0 then None
        else Some \<lparr>pc_node_id = peer_id, pc_address = join_with '':'' (drop 1 parts)\<rparr>)"

definition parse_peer_configs :: "string \<Rightarrow> peer_config list" where
  "parse_peer_configs peers_str = List.map_filter peer_of_entry (split_on (CHR '','') peers_str)"

definition should_initialize_cluster :: "u64 \<Rightarrow> u64 list \<Rightarrow> bool" where
  "should_initialize_cluster node_id all_peers \<longleftrightarrow>
     node_id = (case all_peers of p # _ \<Rightarrow> p | [] \<Rightarrow> 1) \<and> all_peers \<noteq> []"

definition build_network_factory_and_peers :: "string \<Rightarrow> network_factory \<times> peer_config list" where
  "build_network_factory_and_peers peers_str =
     (let peers = parse_peer_configs peers_str
      in (fold (\<lambda>peer factory. add_node (pc_node_id peer) (pc_address peer) factory) peers factory_new, peers))"

text \<open>\<open>raft_initialize\<close> is openraft's \<open>initialize\<close>; its answer is dropped.\<close>

definition initialize_cluster_if_leader ::
  "(u64 set \<Rightarrow> ('r, string, unit) eff) \<Rightarrow> u64 \<Rightarrow> u64 list \<Rightarrow> 'r \<Rightarrow> 'r" where
  "initialize_cluster_if_leader raft_initialize node_id all_peers = (\<lambda>raft.
     if should_initialize_cluster node_id all_peers
     then snd (raft_initialize (set all_peers) raft) else raft)"

text \<open>The node's own id and the entries it reads, from the environment.\<close>

definition node_id_from_env :: "string option \<Rightarrow> u64 option" where
  "node_id_from_env raw = parse_u64 (case raw of Some v \<Rightarrow> v | None \<Rightarrow> ''1'')"

definition peers_from_env :: "string option \<Rightarrow> u64 \<Rightarrow> string \<Rightarrow> string" where
  "peers_from_env raw node_id listen_addr =
     (case raw of Some v \<Rightarrow> v | None \<Rightarrow> show_u64 node_id @ '':'' @ listen_addr)"

text \<open>The founding of the cluster as \<open>main\<close> composes it.\<close>

definition found_cluster ::
  "(u64 set \<Rightarrow> ('r, string, unit) eff) \<Rightarrow> string option \<Rightarrow> u64 \<Rightarrow> string \<Rightarrow> 'r \<Rightarrow> network_factory \<times> 'r" where
  "found_cluster raft_initialize raw node_id listen_addr raft =
     (case build_network_factory_and_peers (peers_from_env raw node_id listen_addr) of (factory, peers) \<Rightarrow>
        (factory, initialize_cluster_if_leader raft_initialize node_id (map pc_node_id peers) raft))"

subsection \<open>Reading back a list of peers\<close>

definition peer_entry :: "peer_config \<Rightarrow> string" where
  "peer_entry p = show_u64 (pc_node_id p) @ '':'' @ pc_address p"

definition peer_ok :: "peer_config \<Rightarrow> bool" where
  "peer_ok p \<longleftrightarrow> pc_node_id p \<noteq> 0 \<and> CHR '','' \<notin> set (pc_address p) \<and> no_space_after (pc_address p)"

lemma show_u64_no_char: "\<not> decimal_digit c \<Longrightarrow> c \<notin> set (show_u64 n)"
  by (simp add: show_u64_def show_nat_no_char)

lemma printable_colon [simp]: "printable CHR '':''"
  by (simp add: printable_def)

lemma trim_peer_entry:
  assumes "no_space_after a"
  shows "trim (show_u64 n @ CHR '':'' # a) = show_u64 n @ CHR '':'' # a"
proof (rule trim_clean)
  obtain c cs where c: "show_nat (unat n) = c # cs" by (cases "show_nat (unat n)") auto
  then have "decimal_digit c" using show_nat_digits [of c "unat n"] by simp
  then show "no_space_before (show_u64 n @ CHR '':'' # a)"
    by (simp add: show_u64_def c no_space_before_printable decimal_digit_printable)
  show "no_space_after (show_u64 n @ CHR '':'' # a)" by (rule no_space_after_append [OF printable_colon assms])
qed

lemma peer_of_entry_ok: "peer_ok p \<Longrightarrow> peer_of_entry (peer_entry p) = Some p"
  by (simp add: peer_of_entry_def peer_entry_def peer_ok_def trim_peer_entry split_on_append show_u64_no_char
      Let_def join_split_on)

lemma parse_peer_configs_ok:
  assumes "\<forall>p \<in> set ps. peer_ok p"
  shows "parse_peer_configs (join_with '','' (map peer_entry ps)) = ps"
proof (cases "ps = []")
  case True
  have "peer_of_entry [] = None" by code_simp
  then show ?thesis using True by (simp add: parse_peer_configs_def map_filter_simps)
next
  case False
  have "\<forall>x \<in> set (map peer_entry ps). CHR '','' \<notin> set x"
    using assms by (auto simp: peer_entry_def peer_ok_def show_u64_no_char)
  with False have "split_on (CHR '','') (join_with '','' (map peer_entry ps)) = map peer_entry ps"
    by (intro split_join) simp_all
  moreover have "List.map_filter peer_of_entry (map peer_entry ps) = ps"
    using assms by (induction ps) (simp_all add: map_filter_simps peer_of_entry_ok)
  ultimately show ?thesis by (simp add: parse_peer_configs_def)
qed

lemma factory_peers:
  "nf_peers (fold (\<lambda>peer factory. add_node (pc_node_id peer) (pc_address peer) factory) ps f)
     = nf_peers f ++ map_of (rev (map (\<lambda>p. (pc_node_id p, pc_address p)) ps))"
  by (induction ps arbitrary: f) (auto simp: add_node_def map_add_def fun_eq_iff split: option.split)

text \<open>
The list of peers survives its textual form: from the entries \<open>id:address\<close>, separated by
  commas, a node reads exactly the peers that were written, in order, for any address without a
  comma, ports and schemes included; its connections then go to the address of each peer.
\<close>

theorem peers_roundtrip:
  assumes "\<forall>p \<in> set ps. peer_ok p" and "distinct (map pc_node_id ps)"
  shows "\<exists>factory. build_network_factory_and_peers (join_with '','' (map peer_entry ps)) = (factory, ps)
     \<and> (\<forall>p \<in> set ps. get_peer_address factory (pc_node_id p) = Some (pc_address p)
          \<and> nc_address (new_client factory (pc_node_id p) node_addr) = pc_address p)
     \<and> (\<forall>i. i \<notin> pc_node_id ` set ps \<longrightarrow> get_peer_address factory i = None)"
proof -
  let ?f = "fold (\<lambda>peer factory. add_node (pc_node_id peer) (pc_address peer) factory) ps factory_new"
  have peers: "nf_peers ?f = map_of (rev (map (\<lambda>p. (pc_node_id p, pc_address p)) ps))"
    by (simp add: factory_peers factory_new_def)
  have "distinct (map fst (rev (map (\<lambda>p. (pc_node_id p, pc_address p)) ps)))"
    using assms(2) by (simp add: rev_map [symmetric] o_def)
  then have "get_peer_address ?f (pc_node_id p) = Some (pc_address p)" if "p \<in> set ps" for p
    using that by (simp add: get_peer_address_def peers map_of_eq_Some_iff)
  moreover have "get_peer_address ?f i = None" if "i \<notin> pc_node_id ` set ps" for i
    using that by (auto simp: get_peer_address_def peers map_of_eq_None_iff image_image)
  ultimately show ?thesis
    by (simp add: build_network_factory_and_peers_def parse_peer_configs_ok [OF assms(1)] new_client_def)
qed

theorem peers_roundtrip_witness:
  "snd (build_network_factory_and_peers ''1:http://127.0.0.1:50051,2:http://127.0.0.1:50052'')
     = [\<lparr>pc_node_id = 1, pc_address = ''http://127.0.0.1:50051''\<rparr>, \<lparr>pc_node_id = 2, pc_address = ''http://127.0.0.1:50052''\<rparr>]"
proof -
  let ?ps = "[\<lparr>pc_node_id = 1, pc_address = ''http://127.0.0.1:50051''\<rparr>, \<lparr>pc_node_id = 2, pc_address = ''http://127.0.0.1:50052''\<rparr>]"
  have "no_space_after ''http://127.0.0.1:50051''" "no_space_after ''http://127.0.0.1:50052''" by code_simp+
  then have "\<forall>p \<in> set ?ps. peer_ok p" by (simp add: peer_ok_def)
  moreover have "distinct (map pc_node_id ?ps)" by simp
  ultimately obtain factory where "build_network_factory_and_peers (join_with '','' (map peer_entry ?ps)) = (factory, ?ps)"
    using peers_roundtrip by blast
  moreover have "join_with '','' (map peer_entry ?ps) = ''1:http://127.0.0.1:50051,2:http://127.0.0.1:50052''"
    by code_simp
  ultimately show ?thesis by (simp only: snd_conv)
qed

subsection \<open>Founding the cluster\<close>

text \<open>
C38: of the nodes that read the same \<open>RAFT_PEERS\<close>, whatever it says, at most one founds the
  cluster, the one listed first, and it does so with all listed ids as members; when no entry
  can be read nobody does. A node without the variable founds a cluster of its own, unless its
  id is 0, which is never taken for a peer.
\<close>

theorem bootstrap_once:
  assumes "CHR '','' \<notin> set listen" and "no_space_after listen"
  shows "snd (found_cluster init (Some s) n addr r) =
       (case parse_peer_configs s of
          [] \<Rightarrow> r
        | p # ps \<Rightarrow> if n = pc_node_id p then snd (init (insert (pc_node_id p) (pc_node_id ` set ps)) r) else r)
     \<and> (\<forall>n1 n2 ps. should_initialize_cluster n1 ps \<longrightarrow> should_initialize_cluster n2 ps \<longrightarrow> n1 = n2 \<and> n1 \<in> set ps)
     \<and> snd (found_cluster init None n listen r) = (if n = 0 then r else snd (init {n} r))"
proof (intro conjI)
  show "snd (found_cluster init (Some s) n addr r) =
       (case parse_peer_configs s of
          [] \<Rightarrow> r
        | p # ps \<Rightarrow> if n = pc_node_id p then snd (init (insert (pc_node_id p) (pc_node_id ` set ps)) r) else r)"
    by (simp add: found_cluster_def build_network_factory_and_peers_def peers_from_env_def Let_def
        initialize_cluster_if_leader_def should_initialize_cluster_def split: list.split)
  show "\<forall>n1 n2 ps. should_initialize_cluster n1 ps \<longrightarrow> should_initialize_cluster n2 ps \<longrightarrow> n1 = n2 \<and> n1 \<in> set ps"
    by (auto simp: should_initialize_cluster_def split: list.splits)
  have "parse_peer_configs (show_u64 n @ '':'' @ listen) = (if n = 0 then [] else [\<lparr>pc_node_id = n, pc_address = listen\<rparr>])"
  proof -
    have "CHR '','' \<notin> set (show_u64 n @ '':'' @ listen)" using assms(1) by (simp add: show_u64_no_char)
    then have "split_on (CHR '','') (show_u64 n @ '':'' @ listen) = [show_u64 n @ '':'' @ listen]" by (rule split_on_none)
    then show ?thesis
      by (simp add: parse_peer_configs_def map_filter_simps peer_of_entry_def trim_peer_entry [OF assms(2)]
          split_on_append show_u64_no_char Let_def join_split_on)
  qed
  then show "snd (found_cluster init None n listen r) = (if n = 0 then r else snd (init {n} r))"
    by (simp add: found_cluster_def build_network_factory_and_peers_def peers_from_env_def Let_def
        initialize_cluster_if_leader_def should_initialize_cluster_def)
qed

theorem bootstrap_once_witness:
  "snd (found_cluster (\<lambda>ms raft. (Inr (), raft @ [ms])) None 4 ''[::1]:50051'' []) = [{4}]"
proof -
  have "CHR '','' \<notin> set ''[::1]:50051''" "no_space_after ''[::1]:50051''" by code_simp+
  from bootstrap_once [OF this, where init = "\<lambda>ms raft. (Inr (), raft @ [ms])" and n = 4 and r = "[]"]
  show ?thesis by simp
qed

end
