(* ===== verification/Chaos_Service.thy ===== *)
theory Chaos_Service
  imports Config_Text
begin

text \<open>
  The fault-injection service, \<open>chaos/src/chaos_service.rs\<close>: a table of active scenarios and, for
  each injection, a background task that sleeps for the scenario's duration and then removes the
  scenario from the table.

  The record \<open>chaos\<close> holds the service's two fields and, below them, what the runtime keeps for
  it: the unfinished tasks, each with the instant its sleep ends and the id it removes, how many
  tasks were spawned, and the clock, in milliseconds. A handler yields at the lock of the table,
  so an injection is two steps: up to the spawning of its task, and the insertion. \<open>f64\<close> is a type
  parameter with its parser and the default probability.
\<close>

subsection \<open>Messages and state\<close>

datatype 'f chaos_scenario =
    NetworkLatency (target_service: string) (delay_ms: u64) (duration_ms: u64)
  | ServiceCrash (target_service: string) (crash_probability: 'f) (duration_ms: u64)
  | DiskIODelay (target_service: string) (delay_ms: u64) (duration_ms: u64)
  | RaftLeaderFailure (node_id: u64) (duration_ms: u64)
  | NetworkPartition (partition_groups: "string list list") (duration_ms: u64)

record chaos_request =
  xq_scenario_type :: string
  xq_parameters :: "string \<rightharpoonup> string"

record chaos_ack =
  xa_scenario_id :: string
  xa_status :: string
  xa_message :: string

text \<open>The ids of a catalog come in the order of the hash table, which is left open: a set.\<close>

record scenario_catalog =
  xc_scenario_ids :: "string set"
  xc_available_types :: "string list"

record 'f active_scenario =
  as_scenario :: "'f chaos_scenario"
  as_expiry_task :: nat

record 'f chaos =
  cz_active :: "string \<rightharpoonup> 'f active_scenario"
  cz_next_id :: u64
  cz_tasks :: "nat \<rightharpoonup> nat \<times> string"
  cz_spawned :: nat
  cz_now :: nat

record 'f float_lib =
  fl_parse :: "string \<Rightarrow> 'f option"
  fl_tenth :: 'f

subsection \<open>Authorization and parsing\<close>

definition authorize :: "string option \<Rightarrow> string option \<Rightarrow> status + unit" where
  "authorize expected provided =
     (case expected of
        None \<Rightarrow> Inr ()
      | Some e \<Rightarrow>
          if provided = Some e then Inr ()
          else Inl (PermissionDenied ''chaos: missing or invalid admin token''))"

definition param_u64 :: "(string \<rightharpoonup> string) \<Rightarrow> string \<Rightarrow> u64 \<Rightarrow> u64" where
  "param_u64 p name dflt = (case Option.bind (p name) parse_u64 of Some v \<Rightarrow> v | None \<Rightarrow> dflt)"

definition param_text :: "(string \<rightharpoonup> string) \<Rightarrow> string \<Rightarrow> string \<Rightarrow> string" where
  "param_text p name dflt = (case p name of Some v \<Rightarrow> v | None \<Rightarrow> dflt)"

definition parse_scenario :: "'f float_lib \<Rightarrow> chaos_request \<Rightarrow> status + 'f chaos_scenario" where
  "parse_scenario F req =
     (let p = xq_parameters req; ty = xq_scenario_type req; duration = param_u64 p ''duration_ms'' in
      if ty = ''network_latency'' then
        Inr (NetworkLatency (param_text p ''target_service'' ''all'') (param_u64 p ''delay_ms'' 100) (duration 30000))
      else if ty = ''service_crash'' then
        Inr (ServiceCrash (param_text p ''target_service'' ''random'')
          (case Option.bind (p ''crash_probability'') (fl_parse F) of Some v \<Rightarrow> v | None \<Rightarrow> fl_tenth F) (duration 30000))
      else if ty = ''disk_io_delay'' then
        Inr (DiskIODelay (param_text p ''target_service'' ''db'') (param_u64 p ''delay_ms'' 50) (duration 30000))
      else if ty = ''raft_leader_failure'' then
        Inr (RaftLeaderFailure (param_u64 p ''node_id'' 1) (duration 10000))
      else if ty = ''network_partition'' then
        Inr (NetworkPartition [[''node-1'', ''node-2''], [''node-3'', ''node-4'', ''node-5'']] (duration 15000))
      else Inl (InvalidArgument (''Unknown scenario type: '' @ ty)))"

subsection \<open>Handlers\<close>

definition chaos_default :: "'f chaos" where
  "chaos_default = \<lparr>cz_active = Map.empty, cz_next_id = 0, cz_tasks = Map.empty, cz_spawned = 0, cz_now = 0\<rparr>"

text \<open>
  An injection up to the spawning of the task. The result is the id and the entry that is to be
  inserted under it.
\<close>

definition inject_begin ::
  "'f float_lib \<Rightarrow> string option \<Rightarrow> string option \<Rightarrow> chaos_request \<Rightarrow> ('f chaos, status, string \<times> 'f active_scenario) eff" where
  "inject_begin F expected provided req =
     thenA (lift_res (authorize expected provided))
       (bindA (lift_res (parse_scenario F req)) (\<lambda>scenario s.
          let seq = cz_next_id s;
              scenario_id = xq_scenario_type req @ ''_'' @ show_u64 seq;
              task = cz_spawned s
          in (Inr (scenario_id, \<lparr>as_scenario = scenario, as_expiry_task = task\<rparr>),
              s\<lparr>cz_next_id := seq + 1,
                cz_tasks := (cz_tasks s)(task \<mapsto> (cz_now s + unat (duration_ms scenario), scenario_id)),
                cz_spawned := task + 1\<rparr>)))"

definition inject_insert :: "string \<Rightarrow> 'f active_scenario \<Rightarrow> 'f chaos \<Rightarrow> 'f chaos" where
  "inject_insert scenario_id entry s = s\<lparr>cz_active := (cz_active s)(scenario_id \<mapsto> entry)\<rparr>"

definition inject_ack :: "chaos_request \<Rightarrow> string \<Rightarrow> chaos_ack" where
  "inject_ack req scenario_id =
     \<lparr>xa_scenario_id = scenario_id, xa_status = ''injected'',
      xa_message = ''Chaos scenario '' @ xq_scenario_type req @ '' injected successfully''\<rparr>"

text \<open>The handler run without interruption.\<close>

definition inject_scenario ::
  "'f float_lib \<Rightarrow> string option \<Rightarrow> string option \<Rightarrow> chaos_request \<Rightarrow> ('f chaos, status, chaos_ack) eff" where
  "inject_scenario F expected provided req =
     bindA (inject_begin F expected provided req) (\<lambda>(scenario_id, entry) s.
       (Inr (inject_ack req scenario_id), inject_insert scenario_id entry s))"

definition stop_scenario ::
  "string option \<Rightarrow> string option \<Rightarrow> string \<Rightarrow> ('f chaos, status, chaos_ack) eff" where
  "stop_scenario expected provided scenario_id =
     thenA (lift_res (authorize expected provided)) (\<lambda>s.
       case cz_active s scenario_id of
         Some active \<Rightarrow>
           (Inr \<lparr>xa_scenario_id = scenario_id, xa_status = ''stopped'',
                 xa_message = ''Chaos scenario stopped successfully''\<rparr>,
            s\<lparr>cz_active := (cz_active s)(scenario_id := None),
              cz_tasks := (cz_tasks s)(as_expiry_task active := None)\<rparr>)
       | None \<Rightarrow> (Inl (NotFoundStatus (''Scenario '' @ scenario_id @ '' not found'')), s))"

definition list_scenarios :: "('f chaos, status, scenario_catalog) eff" where
  "list_scenarios = (\<lambda>s.
     (Inr \<lparr>xc_scenario_ids = dom (cz_active s),
           xc_available_types = [''network_latency'', ''service_crash'', ''disk_io_delay'', ''raft_leader_failure'',
             ''network_partition'']\<rparr>, s))"

text \<open>The end of a task: it removes whatever the table holds under its id.\<close>

definition expire :: "nat \<Rightarrow> 'f chaos \<Rightarrow> 'f chaos" where
  "expire task s =
     (case cz_tasks s task of
        None \<Rightarrow> s
      | Some (wakes, scenario_id) \<Rightarrow>
          s\<lparr>cz_active := (cz_active s)(scenario_id := None), cz_tasks := (cz_tasks s)(task := None)\<rparr>)"

subsection \<open>Interleavings\<close>

text \<open>
  The state of a run is the service with the injections that wait for the lock. Fewer than
  \<open>2 ^ 64\<close> injections are made, so the counter does not wrap.
\<close>

type_synonym 'f chaos_run = "'f chaos \<times> (string \<times> 'f active_scenario) list"

inductive chaos_step ::
  "'f float_lib \<Rightarrow> string option \<Rightarrow> 'f chaos_run \<Rightarrow> 'f chaos_run \<Rightarrow> bool" for F expected where
  begins: "inject_begin F expected provided req s = (Inr x, s') \<Longrightarrow> cz_spawned s < 2 ^ 64 - 1 \<Longrightarrow>
     chaos_step F expected (s, waiting) (s', x # waiting)"
| inserts: "(i, a) \<in> set waiting \<Longrightarrow>
     chaos_step F expected (s, waiting) (inject_insert i a s, remove1 (i, a) waiting)"
| stops: "chaos_step F expected (s, waiting) (snd (stop_scenario expected provided i s), waiting)"
| expires: "cz_tasks s h = Some (wakes, i) \<Longrightarrow> wakes \<le> cz_now s \<Longrightarrow>
     chaos_step F expected (s, waiting) (expire h s, waiting)"
| ticks: "chaos_step F expected (s, waiting) (s\<lparr>cz_now := cz_now s + n\<rparr>, waiting)"

inductive_cases chaos_stepE: "chaos_step F expected \<sigma> \<sigma>'"

text \<open>
  The steps that are left when nobody injects or stops: a pending insertion, and a task that ends.
  A step is prompt when it leaves no scenario waiting to be inserted whose task has ended.
\<close>

inductive chaos_winds_down :: "'f chaos_run \<Rightarrow> 'f chaos_run \<Rightarrow> bool" where
  inserts: "(i, a) \<in> set waiting \<Longrightarrow>
     chaos_winds_down (s, waiting) (inject_insert i a s, remove1 (i, a) waiting)"
| expires: "cz_tasks s h = Some (wakes, i) \<Longrightarrow> wakes \<le> cz_now s \<Longrightarrow>
     chaos_winds_down (s, waiting) (expire h s, waiting)"

inductive_cases winds_downE: "chaos_winds_down \<sigma> \<sigma>'"

definition prompt :: "('f chaos_run \<Rightarrow> 'f chaos_run \<Rightarrow> bool) \<Rightarrow> 'f chaos_run \<Rightarrow> 'f chaos_run \<Rightarrow> bool" where
  "prompt step \<sigma> \<sigma>' \<longleftrightarrow> step \<sigma> \<sigma>' \<and>
     (\<forall>(i, a) \<in> set (snd \<sigma>'). cz_tasks (fst \<sigma>') (as_expiry_task a) \<noteq> None)"

end
