(* ===== verification/Chaos_Props.thy ===== *)
theory Chaos_Props
  imports Chaos_Service
begin

text \<open>
  What the fault-injection service keeps in every interleaving of its requests and its background
  tasks: ids are never shared, a task removes only its own scenario, the faults run out when
  nobody injects any more, and the one way in which a fault outlives its task.
\<close>

subsection \<open>The invariant\<close>

definition chaos_types :: "string list" where
  "chaos_types = [''network_latency'', ''service_crash'', ''disk_io_delay'', ''raft_leader_failure'', ''network_partition'']"

definition named_by :: "string \<Rightarrow> nat \<Rightarrow> bool" where
  "named_by i n \<longleftrightarrow> (\<exists>ty \<in> set chaos_types. i = ty @ CHR ''_'' # show_nat n)"

lemma named_by_unique: "named_by i m \<Longrightarrow> named_by i n \<Longrightarrow> m = n"
  unfolding named_by_def by (elim bexE) (rule numbered_inject(1) [where sep = "CHR ''_''"], simp_all)

text \<open>The scenarios of a run, inserted or waiting.\<close>

definition known :: "'f chaos_run \<Rightarrow> string \<Rightarrow> 'f active_scenario \<Rightarrow> bool" where
  "known \<sigma> i a \<longleftrightarrow> cz_active (fst \<sigma>) i = Some a \<or> (i, a) \<in> set (snd \<sigma>)"

definition chaos_inv :: "'f chaos_run \<Rightarrow> bool" where
  "chaos_inv \<sigma> \<longleftrightarrow> unat (cz_next_id (fst \<sigma>)) = cz_spawned (fst \<sigma>)
     \<and> (\<forall>h d i. cz_tasks (fst \<sigma>) h = Some (d, i) \<longrightarrow> h < cz_spawned (fst \<sigma>) \<and> named_by i h)
     \<and> (\<forall>i a. known \<sigma> i a \<longrightarrow> as_expiry_task a < cz_spawned (fst \<sigma>) \<and> named_by i (as_expiry_task a))
     \<and> (\<forall>i a j b. known \<sigma> i a \<longrightarrow> known \<sigma> j b \<longrightarrow> as_expiry_task a = as_expiry_task b \<longrightarrow> i = j \<and> a = b)
     \<and> distinct (snd \<sigma>) \<and> (\<forall>(i, a) \<in> set (snd \<sigma>). cz_active (fst \<sigma>) i = None)
     \<and> finite (dom (cz_tasks (fst \<sigma>)))"

lemma chaos_invD:
  assumes "chaos_inv \<sigma>"
  shows "unat (cz_next_id (fst \<sigma>)) = cz_spawned (fst \<sigma>)"
    and "cz_tasks (fst \<sigma>) h = Some (d, i) \<Longrightarrow> h < cz_spawned (fst \<sigma>) \<and> named_by i h"
    and "known \<sigma> i a \<Longrightarrow> as_expiry_task a < cz_spawned (fst \<sigma>) \<and> named_by i (as_expiry_task a)"
    and "known \<sigma> i a \<Longrightarrow> known \<sigma> j b \<Longrightarrow> as_expiry_task a = as_expiry_task b \<Longrightarrow> i = j \<and> a = b"
    and "distinct (snd \<sigma>)" and "(i, a) \<in> set (snd \<sigma>) \<Longrightarrow> cz_active (fst \<sigma>) i = None"
    and "finite (dom (cz_tasks (fst \<sigma>)))"
  using assms unfolding chaos_inv_def by blast+

text \<open>Two scenarios under one id are the same one.\<close>

lemma known_unique: "chaos_inv \<sigma> \<Longrightarrow> known \<sigma> i a \<Longrightarrow> known \<sigma> i b \<Longrightarrow> a = b"
  using chaos_invD(3,4) named_by_unique by metis

lemma parse_scenario_type: "parse_scenario F req = Inr sc \<Longrightarrow> xq_scenario_type req \<in> set chaos_types"
  by (auto simp: parse_scenario_def chaos_types_def Let_def split: if_splits)

lemma inject_begin_ok:
  assumes "inject_begin F expected provided req s = (Inr x, s')"
  obtains sc where "authorize expected provided = Inr ()" and "parse_scenario F req = Inr sc"
    and "x = (xq_scenario_type req @ ''_'' @ show_u64 (cz_next_id s), \<lparr>as_scenario = sc, as_expiry_task = cz_spawned s\<rparr>)"
    and "s' = s\<lparr>cz_next_id := cz_next_id s + 1,
          cz_tasks := (cz_tasks s)(cz_spawned s \<mapsto> (cz_now s + unat (duration_ms sc),
             xq_scenario_type req @ ''_'' @ show_u64 (cz_next_id s))),
          cz_spawned := cz_spawned s + 1\<rparr>"
  using assms by (auto simp: inject_begin_def act_defs Let_def split: sum.splits)

lemma begin_inv:
  assumes inv: "chaos_inv (s, w)" and run: "inject_begin F expected provided req s = (Inr x, s')"
    and room: "cz_spawned s < 2 ^ 64 - 1"
  shows "chaos_inv (s', x # w)"
proof -
  let ?n = "cz_spawned s" and ?i = "xq_scenario_type req @ ''_'' @ show_u64 (cz_next_id s)"
  obtain sc where sc: "parse_scenario F req = Inr sc" and x: "x = (?i, \<lparr>as_scenario = sc, as_expiry_task = ?n\<rparr>)"
    and s': "s' = s\<lparr>cz_next_id := cz_next_id s + 1, cz_tasks := (cz_tasks s)(?n \<mapsto> (cz_now s + unat (duration_ms sc), ?i)),
          cz_spawned := ?n + 1\<rparr>"
    by (rule inject_begin_ok [OF run])
  note D = chaos_invD [OF inv, unfolded fst_conv snd_conv]
  have name: "named_by ?i ?n"
    using parse_scenario_type [OF sc] by (auto simp: named_by_def show_u64_def D(1))
  have fresh: "as_expiry_task a < ?n" "i \<noteq> ?i" if "known (s, w) i a" for i a
  proof -
    show less: "as_expiry_task a < ?n" using D(3) [OF that] by blast
    have named: "named_by i (as_expiry_task a)" using D(3) [OF that] by blast
    show "i \<noteq> ?i"
    proof
      assume "i = ?i"
      then have "as_expiry_task a = ?n" by (intro named_by_unique [OF named]) (use name in simp)
      with less show False by simp
    qed
  qed
  have known': "known (s', x # w) i a \<longleftrightarrow> known (s, w) i a \<or> (i, a) = x" for i a
    by (auto simp: known_def s')
  have old: "i = j \<and> a = b" if "known (s, w) i a" "known (s, w) j b" "as_expiry_task a = as_expiry_task b" for i a j b
    using D(4) [OF that] .
  show ?thesis
    unfolding chaos_inv_def known' fst_conv snd_conv
  proof (intro conjI allI impI)
    show "unat (cz_next_id s') = cz_spawned s'" using room D(1) by (simp add: s' unat_word_ariths)
    show "h < cz_spawned s'" "named_by i h" if "cz_tasks s' h = Some (d, i)" for h d i
      using that D(2) [of h d i] name by (auto simp: s' split: if_splits)
    show "as_expiry_task a < cz_spawned s'" "named_by i (as_expiry_task a)" if "known (s, w) i a \<or> (i, a) = x" for i a
      using that D(3) [of i a] name by (auto simp: s' x)
    show "i = j" "a = b" if "known (s, w) i a \<or> (i, a) = x" "known (s, w) j b \<or> (j, b) = x"
        "as_expiry_task a = as_expiry_task b" for i a j b
      using that old [of i a j b] fresh(1) [of i a] fresh(1) [of j b] by (auto simp: x)
    show "distinct (x # w)" using D(5) fresh(2) by (auto simp: known_def x)
    show "\<forall>(i, a) \<in> set (x # w). cz_active s' i = None"
    proof -
      have "cz_active s ?i = None"
        using fresh(2) [of ?i] by (cases "cz_active s ?i") (auto simp: known_def)
      then show ?thesis using D(6) by (auto simp: s' x)
    qed
    show "finite (dom (cz_tasks s'))" using D(7) by (simp add: s')
  qed
qed

text \<open>A step that adds no scenario and no task keeps the invariant, once the new table agrees with who waits.\<close>

lemma chaos_inv_shrink:
  assumes "chaos_inv \<sigma>" and "\<And>i a. known \<sigma>' i a \<Longrightarrow> known \<sigma> i a"
    and "\<And>h x. cz_tasks (fst \<sigma>') h = Some x \<Longrightarrow> cz_tasks (fst \<sigma>) h = Some x"
    and "cz_next_id (fst \<sigma>') = cz_next_id (fst \<sigma>)" "cz_spawned (fst \<sigma>') = cz_spawned (fst \<sigma>)"
    and "distinct (snd \<sigma>')" "\<And>i a. (i, a) \<in> set (snd \<sigma>') \<Longrightarrow> cz_active (fst \<sigma>') i = None"
  shows "chaos_inv \<sigma>'"
  unfolding chaos_inv_def assms(4,5)
proof (intro conjI allI impI)
  note D = chaos_invD [OF assms(1)]
  show "unat (cz_next_id (fst \<sigma>)) = cz_spawned (fst \<sigma>)" by (rule D(1))
  show "h < cz_spawned (fst \<sigma>)" "named_by i h" if "cz_tasks (fst \<sigma>') h = Some (d, i)" for h d i
    using D(2) assms(3) [OF that] by auto
  show "as_expiry_task a < cz_spawned (fst \<sigma>)" "named_by i (as_expiry_task a)" if "known \<sigma>' i a" for i a
    using D(3) assms(2) [OF that] by auto
  show "i = j" "a = b" if "known \<sigma>' i a" "known \<sigma>' j b" "as_expiry_task a = as_expiry_task b" for i a j b
    using D(4) [OF assms(2) [OF that(1)] assms(2) [OF that(2)] that(3)] by auto
  show "distinct (snd \<sigma>')" by (rule assms(6))
  show "\<forall>(i, a) \<in> set (snd \<sigma>'). cz_active (fst \<sigma>') i = None" using assms(7) by auto
  have "dom (cz_tasks (fst \<sigma>')) \<subseteq> dom (cz_tasks (fst \<sigma>))" using assms(3) by auto
  then show "finite (dom (cz_tasks (fst \<sigma>')))" using D(7) finite_subset by blast
qed

lemma chaos_step_inv:
  assumes "chaos_step F expected \<sigma> \<sigma>'" and "chaos_inv \<sigma>"
  shows "chaos_inv \<sigma>'"
  using assms(1)
proof (cases rule: chaos_step.cases)
  case (begins provided req s x s' w)
  then show ?thesis using begin_inv assms(2) by metis
next
  case (inserts i a w s)
  note D = chaos_invD [OF assms(2), unfolded inserts(1) fst_conv snd_conv]
  show ?thesis
  proof (rule chaos_inv_shrink [OF assms(2)])
    show "known \<sigma> j b" if "known \<sigma>' j b" for j b
      using that inserts by (auto simp: known_def inject_insert_def split: if_splits dest: notin_set_remove1)
    show "cz_active (fst \<sigma>') j = None" if "(j, b) \<in> set (snd \<sigma>')" for j b
    proof -
      have "(j, b) \<in> set w" "(j, b) \<noteq> (i, a)" using that D(5) inserts by (auto simp: set_remove1_eq)
      moreover from this have "j \<noteq> i" using known_unique [OF assms(2), of i a b] inserts by (auto simp: known_def)
      ultimately show ?thesis using D(6) inserts by (simp add: inject_insert_def)
    qed
  qed (use D(5) inserts in \<open>simp_all add: inject_insert_def\<close>)
next
  case (stops s w provided i)
  note D = chaos_invD [OF assms(2), unfolded stops(1) fst_conv snd_conv]
  show ?thesis
    by (rule chaos_inv_shrink [OF assms(2)])
      (use D(5,6) stops in \<open>auto simp: known_def stop_scenario_def act_defs split: sum.splits option.splits if_splits\<close>)
next
  case (expires s h wakes i w)
  note D = chaos_invD [OF assms(2), unfolded expires(1) fst_conv snd_conv]
  show ?thesis
    by (rule chaos_inv_shrink [OF assms(2)])
      (use D(5,6) expires in \<open>auto simp: known_def expire_def split: if_splits\<close>)
next
  case (ticks s w n)
  then show ?thesis using assms(2) by (simp add: chaos_inv_def known_def)
qed

lemma chaos_reach_inv: "(chaos_step F expected)\<^sup>*\<^sup>* (chaos_default, []) \<sigma> \<Longrightarrow> chaos_inv \<sigma>"
proof (induction rule: rtranclp_induct)
  case base
  show ?case by (simp add: chaos_inv_def chaos_default_def known_def)
qed (rule chaos_step_inv)

text \<open>
Whatever requests are interleaved with whatever tasks, no two scenarios, inserted or still
  waiting for the table, share an id or a task; an id is the type and the number of the
  injection; and a task that ends removes its own scenario or nothing.
\<close>

theorem chaos_reachable:
  assumes "(chaos_step F expected)\<^sup>*\<^sup>* (chaos_default, []) (s, waiting)"
  shows "distinct (map fst waiting) \<and> fst ` set waiting \<inter> dom (cz_active s) = {}
     \<and> inj_on (\<lambda>i. as_expiry_task (the (cz_active s i))) (dom (cz_active s))
     \<and> (\<forall>i a. cz_active s i = Some a \<or> (i, a) \<in> set waiting \<longrightarrow>
          as_expiry_task a < cz_spawned s \<and> (\<exists>ty \<in> set chaos_types. i = ty @ ''_'' @ show_nat (as_expiry_task a)))
     \<and> (\<forall>h i j a. cz_active s i = Some a \<longrightarrow> cz_active (expire h s) i = None \<longrightarrow> as_expiry_task a = h)"
proof (intro conjI allI impI)
  note inv = chaos_reach_inv [OF assms]
  note D = chaos_invD [OF inv, unfolded fst_conv snd_conv]
  have "inj_on fst (set waiting)"
  proof (rule inj_onI)
    fix x y assume xy: "x \<in> set waiting" "y \<in> set waiting" "fst x = fst y"
    obtain i a b where "x = (i, a)" "y = (i, b)" using xy(3) by (metis prod.collapse)
    then show "x = y" using known_unique [OF inv, of i a b] xy(1,2) by (simp add: known_def)
  qed
  then show "distinct (map fst waiting)" using D(5) by (simp add: distinct_map)
  show "fst ` set waiting \<inter> dom (cz_active s) = {}" using D(6) by force
  show "inj_on (\<lambda>i. as_expiry_task (the (cz_active s i))) (dom (cz_active s))"
  proof (rule inj_onI)
    fix i j assume dom: "i \<in> dom (cz_active s)" "j \<in> dom (cz_active s)"
      and task: "as_expiry_task (the (cz_active s i)) = as_expiry_task (the (cz_active s j))"
    obtain a where a: "cz_active s i = Some a" using domD [OF dom(1)] by (elim exE)
    obtain b where b: "cz_active s j = Some b" using domD [OF dom(2)] by (elim exE)
    have "known (s, waiting) i a" "known (s, waiting) j b" by (simp_all add: known_def a b)
    moreover have "as_expiry_task a = as_expiry_task b" using task unfolding a b option.sel .
    ultimately show "i = j" using D(4) by blast
  qed
  show "as_expiry_task a < cz_spawned s" "\<exists>ty \<in> set chaos_types. i = ty @ ''_'' @ show_nat (as_expiry_task a)"
    if "cz_active s i = Some a \<or> (i, a) \<in> set waiting" for i a
    using D(3) [of i a] that by (auto simp: known_def named_by_def)
  show "as_expiry_task a = h" if "cz_active s i = Some a" "cz_active (expire h s) i = None" for h i a
  proof -
    have "\<exists>d. cz_tasks s h = Some (d, i)"
      using that by (cases "cz_tasks s h") (auto simp: expire_def split: if_splits)
    then have "named_by i h" using D(2) by blast
    moreover have "named_by i (as_expiry_task a)" using D(3) [of i a] that(1) by (simp add: known_def)
    ultimately show ?thesis using named_by_unique by blast
  qed
qed

text \<open>A run with one injection of each kind of step.\<close>

definition sample_floats :: "nat float_lib" where
  "sample_floats = \<lparr>fl_parse = \<lambda>_. None, fl_tenth = 0\<rparr>"

definition sample_chaos_request :: "string \<Rightarrow> chaos_request" where
  "sample_chaos_request duration = \<lparr>xq_scenario_type = ''disk_io_delay'', xq_parameters = [''duration_ms'' \<mapsto> duration]\<rparr>"

lemma sample_begin_run:
  "inject_begin sample_floats None None (sample_chaos_request ''0'') chaos_default =
     (Inr (''disk_io_delay_0'', \<lparr>as_scenario = DiskIODelay ''db'' 50 0, as_expiry_task = 0\<rparr>),
      \<lparr>cz_active = Map.empty, cz_next_id = 1, cz_tasks = [0 \<mapsto> (0, ''disk_io_delay_0'')], cz_spawned = 1, cz_now = 0\<rparr>)"
proof -
  have "parse_u64 ''0'' = Some 0" by (simp add: parse_u64_def)
  moreover have "show_u64 0 = ''0''" by code_simp
  ultimately show ?thesis
    by (simp add: inject_begin_def act_defs authorize_def parse_scenario_def sample_chaos_request_def param_u64_def
        param_text_def chaos_default_def Let_def)
qed

theorem chaos_reachable_witness:
  "\<exists>s. (chaos_step sample_floats None)\<^sup>*\<^sup>* (chaos_default, []) (s, []) \<and> cz_active s ''disk_io_delay_0'' \<noteq> None
     \<and> inj_on (\<lambda>i. as_expiry_task (the (cz_active s i))) (dom (cz_active s))"
proof -
  note begun = chaos_step.begins [OF sample_begin_run, where waiting = "[]"]
  let ?s1 = "\<lparr>cz_active = Map.empty, cz_next_id = 1, cz_tasks = [0 \<mapsto> (0, ''disk_io_delay_0'')], cz_spawned = 1, cz_now = 0\<rparr> :: nat chaos"
  let ?a = "\<lparr>as_scenario = DiskIODelay ''db'' 50 0, as_expiry_task = 0\<rparr> :: nat active_scenario"
  have "chaos_step sample_floats None (chaos_default, []) (?s1, [(''disk_io_delay_0'', ?a)])"
    by (rule begun) (simp add: chaos_default_def)
  moreover have "chaos_step sample_floats None (?s1, [(''disk_io_delay_0'', ?a)])
      (inject_insert ''disk_io_delay_0'' ?a ?s1, remove1 (''disk_io_delay_0'', ?a) [(''disk_io_delay_0'', ?a)])"
    by (rule chaos_step.inserts) simp
  ultimately have run: "(chaos_step sample_floats None)\<^sup>*\<^sup>* (chaos_default, []) (inject_insert ''disk_io_delay_0'' ?a ?s1, [])"
    by (simp add: converse_rtranclp_into_rtranclp)
  from chaos_reachable [OF run] run show ?thesis by (auto simp: inject_insert_def)
qed

subsection \<open>The faults run out\<close>

text \<open>When no task has ended before its scenario was inserted, every scenario has its task.\<close>

definition all_pending :: "'f chaos_run \<Rightarrow> bool" where
  "all_pending \<sigma> \<longleftrightarrow> (\<forall>i a. known \<sigma> i a \<longrightarrow> (\<exists>d. cz_tasks (fst \<sigma>) (as_expiry_task a) = Some (d, i)))"

lemma pending_expires:
  assumes "chaos_inv (s, w)" and "all_pending (s, w)" and "cz_tasks s h = Some (d, i)"
    and "\<forall>(j, a) \<in> set w. cz_tasks (expire h s) (as_expiry_task a) \<noteq> None"
  shows "all_pending (expire h s, w)"
  unfolding all_pending_def
proof (intro allI impI)
  fix j a assume known: "known (expire h s, w) j a"
  then have "known (s, w) j a" using assms(3) by (auto simp: known_def expire_def split: if_splits)
  then obtain e where e: "cz_tasks s (as_expiry_task a) = Some (e, j)" using assms(2) unfolding all_pending_def by auto
  have "as_expiry_task a \<noteq> h"
  proof
    assume "as_expiry_task a = h"
    with e assms(3,4) known show False by (auto simp: known_def expire_def split: if_splits)
  qed
  with e assms(3) show "\<exists>e. cz_tasks (fst (expire h s, w)) (as_expiry_task a) = Some (e, j)"
    by (simp add: expire_def)
qed

lemma pending_inserts:
  "all_pending (s, w) \<Longrightarrow> (i, a) \<in> set w \<Longrightarrow> all_pending (inject_insert i a s, remove1 (i, a) w)"
  by (auto simp: all_pending_def known_def inject_insert_def split: if_splits dest: notin_set_remove1)

lemma pending_step:
  assumes "prompt (chaos_step F expected) \<sigma> \<sigma>'" and inv: "chaos_inv \<sigma>" and pending: "all_pending \<sigma>"
  shows "all_pending \<sigma>'"
proof -
  have step: "chaos_step F expected \<sigma> \<sigma>'"
    and waits: "\<And>i a. (i, a) \<in> set (snd \<sigma>') \<Longrightarrow> cz_tasks (fst \<sigma>') (as_expiry_task a) \<noteq> None"
    using assms(1) by (auto simp: prompt_def)
  from step show ?thesis
  proof (cases rule: chaos_step.cases)
    case (begins provided req s x s' w)
    from begins(3) obtain sc where "x = (xq_scenario_type req @ ''_'' @ show_u64 (cz_next_id s), \<lparr>as_scenario = sc, as_expiry_task = cz_spawned s\<rparr>)"
      and s': "s' = s\<lparr>cz_next_id := cz_next_id s + 1, cz_tasks := (cz_tasks s)(cz_spawned s \<mapsto> (cz_now s + unat (duration_ms sc),
             xq_scenario_type req @ ''_'' @ show_u64 (cz_next_id s))), cz_spawned := cz_spawned s + 1\<rparr>"
      by (rule inject_begin_ok)
    moreover have "as_expiry_task a < cz_spawned s" if "known (s, w) i a" for i a
      using chaos_invD(3) [OF inv] that begins by simp
    ultimately show ?thesis using pending begins unfolding all_pending_def known_def by fastforce
  next
    case (inserts i a w s)
    then show ?thesis using pending by (simp add: pending_inserts)
  next
    case (stops s w provided i)
    show ?thesis unfolding all_pending_def
    proof (intro allI impI)
      fix j b assume known: "known \<sigma>' j b"
      have old: "known (s, w) j b"
        using known stops by (auto simp: known_def stop_scenario_def act_defs split: sum.splits option.splits if_splits)
      then obtain e where e: "cz_tasks s (as_expiry_task b) = Some (e, j)"
        using pending stops unfolding all_pending_def by auto
      have "as_expiry_task b \<noteq> as_expiry_task a" if "cz_active s i = Some a" "authorize expected provided = Inr ()" for a
      proof
        assume "as_expiry_task b = as_expiry_task a"
        then have "j = i" using chaos_invD(4) [OF inv, of j b i a] old that(1) stops by (simp add: known_def)
        moreover have "cz_active s j \<noteq> Some b \<or> j \<noteq> i \<or> (j, b) \<in> set w"
          using known stops that by (auto simp: known_def stop_scenario_def act_defs)
        ultimately show False using known stops that chaos_invD(6) [OF inv, of j b]
          by (auto simp: known_def stop_scenario_def act_defs)
      qed
      with e stops show "\<exists>e. cz_tasks (fst \<sigma>') (as_expiry_task b) = Some (e, j)"
        by (auto simp: stop_scenario_def act_defs split: sum.splits option.splits)
    qed
  next
    case (expires s h wakes i w)
    then show ?thesis using pending_expires [of s w h wakes i] inv pending waits by auto
  next
    case (ticks s w n)
    then show ?thesis using pending by (simp add: all_pending_def known_def)
  qed
qed

lemma prompt_reach:
  assumes "(prompt (chaos_step F expected))\<^sup>*\<^sup>* (chaos_default, []) \<sigma>"
  shows "chaos_inv \<sigma> \<and> all_pending \<sigma>"
  using assms
proof (induction rule: rtranclp_induct)
  case base
  show ?case using chaos_reach_inv [of F expected "(chaos_default, [])"]
    by (simp add: all_pending_def known_def chaos_default_def)
next
  case (step \<sigma> \<sigma>')
  then show ?case using pending_step [of F expected \<sigma> \<sigma>'] chaos_step_inv [of F expected \<sigma> \<sigma>'] by (auto simp: prompt_def)
qed

text \<open>How many steps are left.\<close>

definition chaos_left :: "'f chaos_run \<Rightarrow> nat" where
  "chaos_left \<sigma> = length (snd \<sigma>) + card (dom (cz_tasks (fst \<sigma>)))"

lemma winds_down_step: "chaos_winds_down \<sigma> \<sigma>' \<Longrightarrow> chaos_step F expected \<sigma> \<sigma>'"
  by (cases \<sigma> \<sigma>' rule: chaos_winds_down.cases) (auto intro: chaos_step.inserts chaos_step.expires)

lemma winds_down_left:
  assumes "chaos_winds_down \<sigma> \<sigma>'" and "chaos_inv \<sigma>"
  shows "chaos_left \<sigma> = Suc (chaos_left \<sigma>')"
  using assms(1)
proof (cases rule: chaos_winds_down.cases)
  case (inserts i a w s)
  then have "length w = Suc (length (remove1 (i, a) w))" by (simp add: length_remove1) (metis Suc_pred length_pos_if_in_set)
  then show ?thesis using inserts by (simp add: chaos_left_def inject_insert_def)
next
  case (expires s h wakes i w)
  have "dom (cz_tasks (expire h s)) = dom (cz_tasks s) - {h}" "h \<in> dom (cz_tasks s)"
    using expires by (auto simp: expire_def)
  moreover have "finite (dom (cz_tasks s))" using chaos_invD(7) [OF assms(2)] expires by simp
  ultimately have "card (dom (cz_tasks s)) = Suc (card (dom (cz_tasks (expire h s))))"
    by (metis card.remove)
  then show ?thesis using expires by (simp add: chaos_left_def)
qed

lemma winds_down_length:
  assumes "(chaos_winds_down ^^ n) \<sigma> \<sigma>'" and "chaos_inv \<sigma>"
  shows "chaos_left \<sigma> = n + chaos_left \<sigma>' \<and> chaos_inv \<sigma>'"
  using assms
proof (induction n arbitrary: \<sigma>')
  case (Suc n)
  then obtain \<rho> where \<rho>: "(chaos_winds_down ^^ n) \<sigma> \<rho>" "chaos_winds_down \<rho> \<sigma>'" by auto
  then have "chaos_left \<sigma> = n + chaos_left \<rho>" "chaos_inv \<rho>" using Suc by blast+
  moreover have "chaos_inv \<sigma>'" using chaos_step_inv [OF winds_down_step [OF \<rho>(2)]] calculation(2) .
  ultimately show ?case using winds_down_left [OF \<rho>(2)] by simp
qed simp

text \<open>
C39: once nobody injects any more the service comes to rest: from any state it reaches, whatever
  order the pending insertions and the ending tasks take, at most as many steps follow as there
  are insertions and tasks left. And if no task ever ended before its scenario was inserted, then
  after the last sleep is over the state at rest has no active scenario and no task.
\<close>

theorem faults_run_out:
  assumes "(chaos_step F expected)\<^sup>*\<^sup>* (chaos_default, []) \<sigma>"
  shows "((chaos_winds_down ^^ n) \<sigma> \<sigma>' \<longrightarrow> n \<le> length (snd \<sigma>) + card (dom (cz_tasks (fst \<sigma>))))
     \<and> ((prompt (chaos_step F expected))\<^sup>*\<^sup>* (chaos_default, []) \<sigma> \<longrightarrow>
          (\<forall>h d i. cz_tasks (fst \<sigma>) h = Some (d, i) \<longrightarrow> d \<le> cz_now (fst \<sigma>)) \<longrightarrow>
          (prompt chaos_winds_down)\<^sup>*\<^sup>* \<sigma> \<sigma>' \<longrightarrow> (\<nexists>\<sigma>''. prompt chaos_winds_down \<sigma>' \<sigma>'') \<longrightarrow>
          cz_active (fst \<sigma>') = Map.empty \<and> cz_tasks (fst \<sigma>') = Map.empty \<and> snd \<sigma>' = [])"
proof (intro conjI impI)
  have start: "chaos_inv \<sigma>" by (rule chaos_reach_inv [OF assms])
  show "n \<le> length (snd \<sigma>) + card (dom (cz_tasks (fst \<sigma>)))" if "(chaos_winds_down ^^ n) \<sigma> \<sigma>'"
    using winds_down_length [OF that start] by (simp add: chaos_left_def)
  assume "(prompt (chaos_step F expected))\<^sup>*\<^sup>* (chaos_default, []) \<sigma>"
  then have waits: "all_pending \<sigma>" using prompt_reach by blast
  assume late: "\<forall>h d i. cz_tasks (fst \<sigma>) h = Some (d, i) \<longrightarrow> d \<le> cz_now (fst \<sigma>)"
    and run: "(prompt chaos_winds_down)\<^sup>*\<^sup>* \<sigma> \<sigma>'" and rest: "\<nexists>\<sigma>''. prompt chaos_winds_down \<sigma>' \<sigma>''"
  from run have "chaos_inv \<sigma>' \<and> all_pending \<sigma>' \<and> (\<forall>h d i. cz_tasks (fst \<sigma>') h = Some (d, i) \<longrightarrow> d \<le> cz_now (fst \<sigma>'))"
  proof (induction rule: rtranclp_induct)
    case base
    show ?case using start waits late by blast
  next
    case (step \<rho> \<rho>')
    have "chaos_winds_down \<rho> \<rho>'" "prompt (chaos_step F expected) \<rho> \<rho>'"
      using step(2) winds_down_step [of \<rho> \<rho>' F expected] by (auto simp: prompt_def)
    moreover from this(1) have "\<forall>h d i. cz_tasks (fst \<rho>') h = Some (d, i) \<longrightarrow> d \<le> cz_now (fst \<rho>')"
      using step(3) by (cases rule: chaos_winds_down.cases) (auto simp: inject_insert_def expire_def)
    ultimately show ?case
      using step(3) pending_step [of F expected \<rho> \<rho>'] chaos_step_inv [OF winds_down_step, of \<rho> \<rho>'] by blast
  qed
  then have inv: "chaos_inv \<sigma>'" and pending: "all_pending \<sigma>'"
    and over: "\<And>h d i. cz_tasks (fst \<sigma>') h = Some (d, i) \<Longrightarrow> d \<le> cz_now (fst \<sigma>')" by blast+
  obtain s w where \<sigma>': "\<sigma>' = (s, w)" by (cases \<sigma>')
  show none: "snd \<sigma>' = []"
  proof (rule ccontr)
    assume "snd \<sigma>' \<noteq> []"
    then obtain i a w' where w: "w = (i, a) # w'" unfolding \<sigma>' by (cases w) auto
    then have "chaos_winds_down \<sigma>' (inject_insert i a s, remove1 (i, a) w)"
      unfolding \<sigma>' by (intro chaos_winds_down.inserts) simp
    moreover have "\<forall>(j, b) \<in> set (remove1 (i, a) w). cz_tasks (inject_insert i a s) (as_expiry_task b) \<noteq> None"
      using pending unfolding \<sigma>' all_pending_def known_def by (fastforce simp: w inject_insert_def)
    ultimately have "prompt chaos_winds_down \<sigma>' (inject_insert i a s, remove1 (i, a) w)"
      unfolding prompt_def fst_conv snd_conv by blast
    then show False using rest by blast
  qed
  show tasks: "cz_tasks (fst \<sigma>') = Map.empty"
  proof (rule ccontr)
    assume "cz_tasks (fst \<sigma>') \<noteq> Map.empty"
    then obtain h d i where "cz_tasks s h = Some (d, i)" unfolding \<sigma>' by (force simp: fun_eq_iff)
    then have "chaos_winds_down \<sigma>' (expire h s, w)"
      using over unfolding \<sigma>' by (intro chaos_winds_down.expires) simp_all
    then have "prompt chaos_winds_down \<sigma>' (expire h s, w)" using none unfolding prompt_def \<sigma>' by simp
    then show False using rest by blast
  qed
  show "cz_active (fst \<sigma>') = Map.empty"
    using pending tasks by (auto simp: all_pending_def known_def fun_eq_iff) (metis not_Some_eq option.distinct(1))
qed

lemma sample_chaos_run:
  obtains s a where "(prompt (chaos_step sample_floats None))\<^sup>*\<^sup>* (chaos_default, []) (s, [])"
    and "cz_active s = [''disk_io_delay_0'' \<mapsto> a]" and "cz_tasks s = [0 \<mapsto> (0, ''disk_io_delay_0'')]" and "cz_now s = 0"
proof -
  let ?i = "''disk_io_delay_0''" and ?a = "\<lparr>as_scenario = DiskIODelay ''db'' 50 0, as_expiry_task = 0\<rparr> :: nat active_scenario"
  let ?s1 = "\<lparr>cz_active = Map.empty, cz_next_id = 1, cz_tasks = [0 \<mapsto> (0, ?i)], cz_spawned = 1, cz_now = 0\<rparr> :: nat chaos"
  have "prompt (chaos_step sample_floats None) (chaos_default, []) (?s1, [(?i, ?a)])"
    using chaos_step.begins [OF sample_begin_run, where waiting = "[]"] by (simp add: prompt_def chaos_default_def)
  moreover have "chaos_step sample_floats None (?s1, [(?i, ?a)]) (inject_insert ?i ?a ?s1, remove1 (?i, ?a) [(?i, ?a)])"
    by (rule chaos_step.inserts) simp
  then have "prompt (chaos_step sample_floats None) (?s1, [(?i, ?a)]) (inject_insert ?i ?a ?s1, [])"
    by (simp add: prompt_def)
  ultimately have "(prompt (chaos_step sample_floats None))\<^sup>*\<^sup>* (chaos_default, []) (inject_insert ?i ?a ?s1, [])"
    by (simp add: converse_rtranclp_into_rtranclp)
  then show ?thesis by (rule that) (simp_all add: inject_insert_def)
qed

theorem faults_run_out_witness:
  "\<exists>s. (prompt (chaos_step sample_floats None))\<^sup>*\<^sup>* (chaos_default, []) (s, []) \<and> cz_active s \<noteq> Map.empty
     \<and> chaos_winds_down (s, []) (expire 0 s, []) \<and> cz_active (expire 0 s) = Map.empty \<and> (\<forall>n \<sigma>. (chaos_winds_down ^^ n) (s, []) \<sigma> \<longrightarrow> n \<le> 1)"
proof -
  obtain s a where s: "(prompt (chaos_step sample_floats None))\<^sup>*\<^sup>* (chaos_default, []) (s, [])"
    "cz_active s = [''disk_io_delay_0'' \<mapsto> a]" "cz_tasks s = [0 \<mapsto> (0, ''disk_io_delay_0'')]" "cz_now s = 0"
    by (rule sample_chaos_run)
  have "(chaos_step sample_floats None)\<^sup>*\<^sup>* (chaos_default, []) (s, [])"
    by (rule mono_rtranclp [rule_format, OF _ s(1)]) (simp add: prompt_def)
  note run_out = faults_run_out [OF this]
  have down: "chaos_winds_down (s, []) (expire 0 s, [])" by (rule chaos_winds_down.expires) (simp_all add: s)
  have bound: "n \<le> 1" if "(chaos_winds_down ^^ n) (s, []) \<sigma>" for n \<sigma>
    using run_out [of n \<sigma>] that by (simp add: s(3))
  have empty: "cz_tasks (expire 0 s) = Map.empty" by (simp add: expire_def s)
  have "(prompt chaos_winds_down)\<^sup>*\<^sup>* (s, []) (expire 0 s, [])"
    by (rule r_into_rtranclp) (simp add: prompt_def down)
  moreover have "\<not> prompt chaos_winds_down (expire 0 s, []) \<sigma>" for \<sigma>
    by (auto simp: prompt_def empty elim: winds_downE)
  moreover have "\<forall>h d i. cz_tasks (fst (s, [])) h = Some (d, i) \<longrightarrow> d \<le> cz_now (fst (s, []))" by (simp add: s)
  ultimately have "cz_active (expire 0 s) = Map.empty" using run_out [where \<sigma>' = "(expire 0 s, [])"] s(1) by auto
  then show ?thesis using s(1,2) down bound by (intro exI [of _ s]) simp
qed

subsection \<open>A fault that stays\<close>

text \<open>
C40: a fault can outlive its duration, whatever the duration is. The task is spawned before the
  scenario is inserted; when the table stays locked for as long as the duration (with a duration
  of 0, at once), the task can end first, removing nothing, and the scenario is inserted after it.
  From then on nothing but a request to stop it takes it out of the table.
\<close>

theorem injected_too_late:
  assumes reach: "(chaos_step F expected)\<^sup>*\<^sup>* (chaos_default, []) (s, w)" and room: "cz_spawned s < 2 ^ 64 - 1"
    and begun: "inject_begin F expected provided req s = (Inr (i, a), s1)"
  shows "\<exists>s2. (chaos_step F expected)\<^sup>*\<^sup>* (s, w) (s2, w) \<and> cz_active s2 i = Some a
     \<and> cz_now s2 = cz_now s + unat (duration_ms (as_scenario a))
     \<and> (\<forall>\<sigma> \<sigma>'. (chaos_step F expected)\<^sup>*\<^sup>* (s2, w) \<sigma> \<longrightarrow> chaos_step F expected \<sigma> \<sigma>' \<longrightarrow>
          cz_active (fst \<sigma>) i = Some a \<longrightarrow> cz_active (fst \<sigma>') i = Some a
          \<or> (\<exists>provided. fst \<sigma>' = snd (stop_scenario expected provided i (fst \<sigma>))))"
proof -
  obtain sc where a: "a = \<lparr>as_scenario = sc, as_expiry_task = cz_spawned s\<rparr>" "i = xq_scenario_type req @ ''_'' @ show_u64 (cz_next_id s)"
    and s1: "s1 = s\<lparr>cz_next_id := cz_next_id s + 1, cz_tasks := (cz_tasks s)(cz_spawned s \<mapsto> (cz_now s + unat (duration_ms sc), i)),
          cz_spawned := cz_spawned s + 1\<rparr>"
    by (rule inject_begin_ok [OF begun]) (use that in auto)
  let ?h = "cz_spawned s" and ?late = "s1\<lparr>cz_now := cz_now s1 + unat (duration_ms sc)\<rparr>"
  let ?s2 = "inject_insert i a (expire ?h ?late)"
  have began: "chaos_step F expected (s, w) (s1, (i, a) # w)" by (rule chaos_step.begins [OF begun room])
  have slept: "chaos_step F expected (s1, (i, a) # w) (?late, (i, a) # w)" by (rule chaos_step.ticks)
  have "chaos_step F expected (?late, (i, a) # w) (expire ?h ?late, (i, a) # w)"
    by (rule chaos_step.expires [where wakes = "cz_now s + unat (duration_ms sc)" and i = i]) (simp_all add: s1)
  moreover have "chaos_step F expected (expire ?h ?late, (i, a) # w) (?s2, remove1 (i, a) ((i, a) # w))"
    by (rule chaos_step.inserts) simp
  ultimately have run: "(chaos_step F expected)\<^sup>*\<^sup>* (s, w) (?s2, w)"
    using began slept by (simp add: converse_rtranclp_into_rtranclp)
  have inv: "chaos_inv (?s2, w)" using chaos_reach_inv [of F expected] reach run by (meson rtranclp_trans)
  have gone: "chaos_inv \<sigma> \<and> cz_tasks (fst \<sigma>) ?h = None \<and> ?h < cz_spawned (fst \<sigma>)"
    if "(chaos_step F expected)\<^sup>*\<^sup>* (?s2, w) \<sigma>" for \<sigma>
    using that
  proof (induction rule: rtranclp_induct)
    case base
    show ?case using inv by (simp add: inject_insert_def expire_def s1)
  next
    case (step \<rho> \<rho>')
    have "cz_tasks (fst \<rho>') ?h = None \<and> ?h < cz_spawned (fst \<rho>')"
      using step(2)
    proof (cases rule: chaos_step.cases)
      case (begins provided req s x s' w)
      from begins(3) show ?thesis by (rule inject_begin_ok) (use begins(1,2) step(3) in auto)
    qed (use step(3) in \<open>auto simp: inject_insert_def stop_scenario_def act_defs expire_def split: sum.splits option.splits\<close>)
    then show ?case using step(3) chaos_step_inv [OF step(2)] by blast
  qed
  have stays: "cz_active (fst \<sigma>') i = Some a \<or> (\<exists>provided. fst \<sigma>' = snd (stop_scenario expected provided i (fst \<sigma>)))"
    if reach: "(chaos_step F expected)\<^sup>*\<^sup>* (?s2, w) \<sigma>" and step: "chaos_step F expected \<sigma> \<sigma>'" and act: "cz_active (fst \<sigma>) i = Some a"
    for \<sigma> \<sigma>'
    using step
  proof (cases rule: chaos_step.cases)
    case (begins provided req s x s' w)
    from begins(3) show ?thesis by (rule inject_begin_ok) (use begins(1,2) act in auto)
  next
    case (inserts j b w s)
    then have "cz_active s j = None" using chaos_invD(6) [of \<sigma> j b] gone [OF reach] by simp
    then show ?thesis using inserts act by (auto simp: inject_insert_def)
  next
    case (stops s w provided j)
    show ?thesis
    proof (cases "j = i")
      case True
      then show ?thesis unfolding stops fst_conv by blast
    next
      case False
      then show ?thesis using stops act by (auto simp: stop_scenario_def act_defs split: sum.splits option.splits)
    qed
  next
    case (expires s h wakes j w)
    have named: "named_by i ?h" using chaos_invD(3) [of \<sigma> i a] gone [OF reach] act by (auto simp: known_def a(1))
    have "named_by j h" "h \<noteq> ?h" using chaos_invD(2) [of \<sigma> h wakes j] gone [OF reach] expires by auto
    then have "j \<noteq> i" using named_by_unique [OF named] by blast
    then show ?thesis using expires act by (simp add: expire_def)
  next
    case (ticks s w n)
    then show ?thesis using act by simp
  qed
  have "cz_now ?s2 = cz_now s + unat (duration_ms (as_scenario a))" by (simp add: inject_insert_def expire_def s1 a(1))
  then show ?thesis by (intro exI [of _ ?s2]) (use run stays in \<open>simp add: inject_insert_def\<close>)
qed

theorem injected_too_late_witness:
  "\<exists>s a. (chaos_step sample_floats None)\<^sup>*\<^sup>* (chaos_default, []) (s, []) \<and> cz_active s ''disk_io_delay_0'' = Some a
     \<and> cz_now s = 5"
proof -
  have "parse_u64 ''5'' = Some 5" by (simp add: parse_u64_def)
  moreover have "show_u64 0 = ''0''" by code_simp
  ultimately have begun: "inject_begin sample_floats None None (sample_chaos_request ''5'') chaos_default =
     (Inr (''disk_io_delay_0'', \<lparr>as_scenario = DiskIODelay ''db'' 50 5, as_expiry_task = 0\<rparr>),
      \<lparr>cz_active = Map.empty, cz_next_id = 1, cz_tasks = [0 \<mapsto> (5, ''disk_io_delay_0'')], cz_spawned = 1, cz_now = 0\<rparr>)"
    by (simp add: inject_begin_def act_defs authorize_def parse_scenario_def sample_chaos_request_def param_u64_def
        param_text_def chaos_default_def Let_def)
  have room: "cz_spawned (chaos_default :: nat chaos) < 2 ^ 64 - 1" by (simp add: chaos_default_def)
  have "cz_now (chaos_default :: nat chaos) = 0" by (simp add: chaos_default_def)
  with injected_too_late [OF rtranclp.rtrancl_refl room begun] show ?thesis by auto
qed

end
