(* ===== verification/Key_Files.thy ===== *)
theory Key_Files
  imports Config_Text Byte_Codec Service_Registry
begin

text \<open>
  The files a service keeps its keys in: \<open>shared/src/key_store.rs\<close>, the JWT secret of
  \<open>auth/src/main.rs\<close> and the keypair of \<open>custodian/src/main.rs\<close>.

  \<open>disk\<close> is what these functions use of \<open>std::fs\<close>: the contents of the files and the paths the
  process may not open. A write truncates the file and then stores the bytes, so a write that
  fails (or a process that dies in it) leaves a prefix of them: \<open>write_fault\<close> says where.
\<close>

subsection \<open>Files\<close>

record disk =
  dk_files :: "string \<rightharpoonup> bytes"
  dk_denied :: "string set"

datatype write_fault = NotOpened | TornAfter nat

datatype boot_error =
    Io string
  | Parse store_error
  | KeyFailure encryption_error
  | Context string boot_error

definition fs_exists :: "disk \<Rightarrow> string \<Rightarrow> bool" where
  "fs_exists d p \<longleftrightarrow> dk_files d p \<noteq> None"

definition fs_read :: "disk \<Rightarrow> string \<Rightarrow> boot_error + bytes" where
  "fs_read d p =
     (if p \<in> dk_denied d then Inl (Io ''Permission denied (os error 13)'')
      else case dk_files d p of
          None \<Rightarrow> Inl (Io ''No such file or directory (os error 2)'')
        | Some b \<Rightarrow> Inr b)"

definition fs_write :: "disk \<Rightarrow> write_fault option \<Rightarrow> string \<Rightarrow> bytes \<Rightarrow> (boot_error + unit) \<times> disk" where
  "fs_write d fault p b =
     (if p \<in> dk_denied d then (Inl (Io ''Permission denied (os error 13)''), d)
      else case fault of
          None \<Rightarrow> (Inr (), d\<lparr>dk_files := (dk_files d)(p \<mapsto> b)\<rparr>)
        | Some NotOpened \<Rightarrow> (Inl (Io ''Input/output error (os error 5)''), d)
        | Some (TornAfter n) \<Rightarrow> (Inl (Io ''No space left on device (os error 28)''),
            d\<lparr>dk_files := (dk_files d)(p \<mapsto> take n b)\<rparr>))"

definition path_join :: "string \<Rightarrow> string \<Rightarrow> string" where
  "path_join dir name = (if dir = [] \<or> last dir = CHR ''/'' then dir @ name else dir @ ''/'' @ name)"

subsection \<open>The keypair\<close>

definition KEYPAIR_FILENAME :: string where "KEYPAIR_FILENAME = ''keys.bin''"

definition load_or_generate_keypair ::
  "crypto \<Rightarrow> (bytes \<times> bytes) codec \<Rightarrow> bytes \<Rightarrow> write_fault option \<Rightarrow> string \<Rightarrow> disk
   \<Rightarrow> (boot_error + bytes \<times> bytes) \<times> disk" where
  "load_or_generate_keypair K json seed fault storage_path d =
     (let keys_path = path_join storage_path KEYPAIR_FILENAME
      in if fs_exists d keys_path
         then (case fs_read d keys_path of
                Inl e \<Rightarrow> (Inl (Context (''failed to read keypair from '' @ keys_path) e), d)
              | Inr bytes \<Rightarrow> (case cd_de json bytes of
                    Inl e \<Rightarrow> (Inl (Context (''failed to deserialize keypair from '' @ keys_path) (Parse e)), d)
                  | Inr keys \<Rightarrow> (Inr keys, d)))
         else (case generate_keypair K seed of
                Inl e \<Rightarrow> (Inl (Context ''Failed to generate keypair'' (KeyFailure e)), d)
              | Inr keys \<Rightarrow> (case cd_ser json keys of
                    Inl e \<Rightarrow> (Inl (Context ''failed to serialize keypair'' (Parse e)), d)
                  | Inr bytes \<Rightarrow> (case fs_write d fault keys_path bytes of
                        (Inl e, d) \<Rightarrow> (Inl (Context (''failed to write keypair to '' @ keys_path) e), d)
                      | (Inr _, d) \<Rightarrow> (Inr keys, d)))))"

text \<open>The custodian's own version of it, with another format.\<close>

definition load_or_generate_keys ::
  "crypto \<Rightarrow> (bytes \<times> bytes) codec \<Rightarrow> bytes \<Rightarrow> write_fault option \<Rightarrow> string \<Rightarrow> disk
   \<Rightarrow> (boot_error + bytes \<times> bytes) \<times> disk" where
  "load_or_generate_keys K postcard seed fault keys_path d =
     (if fs_exists d keys_path
      then (case fs_read d keys_path of
             Inl e \<Rightarrow> (Inl e, d)
           | Inr bytes \<Rightarrow> (case cd_de postcard bytes of
                 Inl e \<Rightarrow> (Inl (Parse e), d)
               | Inr keys \<Rightarrow> (Inr keys, d)))
      else (case generate_keypair K seed of
             Inl e \<Rightarrow> (Inl (Context ''Failed to generate keys'' (KeyFailure e)), d)
           | Inr keys \<Rightarrow> (case cd_ser postcard keys of
                 Inl e \<Rightarrow> (Inl (Parse e), d)
               | Inr bytes \<Rightarrow> (case fs_write d fault keys_path bytes of
                     (Inl e, d) \<Rightarrow> (Inl e, d)
                   | (Inr _, d) \<Rightarrow> (Inr keys, d)))))"

subsection \<open>The JWT secret\<close>

text \<open>\<open>draw\<close> is the array of 32 random bytes.\<close>

definition load_or_generate_jwt_secret ::
  "bytes \<Rightarrow> write_fault option \<Rightarrow> string \<Rightarrow> disk \<Rightarrow> (boot_error + bytes) \<times> disk" where
  "load_or_generate_jwt_secret draw fault storage_path d =
     (let jwt_secret_path = path_join storage_path ''jwt.secret''
      in if fs_exists d jwt_secret_path then (fs_read d jwt_secret_path, d)
         else (case fs_write d fault jwt_secret_path draw of
                (Inl e, d) \<Rightarrow> (Inl e, d)
              | (Inr _, d) \<Rightarrow> (Inr draw, d)))"

definition resolve_jwt_secret ::
  "bytes \<Rightarrow> write_fault option \<Rightarrow> string option \<Rightarrow> string \<Rightarrow> disk \<Rightarrow> (boot_error + bytes) \<times> disk" where
  "resolve_jwt_secret draw fault env_secret storage_path d =
     (case env_secret of
        Some secret \<Rightarrow> (Inr (utf8_bytes secret), d)
      | None \<Rightarrow> load_or_generate_jwt_secret draw fault storage_path d)"

text \<open>The two steps of the auth service's \<open>main\<close> in its order, from its environment.\<close>

definition auth_storage_path :: "string option \<Rightarrow> string" where
  "auth_storage_path raw = (case raw of Some p \<Rightarrow> p | None \<Rightarrow> ''/tmp/infovulcan-auth'')"

definition auth_keys ::
  "crypto \<Rightarrow> (bytes \<times> bytes) codec \<Rightarrow> bytes \<Rightarrow> bytes \<Rightarrow> write_fault option \<Rightarrow> write_fault option
   \<Rightarrow> (string \<rightharpoonup> string) \<Rightarrow> disk \<Rightarrow> (boot_error + (bytes \<times> bytes) \<times> bytes) \<times> disk" where
  "auth_keys K json seed draw fault1 fault2 env d =
     (let storage_path = auth_storage_path (env ''STORAGE_PATH'')
      in case load_or_generate_keypair K json seed fault1 storage_path d of
           (Inl e, d) \<Rightarrow> (Inl e, d)
         | (Inr keys, d) \<Rightarrow> (case resolve_jwt_secret draw fault2 (env ''JWT_SECRET'') storage_path d of
               (Inl e, d) \<Rightarrow> (Inl e, d)
             | (Inr jwt_secret, d) \<Rightarrow> (Inr (keys, jwt_secret), d)))"

text \<open>The admin service's \<open>main\<close> reads the same variable with another default.\<close>

definition admin_keys ::
  "crypto \<Rightarrow> (bytes \<times> bytes) codec \<Rightarrow> bytes \<Rightarrow> write_fault option \<Rightarrow> (string \<rightharpoonup> string) \<Rightarrow> disk
   \<Rightarrow> (boot_error + bytes \<times> bytes) \<times> disk" where
  "admin_keys K json seed fault env d =
     load_or_generate_keypair K json seed fault
       (case env ''STORAGE_PATH'' of Some p \<Rightarrow> p | None \<Rightarrow> ''/tmp/infovulcan-admin'') d"

subsection \<open>What a start leaves\<close>

lemma path_join_inject [simp]: "path_join dir a = path_join dir b \<longleftrightarrow> a = b"
  by (simp add: path_join_def)

lemma disk_simps:
  "fs_exists d p \<Longrightarrow> p \<notin> dk_denied d \<Longrightarrow> \<exists>b. dk_files d p = Some b \<and> fs_read d p = Inr b"
  "dk_files d p = Some b \<Longrightarrow> fs_exists d p"
  by (auto simp: fs_exists_def fs_read_def)

lemma fresh_start:
  assumes "codec_ok json" and "dk_files d (path_join dir KEYPAIR_FILENAME) = None"
  shows "load_or_generate_keypair K json seed fault dir d =
     (case fs_write d fault (path_join dir KEYPAIR_FILENAME) (enc json (cr_keypair K seed)) of
        (Inl e, d) \<Rightarrow> (Inl (Context (''failed to write keypair to '' @ path_join dir KEYPAIR_FILENAME) e), d)
      | (Inr _, d) \<Rightarrow> (Inr (cr_keypair K seed), d))"
proof -
  note ser = codec_okD(1) [OF assms(1), of "cr_keypair K seed"]
  show ?thesis
    by (simp add: load_or_generate_keypair_def Let_def fs_exists_def assms(2) generate_keypair_def ser)
qed

text \<open>A start that succeeds leaves a file that decodes to the pair, and touches no other file.\<close>

lemma start_keeps_pair:
  assumes "codec_ok json" and "load_or_generate_keypair K json seed fault dir d = (Inr kp, d1)"
  defines "p \<equiv> path_join dir KEYPAIR_FILENAME"
  shows "\<exists>b. dk_files d1 p = Some b \<and> cd_de json b = Inr kp \<and> d1 = d\<lparr>dk_files := (dk_files d)(p \<mapsto> b)\<rparr>
     \<and> p \<notin> dk_denied d \<and> (dk_files d p = None \<longrightarrow> kp = cr_keypair K seed)"
proof (cases "fs_exists d p")
  case True
  then show ?thesis
    using assms(2) unfolding p_def [symmetric] load_or_generate_keypair_def Let_def
    by (auto simp: fs_exists_def fs_read_def map_upd_triv split: if_splits sum.splits)
next
  case False
  then have none: "dk_files d p = None" by (simp add: fs_exists_def)
  have de: "cd_de json (enc json (cr_keypair K seed)) = Inr (cr_keypair K seed)" by (rule codec_okD(2) [OF assms(1)])
  show ?thesis
    using assms(2) fresh_start [OF assms(1) none [unfolded p_def]] none de unfolding p_def [symmetric]
    by (auto simp: fs_write_def split: if_splits option.splits write_fault.splits)
qed

lemma start_loads:
  assumes "dk_files d (path_join dir KEYPAIR_FILENAME) = Some b" and "path_join dir KEYPAIR_FILENAME \<notin> dk_denied d"
  shows "load_or_generate_keypair K json seed fault dir d =
     (case cd_de json b of
        Inl e \<Rightarrow> (Inl (Context (''failed to deserialize keypair from '' @ path_join dir KEYPAIR_FILENAME) (Parse e)), d)
      | Inr keys \<Rightarrow> (Inr keys, d))"
  using assms by (simp add: load_or_generate_keypair_def Let_def fs_exists_def fs_read_def)

lemma keypair_parts:
  assumes "codec_ok json" and "load_or_generate_keypair K json seed fault dir d = (Inr kp, d1)"
  shows "load_or_generate_keypair K json seed2 fault2 dir d1 = (Inr kp, d1)"
    and "p \<noteq> path_join dir KEYPAIR_FILENAME \<longrightarrow> dk_files d1 p = dk_files d p"
    and "dk_files d (path_join dir KEYPAIR_FILENAME) = None \<longrightarrow> kp = cr_keypair K seed"
    and "dk_files d (path_join dir KEYPAIR_FILENAME) \<noteq> None \<longrightarrow> d1 = d"
    and "cd_de json junk = Inl e \<longrightarrow> dk_files d2 (path_join dir KEYPAIR_FILENAME) = Some junk \<longrightarrow>
       (\<exists>err. load_or_generate_keypair K json seed2 fault2 dir d2 = (Inl err, d2))"
    and "dk_files d (path_join dir KEYPAIR_FILENAME) = None \<longrightarrow>
       (let torn = take n (enc json (cr_keypair K seed)); d2 = d\<lparr>dk_files := (dk_files d)(path_join dir KEYPAIR_FILENAME \<mapsto> torn)\<rparr>
        in (\<exists>err. load_or_generate_keypair K json seed (Some (TornAfter n)) dir d = (Inl err, d2))
           \<and> (cd_de json torn = Inl e \<longrightarrow>
                (\<exists>err. load_or_generate_keypair K json seed2 fault2 dir d2 = (Inl err, d2))))"
proof -
  let ?p = "path_join dir KEYPAIR_FILENAME"
  obtain b where b: "dk_files d1 ?p = Some b" "cd_de json b = Inr kp" "d1 = d\<lparr>dk_files := (dk_files d)(?p \<mapsto> b)\<rparr>"
      "?p \<notin> dk_denied d" "dk_files d ?p = None \<longrightarrow> kp = cr_keypair K seed"
    using start_keeps_pair [OF assms] by (elim exE conjE) rule
  have "?p \<notin> dk_denied d1" using b(4) by (simp add: b(3))
  from start_loads [OF b(1) this] show "load_or_generate_keypair K json seed2 fault2 dir d1 = (Inr kp, d1)"
    by (simp add: b(2))
  show "p \<noteq> ?p \<longrightarrow> dk_files d1 p = dk_files d p" by (simp add: b(3))
  show "dk_files d ?p = None \<longrightarrow> kp = cr_keypair K seed" by (rule b(5))
  show "dk_files d ?p \<noteq> None \<longrightarrow> d1 = d"
    using assms(2) by (auto simp: load_or_generate_keypair_def Let_def fs_exists_def split: sum.splits)
  have stuck: "\<exists>err. load_or_generate_keypair K json seed2 fault2 dir d2 = (Inl err, d2)"
    if "cd_de json junk = Inl e" "dk_files d2 ?p = Some junk" for d2 junk
    using that by (auto simp: load_or_generate_keypair_def Let_def fs_exists_def fs_read_def)
  then show "cd_de json junk = Inl e \<longrightarrow> dk_files d2 ?p = Some junk \<longrightarrow>
       (\<exists>err. load_or_generate_keypair K json seed2 fault2 dir d2 = (Inl err, d2))" by blast
  let ?torn = "take n (enc json (cr_keypair K seed))"
  let ?d2 = "d\<lparr>dk_files := (dk_files d)(?p \<mapsto> ?torn)\<rparr>"
  have "dk_files d ?p = None \<longrightarrow>
      (\<exists>err. load_or_generate_keypair K json seed (Some (TornAfter n)) dir d = (Inl err, ?d2))"
    by (simp add: fresh_start [OF assms(1)] fs_write_def b(4))
  moreover have "cd_de json ?torn = Inl e \<longrightarrow>
      (\<exists>err. load_or_generate_keypair K json seed2 fault2 dir ?d2 = (Inl err, ?d2))"
    using stuck [of ?torn ?d2] by simp
  ultimately show "dk_files d ?p = None \<longrightarrow>
       (let torn = ?torn; d2 = d\<lparr>dk_files := (dk_files d)(?p \<mapsto> torn)\<rparr>
        in (\<exists>err. load_or_generate_keypair K json seed (Some (TornAfter n)) dir d = (Inl err, d2))
           \<and> (cd_de json torn = Inl e \<longrightarrow>
                (\<exists>err. load_or_generate_keypair K json seed2 fault2 dir d2 = (Inl err, d2))))"
    by (simp only: Let_def) blast
qed

text \<open>C20: the keypair of a service is stable, and two services that share their storage path share
  it. A start that succeeds leaves, at \<open>keys.bin\<close> under the path and in no other file, what every
  later start (of either service, whatever it would draw, whatever its writes would do) reads
  back as the same pair, leaving the disk as it is; the pair is a fresh one exactly when no file
  was there. A file that does not decode stops every start, with the disk unchanged; so a first
  start torn in its write, if the format rejects the prefix it left, is never repaired.
\<close>

theorem keypair_stable:
  assumes "codec_ok json" and "load_or_generate_keypair K json seed fault dir d = (Inr kp, d1)"
  shows "load_or_generate_keypair K json seed2 fault2 dir d1 = (Inr kp, d1)
   \<and> (\<forall>p. p \<noteq> path_join dir KEYPAIR_FILENAME \<longrightarrow> dk_files d1 p = dk_files d p)
   \<and> (if dk_files d (path_join dir KEYPAIR_FILENAME) = None then kp = cr_keypair K seed else d1 = d)
   \<and> (cd_de json junk = Inl e \<and> dk_files d2 (path_join dir KEYPAIR_FILENAME) = Some junk \<longrightarrow>
        (\<exists>err. load_or_generate_keypair K json seed2 fault2 dir d2 = (Inl err, d2)))
   \<and> (dk_files d (path_join dir KEYPAIR_FILENAME) = None \<longrightarrow>
       (let torn = take n (enc json (cr_keypair K seed)); d2 = d\<lparr>dk_files := (dk_files d)(path_join dir KEYPAIR_FILENAME \<mapsto> torn)\<rparr>
        in (\<exists>err. load_or_generate_keypair K json seed (Some (TornAfter n)) dir d = (Inl err, d2))
           \<and> (cd_de json torn = Inl e \<longrightarrow>
                (\<exists>err. load_or_generate_keypair K json seed2 fault2 dir d2 = (Inl err, d2)))))"
  using keypair_parts [OF assms] by (simp only: split: if_split) blast

theorem keypair_stable_witness:
  "\<exists>kp d1. load_or_generate_keypair toy_crypto (mk_codec (pair_pk bytes_pk bytes_pk)) [7] None ''/data''
       \<lparr>dk_files = Map.empty, dk_denied = {}\<rparr> = (Inr kp, d1)
     \<and> load_or_generate_keypair toy_crypto (mk_codec (pair_pk bytes_pk bytes_pk)) [9] None ''/data'' d1 = (Inr kp, d1)"
proof -
  let ?json = "mk_codec (pair_pk bytes_pk bytes_pk)" and ?d = "\<lparr>dk_files = Map.empty, dk_denied = {}\<rparr>"
  have ok: "codec_ok ?json" by (simp add: mk_codec_ok pickles)
  then have "\<exists>d1. load_or_generate_keypair toy_crypto ?json [7] None ''/data'' ?d = (Inr ([1], [2]), d1)"
    using codec_okD [OF ok]
    by (simp add: load_or_generate_keypair_def fs_exists_def generate_keypair_def toy_crypto_def fs_write_def)
  with conjunct1 [OF keypair_stable [OF ok]] show ?thesis by blast
qed

lemma secret_parts:
  shows "jwt_secret_from_env (Some s) = Inr key \<longrightarrow> resolve_jwt_secret draw fault (Some s) dir d = (Inr key, d)"
    and "\<exists>e. jwt_secret_from_env (Some []) = Inl e" and "resolve_jwt_secret draw fault (Some []) dir d = (Inr [], d)"
    and "resolve_jwt_secret draw fault None dir d = (Inr key, d1) \<longrightarrow>
         resolve_jwt_secret draw2 fault2 None dir d1 = (Inr key, d1) \<and> dk_files d1 (path_join dir ''jwt.secret'') = Some key
         \<and> (dk_files d (path_join dir ''jwt.secret'') = None \<longrightarrow> key = draw)"
    and "path_join dir ''jwt.secret'' \<notin> dk_denied d \<and> dk_files d (path_join dir ''jwt.secret'') = None \<longrightarrow>
         (\<exists>e d2. resolve_jwt_secret draw (Some (TornAfter n)) None dir d = (Inl e, d2)
            \<and> resolve_jwt_secret draw2 fault2 None dir d2 = (Inr (take n draw), d2))"
proof -
  let ?p = "path_join dir ''jwt.secret''"
  show "jwt_secret_from_env (Some s) = Inr key \<longrightarrow> resolve_jwt_secret draw fault (Some s) dir d = (Inr key, d)"
    by (simp add: jwt_secret_from_env_def resolve_jwt_secret_def)
  show "\<exists>e. jwt_secret_from_env (Some []) = Inl e" by (simp add: jwt_secret_from_env_def)
  show "resolve_jwt_secret draw fault (Some []) dir d = (Inr [], d)"
    by (simp add: resolve_jwt_secret_def utf8_bytes_def)
  show "resolve_jwt_secret draw fault None dir d = (Inr key, d1) \<longrightarrow>
         resolve_jwt_secret draw2 fault2 None dir d1 = (Inr key, d1) \<and> dk_files d1 ?p = Some key
         \<and> (dk_files d ?p = None \<longrightarrow> key = draw)"
    by (auto simp: resolve_jwt_secret_def load_or_generate_jwt_secret_def Let_def fs_exists_def fs_read_def
        fs_write_def split: if_splits option.splits write_fault.splits)
  show "?p \<notin> dk_denied d \<and> dk_files d ?p = None \<longrightarrow>
         (\<exists>e d2. resolve_jwt_secret draw (Some (TornAfter n)) None dir d = (Inl e, d2)
            \<and> resolve_jwt_secret draw2 fault2 None dir d2 = (Inr (take n draw), d2))"
    by (auto simp: resolve_jwt_secret_def load_or_generate_jwt_secret_def Let_def fs_exists_def fs_read_def
        fs_write_def)
qed

text \<open>C21: the two secrets of the token path. A \<open>JWT_SECRET\<close> that both services read makes the
  gateway and the auth service agree, except that the empty one is refused by the gateway and
  accepted by the auth service, which then signs with the empty key. Without the variable the
  auth service draws a secret once and reads it back at every later start. But the file is taken
  as it is: a first start torn after \<open>n\<close> bytes fails, and every later start signs with that
  prefix, of any length; torn at once, with the empty key.
\<close>

theorem secret_resolution:
  "(jwt_secret_from_env (Some s) = Inr key \<longrightarrow> resolve_jwt_secret draw fault (Some s) dir d = (Inr key, d))
   \<and> (\<exists>e. jwt_secret_from_env (Some []) = Inl e) \<and> resolve_jwt_secret draw fault (Some []) dir d = (Inr [], d)
   \<and> (resolve_jwt_secret draw fault None dir d = (Inr key, d1) \<longrightarrow>
        resolve_jwt_secret draw2 fault2 None dir d1 = (Inr key, d1)
        \<and> (dk_files d (path_join dir ''jwt.secret'') = None \<longrightarrow> key = draw))
   \<and> (path_join dir ''jwt.secret'' \<notin> dk_denied d \<and> dk_files d (path_join dir ''jwt.secret'') = None \<longrightarrow>
        (\<exists>e d2. resolve_jwt_secret draw (Some (TornAfter n)) None dir d = (Inl e, d2)
           \<and> resolve_jwt_secret draw2 fault2 None dir d2 = (Inr (take n draw), d2)))"
  by (intro conjI; (rule secret_parts | use secret_parts(4) in blast))

theorem secret_resolution_witness:
  "\<exists>e d2. resolve_jwt_secret (replicate 32 7) (Some (TornAfter 0)) None ''/data''
       \<lparr>dk_files = Map.empty, dk_denied = {}\<rparr> = (Inl e, d2)
     \<and> resolve_jwt_secret (replicate 32 9) None None ''/data'' d2 = (Inr [], d2)"
  using secret_resolution [where dir = "''/data''" and d = "\<lparr>dk_files = Map.empty, dk_denied = {}\<rparr>" and n = 0
      and draw = "replicate 32 7" and ?draw2.0 = "replicate 32 9" and ?fault2.0 = None]
  by simp

subsection \<open>The auth and the admin service\<close>

lemma secret_keeps_files:
  assumes "resolve_jwt_secret draw fault env dir d = (Inr key, d1)"
  shows "dk_denied d1 = dk_denied d" and "p \<noteq> path_join dir ''jwt.secret'' \<Longrightarrow> dk_files d1 p = dk_files d p"
  using assms
  by (auto simp: resolve_jwt_secret_def load_or_generate_jwt_secret_def Let_def fs_read_def fs_write_def
      split: option.splits if_splits write_fault.splits)

text \<open>The file of each service's keypair, from its environment.\<close>

definition auth_keys_file :: "(string \<rightharpoonup> string) \<Rightarrow> string" where
  "auth_keys_file env = path_join (auth_storage_path (env ''STORAGE_PATH'')) KEYPAIR_FILENAME"

definition admin_keys_file :: "(string \<rightharpoonup> string) \<Rightarrow> string" where
  "admin_keys_file env =
     path_join (case env ''STORAGE_PATH'' of Some p \<Rightarrow> p | None \<Rightarrow> ''/tmp/infovulcan-admin'') KEYPAIR_FILENAME"

lemma keys_not_secret: "path_join dir KEYPAIR_FILENAME \<noteq> path_join dir' ''jwt.secret''"
proof
  assume "path_join dir KEYPAIR_FILENAME = path_join dir' ''jwt.secret''"
  then have "last (path_join dir KEYPAIR_FILENAME) = last (path_join dir' ''jwt.secret'')" by simp
  then show False by (simp add: path_join_def KEYPAIR_FILENAME_def split: if_splits)
qed

lemma auth_started:
  assumes "codec_ok json" and "auth_keys K json seed draw fault1 fault2 env d = (Inr (kp, secret), d1)"
  obtains b where "dk_files d1 (auth_keys_file env) = Some b" and "cd_de json b = Inr kp"
    and "auth_keys_file env \<notin> dk_denied d" and "dk_denied d1 = dk_denied d"
    and "dk_files d (auth_keys_file env) = None \<longrightarrow> kp = cr_keypair K seed"
    and "\<forall>dir. path_join dir KEYPAIR_FILENAME \<noteq> auth_keys_file env \<longrightarrow>
       dk_files d1 (path_join dir KEYPAIR_FILENAME) = dk_files d (path_join dir KEYPAIR_FILENAME)"
proof -
  let ?a = "auth_storage_path (env ''STORAGE_PATH'')"
  obtain dm where dm: "load_or_generate_keypair K json seed fault1 ?a d = (Inr kp, dm)"
      "resolve_jwt_secret draw fault2 (env ''JWT_SECRET'') ?a dm = (Inr secret, d1)"
    using assms(2) by (auto simp: auth_keys_def Let_def split: prod.splits sum.splits)
  obtain b where b: "dk_files dm (auth_keys_file env) = Some b" "cd_de json b = Inr kp"
      "dm = d\<lparr>dk_files := (dk_files d)(auth_keys_file env \<mapsto> b)\<rparr>" "auth_keys_file env \<notin> dk_denied d"
      "dk_files d (auth_keys_file env) = None \<longrightarrow> kp = cr_keypair K seed"
    using start_keeps_pair [OF assms(1) dm(1)] unfolding auth_keys_file_def [symmetric] by (elim exE conjE) rule
  have kept: "dk_files d1 (path_join dir KEYPAIR_FILENAME) = dk_files dm (path_join dir KEYPAIR_FILENAME)" for dir
    using secret_keeps_files(2) [OF dm(2)] keys_not_secret by blast
  show ?thesis
  proof (rule that [OF _ b(2,4) _ b(5)])
    show "dk_files d1 (auth_keys_file env) = Some b" using kept b(1) by (simp add: auth_keys_file_def)
    show "dk_denied d1 = dk_denied d" using secret_keeps_files(1) [OF dm(2)] by (simp add: b(3))
    show "\<forall>dir. path_join dir KEYPAIR_FILENAME \<noteq> auth_keys_file env \<longrightarrow>
        dk_files d1 (path_join dir KEYPAIR_FILENAME) = dk_files d (path_join dir KEYPAIR_FILENAME)"
      by (simp add: kept b(3))
  qed
qed

lemma admin_starts:
  assumes "codec_ok json"
  shows "dk_files d (admin_keys_file env) = Some b \<Longrightarrow> cd_de json b = Inr kp \<Longrightarrow> admin_keys_file env \<notin> dk_denied d \<Longrightarrow>
       admin_keys K json seed fault env d = (Inr kp, d)"
    and "dk_files d (admin_keys_file env) = None \<Longrightarrow> admin_keys_file env \<notin> dk_denied d \<Longrightarrow>
       \<exists>d2. admin_keys K json seed None env d = (Inr (cr_keypair K seed), d2)"
  unfolding admin_keys_def admin_keys_file_def
  by (simp add: start_loads) (simp add: fresh_start [OF assms] fs_write_def)

text \<open>C19: the two services that read each other's sealed records have the same keypair exactly when
  their storage paths lead to one file (the paths are compared as text, a final slash apart). The
  admin service that starts after the auth service then gets the auth service's pair, whatever it
  would draw and whatever its writes would do. With two files it gets the pair its own file
  holds, or a fresh one: so where neither file was there and the draws differ, the pairs are equal
  if and only if the files are one. With no path set, and with the two paths the deployment files
  set, they are two.
\<close>

theorem keys_shared_by_path:
  assumes "codec_ok json" and "auth_keys K json seed draw fault1 fault2 env d = (Inr (kp, secret), d1)"
    and "admin_keys_file env2 \<notin> dk_denied d"
  shows "(auth_keys_file env = admin_keys_file env2 \<longrightarrow> admin_keys K json seed2 fault env2 d1 = (Inr kp, d1))
   \<and> (auth_keys_file env \<noteq> admin_keys_file env2 \<longrightarrow>
       (case dk_files d (admin_keys_file env2) of
          None \<Rightarrow> \<exists>d2. admin_keys K json seed2 None env2 d1 = (Inr (cr_keypair K seed2), d2)
        | Some b \<Rightarrow> (\<forall>kp2. cd_de json b = Inr kp2 \<longrightarrow> admin_keys K json seed2 fault env2 d1 = (Inr kp2, d1))))
   \<and> (dk_files d (auth_keys_file env) = None \<and> dk_files d (admin_keys_file env2) = None
        \<and> cr_keypair K seed2 \<noteq> cr_keypair K seed \<longrightarrow>
       (fst (admin_keys K json seed2 None env2 d1) = Inr kp \<longleftrightarrow> auth_keys_file env = admin_keys_file env2))
   \<and> ((\<exists>dir. env ''STORAGE_PATH'' = Some dir \<and> env2 ''STORAGE_PATH'' = Some dir) \<longrightarrow>
       auth_keys_file env = admin_keys_file env2)
   \<and> ((env ''STORAGE_PATH'' = None \<and> env2 ''STORAGE_PATH'' = None)
        \<or> (env ''STORAGE_PATH'' = Some ''/data/auth-keys'' \<and> env2 ''STORAGE_PATH'' = Some ''/data/admin-keys'') \<longrightarrow>
       auth_keys_file env \<noteq> admin_keys_file env2)"
proof -
  obtain b where b: "dk_files d1 (auth_keys_file env) = Some b" "cd_de json b = Inr kp"
    "auth_keys_file env \<notin> dk_denied d" "dk_denied d1 = dk_denied d"
    "dk_files d (auth_keys_file env) = None \<longrightarrow> kp = cr_keypair K seed"
    and other: "\<forall>dir. path_join dir KEYPAIR_FILENAME \<noteq> auth_keys_file env \<longrightarrow>
       dk_files d1 (path_join dir KEYPAIR_FILENAME) = dk_files d (path_join dir KEYPAIR_FILENAME)"
    by (rule auth_started [OF assms(1,2)])
  have free: "admin_keys_file env2 \<notin> dk_denied d1" using assms(3) b(4) by simp
  have one: "admin_keys K json seed2 f env2 d1 = (Inr kp, d1)" if "auth_keys_file env = admin_keys_file env2" for f
    using admin_starts(1) [OF assms(1), of d1 env2 b kp] b(1,2) free that by simp
  have two: "dk_files d1 (admin_keys_file env2) = dk_files d (admin_keys_file env2)"
    if "auth_keys_file env \<noteq> admin_keys_file env2"
    using other that unfolding admin_keys_file_def by metis
  have fresh: "\<exists>d2. admin_keys K json seed2 None env2 d1 = (Inr (cr_keypair K seed2), d2)"
    if "auth_keys_file env \<noteq> admin_keys_file env2" "dk_files d (admin_keys_file env2) = None"
    using admin_starts(2) [OF assms(1) _ free] two that by simp
  have held: "admin_keys K json seed2 fault env2 d1 = (Inr kp2, d1)"
    if "auth_keys_file env \<noteq> admin_keys_file env2" "dk_files d (admin_keys_file env2) = Some c" "cd_de json c = Inr kp2" for c kp2
    using admin_starts(1) [OF assms(1) _ that(3) free] two that by simp
  have "fst (admin_keys K json seed2 None env2 d1) = Inr kp \<longleftrightarrow> auth_keys_file env = admin_keys_file env2"
    if "dk_files d (auth_keys_file env) = None" "dk_files d (admin_keys_file env2) = None" "cr_keypair K seed2 \<noteq> cr_keypair K seed"
    using that b(5) one fresh by (metis fst_conv sum.inject(2))
  moreover have "auth_keys_file env = admin_keys_file env2"
    if "\<exists>dir. env ''STORAGE_PATH'' = Some dir \<and> env2 ''STORAGE_PATH'' = Some dir"
    using that by (auto simp: auth_keys_file_def admin_keys_file_def auth_storage_path_def)
  moreover have "auth_keys_file env \<noteq> admin_keys_file env2"
    if "(env ''STORAGE_PATH'' = None \<and> env2 ''STORAGE_PATH'' = None)
        \<or> (env ''STORAGE_PATH'' = Some ''/data/auth-keys'' \<and> env2 ''STORAGE_PATH'' = Some ''/data/admin-keys'')"
    using that by (auto simp: auth_keys_file_def admin_keys_file_def auth_storage_path_def path_join_def KEYPAIR_FILENAME_def)
  ultimately show ?thesis using one fresh held by (simp split: option.split)
qed

theorem keys_shared_by_path_witness:
  "\<exists>kp secret d1 d2. auth_keys toy_crypto (mk_codec (pair_pk bytes_pk bytes_pk)) [7] [9] None None
       [''STORAGE_PATH'' \<mapsto> ''/data/auth-keys'', ''JWT_SECRET'' \<mapsto> ''s''] \<lparr>dk_files = Map.empty, dk_denied = {}\<rparr>
         = (Inr (kp, secret), d1)
     \<and> admin_keys toy_crypto (mk_codec (pair_pk bytes_pk bytes_pk)) [8] None [''STORAGE_PATH'' \<mapsto> ''/data/admin-keys''] d1
         = (Inr (cr_keypair toy_crypto [8]), d2)
     \<and> admin_keys toy_crypto (mk_codec (pair_pk bytes_pk bytes_pk)) [8] None [''STORAGE_PATH'' \<mapsto> ''/data/auth-keys/''] d1
         = (Inr kp, d1)"
proof -
  let ?json = "mk_codec (pair_pk bytes_pk bytes_pk)" and ?d = "\<lparr>dk_files = Map.empty, dk_denied = {}\<rparr>"
  let ?env = "[''STORAGE_PATH'' \<mapsto> ''/data/auth-keys'', ''JWT_SECRET'' \<mapsto> ''s'']"
  let ?two = "[''STORAGE_PATH'' \<mapsto> ''/data/admin-keys'']" and ?one = "[''STORAGE_PATH'' \<mapsto> ''/data/auth-keys/'']"
  have ok: "codec_ok ?json" by (simp add: mk_codec_ok pickles)
  have env: "?env ''STORAGE_PATH'' = Some ''/data/auth-keys''" "?env ''JWT_SECRET'' = Some ''s''" by simp_all
  have "\<exists>kp secret d1. auth_keys toy_crypto ?json [7] [9] None None ?env ?d = (Inr (kp, secret), d1)"
    unfolding auth_keys_def Let_def env auth_storage_path_def
    by (simp add: fresh_start [OF ok] fs_write_def resolve_jwt_secret_def)
  then obtain kp secret d1 where run: "auth_keys toy_crypto ?json [7] [9] None None ?env ?d = (Inr (kp, secret), d1)" by blast
  have files: "auth_keys_file ?env \<noteq> admin_keys_file ?two" "auth_keys_file ?env = admin_keys_file ?one"
    by (simp_all add: auth_keys_file_def admin_keys_file_def auth_storage_path_def path_join_def KEYPAIR_FILENAME_def)
  have "admin_keys_file e \<notin> dk_denied ?d" for e by simp
  note shared = keys_shared_by_path [OF ok run this, where ?seed2.0 = "[8]" and fault = None]
  have "\<exists>d2. admin_keys toy_crypto ?json [8] None ?two d1 = (Inr (cr_keypair toy_crypto [8]), d2)"
    using shared [where ?env2.0 = ?two] files(1) by simp
  moreover have "admin_keys toy_crypto ?json [8] None ?one d1 = (Inr kp, d1)"
    using shared [where ?env2.0 = ?one] files(2) by simp
  ultimately show ?thesis using run by blast
qed

end
