(* ===== verification/Transport.thy ===== *)
theory Transport
  imports Key_Files Ticket_Codec Raft_Wire
begin

text \<open>
  What protects a connection between services: the mutual TLS of \<open>proto/src/tls.rs\<close> and the
  post-quantum wrap of \<open>proto/src/pqc.rs\<close>.

  \<open>env\<close> holds the environment variables that are set to valid text. The builders of the
  transport library are parameters: \<open>from_shared\<close> makes an endpoint of a URI, \<open>client_tls\<close> and
  \<open>server_tls\<close> put a configuration on an endpoint or a server; an error of theirs is its text.
  The protobuf coding of a message is \<open>to_wire\<close> and \<open>from_wire\<close>.
\<close>

subsection \<open>Mutual TLS\<close>

definition ENV_CA :: string where "ENV_CA = ''TLS_CA_CERT''"
definition ENV_CERT :: string where "ENV_CERT = ''TLS_CERT''"
definition ENV_KEY :: string where "ENV_KEY = ''TLS_KEY''"
definition ENV_DOMAIN :: string where "ENV_DOMAIN = ''TLS_DOMAIN''"

record identity_pem =
  id_cert :: string
  id_key :: string

record server_tls_config =
  sv_identity :: identity_pem
  sv_client_ca_root :: string

record client_tls_config =
  ct_domain_name :: string
  ct_ca_certificate :: string
  ct_identity :: identity_pem

definition read_to_string :: "disk \<Rightarrow> string \<Rightarrow> boot_error + string" where
  "read_to_string d p =
     (case fs_read d p of
        Inl e \<Rightarrow> Inl e
      | Inr b \<Rightarrow> if utf8_ok b then Inr (of_utf8_bytes b)
                 else Inl (Io ''stream did not contain valid UTF-8''))"

definition read_pem :: "disk \<Rightarrow> string \<Rightarrow> boot_error + string" where
  "read_pem d path = map_errR (Context (''reading TLS file '' @ path)) (read_to_string d path)"

definition tls_enabled :: "(string \<rightharpoonup> string) \<Rightarrow> bool" where
  "tls_enabled env \<longleftrightarrow> env ENV_CA \<noteq> None \<and> env ENV_CERT \<noteq> None \<and> env ENV_KEY \<noteq> None"

definition server_config_from_pem :: "string \<Rightarrow> string \<Rightarrow> string \<Rightarrow> server_tls_config" where
  "server_config_from_pem ca_pem cert_pem key_pem =
     \<lparr>sv_identity = \<lparr>id_cert = cert_pem, id_key = key_pem\<rparr>, sv_client_ca_root = ca_pem\<rparr>"

definition client_config_from_pem :: "string \<Rightarrow> string \<Rightarrow> string \<Rightarrow> string \<Rightarrow> client_tls_config" where
  "client_config_from_pem ca_pem cert_pem key_pem domain =
     \<lparr>ct_domain_name = domain, ct_ca_certificate = ca_pem,
      ct_identity = \<lparr>id_cert = cert_pem, id_key = key_pem\<rparr>\<rparr>"

text \<open>\<open>env::var(name)?\<close>: an unset variable is an error.\<close>

definition env_var :: "(string \<rightharpoonup> string) \<Rightarrow> string \<Rightarrow> boot_error + string" where
  "env_var env name =
     (case env name of Some v \<Rightarrow> Inr v | None \<Rightarrow> Inl (Io ''environment variable not found''))"

definition read_env_pem :: "(string \<rightharpoonup> string) \<Rightarrow> disk \<Rightarrow> string \<Rightarrow> boot_error + string" where
  "read_env_pem env d name = (case env_var env name of Inl e \<Rightarrow> Inl e | Inr path \<Rightarrow> read_pem d path)"

definition server_config :: "(string \<rightharpoonup> string) \<Rightarrow> disk \<Rightarrow> boot_error + server_tls_config option" where
  "server_config env d =
     (if \<not> tls_enabled env then Inr None
      else case read_env_pem env d ENV_CA of Inl e \<Rightarrow> Inl e
      | Inr ca \<Rightarrow> (case read_env_pem env d ENV_CERT of Inl e \<Rightarrow> Inl e
      | Inr cert \<Rightarrow> (case read_env_pem env d ENV_KEY of Inl e \<Rightarrow> Inl e
      | Inr key \<Rightarrow> Inr (Some (server_config_from_pem ca cert key)))))"

definition client_config :: "(string \<rightharpoonup> string) \<Rightarrow> disk \<Rightarrow> boot_error + client_tls_config option" where
  "client_config env d =
     (if \<not> tls_enabled env then Inr None
      else case read_env_pem env d ENV_CA of Inl e \<Rightarrow> Inl e
      | Inr ca \<Rightarrow> (case read_env_pem env d ENV_CERT of Inl e \<Rightarrow> Inl e
      | Inr cert \<Rightarrow> (case read_env_pem env d ENV_KEY of Inl e \<Rightarrow> Inl e
      | Inr key \<Rightarrow>
          let domain = (case env ENV_DOMAIN of Some n \<Rightarrow> n | None \<Rightarrow> ''localhost'')
          in Inr (Some (client_config_from_pem ca cert key domain)))))"

definition apply_server_tls ::
  "(server_tls_config \<Rightarrow> 's \<Rightarrow> string + 's) \<Rightarrow> (string \<rightharpoonup> string) \<Rightarrow> disk \<Rightarrow> 's \<Rightarrow> boot_error + 's" where
  "apply_server_tls server_tls env d server =
     (case server_config env d of
        Inl e \<Rightarrow> Inl e
      | Inr (Some tls) \<Rightarrow> map_errR Io (server_tls tls server)
      | Inr None \<Rightarrow> Inr server)"

definition to_https :: "string \<Rightarrow> string" where
  "to_https addr =
     (if take 7 addr = ''http://'' then ''https://'' @ drop 7 addr else addr)"

definition tls_endpoint ::
  "(string \<Rightarrow> string + 'p) \<Rightarrow> (client_tls_config \<Rightarrow> 'p \<Rightarrow> string + 'p) \<Rightarrow> (string \<rightharpoonup> string) \<Rightarrow> disk
   \<Rightarrow> string \<Rightarrow> boot_error + 'p" where
  "tls_endpoint from_shared client_tls env d addr =
     (case client_config env d of
        Inl e \<Rightarrow> Inl e
      | Inr (Some tls) \<Rightarrow>
          (case map_errR (\<lambda>e. Context ''invalid endpoint uri'' (Io e)) (from_shared (to_https addr)) of
             Inl e \<Rightarrow> Inl e
           | Inr ep \<Rightarrow> map_errR Io (client_tls tls ep))
      | Inr None \<Rightarrow> map_errR (\<lambda>e. Context ''invalid endpoint uri'' (Io e)) (from_shared addr))"

text \<open>\<open>connect\<close> and \<open>connect_lazy\<close> differ in when the channel dials.\<close>

definition connect ::
  "('p \<Rightarrow> string + 'c) \<Rightarrow> (string \<Rightarrow> string + 'p) \<Rightarrow> (client_tls_config \<Rightarrow> 'p \<Rightarrow> string + 'p)
   \<Rightarrow> (string \<rightharpoonup> string) \<Rightarrow> disk \<Rightarrow> string \<Rightarrow> boot_error + 'c" where
  "connect dial_now from_shared client_tls env d addr =
     (case tls_endpoint from_shared client_tls env d addr of
        Inl e \<Rightarrow> Inl e
      | Inr ep \<Rightarrow> map_errR Io (dial_now ep))"

definition connect_lazy ::
  "('p \<Rightarrow> 'c) \<Rightarrow> (string \<Rightarrow> string + 'p) \<Rightarrow> (client_tls_config \<Rightarrow> 'p \<Rightarrow> string + 'p)
   \<Rightarrow> (string \<rightharpoonup> string) \<Rightarrow> disk \<Rightarrow> string \<Rightarrow> boot_error + 'c" where
  "connect_lazy dial_later from_shared client_tls env d addr =
     mapR dial_later (tls_endpoint from_shared client_tls env d addr)"

subsection \<open>The post-quantum wrap\<close>

definition ENV_PUB :: string where "ENV_PUB = ''PQC_PUBLIC_KEY''"
definition ENV_PRIV :: string where "ENV_PRIV = ''PQC_PRIVATE_KEY''"

definition pqc_enabled :: "(string \<rightharpoonup> string) \<Rightarrow> bool" where
  "pqc_enabled env \<longleftrightarrow> env ENV_PUB \<noteq> None \<and> env ENV_PRIV \<noteq> None"

fun encryption_error_text :: "encryption_error \<Rightarrow> string" where
  "encryption_error_text (RandomNumberGeneration m) = ''Random number generation failed: '' @ m"
| "encryption_error_text (SymmetricEncryption m) = ''Symmetric encryption failed: '' @ m"
| "encryption_error_text (SymmetricDecryption m) = ''Symmetric decryption failed: '' @ m"
| "encryption_error_text (KeyGeneration m) = ''Key generation failed: '' @ m"
| "encryption_error_text (KeyDerivation m) = ''Key derivation failed: '' @ m"
| "encryption_error_text (KeyEncapsulation m) = ''Key encapsulation failed: '' @ m"
| "encryption_error_text (KeyDecapsulation m) = ''Key decapsulation failed: '' @ m"
| "encryption_error_text (InvalidInput m) = ''Invalid input: '' @ m"
| "encryption_error_text (EncInternalError m) = ''Internal error: '' @ m"
| "encryption_error_text Panicked = ''panicked''"

text \<open>\<open>WrapPanicked\<close> is the panic of a nonce of the wrong length, which is not an error value.\<close>

datatype wrap_failure = Failed string | WrapPanicked

definition wrap_error :: "string \<Rightarrow> encryption_error \<Rightarrow> wrap_failure" where
  "wrap_error what e = (if e = Panicked then WrapPanicked else Failed (what @ encryption_error_text e))"

definition seal ::
  "crypto \<Rightarrow> encrypted_data codec \<Rightarrow> bytes \<times> bytes \<Rightarrow> bytes \<Rightarrow> bytes \<Rightarrow> wrap_failure + bytes" where
  "seal K json rnd plaintext peer_public_key =
     (case encrypt_with_public_key K (fst rnd) (snd rnd) plaintext peer_public_key of
        Inl e \<Rightarrow> Inl (wrap_error ''pqc seal failed: '' e)
      | Inr envelope \<Rightarrow> map_errR (\<lambda>_. Failed ''serialize pqc envelope'') (cd_ser json envelope))"

definition open_envelope ::
  "crypto \<Rightarrow> encrypted_data codec \<Rightarrow> bytes \<Rightarrow> bytes \<Rightarrow> wrap_failure + bytes" where
  "open_envelope K json envelope private_key =
     (case cd_de json envelope of
        Inl _ \<Rightarrow> Inl (Failed ''deserialize pqc envelope'')
      | Inr ed \<Rightarrow> map_errR (wrap_error ''pqc open failed: '') (decrypt_with_private_key K ed private_key))"

record kyber_codec =
  kc_seal_to :: bytes
  kc_open_with :: bytes

definition new_kyber_codec :: "bytes \<Rightarrow> bytes \<Rightarrow> kyber_codec" where
  "new_kyber_codec seal_to open_with = \<lparr>kc_seal_to = seal_to, kc_open_with = open_with\<rparr>"

datatype codec_failure = CodecStatus status | CodecPanicked

fun codec_status :: "string \<Rightarrow> wrap_failure \<Rightarrow> codec_failure" where
  "codec_status what (Failed m) = CodecStatus (Internal (what @ m))"
| "codec_status what WrapPanicked = CodecPanicked"

definition kyber_encode ::
  "crypto \<Rightarrow> encrypted_data codec \<Rightarrow> ('m \<Rightarrow> bytes) \<Rightarrow> bytes \<times> bytes \<Rightarrow> kyber_codec \<Rightarrow> 'm \<Rightarrow> bytes
   \<Rightarrow> codec_failure + bytes" where
  "kyber_encode K json to_wire rnd c item dst =
     (case seal K json rnd (to_wire item) (kc_seal_to c) of
        Inl e \<Rightarrow> Inl (codec_status ''pqc seal: '' e)
      | Inr sealed \<Rightarrow> Inr (dst @ sealed))"

definition kyber_decode ::
  "crypto \<Rightarrow> encrypted_data codec \<Rightarrow> (bytes \<Rightarrow> string + 'm) \<Rightarrow> kyber_codec \<Rightarrow> bytes
   \<Rightarrow> codec_failure + 'm option" where
  "kyber_decode K json from_wire c src =
     (if src = [] then Inr None
      else case open_envelope K json src (kc_open_with c) of
          Inl e \<Rightarrow> Inl (codec_status ''pqc open: '' e)
        | Inr plaintext \<Rightarrow> (case from_wire plaintext of
              Inl e \<Rightarrow> Inl (CodecStatus (Internal (''decode: '' @ e)))
            | Inr message \<Rightarrow> Inr (Some message)))"

end
