(* ===== verification/Transport_Props.thy ===== *)
theory Transport_Props
  imports Transport
begin

text \<open>
  When a connection is protected, and that a message wrapped for a peer is read by it.
\<close>

subsection \<open>Mutual TLS\<close>

lemma read_env_pem_errors:
  "read_env_pem env d name = Inr pem \<Longrightarrow>
     \<exists>path b. env name = Some path \<and> dk_files d path = Some b \<and> pem = of_utf8_bytes b"
  by (auto simp: read_env_pem_def env_var_def read_pem_def read_to_string_def fs_read_def
      split: option.splits sum.splits if_splits)

lemma tls_off: "\<not> tls_enabled env \<Longrightarrow> server_config env d = Inr None \<and> client_config env d = Inr None"
  by (simp add: server_config_def client_config_def)

lemma tls_on:
  assumes "tls_enabled env"
  shows "server_config env d \<noteq> Inr None" and "client_config env d \<noteq> Inr None"
    and "client_config env d = Inr (Some c) \<Longrightarrow>
       server_config env d = Inr (Some \<lparr>sv_identity = ct_identity c, sv_client_ca_root = ct_ca_certificate c\<rparr>)"
    and "server_config env d = Inl e \<longleftrightarrow> client_config env d = Inl e"
  using assms
  by (auto simp: server_config_def client_config_def server_config_from_pem_def client_config_from_pem_def
      Let_def split: sum.splits)

lemma to_https_prefix:
  "take 7 (to_https addr) \<noteq> ''http://''"
  "take 7 addr = ''http://'' \<Longrightarrow> to_https addr = ''https://'' @ drop 7 addr"
  by (simp_all add: to_https_def)

text \<open>C22: a service never falls back to plaintext half way. With the three variables set, either the
  server is built with the certificate and requires client certificates of the CA, and every
  endpoint is made of the address with \<open>http://\<close> rewritten, verifies the server against that CA
  and presents the certificate the server presents; or both fail, as they do whenever one of the
  files is missing. But the switch is the three variables together: with any one of them unset
  the other two are ignored, no file is read, the server is the plain one and the address is
  dialled as it is.
\<close>

theorem tls_all_or_nothing:
  "(tls_enabled env \<longrightarrow>
      (\<forall>srv'. apply_server_tls server_tls env d srv = Inr srv' \<longrightarrow>
         (\<exists>tls. server_config env d = Inr (Some tls) \<and> server_tls tls srv = Inr srv'))
      \<and> (\<forall>ep. tls_endpoint from_shared client_tls env d addr = Inr ep \<longrightarrow>
         (\<exists>c ep0. client_config env d = Inr (Some c) \<and> from_shared (to_https addr) = Inr ep0 \<and> client_tls c ep0 = Inr ep
            \<and> take 7 (to_https addr) \<noteq> ''http://''
            \<and> server_config env d
                = Inr (Some \<lparr>sv_identity = ct_identity c, sv_client_ca_root = ct_ca_certificate c\<rparr>)))
      \<and> (\<forall>name path. name \<in> {ENV_CA, ENV_CERT, ENV_KEY} \<longrightarrow> env name = Some path \<longrightarrow> dk_files d path = None \<longrightarrow>
         (\<exists>e. apply_server_tls server_tls env d srv = Inl e \<and> tls_endpoint from_shared client_tls env d addr = Inl e)))
   \<and> ((\<exists>name \<in> {ENV_CA, ENV_CERT, ENV_KEY}. env name = None) \<longrightarrow>
        apply_server_tls server_tls env d srv = Inr srv
        \<and> tls_endpoint from_shared client_tls env d addr
            = map_errR (\<lambda>e. Context ''invalid endpoint uri'' (Io e)) (from_shared addr))"
proof (cases "tls_enabled env")
  case True
  have missing: "\<exists>e. apply_server_tls server_tls env d srv = Inl e \<and> tls_endpoint from_shared client_tls env d addr = Inl e"
    if "name \<in> {ENV_CA, ENV_CERT, ENV_KEY}" "env name = Some path" "dk_files d path = None" for name path
  proof -
    have "read_env_pem env d name \<noteq> Inr pem" for pem
      using read_env_pem_errors [of env d name pem] that(2,3) by auto
    then have "\<exists>e. server_config env d = Inl e"
      using that(1) True by (auto simp: server_config_def split: sum.splits)
    then obtain e where e: "server_config env d = Inl e" ..
    with tls_on(4) [OF True] have "client_config env d = Inl e" by blast
    with e show ?thesis by (simp add: apply_server_tls_def tls_endpoint_def)
  qed
  have server: "\<exists>tls. server_config env d = Inr (Some tls) \<and> server_tls tls srv = Inr srv'"
    if "apply_server_tls server_tls env d srv = Inr srv'" for srv'
    using that tls_on(1) [OF True]
    by (auto simp: apply_server_tls_def map_errR_def split: sum.splits option.splits)
  have client: "\<exists>c ep0. client_config env d = Inr (Some c) \<and> from_shared (to_https addr) = Inr ep0 \<and> client_tls c ep0 = Inr ep"
    if "tls_endpoint from_shared client_tls env d addr = Inr ep" for ep
    using that tls_on(2) [OF True]
    by (auto simp: tls_endpoint_def map_errR_def split: sum.splits option.splits)
  have no: "\<not> (\<exists>name \<in> {ENV_CA, ENV_CERT, ENV_KEY}. env name = None)" using True by (simp add: tls_enabled_def)
  show ?thesis
    using True no missing server client tls_on(3) [OF True] to_https_prefix(1) by fast
next
  case False
  then show ?thesis
    by (simp add: apply_server_tls_def tls_endpoint_def tls_off [OF False])
qed

theorem tls_all_or_nothing_witness:
  "apply_server_tls (\<lambda>tls srv. Inr (Some tls)) [ENV_CERT \<mapsto> ''c.pem'', ENV_KEY \<mapsto> ''k.pem'']
     \<lparr>dk_files = Map.empty, dk_denied = {}\<rparr> None = Inr None"
proof -
  have "\<exists>name \<in> {ENV_CA, ENV_CERT, ENV_KEY}. [ENV_CERT \<mapsto> ''c.pem'', ENV_KEY \<mapsto> ''k.pem''] name = None"
    by (simp add: ENV_CA_def ENV_CERT_def ENV_KEY_def)
  with tls_all_or_nothing [where env = "[ENV_CERT \<mapsto> ''c.pem'', ENV_KEY \<mapsto> ''k.pem'']"
      and d = "\<lparr>dk_files = Map.empty, dk_denied = {}\<rparr>" and server_tls = "\<lambda>tls srv. Inr (Some tls)" and srv = None]
  show ?thesis by blast
qed

subsection \<open>The post-quantum wrap\<close>

lemma pqc_seal_open:
  assumes "aead_ok K" "key_ok K kp" "codec_ok json" "length (snd rnd) = 12" "seal K json rnd x (fst kp) = Inr sealed"
  shows "open_envelope K json sealed (snd kp) = Inr x"
proof -
  obtain ed where ed: "encrypt_with_public_key K (fst rnd) (snd rnd) x (fst kp) = Inr ed"
      and "sealed = enc json ed"
    using assms(5) codec_okD(1) [OF assms(3)] by (auto simp: seal_def split: sum.splits)
  with public_key_roundtrip [OF assms(1,2,4) ed] codec_okD(2) [OF assms(3), of ed]
  show ?thesis by (simp add: open_envelope_def)
qed

text \<open>A message that the codec of one side encodes for the other's public key is decoded by the
  other side's codec to the same message, and nothing else is on the wire of an empty buffer but
  its end: the decoder then reports no message. An envelope that is not one is an internal error.
  But a well-formed envelope whose nonce does not have 12 bytes, which any peer can write for the
  public key, is no error of the decoder: it panics.
\<close>

theorem kyber_roundtrip:
  assumes "aead_ok K" and "key_ok K server" and "codec_ok json" and "cd_de json [] = Inl none"
    and "length (snd rnd) = 12" and "\<And>m. from_wire (to_wire m) = Inr m"
  shows "kyber_encode K json to_wire rnd (new_kyber_codec (fst server) sk) item [] = Inr sent \<Longrightarrow>
       kyber_decode K json from_wire (new_kyber_codec pk (snd server)) sent = Inr (Some item)"
    and "kyber_decode K json from_wire c [] = Inr None"
    and "cd_de json junk = Inl e \<Longrightarrow> junk \<noteq> [] \<Longrightarrow>
       kyber_decode K json from_wire c junk = Inl (CodecStatus (Internal ''pqc open: deserialize pqc envelope''))"
    and "cr_encapsulate K (fst server) coins = Inr (kem, key) \<Longrightarrow> length nonce \<noteq> 12 \<Longrightarrow>
       kyber_decode K json from_wire (new_kyber_codec pk (snd server))
         (enc json \<lparr>ed_algorithm = alg, ed_salt = None, ed_kem_ciphertext = Some kem, ed_nonce = nonce, ed_ciphertext = ct\<rparr>)
       = Inl CodecPanicked"
proof -
  have nonempty: "enc json ed \<noteq> []" for ed
    using codec_okD(2) [OF assms(3), of ed] assms(4) by auto
  show "kyber_decode K json from_wire (new_kyber_codec pk (snd server)) sent = Inr (Some item)"
    if "kyber_encode K json to_wire rnd (new_kyber_codec (fst server) sk) item [] = Inr sent"
  proof -
    have sealed: "seal K json rnd (to_wire item) (fst server) = Inr sent"
      using that by (auto simp: kyber_encode_def new_kyber_codec_def split: sum.splits)
    have "open_envelope K json sent (snd server) = Inr (to_wire item)"
      using pqc_seal_open [OF assms(1-3,5) sealed] .
    moreover have "sent \<noteq> []"
      using sealed codec_okD(1) [OF assms(3)] nonempty by (auto simp: seal_def split: sum.splits)
    ultimately show ?thesis by (simp add: kyber_decode_def new_kyber_codec_def assms(6))
  qed
  show "kyber_decode K json from_wire c [] = Inr None" by (simp add: kyber_decode_def)
  show "kyber_decode K json from_wire c junk = Inl (CodecStatus (Internal ''pqc open: deserialize pqc envelope''))"
    if "cd_de json junk = Inl e" "junk \<noteq> []" using that by (simp add: kyber_decode_def open_envelope_def)
  show "kyber_decode K json from_wire (new_kyber_codec pk (snd server))
         (enc json \<lparr>ed_algorithm = alg, ed_salt = None, ed_kem_ciphertext = Some kem, ed_nonce = nonce, ed_ciphertext = ct\<rparr>)
       = Inl CodecPanicked"
    if "cr_encapsulate K (fst server) coins = Inr (kem, key)" "length nonce \<noteq> 12"
  proof -
    let ?ed = "\<lparr>ed_algorithm = alg, ed_salt = None, ed_kem_ciphertext = Some kem, ed_nonce = nonce, ed_ciphertext = ct\<rparr>"
    have "decrypt_with_private_key K ?ed (snd server) = Inl Panicked"
      using assms(2) that by (simp add: decrypt_with_private_key_def key_ok_def decrypt_symmetric_def)
    with codec_okD(2) [OF assms(3), of ?ed] nonempty [of ?ed] show ?thesis
      by (simp add: kyber_decode_def open_envelope_def wrap_error_def new_kyber_codec_def)
  qed
qed

theorem kyber_roundtrip_witness:
  "\<exists>sent. kyber_encode toy_crypto (mk_codec body_pk) (\<lambda>b. [if b then 1 else 0]) ([5], replicate 12 0)
       (new_kyber_codec [1] [2]) True [] = Inr sent
     \<and> kyber_decode toy_crypto (mk_codec body_pk) (\<lambda>bs. if bs = [1] then Inr True else if bs = [0] then Inr False else Inl ''bad'')
       (new_kyber_codec [1] [2]) sent = Inr (Some True)"
proof -
  let ?json = "mk_codec body_pk" and ?to = "\<lambda>b. [if b then 1 else (0 :: u8)]"
  let ?from = "\<lambda>bs. if bs = [1 :: u8] then Inr True else if bs = [0] then Inr False else Inl ''bad''"
  have ok: "codec_ok ?json" by (simp add: mk_codec_ok pickles)
  have none: "cd_de ?json [] = Inl (JsonError ''trailing'')"
    by (simp add: mk_codec_def body_pk_def map_pk_def pair_pk_def bool_pk_def u8_pk_def)
  have "\<exists>sent. kyber_encode toy_crypto ?json ?to ([5], replicate 12 0) (new_kyber_codec [1] [2]) True [] = Inr sent"
    using codec_okD(1) [OF ok]
    by (simp add: kyber_encode_def seal_def new_kyber_codec_def encrypt_with_public_key_def toy_crypto_def
        encrypt_with_public_key_and_algorithm_def encrypt_symmetric_def)
  then obtain sent where
    sent: "kyber_encode toy_crypto ?json ?to ([5], replicate 12 0) (new_kyber_codec [1] [2]) True [] = Inr sent" ..
  have "kyber_decode toy_crypto ?json ?from (new_kyber_codec [1] [2]) sent = Inr (Some True)"
    using kyber_roundtrip(1) [OF toy_crypto_ok ok none, of "([5], replicate 12 0)" ?from ?to "[2]" True sent "[1]"] sent
    by simp
  with sent show ?thesis by blast
qed

end
