(* ===== verification/Honeypot.thy ===== *)
theory Honeypot
  imports Admin_Server
begin

text \<open>
  The decoy service: \<open>honeypot/src/service.rs\<close>, \<open>traps.rs\<close> and \<open>reporter.rs\<close>.

  A request carries the peer's address and the \<open>user-agent\<close> header where it has them as text. The
  state of a call is the local log and the state \<open>'b\<close> behind the admin client, which is a handler
  of the admin service when one is configured. The clock reading of a call is an argument, in
  whole seconds from the epoch (negative before it).
\<close>

subsection \<open>Traps\<close>

definition generate_fake_wallet :: string where
  "generate_fake_wallet = ''bc1qxy2kgdygjrsqtzq2n0yrf2493p83kkfjhx0wlh''"

definition generate_fake_backup_list :: "string list" where
  "generate_fake_backup_list =
     [''production_db_2025-12-08.tar.gz'', ''user_credentials_backup.zip'',
      ''ssl_certificates_archive.tar.gz'', ''admin_passwords.json.enc'']"

definition generate_junk_data :: "nat \<Rightarrow> bytes" where
  "generate_junk_data size_mb = replicate (size_mb * 1024 * 1024) 0x42"

subsection \<open>Reports\<close>

record trap_event =
  te_timestamp :: int
  te_source_ip :: string
  te_user_agent :: "string option"
  te_endpoint_accessed :: string
  te_request_method :: string
  te_request_body :: "string option"
  te_tls_fingerprint :: "string option"

definition new_trap_event :: "int \<Rightarrow> string \<Rightarrow> string \<Rightarrow> string \<Rightarrow> trap_event" where
  "new_trap_event now source_ip endpoint method =
     \<lparr>te_timestamp = now, te_source_ip = source_ip, te_user_agent = None, te_endpoint_accessed = endpoint,
      te_request_method = method, te_request_body = None, te_tls_fingerprint = None\<rparr>"

definition trap_to_proto :: "trap_event \<Rightarrow> intrusion_event" where
  "trap_to_proto e =
     \<lparr>iv_timestamp_unix =
        (if te_timestamp e < 0 then 0
         else if te_timestamp e < 2 ^ 63 then of_int (te_timestamp e) else of_int (2 ^ 63 - 1)),
      iv_source_ip = te_source_ip e, iv_endpoint_accessed = te_endpoint_accessed e,
      iv_request_method = te_request_method e, iv_user_agent = te_user_agent e,
      iv_request_body = te_request_body e, iv_tls_fingerprint = te_tls_fingerprint e\<rparr>"

datatype log_line = Intrusion trap_event | ReportFailed status

record 'b reporter =
  rp_client :: "(intrusion_event \<Rightarrow> ('b, status, bool) eff) option"

definition reporter_from_env ::
  "(string \<Rightarrow> (intrusion_event \<Rightarrow> ('b, status, bool) eff) option) \<Rightarrow> string option \<Rightarrow> 'b reporter" where
  "reporter_from_env connect_lazy admin_addr = \<lparr>rp_client = Option.bind admin_addr connect_lazy\<rparr>"

definition report :: "'b reporter \<Rightarrow> trap_event \<Rightarrow> log_line list \<times> 'b \<Rightarrow> log_line list \<times> 'b" where
  "report R e = (\<lambda>(log, b).
     let log = log @ [Intrusion e]
     in case rp_client R of
          None \<Rightarrow> (log, b)
        | Some record_intrusion \<Rightarrow> (case record_intrusion (trap_to_proto e) b of
              (Inl s, b') \<Rightarrow> (log @ [ReportFailed s], b')
            | (Inr _, b') \<Rightarrow> (log, b')))"

subsection \<open>The service\<close>

definition MAX_DOWNLOAD_MB :: u32 where "MAX_DOWNLOAD_MB = 8"
definition CHUNK_BYTES :: nat where "CHUNK_BYTES = 64 * 1024"

record 'm trap_request =
  tq_remote_ip :: "string option"
  tq_user_agent :: "string option"
  tq_message :: 'm

record wallet_response =
  wr_address :: string
  wr_balance :: string
  wr_currency :: string

record backup_metadata =
  bm_name :: string
  bm_size_bytes :: u64
  bm_created_at :: string

record backup_download_request =
  bd_name :: string
  bd_size_mb :: u32

definition capture :: "int \<Rightarrow> 'm trap_request \<Rightarrow> string \<Rightarrow> string \<Rightarrow> trap_event" where
  "capture now request endpoint method =
     (let source_ip = (case tq_remote_ip request of Some ip \<Rightarrow> ip | None \<Rightarrow> ''unknown'')
      in (new_trap_event now source_ip endpoint method)\<lparr>te_user_agent := tq_user_agent request\<rparr>)"

definition get_wallet_balance ::
  "int \<Rightarrow> 'b reporter \<Rightarrow> string trap_request \<Rightarrow> log_line list \<times> 'b \<Rightarrow> (status + wallet_response) \<times> log_line list \<times> 'b" where
  "get_wallet_balance now R request s =
     (Inr \<lparr>wr_address = generate_fake_wallet, wr_balance = ''13.37000000'', wr_currency = ''BTC''\<rparr>,
      report R (capture now request ''/wallet/balance'' ''GetWalletBalance'') s)"

definition list_backups ::
  "int \<Rightarrow> 'b reporter \<Rightarrow> unit trap_request \<Rightarrow> log_line list \<times> 'b
   \<Rightarrow> (status + (status + backup_metadata) list) \<times> log_line list \<times> 'b" where
  "list_backups now R request s =
     (Inr (map (\<lambda>(i, name). Inr \<lparr>bm_name = name, bm_size_bytes = 1073741824 + of_nat i * 104857600,
                              bm_created_at = ''2025-12-08T03:14:00Z''\<rparr>)
            (enumerate 0 generate_fake_backup_list)),
      report R (capture now request ''/backups'' ''ListBackups'') s)"

text \<open>\<open>(0..total).step_by(n)\<close>.\<close>

definition step_by :: "nat \<Rightarrow> nat \<Rightarrow> nat list" where
  "step_by len n = map (\<lambda>i. i * n) [0..<(len + n - 1) div n]"

definition backup_chunks :: "u32 \<Rightarrow> (status + bytes) list" where
  "backup_chunks size_mb =
     (let mb = unat (max 1 (min size_mb MAX_DOWNLOAD_MB)); total_bytes = mb * 1024 * 1024
      in map (\<lambda>offset. Inr (replicate (min CHUNK_BYTES (total_bytes - offset)) 0x42)) (step_by total_bytes CHUNK_BYTES))"

definition download_backup ::
  "int \<Rightarrow> 'b reporter \<Rightarrow> backup_download_request trap_request \<Rightarrow> log_line list \<times> 'b
   \<Rightarrow> (status + (status + bytes) list) \<times> log_line list \<times> 'b" where
  "download_backup now R request s =
     (let s = report R (capture now request ''/backups/download'' ''DownloadBackup'') s
      in (Inr (backup_chunks (bd_size_mb (tq_message request))), s))"

subsection \<open>Lemmas\<close>

lemma step_by_div: "0 < n \<Longrightarrow> step_by (k * n) n = map (\<lambda>i. i * n) [0..<k]"
proof -
  assume "0 < n"
  moreover from this have "k * n + n - 1 = (n - 1) + k * n" by simp
  ultimately have "(k * n + n - 1) div n = (n - 1) div n + k" by (simp only: div_mult_self1 neq0_conv)
  with \<open>0 < n\<close> show ?thesis by (simp add: step_by_def)
qed

lemma clamp_bounds:
  "1 \<le> unat (max 1 (min (n :: u32) MAX_DOWNLOAD_MB)) \<and> unat (max 1 (min n MAX_DOWNLOAD_MB)) \<le> 8"
  by (simp add: MAX_DOWNLOAD_MB_def max_def min_def word_le_nat_alt)

lemma sum_chunks: "sum_list (map length (map (\<lambda>_. replicate n x) xs)) = length xs * n"
  by (simp add: sum_list_triv o_def)

text \<open>The stream is as long as the clamped size says, in full chunks, whatever was asked for.\<close>

lemma backup_chunks_spec:
  fixes size_mb :: u32
  defines "mb \<equiv> unat (max 1 (min size_mb MAX_DOWNLOAD_MB))"
  shows "backup_chunks size_mb = replicate (16 * mb) (Inr (replicate CHUNK_BYTES 0x42))"
proof -
  have total: "mb * 1024 * 1024 = (16 * mb) * CHUNK_BYTES" by (simp add: CHUNK_BYTES_def)
  have full: "min CHUNK_BYTES ((16 * mb) * CHUNK_BYTES - i * CHUNK_BYTES) = CHUNK_BYTES" if "i < 16 * mb" for i
  proof -
    have "(16 * mb) * CHUNK_BYTES - i * CHUNK_BYTES = (16 * mb - i) * CHUNK_BYTES" by (simp add: diff_mult_distrib)
    then show ?thesis using that by (cases "16 * mb - i") auto
  qed
  have pos: "0 < CHUNK_BYTES" by (simp add: CHUNK_BYTES_def)
  show ?thesis
    unfolding backup_chunks_def Let_def mb_def [symmetric] total step_by_div [OF pos]
    by (auto simp: full map_replicate_const [symmetric] intro!: nth_equalityI)
qed

text \<open>The tarpit cannot be turned against the honeypot, and no visit goes unseen. A download
  streams between one and eight megabytes whatever the request asks for, exactly the asked size
  within these bounds, in chunks of 64 KiB of filler. All three traps answer with the same data
  for every caller, and whether the admin service records the visit, refuses it or cannot be
  reached; each call logs exactly one intrusion, with the caller's address (\<open>unknown\<close> without
  one), and forwards it once when a client is configured, a failure to do so being logged too.
\<close>

theorem download_bounded:
  "(\<exists>chunks s'. download_backup now R req s = (Inr (map Inr chunks), s')
      \<and> 1024 * 1024 \<le> sum_list (map length chunks) \<and> sum_list (map length chunks) \<le> 8 * 1024 * 1024
      \<and> (1 \<le> unat (bd_size_mb (tq_message req)) \<longrightarrow> unat (bd_size_mb (tq_message req)) \<le> 8 \<longrightarrow>
           sum_list (map length chunks) = unat (bd_size_mb (tq_message req)) * 1024 * 1024)
      \<and> (\<forall>c \<in> set chunks. c = replicate (64 * 1024) 0x42))
   \<and> fst (get_wallet_balance now R wreq s) = fst (get_wallet_balance now' R' wreq' s')
   \<and> fst (list_backups now R lreq s) = fst (list_backups now' R' lreq' s')
   \<and> (\<forall>log b. let e = capture now req ''/backups/download'' ''DownloadBackup'' in
        te_source_ip e = (case tq_remote_ip req of Some ip \<Rightarrow> ip | None \<Rightarrow> ''unknown'')
        \<and> snd (download_backup now R req (log, b))
            = (case rp_client R of
                 None \<Rightarrow> (log @ [Intrusion e], b)
               | Some call \<Rightarrow> (case call (trap_to_proto e) b of
                     (Inl st, b') \<Rightarrow> (log @ [Intrusion e, ReportFailed st], b')
                   | (Inr _, b') \<Rightarrow> (log @ [Intrusion e], b'))))"
proof -
  let ?size = "bd_size_mb (tq_message req)"
  let ?mb = "unat (max 1 (min ?size MAX_DOWNLOAD_MB))"
  let ?chunks = "replicate (16 * ?mb) (replicate CHUNK_BYTES 0x42) :: bytes list"
  have down: "fst (download_backup now R req s) = Inr (map Inr ?chunks)"
    by (simp add: download_backup_def Let_def backup_chunks_spec)
  have total: "sum_list (map length ?chunks) = ?mb * 1024 * 1024"
    by (simp add: sum_list_replicate CHUNK_BYTES_def)
  have exact: "?mb = unat ?size" if "1 \<le> unat ?size" "unat ?size \<le> 8"
    using that by (auto simp: MAX_DOWNLOAD_MB_def max_def min_def word_le_nat_alt)
  have "download_backup now R req s = (Inr (map Inr ?chunks), snd (download_backup now R req s))"
    using down by (metis prod.collapse)
  moreover have "1024 * 1024 \<le> sum_list (map length ?chunks) \<and> sum_list (map length ?chunks) \<le> 8 * 1024 * 1024"
    unfolding total using clamp_bounds [of ?size] by linarith
  moreover have "1 \<le> unat ?size \<longrightarrow> unat ?size \<le> 8 \<longrightarrow> sum_list (map length ?chunks) = unat ?size * 1024 * 1024"
    unfolding total using exact by simp
  moreover have "\<forall>c \<in> set ?chunks. c = replicate (64 * 1024) 0x42" by (simp add: CHUNK_BYTES_def)
  ultimately have "\<exists>chunks s'. download_backup now R req s = (Inr (map Inr chunks), s')
      \<and> 1024 * 1024 \<le> sum_list (map length chunks) \<and> sum_list (map length chunks) \<le> 8 * 1024 * 1024
      \<and> (1 \<le> unat ?size \<longrightarrow> unat ?size \<le> 8 \<longrightarrow> sum_list (map length chunks) = unat ?size * 1024 * 1024)
      \<and> (\<forall>c \<in> set chunks. c = replicate (64 * 1024) 0x42)" by blast
  moreover have "snd (download_backup now R req (log, b))
            = (case rp_client R of
                 None \<Rightarrow> (log @ [Intrusion e], b)
               | Some call \<Rightarrow> (case call (trap_to_proto e) b of
                     (Inl st, b') \<Rightarrow> (log @ [Intrusion e, ReportFailed st], b')
                   | (Inr _, b') \<Rightarrow> (log @ [Intrusion e], b')))"
    if "e = capture now req ''/backups/download'' ''DownloadBackup''" for log b e
    using that by (simp add: download_backup_def report_def Let_def split: option.split prod.split sum.split)
  ultimately show ?thesis
    by (simp add: get_wallet_balance_def list_backups_def capture_def new_trap_event_def Let_def)
qed

theorem download_bounded_witness:
  "\<exists>chunks s'. download_backup 5 \<lparr>rp_client = None\<rparr>
       \<lparr>tq_remote_ip = None, tq_user_agent = None, tq_message = \<lparr>bd_name = ''x'', bd_size_mb = 3\<rparr>\<rparr> ([], ())
         = (Inr (map Inr chunks), s') \<and> sum_list (map length chunks) = 3 * 1024 * 1024"
  using conjunct1 [OF download_bounded [of 5 "\<lparr>rp_client = None\<rparr>" "\<lparr>tq_remote_ip = None, tq_user_agent = None,
      tq_message = \<lparr>bd_name = ''x'', bd_size_mb = 3\<rparr>\<rparr>" "([], ())"]] by auto

end
