(* ===== verification/Web_Client.thy ===== *)
theory Web_Client
  imports Config_Text Web_Domain
begin

text \<open>
  \<open>web/src/api.rs\<close>: the browser's client of the gateway.

  The browser is a parameter: \<open>wb_send\<close> performs a request over some state \<open>'s\<close>, and \<open>wb_json\<close> and
  the readers code and decode JSON, an error of theirs being its text. The local storage of the
  page is a map, absent where the browser offers none; the state of a call is the pair of both.
  Codes of type \<open>i32\<close> are integers, as in \<open>Web_Domain\<close>.
\<close>

subsection \<open>Values\<close>

datatype web_api_error = TransportError string | ServerError string

fun web_error_text :: "web_api_error \<Rightarrow> string" where
  "web_error_text (TransportError e) = ''network error: '' @ e"
| "web_error_text (ServerError body) = body"

datatype page_action =
    FollowUpAt int
  | AppointmentAt int
  | AutoCloseOn string

fun summary :: "page_action \<Rightarrow> string" where
  "summary (FollowUpAt t) = ''Follow up @ '' @ show_int t"
| "summary (AppointmentAt t) = ''Appointment @ '' @ show_int t"
| "summary (AutoCloseOn schedule) = ''Auto-close ('' @ schedule @ '')''"

record web_ticket =
  wt_ticket_id :: u64
  wt_title :: string
  wt_project :: string
  wt_priority :: int
  wt_status :: int
  wt_next_action :: "page_action option"

datatype action_input =
    ClearAction
  | FollowUpInput int
  | AppointmentInput int
  | AutoCloseInput string

datatype web_payload =
    LoginPayload string string "string option"
  | CreateTicketPayload string string string int int
  | UpdateTicketPayload "string option" "string option" "int option" "int option" "action_input option"
  | CreateUserPayload string string string string int

subsection \<open>The list query\<close>

record list_tickets_filter =
  lf_status :: "int option"
  lf_assignee :: string
  lf_account :: string
  lf_project :: string
  lf_include_deleted :: bool
  lf_limit :: "u32 option"

definition default_filter :: list_tickets_filter where
  "default_filter = \<lparr>lf_status = None, lf_assignee = [], lf_account = [], lf_project = [],
     lf_include_deleted = False, lf_limit = None\<rparr>"

definition text_part :: "string \<Rightarrow> string \<Rightarrow> string list" where
  "text_part key value = (if trim value \<noteq> [] then [key @ ''='' @ trim value] else [])"

definition to_query_string :: "list_tickets_filter \<Rightarrow> string" where
  "to_query_string f = join_with ''&''
     ((case lf_status f of Some status \<Rightarrow> [''status='' @ show_int status] | None \<Rightarrow> [])
      @ text_part ''assignee'' (lf_assignee f)
      @ text_part ''account'' (lf_account f)
      @ text_part ''project'' (lf_project f)
      @ (if lf_include_deleted f then [''include_deleted=true''] else [])
      @ (case lf_limit f of Some limit \<Rightarrow> [''limit='' @ show_nat (unat limit)] | None \<Rightarrow> []))"

definition list_url :: "list_tickets_filter \<Rightarrow> string" where
  "list_url f = (let query = to_query_string f
     in if query = [] then ''/api/tickets'' else ''/api/tickets?'' @ query)"

subsection \<open>The calls\<close>

datatype web_method = HttpGet | HttpPost | HttpPut

record web_request =
  wq_method :: web_method
  wq_url :: string
  wq_authorization :: "string option"
  wq_body :: "string option"

record web_response =
  ws_ok :: bool
  ws_text :: "string + string"

record 's browser =
  wb_send :: "web_request \<Rightarrow> 's \<Rightarrow> (string + web_response) \<times> 's"
  wb_json :: "web_payload \<Rightarrow> string + string"
  wb_login_response :: "string \<Rightarrow> string + string"
  wb_ticket :: "string \<Rightarrow> string + web_ticket"
  wb_tickets :: "string \<Rightarrow> string + web_ticket list"

type_synonym 's page = "(string \<rightharpoonup> string) option \<times> 's"

definition TOKEN_KEY :: string where "TOKEN_KEY = ''infovulcan_demo_token''"

definition get_token :: "'s page \<Rightarrow> string option" where
  "get_token pg = (case fst pg of None \<Rightarrow> None | Some storage \<Rightarrow> storage TOKEN_KEY)"

definition clear_token :: "'s page \<Rightarrow> 's page" where
  "clear_token pg = (map_option (\<lambda>storage. storage(TOKEN_KEY := None)) (fst pg), snd pg)"

definition set_token :: "string \<Rightarrow> 's page \<Rightarrow> 's page" where
  "set_token token pg = (map_option (\<lambda>storage. storage(TOKEN_KEY \<mapsto> token)) (fst pg), snd pg)"

definition server_error :: "web_response \<Rightarrow> string \<Rightarrow> web_api_error" where
  "server_error response fallback =
  ServerError (case ws_text response of Inr text \<Rightarrow> text | Inl _ \<Rightarrow> fallback)"

definition read_json :: "(string \<Rightarrow> string + 'a) \<Rightarrow> web_response \<Rightarrow> web_api_error + 'a" where
  "read_json parse response = map_errR TransportError
     (case ws_text response of Inl e \<Rightarrow> Inl e | Inr text \<Rightarrow> parse text)"

definition bearer :: "string \<Rightarrow> string option" where
  "bearer token = Some (''Bearer '' @ token)"

text \<open>Sending with and without a body; building the body fails before anything is sent.\<close>

definition send_request ::
  "'s browser \<Rightarrow> web_request \<Rightarrow> ('s page, web_api_error, web_response) eff" where
  "send_request W req = (\<lambda>(store, s). case wb_send W req s of
       (Inl e, s') \<Rightarrow> (Inl (TransportError e), (store, s'))
     | (Inr response, s') \<Rightarrow> (Inr response, (store, s')))"

definition send_json ::
  "'s browser \<Rightarrow> web_method \<Rightarrow> string \<Rightarrow> string option \<Rightarrow> web_payload
   \<Rightarrow> ('s page, web_api_error, web_response) eff" where
  "send_json W method url auth payload = (\<lambda>pg. case wb_json W payload of
       Inl e \<Rightarrow> (Inl (TransportError e), pg)
     | Inr body \<Rightarrow> send_request W
         \<lparr>wq_method = method, wq_url = url, wq_authorization = auth, wq_body = Some body\<rparr> pg)"

definition web_login :: "'s browser \<Rightarrow> string \<Rightarrow> string \<Rightarrow> ('s page, web_api_error, unit) eff" where
  "web_login W username password = (\<lambda>pg.
     case send_json W HttpPost ''/auth/login'' None (LoginPayload username password None) pg of
       (Inl e, pg) \<Rightarrow> (Inl e, pg)
     | (Inr response, pg) \<Rightarrow>
         if \<not> ws_ok response then (Inl (server_error response ''Login failed''), pg)
         else (case read_json (wb_login_response W) response of
             Inl e \<Rightarrow> (Inl e, pg)
           | Inr token \<Rightarrow> (Inr (), set_token token pg)))"

definition web_create_user ::
  "'s browser \<Rightarrow> string \<Rightarrow> web_payload \<Rightarrow> ('s page, web_api_error, unit) eff" where
  "web_create_user W token payload = (\<lambda>pg.
     case send_json W HttpPost ''/api/admin/users'' (bearer token) payload pg of
       (Inl e, pg) \<Rightarrow> (Inl e, pg)
     | (Inr response, pg) \<Rightarrow>
         if ws_ok response then (Inr (), pg)
         else (Inl (server_error response ''User creation failed''), pg))"

definition answered ::
  "(string \<Rightarrow> string + 'a) \<Rightarrow> string \<Rightarrow> (web_api_error + web_response) \<times> 's page
   \<Rightarrow> (web_api_error + 'a) \<times> 's page" where
  "answered parse fallback r = (case r of
       (Inl e, pg) \<Rightarrow> (Inl e, pg)
     | (Inr response, pg) \<Rightarrow>
         if \<not> ws_ok response then (Inl (server_error response fallback), pg)
         else (read_json parse response, pg))"

definition web_create_ticket ::
  "'s browser \<Rightarrow> string \<Rightarrow> web_payload \<Rightarrow> ('s page, web_api_error, web_ticket) eff" where
  "web_create_ticket W token payload = (\<lambda>pg.
     answered (wb_ticket W) ''Ticket creation failed''
       (send_json W HttpPost ''/api/tickets'' (bearer token) payload pg))"

definition web_list_tickets ::
  "'s browser \<Rightarrow> string \<Rightarrow> list_tickets_filter \<Rightarrow> ('s page, web_api_error, web_ticket list) eff" where
  "web_list_tickets W token filt = (\<lambda>pg.
     answered (wb_tickets W) ''Ticket list failed''
       (send_request W \<lparr>wq_method = HttpGet, wq_url = list_url filt, wq_authorization = bearer token,
          wq_body = None\<rparr> pg))"

definition web_fetch_ticket ::
  "'s browser \<Rightarrow> string \<Rightarrow> u64 \<Rightarrow> ('s page, web_api_error, web_ticket) eff" where
  "web_fetch_ticket W token ticket_id = (\<lambda>pg.
     answered (wb_ticket W) ''Ticket lookup failed''
       (send_request W \<lparr>wq_method = HttpGet, wq_url = ''/api/tickets/'' @ show_u64 ticket_id,
          wq_authorization = bearer token, wq_body = None\<rparr> pg))"

definition web_update_ticket ::
  "'s browser \<Rightarrow> string \<Rightarrow> u64 \<Rightarrow> web_payload \<Rightarrow> ('s page, web_api_error, web_ticket) eff" where
  "web_update_ticket W token ticket_id payload = (\<lambda>pg.
     answered (wb_ticket W) ''Ticket update failed''
       (send_json W HttpPut (''/api/tickets/'' @ show_u64 ticket_id) (bearer token) payload pg))"

subsection \<open>Reading a query back\<close>

text \<open>
  The reference: an unescaped form query is a list of pairs separated by \<open>&\<close>, the key up to the
  first \<open>=\<close>. \<open>filter_pairs\<close> is what the page means to ask.
\<close>

definition form_pair :: "string \<Rightarrow> string \<times> string" where
  "form_pair s = (takeWhile (\<lambda>c. c \<noteq> CHR ''='') s, drop 1 (dropWhile (\<lambda>c. c \<noteq> CHR ''='') s))"

definition form_pairs :: "string \<Rightarrow> (string \<times> string) list" where
  "form_pairs query = map form_pair (filter (\<lambda>s. s \<noteq> []) (split_on (CHR ''&'') query))"

definition text_pair :: "string \<Rightarrow> string \<Rightarrow> (string \<times> string) list" where
  "text_pair key value = (if trim value \<noteq> [] then [(key, trim value)] else [])"

definition filter_pairs :: "list_tickets_filter \<Rightarrow> (string \<times> string) list" where
  "filter_pairs f =
     (case lf_status f of Some status \<Rightarrow> [(''status'', show_int status)] | None \<Rightarrow> [])
     @ text_pair ''assignee'' (lf_assignee f) @ text_pair ''account'' (lf_account f)
     @ text_pair ''project'' (lf_project f)
     @ (if lf_include_deleted f then [(''include_deleted'', ''true'')] else [])
     @ (case lf_limit f of Some limit \<Rightarrow> [(''limit'', show_nat (unat limit))] | None \<Rightarrow> [])"

definition pair_text :: "string \<times> string \<Rightarrow> string" where
  "pair_text p = fst p @ ''='' @ snd p"

lemma to_query_pairs: "to_query_string f = join_with ''&'' (map pair_text (filter_pairs f))"
  by (simp add: to_query_string_def filter_pairs_def text_part_def text_pair_def pair_text_def split: option.split)

lemma form_pair_text: "CHR ''='' \<notin> set (fst p) \<Longrightarrow> form_pair (pair_text p) = p"
proof -
  assume no: "CHR ''='' \<notin> set (fst p)"
  have "takeWhile (\<lambda>c. c \<noteq> CHR ''='') (fst p @ CHR ''='' # snd p) = fst p"
    "dropWhile (\<lambda>c. c \<noteq> CHR ''='') (fst p @ CHR ''='' # snd p) = CHR ''='' # snd p"
    using no by (auto simp: takeWhile_append dropWhile_append)
  then show ?thesis by (simp add: form_pair_def pair_text_def prod_eq_iff)
qed

lemma pairs_roundtrip:
  assumes "\<forall>p \<in> set ps. CHR ''='' \<notin> set (fst p) \<and> CHR ''&'' \<notin> set (fst p) \<and> CHR ''&'' \<notin> set (snd p)"
  shows "form_pairs (join_with ''&'' (map pair_text ps)) = ps"
proof (cases "ps = []")
  case True
  then show ?thesis by (simp add: form_pairs_def)
next
  case False
  have "CHR ''&'' \<notin> set (pair_text p)" if "p \<in> set ps" for p
    using assms that by (auto simp: pair_text_def)
  then have "split_on (CHR ''&'') (join_with ''&'' (map pair_text ps)) = map pair_text ps"
    using False by (intro split_join) auto
  moreover have "filter (\<lambda>s. s \<noteq> []) (map pair_text ps) = map pair_text ps"
    by (rule filter_True) (auto simp: pair_text_def)
  moreover have "map form_pair (map pair_text ps) = ps"
    unfolding map_map by (rule map_idI) (use assms form_pair_text in auto)
  ultimately show ?thesis by (simp add: form_pairs_def)
qed

lemma show_int_no_amp: "CHR ''&'' \<notin> set (show_int i)"
  by (simp add: show_int_def show_nat_no_char)

lemma filter_pairs_keys:
  "p \<in> set (filter_pairs f) \<Longrightarrow> CHR ''='' \<notin> set (fst p) \<and> CHR ''&'' \<notin> set (fst p)"
  by (auto simp: filter_pairs_def text_pair_def split: option.splits if_splits)

lemma filter_pairs_values:
  assumes "CHR ''&'' \<notin> set (trim (lf_assignee f) @ trim (lf_account f) @ trim (lf_project f))"
    and "p \<in> set (filter_pairs f)"
  shows "CHR ''&'' \<notin> set (snd p)"
  using assms by (auto simp: filter_pairs_def text_pair_def show_int_no_amp show_nat_no_char split: option.splits if_splits)

text \<open>The query of the ticket list carries the filter: an empty filter is the bare address, and
  where no text field has an \<open>&\<close>, a reader of the query gets back exactly the fields that are set,
  trimmed, in order. Nothing is escaped, though: a project whose name has an \<open>&\<close> asks for
  something else, so a text field can set the fields behind it; two different filters then send
  the same request.
\<close>

theorem query_faithful:
  "list_url default_filter = ''/api/tickets''"
  "CHR ''&'' \<notin> set (trim (lf_assignee f) @ trim (lf_account f) @ trim (lf_project f)) \<Longrightarrow>
     form_pairs (to_query_string f) = filter_pairs f"
  "trim p \<noteq> [] \<Longrightarrow> trim (p @ ''&include_deleted=true'') = trim p @ ''&include_deleted=true'' \<Longrightarrow>
     lf_include_deleted f = False \<Longrightarrow>
     list_url (f\<lparr>lf_project := p @ ''&include_deleted=true''\<rparr>)
       = list_url (f\<lparr>lf_project := p, lf_include_deleted := True\<rparr>)"
proof -
  show "list_url default_filter = ''/api/tickets''" by code_simp
  show "form_pairs (to_query_string f) = filter_pairs f"
    if "CHR ''&'' \<notin> set (trim (lf_assignee f) @ trim (lf_account f) @ trim (lf_project f))"
    unfolding to_query_pairs
    by (rule pairs_roundtrip) (use filter_pairs_keys filter_pairs_values [OF that] in blast)
  have join: "join_with ''&'' (xs @ (a @ ''&'' @ b) # ys) = join_with ''&'' (xs @ a # b # ys)" for xs ys a b
    by (induction "''&''" xs rule: join_with.induct) (cases ys; simp)+
  show "list_url (f\<lparr>lf_project := p @ ''&include_deleted=true''\<rparr>)
       = list_url (f\<lparr>lf_project := p, lf_include_deleted := True\<rparr>)"
    if "trim p \<noteq> []" "trim (p @ ''&include_deleted=true'') = trim p @ ''&include_deleted=true''"
      "lf_include_deleted f = False"
  proof -
    let ?pre = "(case lf_status f of Some status \<Rightarrow> [''status='' @ show_int status] | None \<Rightarrow> [])
      @ text_part ''assignee'' (lf_assignee f) @ text_part ''account'' (lf_account f)"
    let ?post = "case lf_limit f of Some limit \<Rightarrow> [''limit='' @ show_nat (unat limit)] | None \<Rightarrow> []"
    let ?project = "''project='' @ trim p" and ?deleted = "''include_deleted=true''"
    have part: "text_part ''project'' (p @ ''&include_deleted=true'') = [?project @ ''&'' @ ?deleted]"
      "text_part ''project'' p = [?project]"
      using that(1,2) unfolding text_part_def by simp_all
    have "to_query_string (f\<lparr>lf_project := p @ ''&include_deleted=true''\<rparr>)
         = join_with ''&'' (?pre @ (?project @ ''&'' @ ?deleted) # ?post)"
      by (simp add: to_query_string_def part that(3) cong: option.case_cong)
    also have "\<dots> = join_with ''&'' (?pre @ ?project # ?deleted # ?post)" by (rule join)
    also have "\<dots> = to_query_string (f\<lparr>lf_project := p, lf_include_deleted := True\<rparr>)"
      by (simp add: to_query_string_def part cong: option.case_cong)
    finally have "to_query_string (f\<lparr>lf_project := p @ ''&include_deleted=true''\<rparr>)
         = to_query_string (f\<lparr>lf_project := p, lf_include_deleted := True\<rparr>)" .
    then show ?thesis by (simp add: list_url_def)
  qed
qed

theorem query_faithful_witness:
  "list_url (default_filter\<lparr>lf_project := ''acme&include_deleted=true''\<rparr>)
     = list_url (default_filter\<lparr>lf_project := ''acme'', lf_include_deleted := True\<rparr>)
   \<and> form_pairs (to_query_string (default_filter\<lparr>lf_assignee := '' ann '', lf_include_deleted := True\<rparr>))
     = [(''assignee'', ''ann''), (''include_deleted'', ''true'')]"
proof
  have "trim ''acme'' \<noteq> []" "trim (''acme'' @ ''&include_deleted=true'') = trim ''acme'' @ ''&include_deleted=true''"
    "lf_include_deleted default_filter = False" by code_simp+
  from query_faithful(3) [OF this] show "list_url (default_filter\<lparr>lf_project := ''acme&include_deleted=true''\<rparr>)
     = list_url (default_filter\<lparr>lf_project := ''acme'', lf_include_deleted := True\<rparr>)" by simp
  let ?f = "default_filter\<lparr>lf_assignee := '' ann '', lf_include_deleted := True\<rparr>"
  have "trim '' ann '' = ''ann''" "trim [] = []" by code_simp+
  then have "CHR ''&'' \<notin> set (trim (lf_assignee ?f) @ trim (lf_account ?f) @ trim (lf_project ?f))"
    "filter_pairs ?f = [(''assignee'', ''ann''), (''include_deleted'', ''true'')]"
    by (simp_all add: default_filter_def filter_pairs_def text_pair_def)
  with query_faithful(2) [of ?f] show "form_pairs (to_query_string ?f) = [(''assignee'', ''ann''), (''include_deleted'', ''true'')]"
    by simp
qed

end
