(* ===== verification/Web_Console.thy ===== *)
theory Web_Console
  imports Web_Client
begin

text \<open>
  The console of the browser: \<open>web/src/components/ticket_list.rs\<close> and \<open>web/src/theme.rs\<close>.

  The signals of the page are the record \<open>console\<close>. An input event sets one of them; a click runs
  a handler, which reads the signals and may start a request. \<open>spawn_local\<close> leaves the request
  running: it reaches the server at some later time, and its answer runs the rest of the handler
  later still, whatever happened to the page in between and in whatever order. So a state of the
  page holds the requests under way and the answers not yet handled; \<open>console_step\<close> is the
  interleaving.
\<close>

subsection \<open>Numbers typed by the user\<close>

text \<open>\<open>i32::from_str\<close> and its relatives: a sign, then decimal digits, within the range.\<close>

definition parse_signed :: "nat \<Rightarrow> string \<Rightarrow> int option" where
  "parse_signed w s =
     (let (neg, digits) = (case s of
          c # cs \<Rightarrow> if c = CHR ''-'' then (True, cs) else if c = CHR ''+'' then (False, cs) else (False, s)
        | [] \<Rightarrow> (False, []))
      in if digits = [] then None
         else case parse_digits digits 0 of
             None \<Rightarrow> None
           | Some n \<Rightarrow> let i = (if neg then - int n else int n)
                       in if - (2 ^ (w - 1)) \<le> i \<and> i < 2 ^ (w - 1) then Some i else None)"

definition parse_u32 :: "string \<Rightarrow> u32 option" where
  "parse_u32 s =
     (let digits = (case s of c # cs \<Rightarrow> if c = CHR ''+'' then cs else s | [] \<Rightarrow> [])
      in if digits = [] then None
         else case parse_digits digits 0 of
             None \<Rightarrow> None
           | Some n \<Rightarrow> if n < 2 ^ 32 then Some (of_nat n) else None)"

lemma parse_signed_show:
  assumes "- (2 ^ (w - 1)) \<le> i" and "i < 2 ^ (w - 1)"
  shows "parse_signed w (show_int i) = Some i"
proof (cases "i < 0")
  case True
  then show ?thesis using assms by (simp add: parse_signed_def show_int_def)
next
  case False
  obtain c cs where c: "show_nat (nat i) = c # cs" by (cases "show_nat (nat i)") auto
  have "decimal_digit c" using show_nat_digits [of c "nat i"] c by simp
  then have "c \<noteq> CHR ''-''" "c \<noteq> CHR ''+''" by (auto simp: decimal_digit_def)
  then show ?thesis
    using False assms parse_digits_show [of "nat i"] by (simp add: parse_signed_def show_int_def c)
qed

subsection \<open>The theme\<close>

text \<open>The local storage and the theme attribute of the document's root, where the browser has them.\<close>

definition THEME_KEY :: string where "THEME_KEY = ''infovulcan_theme''"
definition DARK :: string where "DARK = ''dark''"
definition LIGHT :: string where "LIGHT = ''light''"

type_synonym theme_state = "(string \<rightharpoonup> string) option \<times> string option option"

definition current_theme :: "theme_state \<Rightarrow> string" where
  "current_theme st =
     (case Option.bind (fst st) (\<lambda>storage. storage THEME_KEY) of
        Some t \<Rightarrow> if t = DARK \<or> t = LIGHT then t else DARK
      | None \<Rightarrow> DARK)"

definition apply_theme :: "string \<Rightarrow> theme_state \<Rightarrow> theme_state" where
  "apply_theme theme st = (fst st, map_option (\<lambda>_. Some theme) (snd st))"

definition apply_current :: "theme_state \<Rightarrow> theme_state" where
  "apply_current st = apply_theme (current_theme st) st"

definition set_theme :: "string \<Rightarrow> theme_state \<Rightarrow> theme_state" where
  "set_theme theme st =
     apply_theme theme (map_option (\<lambda>storage. storage(THEME_KEY \<mapsto> theme)) (fst st), snd st)"

definition toggle_theme :: "theme_state \<Rightarrow> string \<times> theme_state" where
  "toggle_theme st =
     (let new = (if current_theme st = DARK then LIGHT else DARK) in (new, set_theme new st))"

text \<open>The toggle alternates where there is storage; without it every click asks for the light theme.\<close>

lemma toggle_theme_spec:
  "fst st \<noteq> None \<Longrightarrow> fst (toggle_theme (snd (toggle_theme st))) = current_theme st"
  "fst st \<noteq> None \<Longrightarrow> current_theme (snd (toggle_theme st)) = fst (toggle_theme st)"
  "fst st = None \<Longrightarrow> fst (toggle_theme st) = LIGHT \<and> fst (snd (toggle_theme st)) = None"
  by (auto simp: toggle_theme_def current_theme_def set_theme_def apply_theme_def Let_def DARK_def LIGHT_def
      split: option.splits)

subsection \<open>The signals\<close>

record console =
  co_token :: "string option"
  co_theme :: string
  co_tickets :: "web_ticket list"
  co_message :: string
  co_error :: string
  co_filter_status :: string
  co_filter_assignee :: string
  co_filter_account :: string
  co_filter_project :: string
  co_filter_include_deleted :: bool
  co_filter_limit :: string
  co_ticket :: "web_ticket option"
  co_lookup_id :: string
  co_update_title :: string
  co_update_project :: string
  co_update_priority :: string
  co_update_status :: string
  co_na_kind :: string
  co_na_at :: string
  co_na_schedule :: string
  co_new_title :: string
  co_new_project :: string
  co_new_account_uuid :: string
  co_new_priority :: string
  co_user_name :: string
  co_user_password :: string
  co_user_email :: string
  co_user_display_name :: string
  co_user_role :: string

definition mount :: "string option \<Rightarrow> string \<Rightarrow> console" where
  "mount token theme =
     \<lparr>co_token = token, co_theme = theme, co_tickets = [], co_message = [], co_error = [], co_filter_status = ''any'',
      co_filter_assignee = [], co_filter_account = [], co_filter_project = [],
      co_filter_include_deleted = False, co_filter_limit = [], co_ticket = None, co_lookup_id = [],
      co_update_title = [], co_update_project = [], co_update_priority = [], co_update_status = [],
      co_na_kind = ''unchanged'', co_na_at = [], co_na_schedule = ''end_of_day'', co_new_title = [],
      co_new_project = [], co_new_account_uuid = [], co_new_priority = ''1'', co_user_name = [],
      co_user_password = [], co_user_email = [], co_user_display_name = [], co_user_role = ''2''\<rparr>"

text \<open>The input fields of the view.\<close>

datatype edit =
    FilterStatus string | FilterAssignee string | FilterAccount string | FilterProject string
  | FilterIncludeDeleted bool | FilterLimit string
  | LookupId string
  | UpdateTitle string | UpdateProject string | UpdatePriority string | UpdateStatus string
  | NaKind string | NaAt string | NaSchedule string
  | NewTitle string | NewProject string | NewAccountUuid string | NewPriority string
  | UserName string | UserPassword string | UserEmail string | UserDisplayName string | UserRole string

fun form_edited :: "edit \<Rightarrow> console \<Rightarrow> console" where
  "form_edited (FilterStatus v) co = co\<lparr>co_filter_status := v\<rparr>"
| "form_edited (FilterAssignee v) co = co\<lparr>co_filter_assignee := v\<rparr>"
| "form_edited (FilterAccount v) co = co\<lparr>co_filter_account := v\<rparr>"
| "form_edited (FilterProject v) co = co\<lparr>co_filter_project := v\<rparr>"
| "form_edited (FilterIncludeDeleted b) co = co\<lparr>co_filter_include_deleted := b\<rparr>"
| "form_edited (FilterLimit v) co = co\<lparr>co_filter_limit := v\<rparr>"
| "form_edited (LookupId v) co = co\<lparr>co_lookup_id := v\<rparr>"
| "form_edited (UpdateTitle v) co = co\<lparr>co_update_title := v\<rparr>"
| "form_edited (UpdateProject v) co = co\<lparr>co_update_project := v\<rparr>"
| "form_edited (UpdatePriority v) co = co\<lparr>co_update_priority := v\<rparr>"
| "form_edited (UpdateStatus v) co = co\<lparr>co_update_status := v\<rparr>"
| "form_edited (NaKind v) co = co\<lparr>co_na_kind := v\<rparr>"
| "form_edited (NaAt v) co = co\<lparr>co_na_at := v\<rparr>"
| "form_edited (NaSchedule v) co = co\<lparr>co_na_schedule := v\<rparr>"
| "form_edited (NewTitle v) co = co\<lparr>co_new_title := v\<rparr>"
| "form_edited (NewProject v) co = co\<lparr>co_new_project := v\<rparr>"
| "form_edited (NewAccountUuid v) co = co\<lparr>co_new_account_uuid := v\<rparr>"
| "form_edited (NewPriority v) co = co\<lparr>co_new_priority := v\<rparr>"
| "form_edited (UserName v) co = co\<lparr>co_user_name := v\<rparr>"
| "form_edited (UserPassword v) co = co\<lparr>co_user_password := v\<rparr>"
| "form_edited (UserEmail v) co = co\<lparr>co_user_email := v\<rparr>"
| "form_edited (UserDisplayName v) co = co\<lparr>co_user_display_name := v\<rparr>"
| "form_edited (UserRole v) co = co\<lparr>co_user_role := v\<rparr>"

text \<open>The derived signals.\<close>

definition status_counts :: "console \<Rightarrow> (int \<times> nat) list" where
  "status_counts co = tally (map wt_status (co_tickets co))"

definition priority_counts :: "console \<Rightarrow> (int \<times> nat) list" where
  "priority_counts co = tally (map wt_priority (co_tickets co))"

definition update_status_options :: "console \<Rightarrow> int list" where
  "update_status_options co =
     (case co_ticket co of
        Some t \<Rightarrow> wt_status t # web_allowed_transitions (wt_status t)
      | None \<Rightarrow> map fst STATUSES)"

definition load_into_form :: "web_ticket \<Rightarrow> console \<Rightarrow> console" where
  "load_into_form t co =
     (let co = co\<lparr>co_update_title := wt_title t, co_update_project := wt_project t,
                  co_update_priority := show_int (wt_priority t), co_update_status := show_int (wt_status t)\<rparr>;
          co = (case wt_next_action t of
              Some (FollowUpAt time) \<Rightarrow> co\<lparr>co_na_kind := ''follow_up'', co_na_at := show_int time\<rparr>
            | Some (AppointmentAt time) \<Rightarrow> co\<lparr>co_na_kind := ''appointment'', co_na_at := show_int time\<rparr>
            | Some (AutoCloseOn schedule) \<Rightarrow> co\<lparr>co_na_kind := ''auto_close'', co_na_schedule := schedule\<rparr>
            | None \<Rightarrow> co\<lparr>co_na_kind := ''unchanged''\<rparr>)
      in co\<lparr>co_ticket := Some t\<rparr>)"

subsection \<open>The handlers\<close>

datatype job =
    Fetch string u64
  | Search string list_tickets_filter
  | CreateTicketJob string web_payload
  | UpdateTicketJob string u64 web_payload
  | CreateUserJob string web_payload

datatype answer =
    Found web_ticket
  | Listed "web_ticket list"
  | Created web_ticket
  | Updated web_ticket
  | UserCreated
  | RequestFailed web_api_error

definition refuse :: "string \<Rightarrow> console \<Rightarrow> console \<times> job option" where
  "refuse why co = (co\<lparr>co_error := why\<rparr>, None)"

text \<open>Both banners are cleared when a request is started.\<close>

definition start :: "job \<Rightarrow> console \<Rightarrow> console \<times> job option" where
  "start j co = (co\<lparr>co_error := [], co_message := []\<rparr>, Some j)"

definition NO_TOKEN :: string where "NO_TOKEN = ''Missing auth token. Please sign in again.''"

definition on_lookup :: "console \<Rightarrow> console \<times> job option" where
  "on_lookup co =
     (case co_token co of
        None \<Rightarrow> refuse NO_TOKEN co
      | Some token \<Rightarrow> (case parse_u64 (trim (co_lookup_id co)) of
            None \<Rightarrow> refuse ''Ticket number must be a valid integer.'' co
          | Some ticket_id \<Rightarrow> start (Fetch token ticket_id) co))"

definition search_filter :: "console \<Rightarrow> list_tickets_filter" where
  "search_filter co =
     \<lparr>lf_status = (if co_filter_status co = ''any'' then None else parse_signed 32 (co_filter_status co)),
      lf_assignee = co_filter_assignee co, lf_account = co_filter_account co,
      lf_project = co_filter_project co, lf_include_deleted = co_filter_include_deleted co,
      lf_limit = parse_u32 (trim (co_filter_limit co))\<rparr>"

definition on_search :: "console \<Rightarrow> console \<times> job option" where
  "on_search co =
     (case co_token co of
        None \<Rightarrow> refuse NO_TOKEN co
      | Some token \<Rightarrow> start (Search token (search_filter co)) co)"

definition on_create_ticket :: "console \<Rightarrow> console \<times> job option" where
  "on_create_ticket co =
     (case co_token co of
        None \<Rightarrow> refuse NO_TOKEN co
      | Some token \<Rightarrow> (case parse_signed 32 (co_new_priority co) of
            None \<Rightarrow> refuse ''Priority must be a valid integer enum value.'' co
          | Some priority \<Rightarrow> start (CreateTicketJob token
              (CreateTicketPayload (co_new_title co) (co_new_project co) (co_new_account_uuid co) 1 priority)) co))"

text \<open>A blank field leaves the value unchanged.\<close>

definition optional_code :: "string \<Rightarrow> string \<Rightarrow> string + int option" where
  "optional_code why text =
     (if trim text = [] then Inr None
      else case parse_signed 32 text of Some value \<Rightarrow> Inr (Some value) | None \<Rightarrow> Inl why)"

definition transition_arrow :: string where
  "transition_arrow = '' '' @ of_utf8_bytes [0xE2, 0x86, 0x92] @ '' ''"

definition illegal_transition :: "int \<Rightarrow> int \<Rightarrow> string" where
  "illegal_transition from to =
     ''Illegal transition: '' @ status_label from @ transition_arrow @ status_label to @ '' is not allowed.''"

definition illegal_status :: "web_ticket \<Rightarrow> int option \<Rightarrow> string option" where
  "illegal_status current status =
     (case status of
        Some to \<Rightarrow> if can_transition (wt_status current) to then None
                   else Some (illegal_transition (wt_status current) to)
      | None \<Rightarrow> None)"

definition action_of_form :: "console \<Rightarrow> string + action_input option" where
  "action_of_form co =
     (if co_na_kind co = ''none'' then Inr (Some ClearAction)
      else if co_na_kind co = ''follow_up'' \<or> co_na_kind co = ''appointment'' then
        (case parse_signed 64 (trim (co_na_at co)) of
           None \<Rightarrow> Inl ''Next-action time must be a unix-seconds integer.''
         | Some time \<Rightarrow> Inr (Some (if co_na_kind co = ''follow_up'' then FollowUpInput time else AppointmentInput time)))
      else if co_na_kind co = ''auto_close'' then Inr (Some (AutoCloseInput (co_na_schedule co)))
      else Inr None)"

definition unless_blank :: "string \<Rightarrow> string option" where
  "unless_blank text = (if trim text \<noteq> [] then Some text else None)"

definition on_update_ticket :: "console \<Rightarrow> console \<times> job option" where
  "on_update_ticket co =
     (case co_token co of
        None \<Rightarrow> refuse NO_TOKEN co
      | Some token \<Rightarrow> (case co_ticket co of
          None \<Rightarrow> refuse ''Load a ticket before updating.'' co
        | Some current \<Rightarrow>
          (case optional_code ''Update priority must be a valid integer enum value.'' (co_update_priority co) of
            Inl why \<Rightarrow> refuse why co
          | Inr priority \<Rightarrow>
            (case optional_code ''Update status must be a valid integer enum value.'' (co_update_status co) of
              Inl why \<Rightarrow> refuse why co
            | Inr status \<Rightarrow>
              (case illegal_status current status of
                Some why \<Rightarrow> refuse why co
              | None \<Rightarrow> (case action_of_form co of
                  Inl why \<Rightarrow> refuse why co
                | Inr next_action \<Rightarrow> start (UpdateTicketJob token (wt_ticket_id current)
                    (UpdateTicketPayload (unless_blank (co_update_title co)) (unless_blank (co_update_project co))
                       priority status next_action)) co))))))"

definition on_create_user :: "console \<Rightarrow> console \<times> job option" where
  "on_create_user co =
     (case co_token co of
        None \<Rightarrow> refuse NO_TOKEN co
      | Some token \<Rightarrow> (case parse_signed 32 (co_user_role co) of
            None \<Rightarrow> refuse ''Role must be a valid integer enum value.'' co
          | Some role \<Rightarrow> start (CreateUserJob token (CreateUserPayload (co_user_name co) (co_user_password co)
              (co_user_email co) (co_user_display_name co) role)) co))"

text \<open>
  The two buttons of the header. The navigation of the sign-out takes the component off the page:
  \<open>se_mounted\<close> below.
\<close>

definition on_toggle_theme :: "console \<Rightarrow> theme_state \<Rightarrow> console \<times> theme_state" where
  "on_toggle_theme co st = (case toggle_theme st of (next, st) \<Rightarrow> (co\<lparr>co_theme := next\<rparr>, st))"

definition on_sign_out :: "'s page \<Rightarrow> 's page" where
  "on_sign_out pg = clear_token pg"

subsection \<open>Requests and their answers\<close>

text \<open>What a request does when it reaches the server, and what its answer does to the page.\<close>

fun run_job :: "'s browser \<Rightarrow> job \<Rightarrow> 's page \<Rightarrow> answer \<times> 's page" where
  "run_job W (Fetch token i) pg = (case web_fetch_ticket W token i pg of
     (Inl e, pg) \<Rightarrow> (RequestFailed e, pg) | (Inr t, pg) \<Rightarrow> (Found t, pg))"
| "run_job W (Search token f) pg = (case web_list_tickets W token f pg of
     (Inl e, pg) \<Rightarrow> (RequestFailed e, pg) | (Inr ts, pg) \<Rightarrow> (Listed ts, pg))"
| "run_job W (CreateTicketJob token payload) pg = (case web_create_ticket W token payload pg of
     (Inl e, pg) \<Rightarrow> (RequestFailed e, pg) | (Inr t, pg) \<Rightarrow> (Created t, pg))"
| "run_job W (UpdateTicketJob token i payload) pg = (case web_update_ticket W token i payload pg of
     (Inl e, pg) \<Rightarrow> (RequestFailed e, pg) | (Inr t, pg) \<Rightarrow> (Updated t, pg))"
| "run_job W (CreateUserJob token payload) pg = (case web_create_user W token payload pg of
     (Inl e, pg) \<Rightarrow> (RequestFailed e, pg) | (Inr _, pg) \<Rightarrow> (UserCreated, pg))"

fun finish :: "answer \<Rightarrow> console \<Rightarrow> console" where
  "finish (Found t) co = load_into_form t co"
| "finish (Listed ts) co =
     co\<lparr>co_message := ''Found '' @ show_nat (length ts) @ '' ticket(s).'', co_tickets := ts\<rparr>"
| "finish (Created t) co =
     co\<lparr>co_message := ''Ticket #'' @ show_u64 (wt_ticket_id t) @ '' created.'',
        co_update_title := wt_title t, co_update_project := wt_project t,
        co_update_priority := show_int (wt_priority t), co_update_status := show_int (wt_status t),
        co_ticket := Some t\<rparr>"
| "finish (Updated t) co =
     co\<lparr>co_message := ''Ticket #'' @ show_u64 (wt_ticket_id t) @ '' updated.'', co_ticket := Some t\<rparr>"
| "finish UserCreated co = co\<lparr>co_message := ''User created successfully.''\<rparr>"
| "finish (RequestFailed e) co = co\<lparr>co_error := web_error_text e\<rparr>"

datatype click = Lookup | SearchTickets | CreateATicket | SaveChanges | CreateAUser

fun clicked :: "click \<Rightarrow> console \<Rightarrow> console \<times> job option" where
  "clicked Lookup co = on_lookup co"
| "clicked SearchTickets co = on_search co"
| "clicked CreateATicket co = on_create_ticket co"
| "clicked SaveChanges co = on_update_ticket co"
| "clicked CreateAUser co = on_create_user co"

text \<open>
  A page while its console is used: the theme attribute of the document is part of it. Once the
  user has signed out the component is gone, its buttons and fields with it; requests under way
  stay so, and an answer that comes in finds no signals to set.
\<close>

record 's page_session =
  se_console :: console
  se_mounted :: bool
  se_sent :: "job list"
  se_answers :: "answer list"
  se_page :: "'s page"
  se_document :: "string option option"

text \<open>\<open>remove_nth i xs\<close> takes out one request or answer, wherever it stands.\<close>

definition remove_nth :: "nat \<Rightarrow> 'a list \<Rightarrow> 'a list" where
  "remove_nth i xs = take i xs @ drop (Suc i) xs"

inductive console_step :: "'s browser \<Rightarrow> 's page_session \<Rightarrow> 's page_session \<Rightarrow> bool" for W where
  Edit: "se_mounted s \<Longrightarrow> console_step W s (s\<lparr>se_console := form_edited v (se_console s)\<rparr>)"
| LoadRow: "se_mounted s \<Longrightarrow> t \<in> set (co_tickets (se_console s)) \<Longrightarrow>
     console_step W s (s\<lparr>se_console := load_into_form t (se_console s)\<rparr>)"
| Click: "se_mounted s \<Longrightarrow> clicked c (se_console s) = (co, started) \<Longrightarrow>
     console_step W s (s\<lparr>se_console := co,
       se_sent := se_sent s @ (case started of Some j \<Rightarrow> [j] | None \<Rightarrow> [])\<rparr>)"
| ToggleTheme: "se_mounted s \<Longrightarrow>
     on_toggle_theme (se_console s) (fst (se_page s), se_document s) = (co, (storage, document)) \<Longrightarrow>
     console_step W s (s\<lparr>se_console := co, se_page := (storage, snd (se_page s)), se_document := document\<rparr>)"
| SignOut: "se_mounted s \<Longrightarrow> console_step W s (s\<lparr>se_mounted := False, se_page := on_sign_out (se_page s)\<rparr>)"
| Serve: "i < length (se_sent s) \<Longrightarrow> run_job W (se_sent s ! i) (se_page s) = (ans, pg) \<Longrightarrow>
     console_step W s (s\<lparr>se_sent := remove_nth i (se_sent s), se_answers := se_answers s @ [ans], se_page := pg\<rparr>)"
| Answer: "i < length (se_answers s) \<Longrightarrow>
     console_step W s (s\<lparr>se_console := (if se_mounted s then finish (se_answers s ! i) (se_console s) else se_console s),
       se_answers := remove_nth i (se_answers s)\<rparr>)"

definition opened :: "string option option \<Rightarrow> 's page \<Rightarrow> 's page_session" where
  "opened document pg = \<lparr>se_console = mount (get_token pg) (current_theme (fst pg, document)), se_mounted = True,
     se_sent = [], se_answers = [], se_page = pg, se_document = document\<rparr>"

definition console_reachable :: "'s browser \<Rightarrow> 's page \<Rightarrow> 's page_session \<Rightarrow> bool" where
  "console_reachable W pg s \<longleftrightarrow> (\<exists>document. (console_step W)\<^sup>*\<^sup>* (opened document pg) s)"

end
