(* ===== verification/Web_Console_Props.thy ===== *)
theory Web_Console_Props
  imports Web_Console
begin

text \<open>
  What the console sends: an invariant of every interleaving, the form that saves what it shows,
  and the two ways in which the form and the ticket it is saved to come apart.
\<close>

subsection \<open>Text of numbers\<close>

lemma show_int_clean: "trim (show_int i) = show_int i" "show_int i \<noteq> []"
proof -
  obtain c cs where c: "show_int i = c # cs" "printable c"
  proof (cases "i < 0")
    case True
    then show ?thesis using that by (simp add: show_int_def printable_def)
  next
    case False
    obtain c cs where "show_nat (nat i) = c # cs" by (cases "show_nat (nat i)") auto
    moreover from this have "decimal_digit c" using show_nat_digits [of c "nat i"] by simp
    ultimately show ?thesis using that False decimal_digit_printable by (simp add: show_int_def)
  qed
  obtain xs d where d: "show_int i = xs @ [d]" "printable d"
  proof -
    let ?n = "show_nat (if i < 0 then nat (- i) else nat i)"
    have n: "?n = butlast ?n @ [last ?n]" by simp
    moreover have "decimal_digit (last ?n)" using show_nat_digits last_in_set show_nat_nonempty by blast
    ultimately have "show_int i = (if i < 0 then ''-'' else []) @ butlast ?n @ [last ?n]" "printable (last ?n)"
      using decimal_digit_printable by (simp_all add: show_int_def)
    then show ?thesis using that by (metis append.assoc)
  qed
  show "show_int i \<noteq> []" using c by simp
  show "trim (show_int i) = show_int i"
    using no_space_before_printable [OF c(2), of cs] no_space_after_snoc [OF d(2), of xs]
    by (intro trim_clean) (simp only: c(1), simp only: d(1))
qed

lemma optional_code_show:
  "- (2 ^ 31) \<le> i \<Longrightarrow> i < 2 ^ 31 \<Longrightarrow> optional_code why (show_int i) = Inr (Some i)"
  by (simp add: optional_code_def show_int_clean parse_signed_show)

subsection \<open>The form\<close>

fun action_in_range :: "page_action option \<Rightarrow> bool" where
  "action_in_range (Some (FollowUpAt t)) = (- (2 ^ 63) \<le> t \<and> t < 2 ^ 63)"
| "action_in_range (Some (AppointmentAt t)) = (- (2 ^ 63) \<le> t \<and> t < 2 ^ 63)"
| "action_in_range _ = True"

definition codes_in_range :: "web_ticket \<Rightarrow> bool" where
  "codes_in_range t \<longleftrightarrow> - (2 ^ 31) \<le> wt_priority t \<and> wt_priority t < 2 ^ 31
     \<and> - (2 ^ 31) \<le> wt_status t \<and> wt_status t < 2 ^ 31 \<and> action_in_range (wt_next_action t)"

fun input_of :: "page_action \<Rightarrow> action_input" where
  "input_of (FollowUpAt t) = FollowUpInput t"
| "input_of (AppointmentAt t) = AppointmentInput t"
| "input_of (AutoCloseOn schedule) = AutoCloseInput schedule"

text \<open>The update that writes a ticket's own values.\<close>

definition payload_of :: "web_ticket \<Rightarrow> action_input option \<Rightarrow> web_payload" where
  "payload_of t action = UpdateTicketPayload (unless_blank (wt_title t)) (unless_blank (wt_project t))
     (Some (wt_priority t)) (Some (wt_status t)) action"

definition form_shows :: "web_ticket \<Rightarrow> console \<Rightarrow> bool" where
  "form_shows t co \<longleftrightarrow> co_update_title co = wt_title t \<and> co_update_project co = wt_project t
     \<and> co_update_priority co = show_int (wt_priority t) \<and> co_update_status co = show_int (wt_status t)"

lemma save_spec:
  assumes "co_token co = Some token" and "co_ticket co = Some current" and "form_shows t co" and "codes_in_range t"
    and "can_transition (wt_status current) (wt_status t)" and "action_of_form co = Inr action"
  shows "on_update_ticket co = start (UpdateTicketJob token (wt_ticket_id current) (payload_of t action)) co"
  using assms
  by (simp add: on_update_ticket_def form_shows_def codes_in_range_def optional_code_show illegal_status_def payload_of_def)

lemma action_of_form_cong:
  "co_na_kind co = co_na_kind co' \<Longrightarrow> co_na_at co = co_na_at co' \<Longrightarrow> co_na_schedule co = co_na_schedule co'
   \<Longrightarrow> action_of_form co = action_of_form co'"
  by (simp add: action_of_form_def split: option.split)

lemma loaded [simp]:
  "form_shows t (load_into_form t co)" "co_ticket (load_into_form t co) = Some t"
  "co_token (load_into_form t co) = co_token co" "co_tickets (load_into_form t co) = co_tickets co"
  by (auto simp: load_into_form_def form_shows_def Let_def split: option.splits page_action.splits)

lemma action_of_loaded:
  assumes "codes_in_range t"
  shows "action_of_form (load_into_form t co) = Inr (map_option input_of (wt_next_action t))"
proof (cases "wt_next_action t")
  case None
  then show ?thesis by (simp add: load_into_form_def action_of_form_def Let_def)
next
  case (Some a)
  with assms have "action_in_range (Some a)" by (simp add: codes_in_range_def)
  with Some show ?thesis
    by (cases a) (simp_all add: load_into_form_def action_of_form_def Let_def show_int_clean parse_signed_show)
qed

lemma same_status [simp]: "can_transition v v"
  by (simp add: can_transition_def)

lemma action_of_edited_status [simp]: "action_of_form (co\<lparr>co_update_status := v\<rparr>) = action_of_form co"
  by (rule action_of_form_cong) simp_all

lemma saved_form:
  assumes "codes_in_range t" and "co_token co = Some token"
  shows "snd (on_update_ticket (load_into_form t co))
           = Some (UpdateTicketJob token (wt_ticket_id t) (payload_of t (map_option input_of (wt_next_action t))))"
    and "v \<in> set (update_status_options (load_into_form t co)) \<Longrightarrow>
         snd (on_update_ticket (form_edited (UpdateStatus (show_int v)) (load_into_form t co)))
           = Some (UpdateTicketJob token (wt_ticket_id t)
               (payload_of (t\<lparr>wt_status := v\<rparr>) (map_option input_of (wt_next_action t))))"
    and "\<not> can_transition (wt_status t) v \<Longrightarrow> - (2 ^ 31) \<le> v \<Longrightarrow> v < 2 ^ 31 \<Longrightarrow>
         on_update_ticket (form_edited (UpdateStatus (show_int v)) (load_into_form t co))
           = refuse (illegal_transition (wt_status t) v) (form_edited (UpdateStatus (show_int v)) (load_into_form t co))"
    and "co_token co' = None \<Longrightarrow> snd (clicked c co') = None"
proof -
  show "snd (on_update_ticket (load_into_form t co))
          = Some (UpdateTicketJob token (wt_ticket_id t) (payload_of t (map_option input_of (wt_next_action t))))"
    using assms by (subst save_spec [where t = t]) (simp_all add: action_of_loaded start_def)
  show "snd (on_update_ticket (form_edited (UpdateStatus (show_int v)) (load_into_form t co)))
           = Some (UpdateTicketJob token (wt_ticket_id t)
               (payload_of (t\<lparr>wt_status := v\<rparr>) (map_option input_of (wt_next_action t))))"
    if "v \<in> set (update_status_options (load_into_form t co))"
  proof -
    have v: "v = wt_status t \<or> v \<in> set (web_allowed_transitions (wt_status t))"
      using that by (simp add: update_status_options_def)
    then have step: "can_transition (wt_status t) v" by (auto simp: can_transition_def)
    have "- (2 ^ 31) \<le> v \<and> v < 2 ^ 31"
      using v assms(1) by (auto simp: web_allowed_transitions_def codes_in_range_def split: if_splits)
    then have range: "codes_in_range (t\<lparr>wt_status := v\<rparr>)" using assms(1) by (simp add: codes_in_range_def)
    have form: "form_shows (t\<lparr>wt_status := v\<rparr>) (form_edited (UpdateStatus (show_int v)) (load_into_form t co))"
      using loaded(1) [of t co] by (simp add: form_shows_def)
    show ?thesis
      using assms step by (subst save_spec [OF _ _ form range]) (simp_all add: action_of_loaded start_def)
  qed
  show "on_update_ticket (form_edited (UpdateStatus (show_int v)) (load_into_form t co))
           = refuse (illegal_transition (wt_status t) v) (form_edited (UpdateStatus (show_int v)) (load_into_form t co))"
    if "\<not> can_transition (wt_status t) v" "- (2 ^ 31) \<le> v" "v < 2 ^ 31"
    using that assms loaded(1) [of t co]
    by (simp add: on_update_ticket_def form_shows_def codes_in_range_def optional_code_show illegal_status_def)
  show "snd (clicked c co') = None" if "co_token co' = None"
    using that by (cases c) (simp_all add: on_lookup_def on_search_def on_create_ticket_def on_update_ticket_def
        on_create_user_def refuse_def)
qed

text \<open>C17: what the update form sends. Loading a ticket and saving it untouched asks the gateway to
  write the ticket's own title, project, priority, status and next action to that ticket (a blank
  title or project is left out). Choosing another status sends the same update with that status,
  for every status the form offers, and no request at all, only a message naming both, when the
  lifecycle does not allow the step. Without a token nothing is ever sent.
\<close>

theorem saved_as_shown:
  assumes "codes_in_range t" and "co_token co = Some token"
  shows "snd (on_update_ticket (load_into_form t co))
       = Some (UpdateTicketJob token (wt_ticket_id t) (payload_of t (map_option input_of (wt_next_action t))))
   \<and> (\<forall>v \<in> set (update_status_options (load_into_form t co)).
         snd (on_update_ticket (form_edited (UpdateStatus (show_int v)) (load_into_form t co)))
           = Some (UpdateTicketJob token (wt_ticket_id t)
               (payload_of (t\<lparr>wt_status := v\<rparr>) (map_option input_of (wt_next_action t)))))
   \<and> (\<not> can_transition (wt_status t) v \<and> - (2 ^ 31) \<le> v \<and> v < 2 ^ 31 \<longrightarrow>
         on_update_ticket (form_edited (UpdateStatus (show_int v)) (load_into_form t co))
           = refuse (illegal_transition (wt_status t) v) (form_edited (UpdateStatus (show_int v)) (load_into_form t co)))
   \<and> (co_token co' = None \<longrightarrow> snd (clicked c co') = None)"
  using saved_form [OF assms] by blast

subsection \<open>Every interleaving\<close>

fun job_token :: "job \<Rightarrow> string" where
  "job_token (Fetch token _) = token"
| "job_token (Search token _) = token"
| "job_token (CreateTicketJob token _) = token"
| "job_token (UpdateTicketJob token _ _) = token"
| "job_token (CreateUserJob token _) = token"

definition i32_range :: "int \<Rightarrow> bool" where
  "i32_range n \<longleftrightarrow> - (2 ^ 31) \<le> n \<and> n < 2 ^ 31"

fun update_sound :: "job \<Rightarrow> bool" where
  "update_sound (UpdateTicketJob _ _ (UpdateTicketPayload title project priority status _)) \<longleftrightarrow>
     (\<forall>x. title = Some x \<longrightarrow> trim x \<noteq> []) \<and> (\<forall>x. project = Some x \<longrightarrow> trim x \<noteq> [])
     \<and> (\<forall>n. priority = Some n \<or> status = Some n \<longrightarrow> i32_range n)"
| "update_sound (UpdateTicketJob _ _ _) \<longleftrightarrow> False"
| "update_sound _ \<longleftrightarrow> True"

text \<open>The storage of the page against the storage it was opened with.\<close>

definition storage_ok :: "'s page \<Rightarrow> 's page_session \<Rightarrow> bool" where
  "storage_ok pg s \<longleftrightarrow> (case fst pg of
       None \<Rightarrow> fst (se_page s) = None
     | Some old \<Rightarrow> \<exists>new. fst (se_page s) = Some new
         \<and> (\<forall>k. k \<noteq> THEME_KEY \<longrightarrow> new k = (if k = TOKEN_KEY \<and> \<not> se_mounted s then None else old k))
         \<and> co_theme (se_console s) = current_theme (fst (se_page s), se_document s))"

definition session_ok :: "'s page \<Rightarrow> 's page_session \<Rightarrow> bool" where
  "session_ok pg s \<longleftrightarrow> co_token (se_console s) = get_token pg \<and> storage_ok pg s
     \<and> co_theme (se_console s) \<in> {DARK, LIGHT}
     \<and> (\<forall>j \<in> set (se_sent s). get_token pg = Some (job_token j) \<and> update_sound j)
     \<and> (get_token pg = None \<longrightarrow> se_sent s = [] \<and> se_answers s = [] \<and> co_tickets (se_console s) = []
          \<and> co_ticket (se_console s) = None)"

lemma edited_token [simp]:
  "co_token (form_edited v co) = co_token co" "co_tickets (form_edited v co) = co_tickets co" "co_ticket (form_edited v co) = co_ticket co"
  "co_theme (form_edited v co) = co_theme co"
  by (cases v; simp)+

lemma loaded_theme [simp]: "co_theme (load_into_form t co) = co_theme co"
  by (simp add: load_into_form_def Let_def split: option.split page_action.split)

lemma finish_token [simp]: "co_token (finish ans co) = co_token co" "co_theme (finish ans co) = co_theme co"
  by (cases ans; simp)+

lemma parse_signed_range: "parse_signed w s = Some i \<Longrightarrow> - (2 ^ (w - 1)) \<le> i \<and> i < 2 ^ (w - 1)"
  by (auto simp: parse_signed_def Let_def split: list.splits if_splits option.splits)

lemma optional_code_range: "optional_code why raw = Inr (Some i) \<Longrightarrow> i32_range i"
  using parse_signed_range [of 32 raw i] by (auto simp: optional_code_def i32_range_def split: if_splits option.splits)

lemmas handlers = on_lookup_def on_search_def on_create_ticket_def on_update_ticket_def on_create_user_def
  refuse_def start_def

lemma clicked_signals:
  assumes "clicked c co = (co', started)"
  shows "co_token co' = co_token co" "co_tickets co' = co_tickets co" "co_ticket co' = co_ticket co"
    "co_theme co' = co_theme co"
  using assms by (cases c; auto simp: handlers split: option.splits sum.splits)+

lemma clicked_job:
  assumes "clicked c co = (co', Some j)"
  shows "co_token co = Some (job_token j) \<and> update_sound j"
  using assms
  by (cases c) (auto simp: handlers unless_blank_def intro: optional_code_range split: option.splits sum.splits if_splits)

lemma run_job_store: "run_job W j pg = (ans, pg') \<Longrightarrow> fst pg' = fst pg"
  by (cases j)
    (auto simp: web_fetch_ticket_def web_list_tickets_def web_create_ticket_def web_update_ticket_def
      web_create_user_def answered_def send_json_def send_request_def split: prod.splits sum.splits if_splits)

lemma set_remove_nth: "set (remove_nth i xs) \<subseteq> set xs"
  by (auto simp: remove_nth_def dest: in_set_takeD in_set_dropD)

lemma keys_differ: "THEME_KEY \<noteq> TOKEN_KEY"
  by (simp add: THEME_KEY_def TOKEN_KEY_def)

lemma theme_name: "current_theme st \<in> {DARK, LIGHT}"
  by (simp add: current_theme_def split: option.split)

text \<open>A step that leaves the page, the theme and the mounting as they are.\<close>

lemma storage_same:
  assumes "fst (se_page s') = fst (se_page s)" and "se_mounted s' = se_mounted s" and "se_document s' = se_document s"
    and "co_theme (se_console s') = co_theme (se_console s)"
  shows "storage_ok pg s' = storage_ok pg s"
  by (simp only: storage_ok_def assms)

lemma storage_toggled:
  assumes "on_toggle_theme (se_console s) (fst (se_page s), se_document s) = (co, (storage, document))"
    and "storage_ok pg s"
  shows "storage_ok pg (s\<lparr>se_console := co, se_page := (storage, snd (se_page s)), se_document := document\<rparr>)"
    and "co_theme co \<in> {DARK, LIGHT}" and "co_token co = co_token (se_console s)"
    and "co_tickets co = co_tickets (se_console s)" and "co_ticket co = co_ticket (se_console s)"
proof -
  let ?new = "if current_theme (fst (se_page s), se_document s) = DARK then LIGHT else DARK"
  have co: "co = (se_console s)\<lparr>co_theme := ?new\<rparr>"
    and st: "storage = map_option (\<lambda>st. st(THEME_KEY \<mapsto> ?new)) (fst (se_page s))"
    using assms(1) by (auto simp: on_toggle_theme_def toggle_theme_def set_theme_def apply_theme_def Let_def)
  show "co_theme co \<in> {DARK, LIGHT}" "co_token co = co_token (se_console s)"
    "co_tickets co = co_tickets (se_console s)" "co_ticket co = co_ticket (se_console s)" by (simp_all add: co)
  show "storage_ok pg (s\<lparr>se_console := co, se_page := (storage, snd (se_page s)), se_document := document\<rparr>)"
    using assms(2) by (auto simp: storage_ok_def co st current_theme_def split: option.splits)
qed

lemma storage_signed_out:
  assumes "storage_ok pg s"
  shows "storage_ok pg (s\<lparr>se_mounted := False, se_page := on_sign_out (se_page s)\<rparr>)"
  using assms keys_differ
  by (auto simp: storage_ok_def on_sign_out_def clear_token_def current_theme_def split: option.splits)

lemma session_step: "console_step W s s' \<Longrightarrow> session_ok pg s \<Longrightarrow> session_ok pg s'"
proof (induction rule: console_step.induct)
  case (Edit s v)
  then show ?case
    using storage_same [of "s\<lparr>se_console := form_edited v (se_console s)\<rparr>" s pg] by (simp add: session_ok_def)
next
  case (LoadRow s t)
  then show ?case
    using storage_same [of "s\<lparr>se_console := load_into_form t (se_console s)\<rparr>" s pg] by (auto simp: session_ok_def)
next
  case (Click s c co started)
  let ?s = "s\<lparr>se_console := co, se_sent := se_sent s @ (case started of Some j \<Rightarrow> [j] | None \<Rightarrow> [])\<rparr>"
  have "storage_ok pg ?s = storage_ok pg s" by (rule storage_same) (simp_all add: clicked_signals(4) [OF Click(2)])
  then show ?case
    using Click(3) clicked_signals [OF Click(2)] Click(2) clicked_job [of c "se_console s" co]
    by (cases started) (auto simp: session_ok_def dest: sym [of "Some _"])
next
  case (ToggleTheme s co storage document)
  then show ?case using storage_toggled [OF ToggleTheme(2), of pg] by (simp add: session_ok_def)
next
  case (SignOut s)
  then show ?case using storage_signed_out [of pg s] by (simp add: session_ok_def)
next
  case (Serve i s ans pg')
  let ?s = "s\<lparr>se_sent := remove_nth i (se_sent s), se_answers := se_answers s @ [ans], se_page := pg'\<rparr>"
  have "storage_ok pg ?s = storage_ok pg s" by (rule storage_same) (simp_all add: run_job_store [OF Serve(2)])
  then show ?case
    using Serve(1,3) set_remove_nth [of i "se_sent s"] by (auto simp: session_ok_def)
next
  case (Answer i s)
  let ?s = "s\<lparr>se_console := (if se_mounted s then finish (se_answers s ! i) (se_console s) else se_console s),
       se_answers := remove_nth i (se_answers s)\<rparr>"
  have "storage_ok pg ?s = storage_ok pg s" by (rule storage_same) simp_all
  then show ?case using Answer by (auto simp: session_ok_def remove_nth_def)
qed

text \<open>Once signed out a page starts nothing.\<close>

lemma signed_out_steps:
  assumes "(console_step W)\<^sup>*\<^sup>* s s'" and "\<not> se_mounted s"
  shows "\<not> se_mounted s' \<and> set (se_sent s') \<subseteq> set (se_sent s) \<and> se_console s' = se_console s"
  using assms(1)
proof (induction rule: rtranclp_induct)
  case (step s1 s2)
  from step.hyps(2) step.IH show ?case using set_remove_nth by cases fastforce+
qed (simp add: assms(2))

text \<open>C18: whatever the user clicks and types, and in whatever order requests are served and answered,
  the console works with the token the page was opened with: every request on its way carries it,
  and nothing is sent, shown or loaded without one. Every update on its way leaves out blank titles
  and projects and has codes in the range of 32 bits. Of the browser's storage only two entries
  ever change: the theme, whose label on the page is the stored one, and the token, which signing
  out removes. From then on the page starts no request and shows nothing new, and only those
  that were on their way still reach the server.
\<close>

theorem console_sends_soundly:
  assumes "console_reachable W pg s"
  shows "session_ok pg s
     \<and> (\<not> se_mounted s \<longrightarrow> get_token (se_page s) = None
          \<and> (\<forall>s'. (console_step W)\<^sup>*\<^sup>* s s' \<longrightarrow> get_token (se_page s') = None
               \<and> set (se_sent s') \<subseteq> set (se_sent s) \<and> se_console s' = se_console s))"
proof -
  from assms obtain document where "(console_step W)\<^sup>*\<^sup>* (opened document pg) s" by (auto simp: console_reachable_def)
  then have ok: "session_ok pg s"
  proof (induction rule: rtranclp_induct)
    case base
    then show ?case using theme_name by (auto simp: session_ok_def storage_ok_def opened_def mount_def split: option.split)
  next
    case (step s s')
    then show ?case using session_step by blast
  qed
  have later: "session_ok pg s'" if "(console_step W)\<^sup>*\<^sup>* s s'" for s'
    using that by (induction rule: rtranclp_induct) (use ok session_step in blast)+
  have none: "get_token (se_page s') = None" if "session_ok pg s'" "\<not> se_mounted s'" for s'
    using that keys_differ by (auto simp: session_ok_def storage_ok_def get_token_def split: option.splits)
  show ?thesis using ok later none signed_out_steps by metis
qed

theorem console_sends_soundly_witness:
  "\<exists>s. console_reachable \<lparr>wb_send = \<lambda>_ s. (Inl ''offline'', s), wb_json = \<lambda>_. Inr [], wb_login_response = Inr,
      wb_ticket = Inl, wb_tickets = Inl\<rparr> (Some [TOKEN_KEY \<mapsto> ''t''], ()) s \<and> \<not> se_mounted s
     \<and> session_ok (Some [TOKEN_KEY \<mapsto> ''t''], ()) s \<and> get_token (se_page s) = None"
proof -
  let ?W = "\<lparr>wb_send = \<lambda>_ s. (Inl ''offline'', s), wb_json = \<lambda>_. Inr [], wb_login_response = Inr,
      wb_ticket = Inl, wb_tickets = Inl\<rparr> :: unit browser"
  let ?s = "opened (Some None) (Some [TOKEN_KEY \<mapsto> ''t''], ())"
  let ?out = "?s\<lparr>se_mounted := False, se_page := on_sign_out (se_page ?s)\<rparr>"
  have "console_step ?W ?s ?out" by (rule console_step.SignOut) (simp add: opened_def)
  then have reach: "console_reachable ?W (Some [TOKEN_KEY \<mapsto> ''t''], ()) ?out" unfolding console_reachable_def by blast
  have "\<not> se_mounted ?out" by simp
  with console_sends_soundly [OF reach] reach show ?thesis by blast
qed

subsection \<open>The form and the ticket part\<close>

lemma reachable_step:
  "console_reachable W pg s \<Longrightarrow> console_step W s s' \<Longrightarrow> console_reachable W pg s'"
  unfolding console_reachable_def by (blast intro: rtranclp.rtrancl_into_rtrancl)

text \<open>A page with the given requests under way and no answer waiting.\<close>

definition waiting :: "string option option \<Rightarrow> console \<Rightarrow> job list \<Rightarrow> 's page \<Rightarrow> 's page_session" where
  "waiting doc co jobs pg = \<lparr>se_console = co, se_mounted = True, se_sent = jobs, se_answers = [], se_page = pg,
     se_document = doc\<rparr>"

lemma waiting_sent [simp]: "se_sent (waiting doc co jobs pg) = jobs" "se_mounted (waiting doc co jobs pg)"
  by (simp_all add: waiting_def)

lemma reachable_edit:
  "console_reachable W pg (waiting doc co jobs p) \<Longrightarrow> console_reachable W pg (waiting doc (form_edited v co) jobs p)"
  using reachable_step [OF _ console_step.Edit [of "waiting doc co jobs p" W v]] by (simp add: waiting_def)

lemma reachable_load:
  "console_reachable W pg (waiting doc co jobs p) \<Longrightarrow> t \<in> set (co_tickets co) \<Longrightarrow>
     console_reachable W pg (waiting doc (load_into_form t co) jobs p)"
  using reachable_step [OF _ console_step.LoadRow [of "waiting doc co jobs p" t W]] by (simp add: waiting_def)

text \<open>The two halves of a request on an idle page: it is started, then served and answered.\<close>

lemma reachable_click:
  "console_reachable W pg (waiting doc co [] p) \<Longrightarrow> clicked c co = (co', Some j) \<Longrightarrow>
     console_reachable W pg (waiting doc co' [j] p)"
  using reachable_step [OF _ console_step.Click [of "waiting doc co [] p" c co' "Some j" W]] by (simp add: waiting_def)

lemma reachable_answer:
  assumes "console_reachable W pg (waiting doc co [j] p)" and "run_job W j p = (ans, p')"
  shows "console_reachable W pg (waiting doc (finish ans co) [] p')"
proof -
  let ?served = "\<lparr>se_console = co, se_mounted = True, se_sent = [], se_answers = [ans], se_page = p', se_document = doc\<rparr>"
  have "console_step W (waiting doc co [j] p) ?served"
    using console_step.Serve [of 0 "waiting doc co [j] p" W ans p'] assms(2) by (simp add: waiting_def remove_nth_def)
  note reachable_step [OF assms(1) this]
  moreover have "console_step W ?served (waiting doc (finish ans co) [] p')"
    using console_step.Answer [of 0 ?served W] by (simp add: waiting_def remove_nth_def)
  ultimately show ?thesis by (rule reachable_step)
qed

lemma form_kept:
  "form_shows t (co\<lparr>co_message := m, co_ticket := x\<rparr>) = form_shows t co"
  "action_of_form (co\<lparr>co_message := m, co_ticket := x\<rparr>) = action_of_form co"
  by (simp add: form_shows_def) (rule action_of_form_cong; simp)

lemma form_and_ticket:
  assumes "console_reachable W pg (waiting doc co [] p)" and "co_token co = Some token"
    and "a \<in> set (co_tickets co)" and "codes_in_range a"
  shows "b \<in> set (co_tickets co) \<Longrightarrow> codes_in_range b \<Longrightarrow>
       run_job W (UpdateTicketJob token (wt_ticket_id a) (payload_of a (map_option input_of (wt_next_action a)))) p
         = (Updated a', p1) \<Longrightarrow> wt_ticket_id a' = wt_ticket_id a \<Longrightarrow> can_transition (wt_status a') (wt_status b) \<Longrightarrow>
       \<exists>s'. console_reachable W pg s'
         \<and> se_sent s' = [UpdateTicketJob token (wt_ticket_id a) (payload_of b (map_option input_of (wt_next_action b)))]"
    and "wt_next_action a = Some action \<Longrightarrow> codes_in_range b \<Longrightarrow>
       run_job W (CreateTicketJob token (CreateTicketPayload title project account 1 1)) p = (Created b, p2) \<Longrightarrow>
       \<exists>s'. console_reachable W pg s' \<and> se_sent s' = [UpdateTicketJob token (wt_ticket_id b) (payload_of b (Some (input_of action)))]"
proof -
  let ?start = "\<lambda>co. co\<lparr>co_error := [], co_message := []\<rparr>"
  have saved: "\<exists>s'. console_reachable W pg s' \<and> se_sent s' = [job]"
    if "console_reachable W pg (waiting doc co' [] p')" "on_update_ticket co' = start job co'" for co' p' job
    using reachable_click [OF that(1), of SaveChanges] that(2) waiting_sent by (fastforce simp: start_def)
  show "\<exists>s'. console_reachable W pg s'
         \<and> se_sent s' = [UpdateTicketJob token (wt_ticket_id a) (payload_of b (map_option input_of (wt_next_action b)))]"
    if b: "b \<in> set (co_tickets co)" "codes_in_range b"
      and run: "run_job W (UpdateTicketJob token (wt_ticket_id a) (payload_of a (map_option input_of (wt_next_action a)))) p
         = (Updated a', p1)" "wt_ticket_id a' = wt_ticket_id a" "can_transition (wt_status a') (wt_status b)"
  proof -
    let ?job = "UpdateTicketJob token (wt_ticket_id a) (payload_of a (map_option input_of (wt_next_action a)))"
    let ?c1 = "?start (load_into_form a co)"
    let ?c2 = "finish (Updated a') (load_into_form b ?c1)"
    have "on_update_ticket (load_into_form a co) = (?c1, Some ?job)"
      using assms(2,4) by (subst save_spec [where t = a]) (simp_all add: action_of_loaded start_def)
    then have "console_reachable W pg (waiting doc ?c1 [?job] p)"
      using reachable_click [OF reachable_load [OF assms(1,3)], of SaveChanges] by simp
    then have "console_reachable W pg (waiting doc (load_into_form b ?c1) [?job] p)"
      by (rule reachable_load) (simp add: b(1))
    then have "console_reachable W pg (waiting doc ?c2 [] p1)" using reachable_answer run(1) by blast
    moreover have "on_update_ticket ?c2 = start (UpdateTicketJob token (wt_ticket_id a')
        (payload_of b (map_option input_of (wt_next_action b)))) ?c2"
      by (rule save_spec) (use assms(2) b(2) run(3) in \<open>simp_all add: form_kept action_of_loaded\<close>)
    ultimately show ?thesis using saved run(2) by simp
  qed
  show "\<exists>s'. console_reachable W pg s' \<and> se_sent s' = [UpdateTicketJob token (wt_ticket_id b) (payload_of b (Some (input_of action)))]"
    if act: "wt_next_action a = Some action" and b: "codes_in_range b"
      and run: "run_job W (CreateTicketJob token (CreateTicketPayload title project account 1 1)) p = (Created b, p2)"
  proof -
    let ?c0 = "form_edited (NewTitle title) (load_into_form a co)"
    let ?c1 = "form_edited (NewPriority ''1'') (form_edited (NewAccountUuid account) (form_edited (NewProject project) ?c0))"
    let ?job = "CreateTicketJob token (CreateTicketPayload title project account 1 1)"
    let ?c2 = "finish (Created b) (?start ?c1)"
    have parse: "parse_signed 32 ''1'' = Some 1" by (simp add: parse_signed_def)
    have click: "clicked CreateATicket ?c1 = (?start ?c1, Some ?job)"
      using assms(2) parse by (simp add: on_create_ticket_def start_def)
    have "console_reachable W pg (waiting doc ?c1 [] p)"
      by (intro reachable_edit reachable_load [OF assms(1,3)])
    then have "console_reachable W pg (waiting doc (?start ?c1) [?job] p)" using click by (rule reachable_click)
    then have "console_reachable W pg (waiting doc ?c2 [] p2)" using run by (rule reachable_answer)
    moreover have "action_of_form ?c2 = action_of_form (load_into_form a co)" by (rule action_of_form_cong) simp_all
    then have "on_update_ticket ?c2 = start (UpdateTicketJob token (wt_ticket_id b) (payload_of b (Some (input_of action)))) ?c2"
      using assms(2,4) b act by (intro save_spec [where t = b]) (simp_all add: form_shows_def action_of_loaded)
    ultimately show ?thesis using saved by blast
  qed
qed
text \<open>C16: what is saved can be something the user never saw together. While the answer to a save of one
  ticket is outstanding, the user opens another one; the late answer makes the first ticket the
  loaded one again but leaves the form as it is, and the next save writes the second ticket's
  title, project, priority, status and next action over the first. And a ticket just created takes
  over the next action that the form shows for the ticket loaded before it: saving the new ticket
  schedules it there too, whatever title, project and account the user typed for it.
\<close>

theorem form_and_ticket_part:
  assumes "console_reachable W pg (waiting doc co [] p)" and "co_token co = Some token"
    and "a \<in> set (co_tickets co)" and "codes_in_range a" and "codes_in_range b"
  shows "(b \<in> set (co_tickets co) \<and> wt_ticket_id a' = wt_ticket_id a \<and> can_transition (wt_status a') (wt_status b)
       \<and> run_job W (UpdateTicketJob token (wt_ticket_id a) (payload_of a (map_option input_of (wt_next_action a)))) p
          = (Updated a', p1) \<longrightarrow>
       (\<exists>s'. console_reachable W pg s'
         \<and> se_sent s' = [UpdateTicketJob token (wt_ticket_id a) (payload_of b (map_option input_of (wt_next_action b)))]))
   \<and> (wt_next_action a = Some action \<and> run_job W (CreateTicketJob token (CreateTicketPayload title project account 1 1)) p = (Created b, p2) \<longrightarrow>
       (\<exists>s'. console_reachable W pg s'
         \<and> se_sent s' = [UpdateTicketJob token (wt_ticket_id b) (payload_of b (Some (input_of action)))]))"
  using form_and_ticket [OF assms(1-4)] assms(5) by blast


text \<open>A gateway with two tickets that answers every request; a ticket it creates has the title of the request.\<close>

definition sample_ticket :: "u64 \<Rightarrow> web_ticket" where
  "sample_ticket i = \<lparr>wt_ticket_id = i, wt_title = ''t'', wt_project = ''p'', wt_priority = 1, wt_status = 0,
     wt_next_action = Some (FollowUpAt 60)\<rparr>"

definition sample_created :: "string \<Rightarrow> web_ticket" where
  "sample_created title = \<lparr>wt_ticket_id = 3, wt_title = title, wt_project = ''p'', wt_priority = 1, wt_status = 0,
     wt_next_action = None\<rparr>"

definition sample_browser :: "unit browser" where
  "sample_browser = \<lparr>wb_send = \<lambda>req s. (Inr \<lparr>ws_ok = True,
       ws_text = Inr (case wq_body req of Some body \<Rightarrow> if wq_method req = HttpPost then ''+'' @ body else [] | None \<Rightarrow> [])\<rparr>, s),
     wb_json = \<lambda>payload. Inr (case payload of CreateTicketPayload title _ _ _ _ \<Rightarrow> title | _ \<Rightarrow> []), wb_login_response = Inr,
     wb_ticket = \<lambda>answer. Inr (if answer = [] then sample_ticket 1 else sample_created (tl answer)),
     wb_tickets = \<lambda>_. Inr [sample_ticket 1, sample_ticket 2]\<rparr>"

definition sample_page :: "unit page" where
  "sample_page = (Some [TOKEN_KEY \<mapsto> ''t''], ())"

lemma sample_jobs:
  "run_job sample_browser (Search token f) sample_page = (Listed [sample_ticket 1, sample_ticket 2], sample_page)"
  "run_job sample_browser (CreateTicketJob token (CreateTicketPayload title project account 1 n)) sample_page
     = (Created (sample_created title), sample_page)"
  "run_job sample_browser (UpdateTicketJob token i (UpdateTicketPayload a b c d e)) sample_page = (Updated (sample_ticket 1), sample_page)"
  by (simp_all add: web_list_tickets_def web_create_ticket_def web_update_ticket_def answered_def send_request_def
      send_json_def sample_browser_def sample_page_def read_json_def)

lemma sample_searched:
  "\<exists>co. console_reachable sample_browser sample_page (waiting doc co [] sample_page) \<and> co_token co = Some ''t''
     \<and> co_tickets co = [sample_ticket 1, sample_ticket 2]"
proof -
  let ?co = "mount (Some ''t'') (current_theme (fst sample_page, doc))"
  have "console_reachable sample_browser sample_page (waiting doc ?co [] sample_page)"
    unfolding console_reachable_def
    by (rule exI [of _ doc]) (simp add: opened_def waiting_def sample_page_def get_token_def)
  moreover have token: "co_token ?co = Some ''t''" by (simp add: mount_def)
  then have "clicked SearchTickets ?co = (?co\<lparr>co_error := [], co_message := []\<rparr>, Some (Search ''t'' (search_filter ?co)))"
    by (simp add: on_search_def start_def)
  ultimately have "console_reachable sample_browser sample_page
      (waiting doc (?co\<lparr>co_error := [], co_message := []\<rparr>) [Search ''t'' (search_filter ?co)] sample_page)"
    by (rule reachable_click)
  from reachable_answer [OF this sample_jobs(1)] token show ?thesis
    by (intro exI [of _ "finish (Listed [sample_ticket 1, sample_ticket 2]) (?co\<lparr>co_error := [], co_message := []\<rparr>)"]) simp
qed

theorem form_and_ticket_part_witness:
  "(\<exists>s'. console_reachable sample_browser sample_page s'
     \<and> se_sent s' = [UpdateTicketJob ''t'' 1 (payload_of (sample_ticket 2) (Some (FollowUpInput 60)))])
   \<and> (\<exists>s'. console_reachable sample_browser sample_page s'
     \<and> se_sent s' = [UpdateTicketJob ''t'' 3 (payload_of (sample_created ''new'') (Some (FollowUpInput 60)))])"
proof -
  obtain co where co: "console_reachable sample_browser sample_page (waiting (Some None) co [] sample_page)" "co_token co = Some ''t''"
      "co_tickets co = [sample_ticket 1, sample_ticket 2]"
    using sample_searched by blast
  have range: "codes_in_range (sample_ticket i)" "codes_in_range (sample_created title)" for i title
    by (simp_all add: codes_in_range_def sample_ticket_def sample_created_def)
  have listed: "sample_ticket 1 \<in> set (co_tickets co)" "sample_ticket 2 \<in> set (co_tickets co)" by (simp_all add: co(3))
  have tickets: "wt_ticket_id (sample_ticket i) = i" "wt_status (sample_ticket i) = 0"
      "wt_next_action (sample_ticket i) = Some (FollowUpAt 60)" "wt_ticket_id (sample_created title) = 3" for i title
    by (simp_all add: sample_ticket_def sample_created_def)
  note part = form_and_ticket_part [OF co(1,2) listed(1) range(1)]
  have "\<exists>s'. console_reachable sample_browser sample_page s'
      \<and> se_sent s' = [UpdateTicketJob ''t'' 1 (payload_of (sample_ticket 2) (Some (FollowUpInput 60)))]"
    using conjunct1 [OF part [OF range(1) [of 2], where a' = "sample_ticket 1" and ?p1.0 = sample_page]] listed(2) tickets
    by (simp add: payload_of_def sample_jobs(3) del: run_job.simps)
  moreover have "\<exists>s'. console_reachable sample_browser sample_page s'
      \<and> se_sent s' = [UpdateTicketJob ''t'' 3 (payload_of (sample_created ''new'') (Some (FollowUpInput 60)))]"
    using conjunct2 [OF part [OF range(2) [of "''new''"], where action = "FollowUpAt 60" and title = "''new''" and ?p2.0 = sample_page]]
      tickets
    by (simp add: sample_jobs(2) del: run_job.simps)
  ultimately show ?thesis by blast
qed

theorem saved_as_shown_witness:
  "snd (on_update_ticket (load_into_form (sample_ticket 2) (mount (Some ''t'') DARK)))
     = Some (UpdateTicketJob ''t'' 2 (payload_of (sample_ticket 2) (Some (FollowUpInput 60))))"
  using conjunct1 [OF saved_as_shown [of "sample_ticket 2" "mount (Some ''t'') DARK" "''t''"]]
  by (simp add: codes_in_range_def sample_ticket_def mount_def)

end
