(* ===== verification/Spec2Isabelle.thy ===== *)
theory Spec2Isabelle
  imports Lock_Store Lock_Wire Gateway_Flows Gateway_Types Discovery_Props Cluster_Start Chaos_Props Transport_Props
    Honeypot Web_Console_Props
begin

text \<open>
  InfoVulcan: the ticket path, the accounts, the gateway, the web console and the side services.

  The repository is a ticketing system made of Rust services that talk gRPC. A front end
  (\<open>web/\<close>) and a gateway (\<open>lbrp/\<close>) reach the custodian (\<open>custodian/\<close>), which owns tickets:
  it grants ticket locks through a Raft group of its own, seals each ticket with a
  post-quantum key and stores the sealed body, with a few plaintext index fields, in the
  database service (\<open>db/\<close>). The database service replicates its writes through a second Raft
  group, over a key-value store (sled) with hand-written secondary indexes. Raft itself is the
  library openraft; the services implement its storage and network traits. Two more services keep
  the accounts (\<open>admin/\<close>) and check logins (\<open>auth/\<close>) over the same database. Beside them run a
  fault injector (\<open>chaos/\<close>) and a decoy (\<open>honeypot/\<close>); \<open>proto/\<close> protects the connections. This
  development models the path from the gateway's HTTP requests to the trees of the store, the
  logic of the browser's console in front of it, and what a service does with its keys, peers and
  certificates when it starts.

  Layers, from the bottom, with the theory that models each part:

  \<^item> \<open>Prelude\<close>: machine types, fallible operations on a store (\<open>eff\<close>: a state in, a result
    and a state out, the state kept on failure), byte keys, UTF-8.
  \<^item> \<open>Ticket_Model\<close>, \<open>User_Model\<close>, \<open>Web_Domain\<close>: the data of \<open>shared/src/ticket.rs\<close>,
    \<open>shared/src/user.rs\<close> and \<open>web/src/domain.rs\<close>.
  \<^item> \<open>Sled_Api\<close>: sled as a record of operations with named laws over the contents of the trees
    (\<open>world\<close>), and an in-memory instance. \<open>Kv_Store\<close>: the key-value contract both services'
    storage layers give (locale \<open>kv_store\<close>).
  \<^item> \<open>Db_Storage\<close>: \<open>db/src/storage.rs\<close>. \<open>Db_Index\<close>, \<open>Db_Spec\<close>, \<open>Db_Query\<close>, \<open>Db_Props\<close>: rows and
    index entries, the specification \<open>db_spec\<close> (tickets, users and the last id as maps), the
    query, and the refinement of every log entry.
  \<^item> \<open>Raft_Types\<close>, \<open>Raft_Store\<close>, \<open>Raft_Log\<close>, \<open>Raft_Snapshot\<close>: the storage trait of
    \<open>db/src/raft.rs\<close>, once for both services over \<open>storage_ops\<close> and the serialisation
    \<open>raft_codec\<close>. \<open>Db_Raft\<close> and \<open>Db_Raft_Props\<close> are the database's instance,
    \<open>Lock_Raft\<close> and \<open>Lock_Store\<close> the custodian's (\<open>custodian/src/raft.rs\<close>).
  \<^item> \<open>Raft_Wire\<close>: the conversions of \<open>raft-rpc/src/lib.rs\<close>, the calls of \<open>db/src/network.rs\<close> and
    the handlers of \<open>db/src/raft_service.rs\<close>, over a transport and an engine. \<open>Raft_Network\<close>: the
    table of peers, the cached client and the snapshot transfer of the same file. \<open>Lock_Wire\<close>: the
    custodian's copies (\<open>custodian/src/network.rs\<close>, \<open>custodian/src/raft_service.rs\<close>).
  \<^item> \<open>Lock_Storage\<close>, \<open>Lock_Props\<close>, \<open>Lock_Safety\<close>: the lock table of
    \<open>custodian/src/storage.rs\<close> and its state machine, its specification \<open>lock_step\<close>, exclusion
    and expiry.
  \<^item> \<open>Db_Server\<close>, \<open>Db_Server_Props\<close>: the handlers of \<open>db/src/server.rs\<close> and what their client sees
    (locale \<open>db_leader\<close>).
  \<^item> \<open>Encryption\<close>: \<open>shared/src/encryption.rs\<close> over the primitives as parameters.
  \<^item> \<open>Custodian_Server\<close>: the handlers of \<open>custodian/src/server.rs\<close> and the client of
    \<open>custodian/src/db_client.rs\<close>. \<open>Ticket_Service\<close> states what the custodian relies on from its
    database (locale \<open>ticket_db\<close>) and derives it from \<open>db_leader\<close>; \<open>Custodian_Client\<close> proves the
    handlers over it (\<open>custodian_over\<close>); \<open>Custodian_Props\<close> adds the lock engine
    (\<open>lock_service\<close>) and the deployment of both services; \<open>Custodian_Run\<close> the step relation and its
    invariants; \<open>Custodian_Spec\<close> the contract seen from outside.
  \<^item> \<open>Account_Lib\<close>, \<open>Auth_Server\<close>, \<open>Admin_Server\<close>: the handlers of \<open>auth/src/server.rs\<close> and
    \<open>admin/src/server.rs\<close> over the raw requests of the database (locale \<open>raw_db\<close>). \<open>Account_Props\<close> reads
    the trees as profiles and logins and proves the handlers over them (\<open>account_store\<close>);
    \<open>Account_Run\<close> the listing and the changes of an account, \<open>Account_Sample\<close> the deployment and its
    step relation, \<open>Account_Spec\<close> what the users of the two services see.
  \<^item> \<open>Service_Registry\<close>, \<open>Discovery_Props\<close>: the registry of \<open>shared/src/discovery.rs\<close>, and how
    the gateway chooses, dials and reloads its endpoints (\<open>lbrp/src/discovery.rs\<close>, the start-up of
    \<open>lbrp/src/main.rs\<close>).
  \<^item> \<open>Gateway_Server\<close>, \<open>Gateway_Routes\<close>: the HTTP gateway, \<open>lbrp/src\<close>: error envelope, clients,
    token check, handlers and routing table, over a record of backends. \<open>Gateway_System\<close> gives the
    backends the handlers of the other services over one shared state and one database
    (\<open>system_backends\<close>) and proves what each request leaves alone; \<open>Gateway_Run\<close> is the step
    relation of HTTP requests and what they keep; \<open>Gateway_Spec\<close> and \<open>Gateway_Flows\<close> are the
    contract of single requests and of requests that build on one another; \<open>Gateway_Types\<close> types
    the answers.
  \<^item> \<open>Web_Client\<close>, \<open>Web_Console\<close>, \<open>Web_Console_Props\<close>: the browser's client (\<open>web/src/api.rs\<close>), the theme
    (\<open>web/src/theme.rs\<close>) and the console (\<open>web/src/components/ticket_list.rs\<close>) as signals, handlers
    and a step relation in which requests are served and answered in any order.
  \<^item> \<open>Config_Text\<close>: reading numbers and lists from text. \<open>Key_Files\<close>: the keypair and the JWT secret
    on disk (\<open>shared/src/key_store.rs\<close>, the start of \<open>auth\<close>, \<open>admin\<close> and \<open>custodian\<close>), over the files a
    process sees, with writes that can be torn. \<open>Cluster_Start\<close>: the list of peers and the founding
    of a Raft group (\<open>db/src/main.rs\<close>; \<open>custodian/src/main.rs\<close> has the same functions).
  \<^item> \<open>Transport\<close>, \<open>Transport_Props\<close>: mutual TLS and the post-quantum wrap (\<open>proto/src/tls.rs\<close>,
    \<open>proto/src/pqc.rs\<close>).
  \<^item> \<open>Chaos_Service\<close>, \<open>Chaos_Props\<close>: the handlers of \<open>chaos/src/chaos_service.rs\<close> and the tasks they
    spawn, interleaved at the lock of the table. \<open>Honeypot\<close>: the traps, the reporter and the service
    of \<open>honeypot/src\<close>.
  \<^item> \<open>Byte_Codec\<close>, \<open>Raft_Codec\<close>, \<open>Ticket_Codec\<close>: concrete serialisations, so that the laws asked
    of \<open>serde_json\<close> are seen to hold of some writer and reader and every hypothesis has a witness.

  What the groups of lemmas show. Storage: each log entry does what the specification says on
  its rows, indexes and counter, errors included; a query returns exactly the matching rows.
  Raft store: the log is a map from indexes to entries, with truncation, purge, vote and
  snapshot as operations on it; a batch of committed commands does what the specification says.
  Locks: the state machine implements the lock table and excludes other users until the expiry. Wire: what
  survives a call and what does not. Custodian: the functional behaviour of each handler through
  both services, and the invariants of every reachable state. Accounts: exactly when a login
  succeeds, what each change does to the records, how long a session lasts, and that no request
  removes or renames a profile. Gateway: who is let in, which answers a client sees, the
  invariants of both databases under every sequence of HTTP requests, the path from a login to a
  ticket through all services, and the type of every answer. Console: what a form sends, an
  invariant of every interleaving, and the interleavings in which form and ticket part. Start-up:
  keys and secrets are stable across starts, a group is founded once, TLS is all or nothing.
  Chaos: the table and the tasks agree and an idle service empties it, except for a scenario that
  is inserted after its task has ended.

  Third-party code is a parameter with named laws: sled (\<open>sled_ok\<close>), the JSON library
  (\<open>codec_ok\<close>: what was written is read back), the ciphers and the encapsulation (\<open>aead_ok\<close>,
  \<open>key_ok\<close>), password hashing, tokens and \<open>uuid\<close>'s text (\<open>password_ok\<close>, \<open>token_ok\<close>,
  \<open>uuid_text_ok\<close>), and the openraft engine behind \<open>client_write\<close> (\<open>leader_applies\<close>, \<open>lock_leader\<close>: a
  write is answered after it was applied locally, with the answer of that application). Clocks
  and random draws are arguments. Each law has an instance in the development.

  Bounds. Integers have the width of the code and arithmetic that it leaves unchecked wraps.
  The id counter saturates at \<open>2^64 - 1\<close>; theorems that create tickets assume it has room, and a
  run of the fault injector makes fewer than \<open>2^64\<close> injections. Loops are recursions over finite
  lists or texts, so no operation needs fuel; \<open>faults_run_out\<close> is the termination of a loop of
  spawned tasks, by a measure on the state.

  Not modelled. Elections, quorums and log replication are openraft's. A handler runs without
  interleaving with another one on the same node, except for the fault injector and the console,
  whose interleavings are the subject; what two nodes see at once is
  \<open>stale_replica_splits_lock\<close>. Metrics and tracing are counters and output. Of a start, opening
  sockets, parsing the listening address and the timing configuration of openraft are left to the
  libraries; so are the rendering of the console and the binding of its inputs to the signals. Its
  navigation is modelled as far as the console goes: signing out takes it off the page; the login
  page that follows is \<open>web_login\<close> alone. File paths are compared as text. Of the gateway, the extractors and the JSON reader of axum, compression, cross-origin headers, the
  rate limiter and the static files are left out. The administration service keeps its rows in
  the tree \<open>users\<close>, under 16-byte keys; the user requests of the database service, which no other
  service calls, use the same tree with textual keys. The invariant of the tickets, \<open>db_part\<close>, does
  not read that tree, so the deployment of all services keeps both it and \<open>accounts_inv\<close>; only the
  refinement of the database's own user requests, \<open>db_inv\<close>, assumes that the tree is used in that
  one way. The code that \<open>proto/build.rs\<close> generates from the \<open>.proto\<close> files is represented by its
  messages, as records of the services that use them.
\<close>

end
